(* ===== verification/Desk_Prelude.thy ===== *)
theory Desk_Prelude
  imports Complex_Main "HOL-Library.Word" "HOL-Library.Log_Nat"
begin

text \<open>
  Shared vocabulary of the development: the machine-integer types the Rust code
  uses, computations that may panic, byte strings (a Rust \<open>String\<close> is its UTF-8
  byte sequence, a HOL \<open>char\<close> is one byte), the string operations of the Rust
  standard library that the modelled code calls, and the theorem collections the
  component theories extend.
\<close>

named_theorems fval_simps "evaluation of floating point operations on finite values"
named_theorems exec_simps "panicking computations"
named_theorems frame_simps "fields an operation leaves unchanged"

type_synonym u64 = "64 word"
type_synonym u32 = "32 word"
type_synonym i64 = int

definition in_i64 :: "int \<Rightarrow> bool" where
  "in_i64 n \<longleftrightarrow> - (2 ^ 63) \<le> n \<and> n < 2 ^ 63"

definition in_u64 :: "int \<Rightarrow> bool" where
  "in_u64 n \<longleftrightarrow> 0 \<le> n \<and> n < 2 ^ 64"

section \<open>Computations that may panic\<close>

datatype 'a exec = Return 'a | Panic

fun exec_bind :: "'a exec \<Rightarrow> ('a \<Rightarrow> 'b exec) \<Rightarrow> 'b exec" where
  "exec_bind (Return x) f = f x"
| "exec_bind Panic f = Panic"

fun exec_map :: "('a \<Rightarrow> 'b) \<Rightarrow> 'a exec \<Rightarrow> 'b exec" where
  "exec_map f (Return x) = Return (f x)"
| "exec_map f Panic = Panic"

definition panics :: "'a exec \<Rightarrow> bool" where
  "panics m \<longleftrightarrow> m = Panic"

lemma exec_bind_Return_iff [exec_simps]:
  "exec_bind m f = Return y \<longleftrightarrow> (\<exists>x. m = Return x \<and> f x = Return y)"
  by (cases m) auto

lemma exec_bind_Panic_iff [exec_simps]:
  "exec_bind m f = Panic \<longleftrightarrow> m = Panic \<or> (\<exists>x. m = Return x \<and> f x = Panic)"
  by (cases m) auto

lemma exec_map_Return_iff [exec_simps]:
  "exec_map f m = Return y \<longleftrightarrow> (\<exists>x. m = Return x \<and> f x = y)"
  by (cases m) auto

lemma exec_map_Panic_iff [exec_simps]: "exec_map f m = Panic \<longleftrightarrow> m = Panic"
  by (cases m) auto

lemma panics_simps [simp]: "panics Panic" "\<not> panics (Return x)"
  by (simp_all add: panics_def)

lemma not_panics_iff [exec_simps]: "\<not> panics m \<longleftrightarrow> (\<exists>x. m = Return x)"
  by (cases m) auto

section \<open>Byte strings\<close>

text \<open>A byte that continues a UTF-8 sequence has the bit pattern \<open>10xxxxxx\<close>.\<close>

definition utf8_cont :: "char \<Rightarrow> bool" where
  "utf8_cont c \<longleftrightarrow> of_char c div (64::nat) = 2"

text \<open>
  \<open>str::is_char_boundary\<close>: the start, the end, or the first byte of a character.
\<close>

definition is_char_boundary :: "string \<Rightarrow> nat \<Rightarrow> bool" where
  "is_char_boundary s i \<longleftrightarrow> i = 0 \<or> i = length s \<or> (i < length s \<and> \<not> utf8_cont (s ! i))"

text \<open>Slicing \<open>&s[..i]\<close> and \<open>&s[i..]\<close> panics off a character boundary.\<close>

definition slice_to :: "string \<Rightarrow> nat \<Rightarrow> string exec" where
  "slice_to s i = (if is_char_boundary s i then Return (take i s) else Panic)"

definition slice_from :: "string \<Rightarrow> nat \<Rightarrow> string exec" where
  "slice_from s i = (if is_char_boundary s i then Return (drop i s) else Panic)"

definition is_ascii :: "char \<Rightarrow> bool" where
  "is_ascii c \<longleftrightarrow> of_char c < (128::nat)"

lemma ascii_not_cont: "is_ascii c \<Longrightarrow> \<not> utf8_cont c"
  by (auto simp: is_ascii_def utf8_cont_def)

lemma ascii_boundary: "list_all is_ascii s \<Longrightarrow> i \<le> length s \<Longrightarrow> is_char_boundary s i"
  by (cases "i = length s") (auto simp: is_char_boundary_def list_all_length ascii_not_cont)

lemma slice_to_ascii [exec_simps]:
  "list_all is_ascii s \<Longrightarrow> i \<le> length s \<Longrightarrow> slice_to s i = Return (take i s)"
  by (simp add: slice_to_def ascii_boundary)

definition ascii_upper :: "char \<Rightarrow> bool" where
  "ascii_upper c \<longleftrightarrow> 65 \<le> (of_char c :: nat) \<and> (of_char c :: nat) \<le> 90"

definition ascii_lower :: "char \<Rightarrow> bool" where
  "ascii_lower c \<longleftrightarrow> 97 \<le> (of_char c :: nat) \<and> (of_char c :: nat) \<le> 122"

definition ascii_digit :: "char \<Rightarrow> bool" where
  "ascii_digit c \<longleftrightarrow> 48 \<le> (of_char c :: nat) \<and> (of_char c :: nat) \<le> 57"

definition ascii_alnum :: "char \<Rightarrow> bool" where
  "ascii_alnum c \<longleftrightarrow> ascii_upper c \<or> ascii_lower c \<or> ascii_digit c"

definition lower_char :: "char \<Rightarrow> char" where
  "lower_char c = (if ascii_upper c then char_of (of_char c + (32::nat)) else c)"

definition upper_char :: "char \<Rightarrow> char" where
  "upper_char c = (if ascii_lower c then char_of (of_char c - (32::nat)) else c)"

definition to_ascii_lowercase :: "string \<Rightarrow> string" where
  "to_ascii_lowercase s = map lower_char s"

definition to_ascii_uppercase :: "string \<Rightarrow> string" where
  "to_ascii_uppercase s = map upper_char s"

definition eq_ignore_ascii_case :: "string \<Rightarrow> string \<Rightarrow> bool" where
  "eq_ignore_ascii_case s t \<longleftrightarrow> to_ascii_lowercase s = to_ascii_lowercase t"

lemma ascii_alnum_ascii: "ascii_alnum c \<Longrightarrow> is_ascii c"
  by (auto simp: ascii_alnum_def ascii_upper_def ascii_lower_def ascii_digit_def is_ascii_def)

subsection \<open>Searching and splitting\<close>

fun prefix_of :: "string \<Rightarrow> string \<Rightarrow> bool" where
  "prefix_of [] s = True"
| "prefix_of (c # cs) [] = False"
| "prefix_of (c # cs) (d # ds) = (c = d \<and> prefix_of cs ds)"

definition strip_prefix :: "string \<Rightarrow> string \<Rightarrow> string option" where
  "strip_prefix p s = (if prefix_of p s then Some (drop (length p) s) else None)"

fun find_sub :: "string \<Rightarrow> string \<Rightarrow> nat option" where
  "find_sub p [] = (if p = [] then Some 0 else None)"
| "find_sub p (c # s) =
     (if prefix_of p (c # s) then Some 0 else map_option Suc (find_sub p s))"

definition contains_sub :: "string \<Rightarrow> string \<Rightarrow> bool" where
  "contains_sub s p \<longleftrightarrow> find_sub p s \<noteq> None"

lemma prefix_of_iff: "prefix_of p s \<longleftrightarrow> (\<exists>t. s = p @ t)"
  by (induction p s rule: prefix_of.induct) auto

lemma find_sub_Some:
  "find_sub p s = Some i \<Longrightarrow> \<exists>t. s = take i s @ p @ t \<and> i + length p \<le> length s"
proof (induction p s arbitrary: i rule: find_sub.induct)
  case (2 p c s)
  show ?case
  proof (cases "prefix_of p (c # s)")
    case True
    then show ?thesis using 2 by (auto simp: prefix_of_iff dest: arg_cong [where f = length])
  next
    case False
    then obtain j where j: "find_sub p s = Some j" "i = Suc j" using 2 by auto
    then show ?thesis using 2 False by fastforce
  qed
qed (auto split: if_splits)

lemma find_sub_least:
  "find_sub p s = Some i \<Longrightarrow> j < i \<Longrightarrow> \<not> prefix_of p (drop j s)"
proof (induction p s arbitrary: i j rule: find_sub.induct)
  case (2 p c s)
  then show ?case by (cases j) (auto split: if_splits)
qed (auto split: if_splits)

lemma find_sub_append: "\<exists>i. find_sub p (a @ p @ b) = Some i \<and> i \<le> length a"
proof (induction a)
  case Nil
  show ?case by (cases "p @ b") (auto simp: prefix_of_iff dest: sym)
next
  case (Cons x a)
  then show ?case by auto
qed

fun join_with :: "string \<Rightarrow> string list \<Rightarrow> string" where
  "join_with sep [] = []"
| "join_with sep [s] = s"
| "join_with sep (s # t # ts) = s @ sep @ join_with sep (t # ts)"

fun split_on :: "char \<Rightarrow> string \<Rightarrow> string list" where
  "split_on c [] = [[]]"
| "split_on c (d # s) =
     (if d = c then [] # split_on c s
      else (case split_on c s of [] \<Rightarrow> [[d]] | w # ws \<Rightarrow> (d # w) # ws))"

subsection \<open>White space\<close>

text \<open>
  The encodings of the characters with the Unicode property \<open>White_Space\<close>, which
  \<open>str::trim\<close>, \<open>trim_start\<close> and \<open>split_whitespace\<close> use.
\<close>

definition ws_seqs :: "string list" where
  "ws_seqs =
     map (\<lambda>n. [char_of (n::nat)]) [9, 10, 11, 12, 13, 32]
     @ [[CHR 0xC2, CHR 0x85], [CHR 0xC2, CHR 0xA0], [CHR 0xE1, CHR 0x9A, CHR 0x80]]
     @ map (\<lambda>n. [CHR 0xE2, CHR 0x80, char_of (n::nat)])
         [128, 129, 130, 131, 132, 133, 134, 135, 136, 137, 138, 168, 169, 175]
     @ [[CHR 0xE2, CHR 0x81, CHR 0x9F], [CHR 0xE3, CHR 0x80, CHR 0x80]]"

definition ws_len :: "string \<Rightarrow> nat" where
  \<comment> \<open>length of the white-space character the string starts with, or 0\<close>
  "ws_len s = (case filter (\<lambda>w. prefix_of w s) ws_seqs of [] \<Rightarrow> 0 | w # _ \<Rightarrow> length w)"

lemma ws_len_le: "ws_len s \<le> length s"
proof (cases "filter (\<lambda>w. prefix_of w s) ws_seqs")
  case (Cons w ws)
  then have "prefix_of w s" by (metis filter_eq_Cons_iff)
  then show ?thesis using Cons by (auto simp: ws_len_def prefix_of_iff)
qed (simp add: ws_len_def)

function trim_start :: "string \<Rightarrow> string" where
  "trim_start s = (if ws_len s = 0 then s else trim_start (drop (ws_len s) s))"
  by pat_completeness auto
termination
  by (relation "measure length") (auto, metis diff_less gr0I le_zero_eq ws_len_le)

declare trim_start.simps [simp del]

definition ws_len_end :: "string \<Rightarrow> nat" where
  "ws_len_end s = (case filter (\<lambda>w. prefix_of (rev w) (rev s)) ws_seqs of [] \<Rightarrow> 0 | w # _ \<Rightarrow> length w)"

lemma ws_len_end_le: "ws_len_end s \<le> length s"
proof (cases "filter (\<lambda>w. prefix_of (rev w) (rev s)) ws_seqs")
  case (Cons w ws)
  then have "prefix_of (rev w) (rev s)" by (metis filter_eq_Cons_iff)
  then show ?thesis using Cons
    by (auto simp: ws_len_end_def prefix_of_iff) (metis length_append length_rev le_add1)
qed (simp add: ws_len_end_def)

function trim_end :: "string \<Rightarrow> string" where
  "trim_end s = (if ws_len_end s = 0 then s else trim_end (take (length s - ws_len_end s) s))"
  by pat_completeness auto
termination
proof (relation "measure length", goal_cases)
  case (2 s)
  then show ?case using ws_len_end_le [of s] by auto
qed simp

declare trim_end.simps [simp del]

definition trim :: "string \<Rightarrow> string" where
  "trim s = trim_end (trim_start s)"

definition word_char :: "char \<Rightarrow> bool" where
  \<comment> \<open>ASCII and not white space\<close>
  "word_char c \<longleftrightarrow> is_ascii c \<and> (of_char c :: nat) \<notin> {9, 10, 11, 12, 13, 32}"

lemma ws_len_word: assumes "word_char c" shows "ws_len (c # s) = 0"
proof -
  have "(of_char c :: nat) < 128" "(of_char c :: nat) \<notin> {9, 10, 11, 12, 13, 32}"
    using assms by (simp_all add: word_char_def is_ascii_def)
  moreover have "(of_char (char_of n) :: nat) = n" if "n < 256" for n using that by simp
  ultimately have "\<not> prefix_of w (c # s)" if "w \<in> set ws_seqs" for w
    using that by (auto simp: ws_seqs_def)
  then show ?thesis by (simp add: ws_len_def filter_False)
qed

lemma ws_len_end_word: assumes "word_char c" shows "ws_len_end (s @ [c]) = 0"
proof -
  have "(of_char c :: nat) < 128" "(of_char c :: nat) \<notin> {9, 10, 11, 12, 13, 32}"
    using assms by (simp_all add: word_char_def is_ascii_def)
  moreover have "(of_char (char_of n) :: nat) = n" if "n < 256" for n using that by simp
  ultimately have "\<not> prefix_of (rev w) (c # rev s)" if "w \<in> set ws_seqs" for w
    using that by (auto simp: ws_seqs_def)
  then show ?thesis by (simp add: ws_len_end_def filter_False)
qed

lemma trim_word_ends: assumes "word_char c" and "word_char d" shows "trim (c # s @ [d]) = c # s @ [d]"
proof -
  have "trim_start (c # s @ [d]) = c # s @ [d]"
    by (subst trim_start.simps) (simp add: ws_len_word [OF assms(1)])
  moreover have "ws_len_end ((c # s) @ [d]) = 0" by (rule ws_len_end_word [OF assms(2)])
  then have "trim_end (c # s @ [d]) = c # s @ [d]" by (subst trim_end.simps) simp
  ultimately show ?thesis by (simp add: trim_def)
qed

text \<open>\<open>str::split_whitespace\<close>: the maximal pieces free of white space.\<close>

function split_ws :: "string \<Rightarrow> string \<Rightarrow> string list" where
  \<comment> \<open>first argument: the word being read, reversed\<close>
  "split_ws acc s =
     (case s of
        [] \<Rightarrow> (if acc = [] then [] else [rev acc])
      | c # cs \<Rightarrow>
          (if ws_len s = 0 then split_ws (c # acc) cs
           else (if acc = [] then [] else [rev acc]) @ split_ws [] (drop (ws_len s) s)))"
  by pat_completeness auto
termination
proof (relation "measure (length \<circ> snd)", goal_cases)
  case (3 acc s c cs)
  then show ?case using ws_len_le [of s] by auto
qed auto

declare split_ws.simps [simp del]

definition split_whitespace :: "string \<Rightarrow> string list" where
  "split_whitespace s = split_ws [] s"

section \<open>Decimal numbers\<close>

text \<open>
  Digits are computed on \<open>int\<close>, whose numerals the kernel evaluates in binary.
\<close>

function show_dec :: "int \<Rightarrow> string" where
  "show_dec n =
     (if n < 10 then [char_of (48 + nat n)]
      else show_dec (n div 10) @ [char_of (48 + nat (n mod 10))])"
  by pat_completeness auto
termination
  by (relation "measure nat") auto

declare show_dec.simps [simp del]

definition show_nat :: "nat \<Rightarrow> string" where
  "show_nat n = show_dec (int n)"

definition show_int :: "int \<Rightarrow> string" where
  "show_int n = (if n < 0 then ''-'' @ show_dec (- n) else show_dec n)"

definition show_u64 :: "u64 \<Rightarrow> string" where
  "show_u64 n = show_dec (uint n)"

definition show_bool :: "bool \<Rightarrow> string" where
  "show_bool b = (if b then ''true'' else ''false'')"

text \<open>
  The \<open>Debug\<close> text of a string. ASCII characters are escaped as the standard library
  does; \<open>uni\<close> stands for its Unicode tables, the rendering of one non-ASCII character.
\<close>

definition hex_digit :: "nat \<Rightarrow> char" where
  "hex_digit n = (if n < 10 then char_of (48 + n) else char_of (87 + n))"

definition debug_char :: "char \<Rightarrow> string" where
  "debug_char c =
     (let n = (of_char c :: nat) in
      if n = 0 then [CHR 0x5C, CHR ''0'']
      else if n = 9 then [CHR 0x5C, CHR ''t'']
      else if n = 10 then [CHR 0x5C, CHR ''n'']
      else if n = 13 then [CHR 0x5C, CHR ''r'']
      else if n = 34 \<or> n = 92 then [CHR 0x5C, c]
      else if 32 \<le> n \<and> n < 127 then [c]
      else [CHR 0x5C, CHR ''u'', CHR 0x7B] @ (if n < 16 then [] else [hex_digit (n div 16)])
           @ [hex_digit (n mod 16), CHR 0x7D])"

function debug_chars :: "(string \<Rightarrow> string) \<Rightarrow> string \<Rightarrow> string" where
  "debug_chars uni [] = []"
| "debug_chars uni (c # cs) =
     (if is_ascii c then debug_char c @ debug_chars uni cs
      else uni (c # takeWhile utf8_cont cs) @ debug_chars uni (dropWhile utf8_cont cs))"
  by pat_completeness auto

termination
  by (relation "measure (\<lambda>(uni, s). length s)") (auto simp: le_imp_less_Suc length_dropWhile_le)

definition debug_str :: "(string \<Rightarrow> string) \<Rightarrow> string \<Rightarrow> string" where
  "debug_str uni s = [CHR 0x22] @ debug_chars uni s @ [CHR 0x22]"

text \<open>The non-ASCII punctuation of the messages, in UTF-8.\<close>

definition ch_le :: string where "ch_le = [CHR 0xE2, CHR 0x89, CHR 0xA4]"
definition ch_times :: string where "ch_times = [CHR 0xC3, CHR 0x97]"
definition ch_arrow :: string where "ch_arrow = [CHR 0xE2, CHR 0x86, CHR 0x92]"
definition ch_minus :: string where "ch_minus = [CHR 0xE2, CHR 0x88, CHR 0x92]"
definition ch_ellipsis :: string where "ch_ellipsis = [CHR 0xE2, CHR 0x80, CHR 0xA6]"
definition ch_dash :: string where "ch_dash = [CHR 0xE2, CHR 0x80, CHR 0x94]"
definition ch_middot :: string where "ch_middot = [CHR 0xC2, CHR 0xB7]"

fun digits_val :: "int \<Rightarrow> string \<Rightarrow> int option" where
  "digits_val acc [] = Some acc"
| "digits_val acc (c # cs) =
     (if ascii_digit c then digits_val (10 * acc + (of_char c - 48)) cs else None)"

definition parse_dec :: "string \<Rightarrow> int option" where
  "parse_dec s = (if s = [] then None else digits_val 0 s)"

text \<open>\<open>str::parse::<u64>\<close>: an optional plus sign, digits, no overflow.\<close>

definition parse_u64 :: "string \<Rightarrow> u64 option" where
  "parse_u64 s =
     (case parse_dec (case s of c # cs \<Rightarrow> if c = CHR ''+'' then cs else s | [] \<Rightarrow> s) of
        None \<Rightarrow> None
      | Some n \<Rightarrow> if n < 2 ^ 64 then Some (of_int n) else None)"

definition parse_i64 :: "string \<Rightarrow> i64 option" where
  "parse_i64 s =
     (case s of
        [] \<Rightarrow> None
      | c # cs \<Rightarrow>
          (case parse_dec (if c = CHR ''+'' \<or> c = CHR ''-'' then cs else s) of
             None \<Rightarrow> None
           | Some n \<Rightarrow>
               (let v = (if c = CHR ''-'' then - n else n)
                in if in_i64 v then Some v else None)))"

lemma digit_char: "0 \<le> d \<Longrightarrow> d < 10 \<Longrightarrow> (of_char (char_of (48 + nat d)) :: int) = 48 + d"
proof -
  assume d: "0 \<le> d" "d < 10"
  have "(of_char (char_of (48 + nat d)) :: int) = int (of_char (char_of (48 + nat d)))"
    by (simp only: of_nat_of_char)
  also have "\<dots> = int ((48 + nat d) mod 256)" by simp
  also have "\<dots> = 48 + d" using d by simp
  finally show ?thesis .
qed

lemma digit_is_digit: "0 \<le> d \<Longrightarrow> d < 10 \<Longrightarrow> ascii_digit (char_of (48 + nat d))"
  by (simp add: ascii_digit_def)

lemma digits_val_append:
  "digits_val acc (s @ t) = Option.bind (digits_val acc s) (\<lambda>a. digits_val a t)"
  by (induction s arbitrary: acc) auto

lemma digits_val_show_dec: "0 \<le> n \<Longrightarrow> digits_val 0 (show_dec n) = Some n"
proof (induction n rule: show_dec.induct)
  case (1 n)
  show ?case
  proof (cases "n < 10")
    case True
    then show ?thesis using 1(2) by (simp add: show_dec.simps [of n] digit_is_digit digit_char)
  next
    case False
    then show ?thesis using 1
      by (simp add: show_dec.simps [of n] digits_val_append digit_is_digit digit_char)
  qed
qed

lemma show_dec_nonempty [simp]: "show_dec n \<noteq> []"
  by (subst show_dec.simps) simp

lemma parse_show_dec: "0 \<le> n \<Longrightarrow> parse_dec (show_dec n) = Some n"
  by (simp add: parse_dec_def digits_val_show_dec)

lemma show_dec_inj: "0 \<le> a \<Longrightarrow> 0 \<le> b \<Longrightarrow> show_dec a = show_dec b \<longleftrightarrow> a = b"
  by (metis digits_val_show_dec option.inject)

lemma show_dec_digits: "0 \<le> n \<Longrightarrow> list_all ascii_digit (show_dec n)"
proof (induction n rule: show_dec.induct)
  case (1 n)
  then show ?case by (cases "n < 10") (simp_all add: show_dec.simps [of n] digit_is_digit)
qed

lemma show_u64_digits: "list_all ascii_digit (show_u64 n)"
  by (simp add: show_u64_def show_dec_digits)

lemma parse_show_u64: "parse_u64 (show_u64 n) = Some n"
proof -
  obtain c cs where c: "show_dec (uint n) = c # cs" by (cases "show_dec (uint n)") auto
  then have "c \<noteq> CHR ''+''" using show_dec_digits [of "uint n"] by (auto simp: ascii_digit_def)
  moreover have "uint n < 2 ^ 64" using uint_lt2p [of n] by simp
  moreover have "parse_dec (c # cs) = Some (uint n)" by (simp add: parse_show_dec flip: c)
  ultimately show ?thesis by (simp add: parse_u64_def show_u64_def c)
qed

lemma show_u64_inj [simp]: "show_u64 a = show_u64 b \<longleftrightarrow> a = b"
  by (metis parse_show_u64 option.inject)

end
