(* ===== verification/F64.thy ===== *)
theory F64
  imports Desk_Prelude
begin

text \<open>
  IEEE 754 binary64 arithmetic, the \<open>f64\<close> of the Rust code.

  A finite double is the rational number it denotes (negative zero is a value of
  its own), and \<open>rnd\<close> rounds a rational to the nearest double, ties to even, with
  53 bits of precision and the subnormal grid \<open>2^-1074\<close>. Every operation computes
  exactly and rounds once, as the standard prescribes; overflow gives an infinity.
  The definitions compute (\<open>code_simp\<close>), so a witness runs the same arithmetic as
  the program. The first group of lemmas shows that rounding is monotone,
  idempotent, exact on the grid and within half a unit in the last place; the
  second lifts these facts to the operations.
\<close>

section \<open>Rounding\<close>

definition pow2 :: "int \<Rightarrow> rat" where
  "pow2 e = (if 0 \<le> e then 2 ^ nat e else 1 / 2 ^ nat (- e))"

definition ilog2 :: "rat \<Rightarrow> int" where
  "ilog2 q = (let (n, d) = quotient_of q; k = bitlen n - bitlen d
              in if pow2 k \<le> q then k else k - 1)"

definition round_even :: "rat \<Rightarrow> int" where
  "round_even x = (let f = \<lfloor>x\<rfloor>; r = x - of_int f in
     if r < 1/2 then f else if 1/2 < r then f + 1 else if even f then f else f + 1)"

definition ulp_exp :: "rat \<Rightarrow> int" where
  "ulp_exp q = max (ilog2 \<bar>q\<bar>) (- 1022) - 52"

definition rnd :: "rat \<Rightarrow> rat" where
  "rnd q = (if q = 0 then 0
            else of_int (round_even (q / pow2 (ulp_exp q))) * pow2 (ulp_exp q))"

lemma pow2_powi: "pow2 e = 2 powi e"
  by (simp add: pow2_def power_int_def divide_simps)

lemma pow2_pos [simp]: "0 < pow2 e"
  by (simp add: pow2_def)

lemma pow2_nonzero [simp]: "pow2 e \<noteq> 0"
  using pow2_pos [of e] by linarith

lemma pow2_not_le [simp]: "\<not> pow2 e \<le> 0" "0 \<le> pow2 e" "\<bar>pow2 e\<bar> = pow2 e"
  using pow2_pos [of e] by (linarith, linarith, simp only: abs_of_pos)

lemma pow2_add: "pow2 (a + b) = pow2 a * pow2 b"
  by (simp add: pow2_powi power_int_add)

lemma pow2_0 [simp]: "pow2 0 = 1"
  by (simp add: pow2_def)

lemma pow2_diff: "pow2 (a - b) = pow2 a / pow2 b"
  by (simp add: pow2_powi power_int_diff)

lemma pow2_nonneg_int: "0 \<le> e \<Longrightarrow> pow2 e = of_int (2 ^ nat e)"
  by (simp add: pow2_def)

lemma pow2_le_iff [simp]: "pow2 a \<le> pow2 b \<longleftrightarrow> a \<le> b"
proof
  assume h: "pow2 a \<le> pow2 b"
  show "a \<le> b"
  proof (rule ccontr)
    assume "\<not> a \<le> b"
    then have "pow2 b < pow2 a" by (simp add: pow2_powi power_int_strict_increasing)
    with h show False by simp
  qed
qed (simp add: pow2_powi power_int_increasing)

lemma pow2_less_iff [simp]: "pow2 a < pow2 b \<longleftrightarrow> a < b"
  by (simp add: not_le [symmetric])

lemma ilog2_bounds:
  assumes "0 < q"
  shows "pow2 (ilog2 q) \<le> q" and "q < pow2 (ilog2 q + 1)"
proof -
  obtain n d where nd: "quotient_of q = (n, d)" by fastforce
  have d: "0 < d" using quotient_of_denom_pos [OF nd] .
  have q: "q = of_int n / of_int d" using quotient_of_div [OF nd] .
  have n: "0 < n" using assms d q by (simp add: zero_less_divide_iff)
  let ?k = "bitlen n - bitlen d"
  have bn: "2 ^ nat (bitlen n - 1) \<le> n" "n < 2 ^ nat (bitlen n)"
    using bitlen_bounds [OF n] by auto
  have bd: "2 ^ nat (bitlen d - 1) \<le> d" "d < 2 ^ nat (bitlen d)"
    using bitlen_bounds [OF d] by auto
  have pn: "1 \<le> bitlen n" and pd: "1 \<le> bitlen d"
    using n d by (auto simp: bitlen_def floorlog_def)
  have n1: "pow2 (bitlen n - 1) \<le> of_int n" and n2: "of_int n < pow2 (bitlen n)"
    and d1: "pow2 (bitlen d - 1) \<le> of_int d" and d2: "of_int d < pow2 (bitlen d)"
    using bn bd pn pd by (simp_all only: pow2_nonneg_int of_int_le_iff of_int_less_iff)
  have up: "q < pow2 (?k + 1)"
  proof -
    have "of_int n < pow2 (?k + 1) * pow2 (bitlen d - 1)"
      using n2 by (simp add: pow2_add [symmetric])
    also have "\<dots> \<le> pow2 (?k + 1) * of_int d"
      using d1 by (intro mult_left_mono) (auto intro: less_imp_le)
    finally show ?thesis using d q by (simp add: divide_less_eq)
  qed
  have lo: "pow2 (?k - 1) \<le> q"
  proof -
    have "pow2 (?k - 1) * of_int d \<le> pow2 (?k - 1) * pow2 (bitlen d)"
      using d2 by (intro mult_left_mono) (auto intro: less_imp_le)
    also have "\<dots> \<le> of_int n" using n1 by (simp add: pow2_add [symmetric])
    finally show ?thesis using d q by (simp add: le_divide_eq)
  qed
  show "pow2 (ilog2 q) \<le> q" using lo by (simp add: ilog2_def nd Let_def)
  show "q < pow2 (ilog2 q + 1)" using up by (simp add: ilog2_def nd Let_def)
qed

lemma ilog2_less: "0 < q \<Longrightarrow> q < pow2 e \<Longrightarrow> ilog2 q < e"
  using ilog2_bounds(1) [of q] by (metis le_less_trans pow2_less_iff)

lemma ilog2_ge: "0 < q \<Longrightarrow> pow2 e \<le> q \<Longrightarrow> e \<le> ilog2 q"
  using ilog2_bounds(2) [of q] by (metis le_less_trans pow2_less_iff zless_add1_eq order_le_less)

lemma ilog2_mono: "0 < x \<Longrightarrow> x \<le> y \<Longrightarrow> ilog2 x \<le> ilog2 y"
  using ilog2_bounds(1) [of x] by (intro ilog2_ge) auto

lemma round_even_of_int [simp]: "round_even (of_int n) = n"
  by (simp add: round_even_def)

lemma round_even_err: "\<bar>of_int (round_even x) - x\<bar> \<le> 1/2"
proof -
  have "of_int \<lfloor>x\<rfloor> \<le> x" "x < of_int \<lfloor>x\<rfloor> + 1" by linarith+
  then show ?thesis unfolding round_even_def Let_def by (auto simp: abs_if) linarith+
qed

lemma round_even_mono:
  assumes "x \<le> y" shows "round_even x \<le> round_even y"
proof (cases "\<lfloor>x\<rfloor> = \<lfloor>y\<rfloor>")
  case True
  then show ?thesis using assms by (auto simp: round_even_def Let_def)
next
  case False
  with assms have "\<lfloor>x\<rfloor> + 1 \<le> \<lfloor>y\<rfloor>" using floor_mono [OF assms] by linarith
  moreover have "round_even x \<le> \<lfloor>x\<rfloor> + 1" "\<lfloor>y\<rfloor> \<le> round_even y"
    by (auto simp: round_even_def Let_def)
  ultimately show ?thesis by linarith
qed

lemma round_even_minus: "round_even (- x) = - round_even x"
proof (cases "x = of_int \<lfloor>x\<rfloor>")
  case True
  then show ?thesis by (metis of_int_minus round_even_of_int)
next
  case False
  then have f: "\<lfloor>- x\<rfloor> = - \<lfloor>x\<rfloor> - 1"
    by (intro floor_unique) (auto, linarith+)
  show ?thesis unfolding round_even_def Let_def f by auto
qed

lemma ulp_exp_ge: "- 1074 \<le> ulp_exp q"
  by (simp add: ulp_exp_def)

lemma ulp_exp_minus [simp]: "ulp_exp (- q) = ulp_exp q"
  by (simp add: ulp_exp_def)

lemma rnd_0 [simp]: "rnd 0 = 0"
  by (simp add: rnd_def)

lemma rnd_minus [simp]: "rnd (- q) = - rnd q"
  by (simp add: rnd_def round_even_minus)

lemma rnd_le_grid:
  assumes "x \<le> of_int k * pow2 e" and "e = ulp_exp x" and "x \<noteq> 0"
  shows "rnd x \<le> of_int k * pow2 e"
proof -
  have "x / pow2 e \<le> of_int k" using assms(1) by (simp add: divide_le_eq)
  then have "round_even (x / pow2 e) \<le> k" using round_even_mono by fastforce
  then show ?thesis using assms by (simp add: rnd_def)
qed

lemma rnd_ge_grid:
  assumes "of_int k * pow2 e \<le> x" and "e = ulp_exp x" and "x \<noteq> 0"
  shows "of_int k * pow2 e \<le> rnd x"
proof -
  have "of_int k \<le> x / pow2 e" using assms(1) by (simp add: le_divide_eq)
  then have "k \<le> round_even (x / pow2 e)" using round_even_mono by fastforce
  then show ?thesis using assms by (simp add: rnd_def)
qed

lemma rnd_mono_pos:
  assumes "0 < x" and "x \<le> y"
  shows "rnd x \<le> rnd y"
proof -
  let ?e = "ulp_exp x" and ?e' = "ulp_exp y"
  have y: "0 < y" using assms by linarith
  have "?e \<le> ?e'" using ilog2_mono [OF assms] assms y by (simp add: ulp_exp_def)
  then consider "?e = ?e'" | "?e < ?e'" by linarith
  then show ?thesis
  proof cases
    case 1
    have "x / pow2 ?e \<le> y / pow2 ?e'" using 1 assms by (simp add: divide_right_mono less_imp_le)
    then have "round_even (x / pow2 ?e) \<le> round_even (y / pow2 ?e')" by (rule round_even_mono)
    then show ?thesis using 1 assms y by (simp add: rnd_def)
  next
    case 2
    let ?b = "ilog2 y"
    have e': "?e' = ?b - 52" and lt: "ilog2 x < ?b" and ge: "?e \<le> ?b"
      using 2 assms y by (auto simp: ulp_exp_def)
    have "x < pow2 (ilog2 x + 1)" using ilog2_bounds(2) assms by blast
    also have "\<dots> \<le> pow2 ?b" using lt by simp
    finally have xb: "x < pow2 ?b" .
    have g1: "pow2 ?b = of_int (2 ^ nat (?b - ?e)) * pow2 ?e"
      using ge by (simp only: pow2_nonneg_int [symmetric] pow2_add [symmetric] diff_ge_0_iff_ge) simp
    have g2: "pow2 ?b = of_int (2 ^ nat (?b - ?e')) * pow2 ?e'"
      using e' by (simp only: pow2_nonneg_int [symmetric] pow2_add [symmetric]) simp
    have "rnd x \<le> pow2 ?b"
      using rnd_le_grid [of x "2 ^ nat (?b - ?e)" ?e] xb assms g1 by simp
    also have "\<dots> \<le> rnd y"
      using rnd_ge_grid [of "2 ^ nat (?b - ?e')" ?e' y] ilog2_bounds(1) [OF y] y g2 by simp
    finally show ?thesis .
  qed
qed

lemma rnd_nonneg: "0 \<le> q \<Longrightarrow> 0 \<le> rnd q"
  using rnd_ge_grid [of 0 "ulp_exp q" q] by (cases "q = 0") auto

lemma rnd_mono: "x \<le> y \<Longrightarrow> rnd x \<le> rnd y"
proof -
  assume le: "x \<le> y"
  consider "0 < x" | "x \<le> 0" "0 \<le> y" | "y < 0" by linarith
  then show ?thesis
  proof cases
    case 1 then show ?thesis using le by (rule rnd_mono_pos)
  next
    case 2
    have "0 \<le> rnd (- x)" "0 \<le> rnd y" using 2 by (auto intro: rnd_nonneg simp del: rnd_minus)
    then show ?thesis by simp
  next
    case 3
    have "rnd (- y) \<le> rnd (- x)" using 3 le by (intro rnd_mono_pos) auto
    then show ?thesis by simp
  qed
qed
lemma rnd_grid:
  assumes "q = of_int m * pow2 e" and "\<bar>m\<bar> \<le> 2 ^ 53" and "- 1074 \<le> e"
  shows "rnd q = q"
proof -
  have main: "rnd q = q" if q: "q = of_int m * pow2 e" and m: "\<bar>m\<bar> < 2 ^ 53" and e: "- 1074 \<le> e" for m e
  proof (cases "m = 0")
    case False
    have "\<bar>q\<bar> = of_int \<bar>m\<bar> * pow2 e" by (simp add: q abs_mult)
    also have "\<dots> < of_int (2 ^ 53) * pow2 e"
      using m by (intro mult_strict_right_mono) (simp_all only: of_int_less_iff pow2_pos)
    also have "\<dots> = pow2 (53 + e)" by (simp add: pow2_add pow2_nonneg_int)
    finally have "ilog2 \<bar>q\<bar> < 53 + e" using False q by (intro ilog2_less) auto
    then have le: "ulp_exp q \<le> e" using e by (simp add: ulp_exp_def)
    have "q / pow2 (ulp_exp q) = of_int m * pow2 (e - ulp_exp q)"
      by (simp add: q pow2_diff)
    also have "\<dots> = of_int (m * 2 ^ nat (e - ulp_exp q))"
      using le by (simp add: pow2_nonneg_int)
    finally have "round_even (q / pow2 (ulp_exp q)) = m * 2 ^ nat (e - ulp_exp q)"
      by (simp only: round_even_of_int)
    moreover have "of_int (m * 2 ^ nat (e - ulp_exp q)) * pow2 (ulp_exp q) = q"
      using le q by (simp add: pow2_nonneg_int [symmetric] pow2_diff del: of_int_power)
    ultimately show ?thesis using False by (simp add: rnd_def)
  qed (simp add: q)
  show ?thesis
  proof (cases "\<bar>m\<bar> < 2 ^ 53")
    case False
    then have "m = 2 * (sgn m * 2 ^ 52)" using assms(2) by (auto simp: abs_if sgn_if split: if_splits)
    then have "of_int m = of_int (sgn m * 2 ^ 52) * (2 :: rat)" by (metis mult.commute of_int_mult of_int_numeral)
    then have q1: "q = of_int (sgn m * 2 ^ 52) * pow2 (e + 1)"
      using assms(1) by (simp add: pow2_add pow2_nonneg_int)
    have m1: "\<bar>sgn m * 2 ^ 52\<bar> < (2 ^ 53 :: int)" by (simp add: abs_mult abs_sgn_eq)
    show ?thesis using assms(3) by (intro main [OF q1 m1]) simp
  qed (use main assms in blast)
qed

lemma rnd_form:
  obtains m e where "rnd q = of_int m * pow2 e" and "\<bar>m\<bar> \<le> 2 ^ 53" and "- 1074 \<le> e"
proof (cases "q = 0")
  case True
  then show ?thesis using that [of 0 0] by simp
next
  case False
  let ?e = "ulp_exp q"
  have "\<bar>q\<bar> < pow2 (ilog2 \<bar>q\<bar> + 1)" using False by (intro ilog2_bounds(2)) simp
  also have "\<dots> \<le> pow2 (53 + ?e)" by (simp add: ulp_exp_def)
  finally have "\<bar>q\<bar> \<le> 2 ^ 53 * pow2 ?e" by (simp add: pow2_add pow2_nonneg_int)
  then have "- (2 ^ 53 * pow2 ?e) \<le> q" "q \<le> 2 ^ 53 * pow2 ?e" by (auto simp: abs_le_iff)
  then have b: "- of_int (2 ^ 53) \<le> q / pow2 ?e" "q / pow2 ?e \<le> of_int (2 ^ 53)"
    by (simp_all add: le_divide_eq divide_le_eq)
  have "- (2 ^ 53) \<le> round_even (q / pow2 ?e)"
    using round_even_mono [OF b(1)] by (simp only: of_int_minus [symmetric] round_even_of_int)
  moreover have "round_even (q / pow2 ?e) \<le> 2 ^ 53"
    using round_even_mono [OF b(2)] by (simp only: round_even_of_int)
  ultimately show ?thesis
    using that [of "round_even (q / pow2 ?e)" ?e] False ulp_exp_ge [of q]
    by (simp add: rnd_def abs_le_iff)
qed

lemma rnd_idem [simp]: "rnd (rnd q) = rnd q"
  by (rule rnd_form [of q]) (rule rnd_grid)

lemma rnd_of_int: "\<bar>m\<bar> \<le> 2 ^ 53 \<Longrightarrow> rnd (of_int m) = of_int m"
  by (rule rnd_grid [where e = 0]) auto

lemma rnd_1 [simp]: "rnd 1 = 1"
  using rnd_of_int [of 1] by simp

lemma rnd_err: "q \<noteq> 0 \<Longrightarrow> \<bar>rnd q - q\<bar> \<le> pow2 (ulp_exp q) / 2"
proof -
  assume q: "q \<noteq> 0"
  let ?u = "pow2 (ulp_exp q)"
  have "rnd q - q = (of_int (round_even (q / ?u)) - q / ?u) * ?u"
    using q by (simp add: rnd_def left_diff_distrib)
  then have "\<bar>rnd q - q\<bar> = \<bar>of_int (round_even (q / ?u)) - q / ?u\<bar> * ?u"
    by (simp add: abs_mult)
  also have "\<dots> \<le> 1/2 * ?u" by (intro mult_right_mono round_even_err) (simp add: less_imp_le)
  finally show ?thesis by simp
qed

lemma rnd_rel_err:
  assumes "pow2 (- 1022) \<le> \<bar>q\<bar>"
  shows "\<bar>rnd q - q\<bar> \<le> \<bar>q\<bar> * pow2 (- 53)"
proof -
  have q: "q \<noteq> 0" using assms by auto
  have "- 1022 \<le> ilog2 \<bar>q\<bar>" using assms q by (intro ilog2_ge) auto
  then have "pow2 (ulp_exp q) / 2 = pow2 (ilog2 \<bar>q\<bar>) * pow2 (- 53)"
    by (simp add: ulp_exp_def pow2_add [symmetric] pow2_diff pow2_nonneg_int divide_simps)
  also have "\<dots> \<le> \<bar>q\<bar> * pow2 (- 53)"
    using ilog2_bounds(1) [of "\<bar>q\<bar>"] q by (intro mult_right_mono) (auto intro: less_imp_le)
  finally show ?thesis using rnd_err [OF q] by linarith
qed

lemma rnd_le_rnd: "q \<le> r \<Longrightarrow> rnd r = r \<Longrightarrow> rnd q \<le> r"
  using rnd_mono [of q r] by simp

lemma rnd_ge_rnd: "r \<le> q \<Longrightarrow> rnd r = r \<Longrightarrow> r \<le> rnd q"
  using rnd_mono [of r q] by simp

lemma rnd_pow2: "- 1074 \<le> e \<Longrightarrow> rnd (pow2 e) = pow2 e"
  by (rule rnd_grid [of _ 1 e]) auto

lemma rnd_pos: "pow2 (- 1074) \<le> q \<Longrightarrow> 0 < rnd q"
  using rnd_ge_rnd [of "pow2 (- 1074)" q] rnd_pow2 [of "- 1074"] pow2_pos [of "- 1074"] by linarith

text \<open>A double below a power of two is at least one unit in the last place below it.\<close>

lemma rep_below_pow2:
  assumes "rnd p = p" and "pow2 (k - 1) \<le> p" and "p < pow2 k" and "- 1021 \<le> k"
  shows "p \<le> pow2 k - pow2 (k - 53)"
proof -
  have pos: "0 < p" using assms(2) pow2_pos [of "k - 1"] by linarith
  have "ilog2 p = k - 1" using pos assms(2,3) ilog2_ge [of p "k - 1"] ilog2_less [of p k] by simp
  then have e: "ulp_exp p = k - 53" using pos assms(4) by (simp add: ulp_exp_def)
  define m where "m = round_even (p / pow2 (k - 53))"
  have p: "p = of_int m * pow2 (k - 53)" using assms(1) pos e by (simp add: rnd_def m_def split: if_splits)
  have k: "pow2 k = of_int (2 ^ 53) * pow2 (k - 53)" using pow2_add [of 53 "k - 53"] by (simp add: pow2_nonneg_int)
  then have "of_int m * pow2 (k - 53) < of_int (2 ^ 53) * pow2 (k - 53)" using assms(3) p by simp
  then have "m < 2 ^ 53" by (simp only: mult_less_cancel_right_pos [OF pow2_pos] of_int_less_iff)
  then have "of_int m * pow2 (k - 53) \<le> of_int (2 ^ 53 - 1) * pow2 (k - 53)"
    by (intro mult_right_mono) (simp_all only: of_int_le_iff pow2_not_le)
  then show ?thesis using p k by (simp add: left_diff_distrib)
qed

section \<open>Values\<close>

datatype f64 = Fin rat | NegZero | Infty bool | NaN

text \<open>\<open>Infty True\<close> is minus infinity.\<close>

fun fval :: "f64 \<Rightarrow> rat" where
  "fval (Fin q) = q"
| "fval _ = 0"

fun fneg :: "f64 \<Rightarrow> bool" where
  "fneg (Fin q) = (q < 0)"
| "fneg NegZero = True"
| "fneg (Infty s) = s"
| "fneg NaN = False"

fun is_nan :: "f64 \<Rightarrow> bool" where
  "is_nan NaN = True"
| "is_nan _ = False"

fun is_finite :: "f64 \<Rightarrow> bool" where
  "is_finite (Fin q) = True"
| "is_finite NegZero = True"
| "is_finite _ = False"

definition huge :: rat where
  "huge = 2 ^ 1024"

lemma huge_code [code]:
  "huge = 179769313486231590772930519078902473361797697894230657273430081157732675805500963132708477322407536021120113879871393357658789768814416622492847430639474124377767893424865485276302219601246094119453082952085005768838150682342462881473913110540827237163350510684586298239947245938479716304835356329624224137216"
  by (simp add: huge_def)

text \<open>The values a 64-bit double can hold.\<close>

fun is_f64 :: "f64 \<Rightarrow> bool" where
  "is_f64 (Fin q) = (rnd q = q \<and> \<bar>q\<bar> < huge)"
| "is_f64 _ = True"

definition of_q :: "bool \<Rightarrow> rat \<Rightarrow> f64" where
  "of_q s q = (let r = rnd q in
     if huge \<le> \<bar>r\<bar> then Infty (r < 0)
     else if r = 0 then (if s then NegZero else Fin 0) else Fin r)"

text \<open>A literal of the source: the nearest double to its decimal value.\<close>

definition lit :: "rat \<Rightarrow> f64" where
  "lit q = of_q (q < 0) q"

definition of_int_f64 :: "int \<Rightarrow> f64" where
  \<comment> \<open>\<open>as f64\<close> on an integer\<close>
  "of_int_f64 n = of_q False (of_int n)"

section \<open>Operations\<close>

fun fminus :: "f64 \<Rightarrow> f64" where
  "fminus (Fin q) = (if q = 0 then NegZero else Fin (- q))"
| "fminus NegZero = Fin 0"
| "fminus (Infty s) = Infty (\<not> s)"
| "fminus NaN = NaN"

definition fadd :: "f64 \<Rightarrow> f64 \<Rightarrow> f64" where
  "fadd a b =
     (if is_nan a \<or> is_nan b then NaN
      else if is_finite a \<and> is_finite b then of_q (fneg a \<and> fneg b) (fval a + fval b)
      else if is_finite a then b
      else if is_finite b then a
      else if fneg a = fneg b then a else NaN)"

definition fsub :: "f64 \<Rightarrow> f64 \<Rightarrow> f64" where
  "fsub a b = fadd a (fminus b)"

definition fmul :: "f64 \<Rightarrow> f64 \<Rightarrow> f64" where
  "fmul a b =
     (if is_nan a \<or> is_nan b then NaN
      else if is_finite a \<and> is_finite b then of_q (fneg a \<noteq> fneg b) (fval a * fval b)
      else if (is_finite a \<and> fval a = 0) \<or> (is_finite b \<and> fval b = 0) then NaN
      else Infty (fneg a \<noteq> fneg b))"

definition fdiv :: "f64 \<Rightarrow> f64 \<Rightarrow> f64" where
  "fdiv a b =
     (if is_nan a \<or> is_nan b then NaN
      else if is_finite a \<and> is_finite b then
        (if fval b = 0 then (if fval a = 0 then NaN else Infty (fneg a \<noteq> fneg b))
         else of_q (fneg a \<noteq> fneg b) (fval a / fval b))
      else if is_finite b then Infty (fneg a \<noteq> fneg b)
      else if is_finite a then (if fneg a \<noteq> fneg b then NegZero else Fin 0)
      else NaN)"

fun fabs :: "f64 \<Rightarrow> f64" where
  "fabs (Fin q) = Fin \<bar>q\<bar>"
| "fabs NegZero = Fin 0"
| "fabs (Infty s) = Infty False"
| "fabs NaN = NaN"

definition fle :: "f64 \<Rightarrow> f64 \<Rightarrow> bool" where
  "fle a b =
     (if is_nan a \<or> is_nan b then False
      else if is_finite a \<and> is_finite b then fval a \<le> fval b
      else a = Infty True \<or> b = Infty False)"

definition flt :: "f64 \<Rightarrow> f64 \<Rightarrow> bool" where
  "flt a b \<longleftrightarrow> fle a b \<and> \<not> fle b a"

definition feq :: "f64 \<Rightarrow> f64 \<Rightarrow> bool" where
  "feq a b \<longleftrightarrow> fle a b \<and> fle b a"

datatype ordering = Less | Equal | Greater

definition partial_cmp :: "f64 \<Rightarrow> f64 \<Rightarrow> ordering option" where
  "partial_cmp a b =
     (if flt a b then Some Less else if flt b a then Some Greater
      else if feq a b then Some Equal else None)"

text \<open>\<open>f64::max\<close> and \<open>f64::min\<close> return the other operand when one is not a number.\<close>

definition fmax :: "f64 \<Rightarrow> f64 \<Rightarrow> f64" where
  "fmax a b = (if is_nan a then b else if is_nan b then a else if flt a b then b else a)"

definition fmin :: "f64 \<Rightarrow> f64 \<Rightarrow> f64" where
  "fmin a b = (if is_nan a then b else if is_nan b then a else if flt b a then b else a)"

text \<open>\<open>f64::clamp\<close> panics when the bounds are not ordered.\<close>

definition fclamp :: "f64 \<Rightarrow> f64 \<Rightarrow> f64 \<Rightarrow> f64 exec" where
  "fclamp x lo hi =
     (if \<not> fle lo hi then Panic
      else Return (if flt x lo then lo else if flt hi x then hi else x))"

text \<open>\<open>Iterator::sum::<f64>\<close> folds from negative zero (Rust 1.83 and later).\<close>

definition fsum :: "f64 list \<Rightarrow> f64" where
  "fsum xs = foldl fadd NegZero xs"

definition f_epsilon :: f64 where
  "f_epsilon = Fin (1 / 2 ^ 52)"

text \<open>\<open>as u64\<close>: truncation towards zero, saturating.\<close>

fun f64_as_u64 :: "f64 \<Rightarrow> u64" where
  "f64_as_u64 (Fin q) =
     (if q \<le> 0 then 0 else if 2 ^ 64 \<le> q then - 1 else of_int \<lfloor>q\<rfloor>)"
| "f64_as_u64 (Infty s) = (if s then 0 else - 1)"
| "f64_as_u64 _ = 0"

section \<open>Lemmas on the operations\<close>

lemma huge_gt [simp]: "(0 :: rat) < huge" "(1 :: rat) < huge"
  by (simp_all add: huge_def)

lemma huge_not_le [simp]: "\<not> huge \<le> 0" "\<not> huge \<le> 1"
  by (simp_all add: not_le)

lemma huge_pow2: "huge = pow2 1024"
  by (simp add: huge_def pow2_def)

lemma of_q_is_f64 [simp]: "is_f64 (of_q s q)"
  by (simp add: of_q_def Let_def not_le)

lemma is_f64_ops [simp]:
  "is_f64 (lit q)" "is_f64 (of_int_f64 n)"
  "is_f64 a \<Longrightarrow> is_f64 b \<Longrightarrow> is_f64 (fadd a b)"
  "is_f64 (fmul a b)" "is_f64 (fdiv a b)"
  "is_f64 a \<Longrightarrow> is_f64 (fminus a)" "is_f64 a \<Longrightarrow> is_f64 (fabs a)"
  by (auto simp: lit_def of_int_f64_def fadd_def fmul_def fdiv_def) (cases a; auto simp: abs_if)+

lemma is_f64_fsub [simp]: "is_f64 a \<Longrightarrow> is_f64 b \<Longrightarrow> is_f64 (fsub a b)"
  by (simp add: fsub_def)

lemma not_nan_finite [simp]: "is_finite a \<Longrightarrow> \<not> is_nan a"
  by (cases a) auto

lemma of_q_finite:
  "\<bar>rnd q\<bar> < huge \<Longrightarrow> is_finite (of_q s q) \<and> fval (of_q s q) = rnd q"
  by (simp add: of_q_def Let_def)

lemma of_q_bounded:
  assumes "\<bar>q\<bar> \<le> 2 ^ 53"
  shows "is_finite (of_q s q)" and "fval (of_q s q) = rnd q"
proof -
  have "rnd q \<le> 2 ^ 53" "- (2 ^ 53) \<le> rnd q"
    using assms rnd_of_int [of "2 ^ 53"] rnd_of_int [of "- (2 ^ 53)"]
      rnd_le_rnd [of q "2 ^ 53"] rnd_ge_rnd [of "- (2 ^ 53)" q] by (auto simp: abs_le_iff)
  moreover have "(2 ^ 53 :: rat) < huge" by (simp add: huge_def)
  ultimately have "\<bar>rnd q\<bar> < huge" by (simp add: abs_less_iff)
  then show "is_finite (of_q s q)" "fval (of_q s q) = rnd q" using of_q_finite by auto
qed

lemma fval_fminus [fval_simps, simp]: "fval (fminus a) = - fval a"
  by (cases a) auto

lemma is_finite_fminus [fval_simps, simp]: "is_finite (fminus a) = is_finite a"
  by (cases a) auto

lemma is_nan_fminus [fval_simps, simp]: "is_nan (fminus a) = is_nan a"
  by (cases a) auto

lemma fval_fabs [fval_simps, simp]: "fval (fabs a) = \<bar>fval a\<bar>"
  by (cases a) auto

lemma is_finite_fabs [fval_simps, simp]: "is_finite (fabs a) = is_finite a"
  by (cases a) auto

lemma fle_finite [fval_simps]:
  "is_finite a \<Longrightarrow> is_finite b \<Longrightarrow> fle a b \<longleftrightarrow> fval a \<le> fval b"
  by (simp add: fle_def)

lemma flt_finite [fval_simps]:
  "is_finite a \<Longrightarrow> is_finite b \<Longrightarrow> flt a b \<longleftrightarrow> fval a < fval b"
  by (auto simp: flt_def fle_def)

lemma fle_refl: "\<not> is_nan a \<Longrightarrow> fle a a"
  by (cases a) (auto simp: fle_def)

lemma fle_trans: "fle a b \<Longrightarrow> fle b c \<Longrightarrow> fle a c"
  by (cases a; cases b; cases c) (auto simp: fle_def split: if_splits)

lemma fle_total: "\<not> is_nan a \<Longrightarrow> \<not> is_nan b \<Longrightarrow> fle a b \<or> fle b a"
  by (cases a; cases b) (auto simp: fle_def)

lemma fle_not_nan: "fle a b \<Longrightarrow> \<not> is_nan a \<and> \<not> is_nan b"
  by (auto simp: fle_def split: if_splits)

lemma flt_not_nan: "flt a b \<Longrightarrow> \<not> is_nan a \<and> \<not> is_nan b"
  by (auto simp: flt_def dest: fle_not_nan)

lemma flt_irrefl [simp]: "\<not> flt a a"
  by (simp add: flt_def)

lemma fle_Fin0_cases: "fle (Fin 0) b \<Longrightarrow> is_finite b \<or> b = Infty False"
  by (cases b) (auto simp: fle_def)

lemma flt_between_finite:
  "flt (Fin p) x \<Longrightarrow> flt x (Fin q) \<Longrightarrow> is_finite x \<and> p < fval x \<and> fval x < q"
  by (cases x) (auto simp: flt_def fle_def split: if_splits)

lemma fclamp_Return_iff [exec_simps]:
  "fclamp x lo hi = Return y \<longleftrightarrow>
     fle lo hi \<and> y = (if flt x lo then lo else if flt hi x then hi else x)"
  by (auto simp: fclamp_def)

lemma fclamp_Panic_iff [exec_simps]: "fclamp x lo hi = Panic \<longleftrightarrow> \<not> fle lo hi"
  by (simp add: fclamp_def)

text \<open>The result of a clamp lies between the bounds unless the input is not a number.\<close>

lemma fclamp_range:
  assumes "fclamp x lo hi = Return y" and "\<not> is_nan x"
  shows "fle lo y \<and> fle y hi"
proof -
  have lh: "fle lo hi" "\<not> is_nan lo" "\<not> is_nan hi"
    using assms by (auto simp: fclamp_Return_iff dest: fle_not_nan)
  then show ?thesis
    using assms fle_total [of x lo] fle_total [of x hi] fle_refl [of lo] fle_refl [of hi]
    by (auto simp: fclamp_Return_iff flt_def split: if_splits)
qed

lemma fclamp_nan: "fclamp x lo hi = Return y \<Longrightarrow> is_nan x \<Longrightarrow> is_nan y"
  by (auto simp: fclamp_Return_iff dest: flt_not_nan)

lemma fsub_self:
  assumes "is_finite a" shows "fsub a a = Fin 0"
  using assms by (cases a) (auto simp: fsub_def fadd_def of_q_def)

text \<open>The exact result is rounded whenever the rounded value does not overflow.\<close>

lemma fadd_rnd:
  assumes "is_finite a" "is_finite b" "\<bar>rnd (fval a + fval b)\<bar> < huge"
  shows "is_finite (fadd a b)" and "fval (fadd a b) = rnd (fval a + fval b)"
  using assms of_q_finite [OF assms(3)] by (auto simp: fadd_def)

lemma fsub_rnd:
  assumes "is_finite a" "is_finite b" "\<bar>rnd (fval a - fval b)\<bar> < huge"
  shows "is_finite (fsub a b)" and "fval (fsub a b) = rnd (fval a - fval b)"
  using assms fadd_rnd [of a "fminus b"] by (auto simp: fsub_def)

lemma fmul_rnd:
  assumes "is_finite a" "is_finite b" "\<bar>rnd (fval a * fval b)\<bar> < huge"
  shows "is_finite (fmul a b)" and "fval (fmul a b) = rnd (fval a * fval b)"
  using assms of_q_finite [OF assms(3)] by (auto simp: fmul_def)

lemma fdiv_rnd:
  assumes "is_finite a" "is_finite b" "fval b \<noteq> 0" "\<bar>rnd (fval a / fval b)\<bar> < huge"
  shows "is_finite (fdiv a b)" and "fval (fdiv a b) = rnd (fval a / fval b)"
  using assms of_q_finite [OF assms(4)] by (auto simp: fdiv_def)

lemma fadd_finite:
  assumes "is_finite a" "is_finite b" "\<bar>fval a + fval b\<bar> \<le> 2 ^ 53"
  shows "is_finite (fadd a b)" and "fval (fadd a b) = rnd (fval a + fval b)"
  using assms of_q_bounded [OF assms(3)] by (auto simp: fadd_def)

lemma fsub_finite:
  assumes "is_finite a" "is_finite b" "\<bar>fval a - fval b\<bar> \<le> 2 ^ 53"
  shows "is_finite (fsub a b)" and "fval (fsub a b) = rnd (fval a - fval b)"
  using assms fadd_finite [of a "fminus b"] by (auto simp: fsub_def)

lemma fmul_finite:
  assumes "is_finite a" "is_finite b" "\<bar>fval a * fval b\<bar> \<le> 2 ^ 53"
  shows "is_finite (fmul a b)" and "fval (fmul a b) = rnd (fval a * fval b)"
  using assms of_q_bounded [OF assms(3)] by (auto simp: fmul_def)

lemma fdiv_finite:
  assumes "is_finite a" "is_finite b" "fval b \<noteq> 0" "\<bar>fval a / fval b\<bar> \<le> 2 ^ 53"
  shows "is_finite (fdiv a b)" and "fval (fdiv a b) = rnd (fval a / fval b)"
  using assms of_q_bounded [OF assms(4)] by (auto simp: fdiv_def)

lemma lit_finite:
  assumes "\<bar>q\<bar> \<le> 2 ^ 53"
  shows "is_finite (lit q)" and "fval (lit q) = rnd q"
  using of_q_bounded [OF assms] by (auto simp: lit_def)

lemma is_f64_lit [simp]: "is_f64 (lit q)"
  by (simp add: lit_def)

lemma lit_not_Infty: "\<bar>q\<bar> \<le> 2 ^ 53 \<Longrightarrow> lit q \<noteq> Infty s"
  using lit_finite [of q] by (cases "lit q") auto

lemma lit_Fin: "\<bar>q\<bar> \<le> 2 ^ 53 \<Longrightarrow> rnd q \<noteq> 0 \<Longrightarrow> lit q = Fin (rnd q)"
  using lit_finite [of q] by (cases "lit q") (auto simp: lit_def of_q_def Let_def split: if_splits)

lemma lit_01 [simp]: "lit 0 = Fin 0" "lit 1 = Fin 1"
  by (simp_all add: lit_def of_q_def Let_def not_le [symmetric] huge_def)

end
