(* ===== verification/F64_Text.thy ===== *)
theory F64_Text
  imports F64
begin

text \<open>
  Printing and parsing of doubles as the standard library does it: \<open>{:.k}\<close> and
  \<open>{:+.k}\<close> round the exact value to \<open>k\<close> decimals (ties to even), \<open>{}\<close> prints the
  shortest decimal that reads back as the same double, without an exponent, and
  \<open>str::parse::<f64>\<close> reads the decimal grammar and rounds once.
\<close>

section \<open>Fixed number of decimals\<close>

definition pad_left :: "nat \<Rightarrow> string \<Rightarrow> string" where
  "pad_left n s = replicate (n - length s) (CHR ''0'') @ s"

definition point_at :: "nat \<Rightarrow> int \<Rightarrow> string" where
  \<comment> \<open>the decimal \<open>m / 10^k\<close> with \<open>k\<close> digits after the point\<close>
  "point_at k m =
     (if k = 0 then show_dec m
      else let s = pad_left (k + 1) (show_dec m); i = length s - k
           in take i s @ ''.'' @ drop i s)"

definition sign_str :: "bool \<Rightarrow> bool \<Rightarrow> string" where
  "sign_str pl neg = (if neg then ''-'' else if pl then ''+'' else [])"

definition fmt_fixed_gen :: "bool \<Rightarrow> nat \<Rightarrow> f64 \<Rightarrow> string" where
  "fmt_fixed_gen pl k x =
     (case x of
        NaN \<Rightarrow> ''NaN''
      | Infty s \<Rightarrow> sign_str pl s @ ''inf''
      | _ \<Rightarrow> sign_str pl (fneg x) @ point_at k (round_even (\<bar>fval x\<bar> * 10 ^ k)))"

definition fmt_fixed :: "nat \<Rightarrow> f64 \<Rightarrow> string" where
  "fmt_fixed k x = fmt_fixed_gen False k x"

definition fmt_signed :: "nat \<Rightarrow> f64 \<Rightarrow> string" where
  "fmt_signed k x = fmt_fixed_gen True k x"

section \<open>Shortest decimal\<close>

definition pow10 :: "int \<Rightarrow> rat" where
  "pow10 e = (if 0 \<le> e then 10 ^ nat e else 1 / 10 ^ nat (- e))"

definition dec_exp :: "rat \<Rightarrow> int" where
  \<comment> \<open>the least \<open>k\<close> with \<open>v < 10^k\<close>, near \<open>log2 v * 0.30103\<close>\<close>
  "dec_exp v =
     (let k = ilog2 v * 30103 div 100000
      in if v < pow10 (k - 1) then k - 1 else if v < pow10 k then k
         else if v < pow10 (k + 1) then k + 1 else k + 2)"

definition closest :: "rat \<Rightarrow> int \<Rightarrow> int list \<Rightarrow> int option" where
  "closest v e cs =
     (case cs of [] \<Rightarrow> None | [c] \<Rightarrow> Some c
      | c # d # _ \<Rightarrow>
          if \<bar>of_int c * pow10 e - v\<bar> \<le> \<bar>of_int d * pow10 e - v\<bar> then Some c else Some d)"

definition digits_cand :: "rat \<Rightarrow> int \<Rightarrow> nat \<Rightarrow> int option" where
  "digits_cand v k n =
     (let e = k - int n; c = \<lfloor>v / pow10 e\<rfloor>
      in closest v e (filter (\<lambda>c. rnd (of_int c * pow10 e) = v) [c, c + 1]))"

fun shortest_from :: "rat \<Rightarrow> int \<Rightarrow> nat \<Rightarrow> nat \<Rightarrow> int \<times> int" where
  \<comment> \<open>at most 17 digits are ever needed for a double; the fuel counts down from 17\<close>
  "shortest_from v k n 0 = (case digits_cand v k n of Some c \<Rightarrow> (c, k - int n) | None \<Rightarrow> (0, 0))"
| "shortest_from v k n (Suc fuel) =
     (case digits_cand v k n of
        Some c \<Rightarrow> (c, k - int n)
      | None \<Rightarrow> shortest_from v k (Suc n) fuel)"

definition show_pos_rat :: "rat \<Rightarrow> string" where
  "show_pos_rat v =
     (let (c, e) = shortest_from v (dec_exp v) 1 16
      in if 0 \<le> e then show_dec c @ replicate (nat e) (CHR ''0'')
         else point_at (nat (- e)) c)"

definition fmt_display :: "f64 \<Rightarrow> string" where
  "fmt_display x =
     (case x of
        NaN \<Rightarrow> ''NaN''
      | Infty s \<Rightarrow> sign_str False s @ ''inf''
      | _ \<Rightarrow> if fval x = 0 then sign_str False (fneg x) @ ''0''
             else sign_str False (fneg x) @ show_pos_rat \<bar>fval x\<bar>)"

section \<open>Parsing\<close>

definition span_digits :: "string \<Rightarrow> string \<times> string" where
  "span_digits s = (takeWhile ascii_digit s, dropWhile ascii_digit s)"

definition dec_val :: "string \<Rightarrow> int" where
  "dec_val s = (case digits_val 0 s of Some n \<Rightarrow> n | None \<Rightarrow> 0)"

text \<open>The optional exponent at the end; \<open>None\<close> when it is malformed.\<close>

definition parse_exp :: "string \<Rightarrow> int option" where
  "parse_exp s =
     (case s of
        [] \<Rightarrow> Some 0
      | c # cs \<Rightarrow>
          if c = CHR ''e'' \<or> c = CHR ''E'' then
            (case cs of
               [] \<Rightarrow> None
             | d # ds \<Rightarrow>
                 if d = CHR ''-'' then map_option uminus (parse_dec ds)
                 else parse_dec (if d = CHR ''+'' then ds else cs))
          else None)"

definition parse_number :: "bool \<Rightarrow> string \<Rightarrow> f64 option" where
  "parse_number neg s =
     (let (i, r) = span_digits s;
          (f, r') = (case r of [] \<Rightarrow> ([], []) | c # cs \<Rightarrow> if c = CHR ''.'' then span_digits cs else ([], r))
      in if i = [] \<and> f = [] then None
         else map_option
           (\<lambda>e. let q = of_int (dec_val (i @ f)) * pow10 (e - int (length f))
                in of_q neg (if neg then - q else q))
           (parse_exp r'))"

definition parse_f64 :: "string \<Rightarrow> f64 option" where
  "parse_f64 s =
     (let (neg, r) = (case s of [] \<Rightarrow> (False, s)
                      | c # cs \<Rightarrow> if c = CHR ''-'' then (True, cs)
                                 else if c = CHR ''+'' then (False, cs) else (False, s));
          l = to_ascii_lowercase r
      in if l = ''inf'' \<or> l = ''infinity'' then Some (Infty neg)
         else if l = ''nan'' then Some NaN
         else parse_number neg r)"

lemma parse_f64_is_f64: "parse_f64 s = Some x \<Longrightarrow> is_f64 x"
  by (auto simp: parse_f64_def parse_number_def Let_def split: if_splits prod.splits)

end
