(* ===== verification/Json_Value.thy ===== *)
theory Json_Value
  imports F64_Text
begin

text \<open>
  \<open>serde_json::Value\<close> and the accessors the code calls on it: \<open>get\<close>, \<open>pointer\<close> and
  the \<open>as_*\<close> conversions. Integers are the crate's \<open>u64\<close>/\<open>i64\<close> numbers, \<open>JFloat\<close> its
  doubles; an object is its list of entries, looked up by key. Parsing and printing
  of JSON text belong to the crate and are parameters where the code uses them.
\<close>

datatype json =
    JNull
  | JBool bool
  | JInt int
  | JFloat f64
  | JStr string
  | JArr "json list"
  | JObj "(string \<times> json) list"

fun jget :: "json \<Rightarrow> string \<Rightarrow> json option" where
  "jget (JObj kvs) k = map_of kvs k"
| "jget _ k = None"

fun as_str :: "json \<Rightarrow> string option" where
  "as_str (JStr s) = Some s"
| "as_str _ = None"

fun as_bool :: "json \<Rightarrow> bool option" where
  "as_bool (JBool b) = Some b"
| "as_bool _ = None"

fun as_u64 :: "json \<Rightarrow> u64 option" where
  "as_u64 (JInt n) = (if in_u64 n then Some (of_int n) else None)"
| "as_u64 _ = None"

fun as_i64 :: "json \<Rightarrow> i64 option" where
  "as_i64 (JInt n) = (if in_i64 n then Some n else None)"
| "as_i64 _ = None"

fun as_f64 :: "json \<Rightarrow> f64 option" where
  "as_f64 (JInt n) = Some (of_int_f64 n)"
| "as_f64 (JFloat x) = Some x"
| "as_f64 _ = None"

fun as_array :: "json \<Rightarrow> json list option" where
  "as_array (JArr vs) = Some vs"
| "as_array _ = None"

fun as_object :: "json \<Rightarrow> (string \<times> json) list option" where
  "as_object (JObj kvs) = Some kvs"
| "as_object _ = None"

text \<open>An array index of a JSON pointer: decimal, no sign, no leading zero.\<close>

definition pointer_index :: "string \<Rightarrow> nat option" where
  "pointer_index t =
     (if t = '''' \<or> hd t = CHR ''+'' \<or> (hd t = CHR ''0'' \<and> length t \<noteq> 1) then None
      else map_option nat (parse_dec t))"

fun jpointer :: "json \<Rightarrow> string list \<Rightarrow> json option" where
  "jpointer v [] = Some v"
| "jpointer v (t # ts) =
     (case v of
        JObj kvs \<Rightarrow> (case map_of kvs t of None \<Rightarrow> None | Some w \<Rightarrow> jpointer w ts)
      | JArr vs \<Rightarrow>
          (case pointer_index t of
             None \<Rightarrow> None
           | Some i \<Rightarrow> if i < length vs then jpointer (vs ! i) ts else None)
      | _ \<Rightarrow> None)"

text \<open>\<open>iter().find_map(f)\<close>.\<close>

fun find_map :: "('a \<Rightarrow> 'b option) \<Rightarrow> 'a list \<Rightarrow> 'b option" where
  "find_map f [] = None"
| "find_map f (x # xs) = (case f x of Some y \<Rightarrow> Some y | None \<Rightarrow> find_map f xs)"

lemma find_map_Some: "find_map f xs = Some y \<Longrightarrow> \<exists>x \<in> set xs. f x = Some y"
  by (induction xs) (auto split: option.splits)

lemma find_map_cong: "(\<And>x. x \<in> set xs \<Longrightarrow> f x = g x) \<Longrightarrow> find_map f xs = find_map g xs"
  by (induction xs) (auto split: option.split)

lemma find_map_None [simp]: "find_map f xs = None \<longleftrightarrow> (\<forall>x \<in> set xs. f x = None)"
  by (induction xs) (auto split: option.splits)

definition opt_or :: "'a option \<Rightarrow> 'a option \<Rightarrow> 'a option" where
  "opt_or a b = (case a of Some x \<Rightarrow> Some x | None \<Rightarrow> b)"

definition unwrap_or :: "'a \<Rightarrow> 'a option \<Rightarrow> 'a" where
  "unwrap_or d a = (case a of Some x \<Rightarrow> x | None \<Rightarrow> d)"

definition opt_filter :: "('a \<Rightarrow> bool) \<Rightarrow> 'a option \<Rightarrow> 'a option" where
  "opt_filter p a = (case a of Some x \<Rightarrow> if p x then Some x else None | None \<Rightarrow> None)"

lemma opt_simps [simp]:
  "opt_or (Some x) b = Some x" "opt_or None b = b"
  "unwrap_or d (Some x) = x" "unwrap_or d None = d"
  "opt_filter p None = None" "opt_filter p (Some x) = (if p x then Some x else None)"
  by (simp_all add: opt_or_def unwrap_or_def opt_filter_def)

lemma opt_filter_Some_iff [simp]: "opt_filter p a = Some y \<longleftrightarrow> a = Some y \<and> p y"
  by (cases a) auto

section \<open>Ordered maps with string keys\<close>

text \<open>The byte order of strings, and \<open>BTreeMap::insert\<close> on the sorted entries.\<close>

fun str_less :: "string \<Rightarrow> string \<Rightarrow> bool" where
  "str_less [] [] = False"
| "str_less [] (d # ds) = True"
| "str_less (c # cs) [] = False"
| "str_less (c # cs) (d # ds) =
     ((of_char c :: nat) < of_char d \<or> (c = d \<and> str_less cs ds))"

fun btree_insert :: "string \<Rightarrow> 'a \<Rightarrow> (string \<times> 'a) list \<Rightarrow> (string \<times> 'a) list" where
  "btree_insert k v [] = [(k, v)]"
| "btree_insert k v ((l, w) # es) =
     (if k = l then (k, v) # es
      else if str_less k l then (k, v) # (l, w) # es
      else (l, w) # btree_insert k v es)"

lemma btree_insert_map_of: "map_of (btree_insert k v es) = (map_of es)(k \<mapsto> v)"
  by (induction es) (auto simp: fun_eq_iff)

text \<open>\<open>json!\<close> of a double: a number that is not finite becomes \<open>null\<close>.\<close>

definition jfloat :: "f64 \<Rightarrow> json" where
  "jfloat x = (if is_finite x then JFloat x else JNull)"

text \<open>\<open>Iterator::max_by\<close>: the last of the greatest elements.\<close>

fun max_by :: "('a \<Rightarrow> 'a \<Rightarrow> ordering) \<Rightarrow> 'a list \<Rightarrow> 'a option" where
  "max_by cmp [] = None"
| "max_by cmp (x # xs) = Some (foldl (\<lambda>a b. if cmp a b = Greater then a else b) x xs)"

end
