(* ===== verification/Domain_Types.thy ===== *)
theory Domain_Types
  imports Json_Value
begin

text \<open>
  The shared data contracts of \<open>crates/txodds-types\<close> and the agent-domain types of
  \<open>crates/agent-core/src/domain.rs\<close> and \<open>context.rs\<close>: one record per struct, with
  the struct's fields in order and a prefix per record, and one datatype per enum.
  Timestamps and identifiers are the strings the code stores.
\<close>

section \<open>cluster.rs, txline.rs\<close>

datatype cluster = Devnet | Mainnet

datatype track_mode = Settlement | Trading | Fan

definition show_track :: "track_mode \<Rightarrow> string" where
  "show_track t = (case t of Settlement \<Rightarrow> ''settlement'' | Trading \<Rightarrow> ''trading'' | Fan \<Rightarrow> ''fan'')"

datatype event_kind =
  Fixture | ScoreUpdate | OddsUpdate | Goal | RedCard | FinalWhistle | OddsMove | ProofReceived

definition debug_kind :: "event_kind \<Rightarrow> string" where
  \<comment> \<open>the derived \<open>Debug\<close> text\<close>
  "debug_kind k = (case k of Fixture \<Rightarrow> ''Fixture'' | ScoreUpdate \<Rightarrow> ''ScoreUpdate''
     | OddsUpdate \<Rightarrow> ''OddsUpdate'' | Goal \<Rightarrow> ''Goal'' | RedCard \<Rightarrow> ''RedCard''
     | FinalWhistle \<Rightarrow> ''FinalWhistle'' | OddsMove \<Rightarrow> ''OddsMove''
     | ProofReceived \<Rightarrow> ''ProofReceived'')"

record odds_quote =
  oq_fixture_id :: u64
  oq_outcome :: string
  oq_decimal :: f64
  oq_implied_probability :: f64
  oq_source :: "string option"
  oq_ts :: string

record score =
  sc_home :: i64
  sc_away :: i64

datatype simulation_status = SimNotStarted | SimPassed | SimFailed | SimUnavailable

record proof_receipt =
  pr_fixture_id :: u64
  pr_seq :: "u64 option"
  pr_stat_key :: "u64 option"
  pr_stat_keys :: "string list"
  pr_txline_ts :: "string option"
  pr_epoch_day :: "u32 option"
  pr_merkle_root :: "string option"
  pr_stat_proof_hash :: "string option"
  pr_root_pda :: "string option"
  pr_txline_program :: "string option"
  pr_root_observed_slot :: "u64 option"
  pr_proof_present :: bool
  pr_root_present :: bool
  pr_simulation_status :: simulation_status
  pr_verified :: bool
  pr_note :: string
  pr_raw :: "json option"

record txline_event =
  ev_id :: string
  ev_kind :: event_kind
  ev_fixture_id :: u64
  ev_seq :: "u64 option"
  ev_txline_ts :: "string option"
  ev_action :: "string option"
  ev_confirmed :: "bool option"
  ev_participant :: "string option"
  ev_period :: "string option"
  ev_stat_keys :: "string list"
  ev_schema_family :: "string option"
  ev_title :: string
  ev_body :: string
  ev_ts :: string
  ev_raw :: "json option"
  ev_odds :: "odds_quote list option"
  ev_score :: "score option"
  ev_proof :: "proof_receipt option"

section \<open>agent.rs: the unit persisted by the ledger\<close>

datatype agent_role = RoleSharp | RoleRisk | RolePundit | RoleSettlement | RoleFan | RoleVerifier

record agent_bid =
  bid_agent_id :: string
  bid_role :: agent_role
  bid_price_sol :: f64
  bid_confidence :: f64
  bid_eta_ms :: u64
  bid_note :: string

record agent_delivery =
  dl_agent_id :: string
  dl_title :: string
  dl_payload :: string
  dl_sha256 :: string
  dl_citations :: "string list"
  dl_strategy :: "string option"
  dl_risk :: "string option"
  dl_fan_copy :: "string option"

datatype verdict_status = VPass | VFail | VNeedsReview

datatype verdict_check = CkTxlineInput | CkHash | CkProof | CkPolicy | CkSettlement

record verdict =
  vd_status :: verdict_status
  vd_reason :: string
  vd_checked :: "verdict_check list"

datatype settlement_status = StNotStarted | StEscrowCreated | StDeposited | StReleased | StRefunded

record settlement_receipt =
  sr_rail :: "string option"
  sr_status :: settlement_status
  sr_reference :: "string option"
  sr_escrow_pda :: "string option"
  sr_deposit_tx :: "string option"
  sr_release_tx :: "string option"
  sr_explorer_url :: "string option"
  sr_chain_observed :: "bool option"
  sr_chain_slot :: "u64 option"
  sr_payment_url :: "string option"
  sr_payment_reference :: "string option"
  sr_payment_memo :: "string option"
  sr_payment_signature :: "string option"
  sr_payment_status :: "string option"
  sr_payment_recipient :: "string option"
  sr_payment_amount_sol :: "f64 option"

record timeline_entry =
  tl_at :: string
  tl_label :: string
  tl_detail :: string

record agent_run =
  run_id :: string
  run_track :: track_mode
  run_trigger :: txline_event
  run_bids :: "agent_bid list"
  run_winner :: "agent_bid option"
  run_delivery :: "agent_delivery option"
  run_verdict :: "verdict option"
  run_settlement :: "settlement_receipt option"
  run_timeline :: "timeline_entry list"

section \<open>wager.rs: the object settlement acts on\<close>

datatype selection = Home | Draw | Away

definition debug_selection :: "selection \<Rightarrow> string" where
  "debug_selection s = (case s of Home \<Rightarrow> ''Home'' | Draw \<Rightarrow> ''Draw'' | Away \<Rightarrow> ''Away'')"

datatype wager_status =
  Proposed | Debated | NoBet | ProofPassed | ProofFailed | Signed | Settled | Refunded

definition debug_status :: "wager_status \<Rightarrow> string" where
  "debug_status s = (case s of Proposed \<Rightarrow> ''Proposed'' | Debated \<Rightarrow> ''Debated'' | NoBet \<Rightarrow> ''NoBet''
     | ProofPassed \<Rightarrow> ''ProofPassed'' | ProofFailed \<Rightarrow> ''ProofFailed'' | Signed \<Rightarrow> ''Signed''
     | Settled \<Rightarrow> ''Settled'' | Refunded \<Rightarrow> ''Refunded'')"

record debate_contribution =
  dc_agent_id :: string
  dc_round :: u64
  dc_kind :: string
  dc_summary :: string
  dc_prob :: "f64 option"
  dc_confidence :: "f64 option"
  dc_targets :: "string list"

record debate_summary =
  ds_rounds :: u64
  ds_converged :: bool
  ds_contributions :: "debate_contribution list"

record wager =
  w_wager_id :: string
  w_fixture_id :: u64
  w_selection :: selection
  w_model_prob :: f64
  w_market_implied :: f64
  w_edge :: f64
  w_fair_odds :: f64
  w_stake_sol :: f64
  w_thesis :: string
  w_proof_ref :: "string option"
  w_status :: wager_status
  w_debate :: "debate_summary option"
  w_created_at :: string

section \<open>agent-core domain.rs\<close>

record proof_gate_decision =
  pg_pass :: bool
  pg_reason :: string
  pg_checked :: "string list"

datatype signal_type = ScoreEvent | RedCardReprice | SharpOddsMove | ProofReady | ContextUpdate

definition debug_signal_type :: "signal_type \<Rightarrow> string" where
  "debug_signal_type t = (case t of ScoreEvent \<Rightarrow> ''ScoreEvent'' | RedCardReprice \<Rightarrow> ''RedCardReprice''
     | SharpOddsMove \<Rightarrow> ''SharpOddsMove'' | ProofReady \<Rightarrow> ''ProofReady'' | ContextUpdate \<Rightarrow> ''ContextUpdate'')"

datatype severity = Critical | High | Medium | Low

record agent_signal =
  sg_id :: string
  sg_fixture_id :: u64
  sg_source_event_id :: string
  sg_signal_type :: signal_type
  sg_severity :: severity
  sg_confidence :: f64
  sg_features :: "(string \<times> json) list"
  sg_rationale :: string
  sg_created_at :: string

datatype agent_action = TriggerResolution | FetchProof | SimulatePosition | Notify | Watch

definition debug_action :: "agent_action \<Rightarrow> string" where
  "debug_action a = (case a of TriggerResolution \<Rightarrow> ''TriggerResolution'' | FetchProof \<Rightarrow> ''FetchProof''
     | SimulatePosition \<Rightarrow> ''SimulatePosition'' | Notify \<Rightarrow> ''Notify'' | Watch \<Rightarrow> ''Watch'')"

datatype execution_status = ExPending | ExBlocked | ExCompleted | ExFailed

record policy_check =
  pc_name :: string
  pc_passed :: bool
  pc_detail :: string

record agent_decision =
  ad_id :: string
  ad_signal_id :: string
  ad_action :: agent_action
  ad_confidence :: f64
  ad_policy_checks :: "policy_check list"
  ad_explanation :: string
  ad_execution_status :: execution_status
  ad_created_at :: string

section \<open>agent-core context.rs\<close>

record agent_thresholds =
  th_odds_move_trigger_pct :: f64
  th_max_devnet_spend_sol :: f64

record run_summary =
  rs_run_id :: string
  rs_fixture_id :: u64
  rs_track :: track_mode
  rs_created_at :: string

record agent_context =
  cx_run_id :: string
  cx_track :: track_mode
  cx_event :: txline_event
  cx_proof :: "proof_receipt option"
  cx_thresholds :: agent_thresholds
  cx_recent_runs :: "run_summary list"

text \<open>
  \<open>build_context\<close>: the fresh identifier and the clock are arguments. Only the
  first 20 recent runs are summarised, each dated by its first timeline entry.
\<close>

definition summarize_run :: "string \<Rightarrow> agent_run \<Rightarrow> run_summary" where
  "summarize_run now r =
     \<lparr>rs_run_id = run_id r, rs_fixture_id = ev_fixture_id (run_trigger r), rs_track = run_track r,
      rs_created_at = (case run_timeline r of [] \<Rightarrow> now | e # _ \<Rightarrow> tl_at e)\<rparr>"

definition build_context ::
  "string \<Rightarrow> string \<Rightarrow> agent_thresholds \<Rightarrow> track_mode \<Rightarrow> txline_event \<Rightarrow> proof_receipt option
     \<Rightarrow> agent_run list \<Rightarrow> agent_context" where
  "build_context uuid now th track ev proof recent =
     \<lparr>cx_run_id = show_track track @ ''-'' @ ev_id ev @ ''-'' @ uuid, cx_track = track, cx_event = ev,
      cx_proof = proof, cx_thresholds = th,
      cx_recent_runs = map (summarize_run now) (take 20 recent)\<rparr>"

section \<open>Order on selections\<close>

text \<open>The derived \<open>Ord\<close> of \<open>Selection\<close> (declaration order), the key order of its maps.\<close>

fun selection_rank :: "selection \<Rightarrow> nat" where
  "selection_rank Home = 0"
| "selection_rank Draw = 1"
| "selection_rank Away = 2"

lemma selection_rank_inj: "selection_rank a = selection_rank b \<Longrightarrow> a = b"
  by (cases a; cases b) auto

instantiation selection :: linorder
begin

definition less_eq_selection :: "selection \<Rightarrow> selection \<Rightarrow> bool" where
  "less_eq_selection a b \<longleftrightarrow> selection_rank a \<le> selection_rank b"

definition less_selection :: "selection \<Rightarrow> selection \<Rightarrow> bool" where
  "less_selection a b \<longleftrightarrow> selection_rank a < selection_rank b"

instance
  by intro_classes (auto simp: less_eq_selection_def less_selection_def selection_rank_inj)

end

end
