(* ===== verification/Wager_Math.thy ===== *)
theory Wager_Math
  imports Domain_Types
begin

text \<open>
  The operations of \<open>crates/txodds-types/src/wager.rs\<close>: the odds/probability
  conversion, the Kelly fraction, and the debate transcript carried by a wager.
  Arithmetic is that of \<open>F64\<close>; round counters wrap at 64 bits, as in a release build.
\<close>

section \<open>Operations\<close>

definition implied_probability :: "f64 \<Rightarrow> f64 option" where
  "implied_probability decimal_odds =
     (if is_finite decimal_odds \<and> flt (lit 1) decimal_odds
      then Some (fdiv (lit 1) decimal_odds) else None)"

definition kelly_fraction :: "f64 \<Rightarrow> f64 \<Rightarrow> f64 exec" where
  "kelly_fraction model_prob fair_odds =
     (if \<not> (is_finite model_prob \<and> is_finite fair_odds) then Return (lit 0)
      else if fle model_prob (lit 0) \<or> fle (lit 1) model_prob \<or> fle fair_odds (lit 1)
      then Return (lit 0)
      else let b = fsub fair_odds (lit 1);
               q = fsub (lit 1) model_prob;
               f = fdiv (fsub (fmul b model_prob) q) b
           in fclamp f (lit 0) (lit 1))"

definition has_value :: "wager \<Rightarrow> f64 \<Rightarrow> bool" where
  "has_value w min_edge \<longleftrightarrow>
     flt min_edge (w_edge w) \<and> flt (lit 0) (w_model_prob w) \<and> flt (w_model_prob w) (lit 1)"

definition push_debate :: "wager \<Rightarrow> debate_contribution \<Rightarrow> wager" where
  "push_debate w c =
     (let s = (case w_debate w of Some d \<Rightarrow> d
               | None \<Rightarrow> \<lparr>ds_rounds = 0, ds_converged = True, ds_contributions = []\<rparr>)
      in w\<lparr>w_debate := Some (s\<lparr>ds_rounds := max (ds_rounds s) (dc_round c),
                                ds_contributions := ds_contributions s @ [c]\<rparr>)\<rparr>)"

definition next_debate_round :: "wager \<Rightarrow> u64" where
  "next_debate_round w = (case w_debate w of None \<Rightarrow> 1 | Some d \<Rightarrow> ds_rounds d + 1)"

section \<open>Ranges of implied probability and Kelly fraction\<close>

lemma is_f64_fval: "is_f64 x \<Longrightarrow> rnd (fval x) = fval x \<and> \<bar>fval x\<bar> < huge"
  by (cases x) auto

lemma rep_gt_1:
  assumes "rnd q = q" and "1 < q"
  shows "1 + pow2 (- 52) \<le> q"
proof (cases "2 \<le> q")
  case True
  moreover have "pow2 (- 52) \<le> 1" by (simp add: pow2_def)
  ultimately show ?thesis by linarith
next
  case False
  have "ilog2 q = 0"
    using assms False ilog2_ge [of q 0] ilog2_less [of q 1] by (simp add: pow2_def)
  then have e: "ulp_exp q = - 52" using assms by (simp add: ulp_exp_def)
  define m where "m = round_even (q / pow2 (- 52))"
  have q: "q = of_int m * pow2 (- 52)"
    using assms e by (simp add: rnd_def m_def split: if_splits)
  have "of_int (2 ^ 52) * pow2 (- 52) < of_int m * pow2 (- 52)"
    using assms(2) q by (simp add: pow2_def)
  then have "2 ^ 52 < m"
    by (simp only: mult_less_cancel_right_pos [OF pow2_pos] of_int_less_iff)
  then have "of_int (2 ^ 52 + 1) * pow2 (- 52) \<le> of_int m * pow2 (- 52)"
    by (intro mult_right_mono) (simp_all only: of_int_le_iff pow2_not_le)
  then show ?thesis using q by (simp add: pow2_def)
qed

lemma recip_lt_1:
  assumes "1 + pow2 (- 52) \<le> q"
  shows "1 / q \<le> 1 - pow2 (- 53)"
proof -
  have "1 \<le> (1 - pow2 (- 53)) * (1 + pow2 (- 52))" by (simp add: pow2_def)
  also have "\<dots> \<le> (1 - pow2 (- 53)) * q"
    using assms by (intro mult_left_mono) (simp_all add: pow2_def)
  finally show ?thesis using assms by (simp add: divide_le_eq pow2_def split: if_splits)
qed

lemma rnd_below_1: "rnd (1 - pow2 (- 53)) = 1 - pow2 (- 53)"
  by (rule rnd_grid [where m = "2 ^ 53 - 1" and e = "- 53"]) (simp_all add: pow2_def)

lemma implied_probability_iff:
  "implied_probability d = Some p \<longleftrightarrow>
     is_finite d \<and> 1 < fval d \<and> p = fdiv (lit 1) d"
  by (auto simp: implied_probability_def flt_finite)

lemma implied_probability_bounds:
  assumes "implied_probability d = Some p" and "is_f64 d"
  shows "is_finite p" and "fval p = rnd (1 / fval d)" and "0 < fval p" and "fval p < 1"
proof -
  have d: "is_finite d" "1 < fval d" "p = fdiv (lit 1) d"
    using assms(1) by (auto simp: implied_probability_iff)
  have rep: "rnd (fval d) = fval d" "\<bar>fval d\<bar> < huge" using is_f64_fval [OF assms(2)] by auto
  have q: "1 / fval d \<le> 1 - pow2 (- 53)" using rep_gt_1 [OF rep(1) d(2)] by (rule recip_lt_1)
  have "\<bar>1 / fval d\<bar> \<le> 2 ^ 53" using q d(2) by (simp add: pow2_def)
  then show fin: "is_finite p" and val: "fval p = rnd (1 / fval d)"
    using fdiv_finite [of "lit 1" d] d by auto
  have "fval p \<le> 1 - pow2 (- 53)" using rnd_le_rnd [OF q rnd_below_1] val by simp
  then show "fval p < 1" using pow2_pos [of "- 53"] by linarith
  have "pow2 (- 1024) = 1 / huge" by (simp add: huge_pow2 pow2_def)
  also have "\<dots> \<le> 1 / fval d" using rep(2) d(2) by (intro divide_left_mono) auto
  finally have "pow2 (- 1074) \<le> 1 / fval d" using pow2_le_iff [of "- 1074" "- 1024"] by linarith
  then show "0 < fval p" using val rnd_pos by simp
qed

lemma implied_probability_None:
  "implied_probability d = None \<longleftrightarrow> \<not> is_finite d \<or> fval d \<le> 1"
  by (auto simp: implied_probability_def flt_finite)

lemma kelly_not_panic: "\<not> panics (kelly_fraction p d)"
  by (auto simp: kelly_fraction_def Let_def panics_def fclamp_def fle_finite)

lemma kelly_range:
  assumes "kelly_fraction p d = Return k" and "is_f64 d"
  shows "is_finite k \<and> 0 \<le> fval k \<and> fval k \<le> 1"
proof (cases "is_finite p \<and> is_finite d \<and> 0 < fval p \<and> fval p < 1 \<and> 1 < fval d")
  case False
  then have "k = lit 0" using assms(1)
    by (auto simp: kelly_fraction_def Let_def fle_finite split: if_splits)
  then show ?thesis by simp
next
  case True
  define b where "b = fsub d (lit 1)"
  define q where "q = fsub (lit 1) p"
  have rep: "rnd (fval d) = fval d" "\<bar>fval d\<bar> < huge" using is_f64_fval [OF assms(2)] by auto
  have gt: "pow2 (- 52) \<le> fval d - 1" using rep_gt_1 [OF rep(1)] True by simp
  have rb: "pow2 (- 52) \<le> rnd (fval d - 1)" using rnd_ge_rnd [OF gt] rnd_pow2 by simp
  have rb2: "rnd (fval d - 1) \<le> fval d" using rnd_le_rnd [of "fval d - 1" "fval d"] rep by simp
  have b: "is_finite b" "fval b = rnd (fval d - 1)"
  proof -
    have "0 < rnd (fval d - 1)" using less_le_trans [OF pow2_pos rb] .
    then have "\<bar>rnd (fval d - 1)\<bar> < huge" using rb2 rep by linarith
    then show "is_finite b" "fval b = rnd (fval d - 1)"
      using fsub_rnd [of d "lit 1"] True by (simp_all add: b_def)
  qed
  have q: "is_finite q" "fval q = rnd (1 - fval p)" "0 \<le> fval q" "fval q \<le> 1"
    using True fsub_finite [of "lit 1" p] rnd_nonneg [of "1 - fval p"] rnd_le_rnd [of "1 - fval p" 1]
    by (auto simp: q_def)
  have bpos: "0 < fval b" using rb b less_le_trans [OF pow2_pos] by simp
  have bp: "0 \<le> fval b * fval p" "fval b * fval p \<le> fval b"
    using bpos True by (auto intro: mult_left_le)
  have rbp: "0 \<le> rnd (fval b * fval p)" "rnd (fval b * fval p) \<le> fval b"
    using rnd_nonneg [OF bp(1)] rnd_le_rnd [OF bp(2)] b by simp_all
  have bh: "fval b < huge" using rb2 b rep True by simp
  define bm where "bm = fmul b p"
  have bm: "is_finite bm" "fval bm = rnd (fval b * fval p)"
    using b True rbp bh fmul_rnd [of b p] by (auto simp: bm_def)
  define n where "n = fsub bm q"
  have nle: "fval bm - fval q \<le> fval b" "- 1 \<le> fval bm - fval q"
    using bm rbp q by linarith+
  have rn: "rnd (fval bm - fval q) \<le> fval b" "- 1 \<le> rnd (fval bm - fval q)"
    using rnd_le_rnd [OF nle(1)] rnd_ge_rnd [OF nle(2)] b by simp_all
  have n: "is_finite n" "fval n = rnd (fval bm - fval q)"
  proof -
    have "\<bar>rnd (fval bm - fval q)\<bar> < huge" using rn bh huge_gt(2) by linarith
    then show "is_finite n" "fval n = rnd (fval bm - fval q)"
      using bm q fsub_rnd [of bm q] by (simp_all add: n_def)
  qed
  have "\<bar>fval n / fval b\<bar> \<le> 2 ^ 53"
  proof -
    have "fval n / fval b \<le> 1" using n rn bpos by (simp add: divide_le_eq)
    moreover have "- (2 ^ 52) \<le> fval n / fval b"
    proof -
      have "1 \<le> 2 ^ 52 * fval b" using rb b by (simp add: pow2_def)
      then show ?thesis using n rn bpos by (simp add: le_divide_eq)
    qed
    ultimately show ?thesis by (simp add: abs_le_iff)
  qed
  then have f: "is_finite (fdiv n b)" using fdiv_finite n b bpos by auto
  have "kelly_fraction p d = fclamp (fdiv n b) (lit 0) (lit 1)"
    using True by (simp add: kelly_fraction_def Let_def fle_finite b_def q_def bm_def n_def)
  then have "k = (if flt (fdiv n b) (lit 0) then lit 0 else if flt (lit 1) (fdiv n b) then lit 1 else fdiv n b)"
    using assms(1) by (simp add: fclamp_def split: if_splits)
  then show ?thesis using f by (auto simp: flt_finite)
qed

section \<open>Debate transcript\<close>

lemma push_debate_frame [frame_simps]:
  "w_wager_id (push_debate w c) = w_wager_id w" "w_stake_sol (push_debate w c) = w_stake_sol w"
  "w_status (push_debate w c) = w_status w" "w_model_prob (push_debate w c) = w_model_prob w"
  "w_edge (push_debate w c) = w_edge w" "w_proof_ref (push_debate w c) = w_proof_ref w"
  by (simp_all add: push_debate_def Let_def)

definition debate_log :: "wager \<Rightarrow> debate_contribution list" where
  "debate_log w = (case w_debate w of None \<Rightarrow> [] | Some d \<Rightarrow> ds_contributions d)"

lemma debate_log_push [simp]: "debate_log (push_debate w c) = debate_log w @ [c]"
  by (simp add: debate_log_def push_debate_def Let_def split: option.splits)

definition debate_wf :: "wager \<Rightarrow> bool" where
  \<comment> \<open>the recorded round count is the highest round of the transcript\<close>
  "debate_wf w \<longleftrightarrow>
     (case w_debate w of None \<Rightarrow> True
      | Some d \<Rightarrow> ds_converged d \<and> ds_contributions d \<noteq> [] \<and>
                  ds_rounds d = Max (dc_round ` set (ds_contributions d)))"

lemma debate_wf_push: "debate_wf w \<Longrightarrow> debate_wf (push_debate w c)"
  by (auto simp: debate_wf_def push_debate_def Let_def max.commute split: option.splits)

lemma next_round_fresh:
  assumes "debate_wf w" and "c \<in> set (debate_log w)" and "next_debate_round w \<noteq> 0"
  shows "dc_round c < next_debate_round w"
proof -
  obtain d where d: "w_debate w = Some d" "c \<in> set (ds_contributions d)"
    using assms(2) by (cases "w_debate w") (auto simp: debate_log_def)
  have "dc_round c \<le> ds_rounds d" using assms(1) d by (simp add: debate_wf_def)
  moreover have "ds_rounds d < ds_rounds d + 1"
    using assms(3) d unatSuc [of "ds_rounds d"]
    by (simp add: next_debate_round_def word_less_nat_alt add.commute)
  ultimately show ?thesis using d by (simp add: next_debate_round_def)
qed

end
