(* ===== verification/Safety.thy ===== *)
theory Safety
  imports Domain_Types
begin

text \<open>
  \<open>crates/agent-core\<close>: the error taxonomy (\<open>error.rs\<close>), the runtime safety gate
  (\<open>safety.rs\<close>), tool identifiers and the tool trail (\<open>tools.rs\<close>). The wall clock is an
  argument; counters are 64-bit words and wrap, as \<open>fetch_add\<close> and a release build do.
  The capability tokens of \<open>capability.rs\<close> are resolved by the type checker and have
  no run-time behaviour.
\<close>

section \<open>error.rs\<close>

datatype side_effect_status = NotExecuted | Unknown | ExecutedWithError

definition debug_side_effect :: "side_effect_status \<Rightarrow> string" where
  "debug_side_effect s = (case s of NotExecuted \<Rightarrow> ''NotExecuted'' | Unknown \<Rightarrow> ''Unknown''
     | ExecutedWithError \<Rightarrow> ''ExecutedWithError'')"

datatype budget_resource = ToolCallCount | SpendLamports | SessionDurationSeconds

definition debug_resource :: "budget_resource \<Rightarrow> string" where
  "debug_resource r = (case r of ToolCallCount \<Rightarrow> ''ToolCallCount'' | SpendLamports \<Rightarrow> ''SpendLamports''
     | SessionDurationSeconds \<Rightarrow> ''SessionDurationSeconds'')"

text \<open>A boxed source error is the text it displays.\<close>

datatype agent_error =
    Transient string u32
  | ModelOutput string string
  | ToolFail string string side_effect_status string
  | BudgetExceeded budget_resource u64 u64
  | Timeout string u64
  | ToolCallFailed string string
  | ParseError string

definition show_agent_error :: "agent_error \<Rightarrow> string" where
  "show_agent_error e = (case e of
     Transient source attempt \<Rightarrow>
       ''transient error (attempt '' @ show_dec (uint attempt) @ ''): '' @ source
   | ModelOutput raw reason \<Rightarrow> ''unsafe model output: '' @ reason
   | ToolFail tool key side source \<Rightarrow>
       ''tool '' @ [CHR 0x27] @ tool @ [CHR 0x27] @ '' failed (key='' @ key @ '', side_effect=''
       @ debug_side_effect side @ ''): '' @ source
   | BudgetExceeded resource limit current \<Rightarrow>
       ''budget exceeded for '' @ debug_resource resource @ '': limit='' @ show_u64 limit
       @ '', current='' @ show_u64 current
   | Timeout operation deadline \<Rightarrow>
       ''operation '' @ [CHR 0x27] @ operation @ [CHR 0x27] @ '' timed out after ''
       @ show_u64 deadline @ ''ms '' @ ch_dash @ '' side-effect status unknown''
   | ToolCallFailed tool reason \<Rightarrow>
       ''tool call '' @ [CHR 0x27] @ tool @ [CHR 0x27] @ '' failed: '' @ reason
   | ParseError msg \<Rightarrow> ''parse error: '' @ msg)"

definition agent_error_source :: "agent_error \<Rightarrow> string option" where
  "agent_error_source e =
     (case e of Transient source _ \<Rightarrow> Some source | ToolFail _ _ _ source \<Rightarrow> Some source | _ \<Rightarrow> None)"

definition is_retryable :: "agent_error \<Rightarrow> bool" where
  "is_retryable e = (case e of Transient _ _ \<Rightarrow> True | _ \<Rightarrow> False)"

section \<open>safety.rs: the budget guard\<close>

record budget_guard =
  bg_max_tool_calls :: u64
  bg_max_spend :: u64
  bg_max_duration :: u64
  bg_tool_calls :: u64
  bg_spend :: u64
  bg_started_at :: u64

definition bg_new :: "u64 \<Rightarrow> u64 \<Rightarrow> u64 \<Rightarrow> u64 \<Rightarrow> budget_guard" where
  "bg_new now calls spend secs =
     \<lparr>bg_max_tool_calls = calls, bg_max_spend = spend, bg_max_duration = secs,
      bg_tool_calls = 0, bg_spend = 0, bg_started_at = now\<rparr>"

definition default_devnet :: "u64 \<Rightarrow> budget_guard" where
  "default_devnet now = bg_new now 200 1000000 3600"

definition record_tool_call :: "budget_guard \<Rightarrow> budget_guard" where
  "record_tool_call g = g\<lparr>bg_tool_calls := bg_tool_calls g + 1\<rparr>"

definition record_spend :: "u64 \<Rightarrow> budget_guard \<Rightarrow> budget_guard" where
  "record_spend n g = g\<lparr>bg_spend := bg_spend g + n\<rparr>"

definition saturating_sub :: "u64 \<Rightarrow> u64 \<Rightarrow> u64" where
  "saturating_sub a b = (if b \<le> a then a - b else 0)"

definition bg_check :: "u64 \<Rightarrow> budget_guard \<Rightarrow> agent_error + unit" where
  "bg_check now g =
     (if bg_max_tool_calls g \<le> bg_tool_calls g
      then Inl (BudgetExceeded ToolCallCount (bg_max_tool_calls g) (bg_tool_calls g))
      else if bg_max_spend g \<le> bg_spend g
      then Inl (BudgetExceeded SpendLamports (bg_max_spend g) (bg_spend g))
      else let elapsed = saturating_sub now (bg_started_at g) in
           if bg_max_duration g \<le> elapsed
           then Inl (BudgetExceeded SessionDurationSeconds (bg_max_duration g) elapsed)
           else Inr ())"

definition safety_check :: "u64 \<Rightarrow> budget_guard \<Rightarrow> agent_error + unit" where
  "safety_check now g = bg_check now g"

section \<open>safety.rs: the prompt delimiter\<close>

definition max_content_bytes :: nat where
  "max_content_bytes = 32768"

definition open_delim :: "string \<Rightarrow> string" where
  "open_delim label = ''<untrusted_source label='' @ [CHR 0x22] @ label @ [CHR 0x22] @ ''>'' @ [CHR 10]"

definition close_delim :: string where
  "close_delim = [CHR 10] @ ''</untrusted_source>''"

definition wrap_untrusted :: "string \<Rightarrow> string \<Rightarrow> string exec" where
  "wrap_untrusted label content =
     exec_map (\<lambda>t. open_delim label @ t @ close_delim)
       (if max_content_bytes < length content then slice_to content max_content_bytes
        else Return content)"

section \<open>safety.rs: the step counter\<close>

record step_counter =
  stc_max :: u64
  stc_steps :: u64

definition stc_new :: "u64 \<Rightarrow> step_counter" where
  "stc_new m = \<lparr>stc_max = m, stc_steps = 0\<rparr>"

definition tick :: "step_counter \<Rightarrow> (agent_error + unit) \<times> step_counter" where
  "tick c = (let c' = c\<lparr>stc_steps := stc_steps c + 1\<rparr> in
     (if stc_max c' < stc_steps c'
      then Inl (BudgetExceeded ToolCallCount (stc_max c') (stc_steps c')) else Inr (), c'))"

section \<open>tools.rs\<close>

definition idempotency_key :: "string \<Rightarrow> u64 \<Rightarrow> u64 \<Rightarrow> string" where
  "idempotency_key agent_id fixture_id sequence =
     agent_id @ '':'' @ show_u64 fixture_id @ '':'' @ show_u64 sequence"

definition idempotency_key_for :: "string \<Rightarrow> string" where
  "idempotency_key_for content = content"

record tool_trail_entry =
  tt_agent :: string
  tt_tool :: string
  tt_result :: json

definition from_calls :: "string \<Rightarrow> (string \<times> json) list \<Rightarrow> tool_trail_entry list" where
  "from_calls agent calls =
     map (\<lambda>(tool, result). \<lparr>tt_agent = agent, tt_tool = tool, tt_result = result\<rparr>) calls"

section \<open>Bounded meters\<close>

text \<open>
  A meter is consulted at the top of a loop and either admits the iteration, moving to the
  state after it, or stops the loop. An admitted iteration uses some of the resource; an
  iteration is only admitted below the cap. \<open>ok\<close> holds of the states in which no counter
  is about to wrap.
\<close>

locale meter =
  fixes admit :: "'s \<Rightarrow> 's option"
    and used :: "'s \<Rightarrow> nat"
    and cap :: "'s \<Rightarrow> nat"
    and ok :: "'s \<Rightarrow> bool"
  assumes admit_uses: "ok s \<Longrightarrow> admit s = Some t \<Longrightarrow> used s < used t"
    and admit_below: "ok s \<Longrightarrow> admit s = Some t \<Longrightarrow> used s < cap s"
    and admit_cap: "ok s \<Longrightarrow> admit s = Some t \<Longrightarrow> cap t = cap s"
    and admit_ok: "ok s \<Longrightarrow> admit s = Some t \<Longrightarrow> ok t"
begin

fun admitted :: "nat \<Rightarrow> 's \<Rightarrow> nat" where
  "admitted 0 s = 0"
| "admitted (Suc n) s = (case admit s of None \<Rightarrow> 0 | Some t \<Rightarrow> Suc (admitted n t))"

lemma admitted_bound: "ok s \<Longrightarrow> admitted n s \<le> cap s - used s"
proof (induction n arbitrary: s)
  case (Suc n)
  show ?case
  proof (cases "admit s")
    case (Some t)
    then show ?thesis
      using Suc.IH [of t] Suc.prems admit_uses [OF Suc.prems Some] admit_cap [OF Suc.prems Some]
        admit_below [OF Suc.prems Some] admit_ok [OF Suc.prems Some]
      by simp
  qed simp
qed simp

lemma admitted_le: "ok s \<Longrightarrow> admitted n s \<le> cap s"
  using admitted_bound [of s n] by simp

end

definition step_admit :: "step_counter \<Rightarrow> step_counter option" where
  \<comment> \<open>the top of a loop: \<open>tick\<close>, and leave on an error\<close>
  "step_admit c = (case tick c of (Inl _, _) \<Rightarrow> None | (Inr _, c') \<Rightarrow> Some c')"

definition step_ok :: "step_counter \<Rightarrow> bool" where
  \<comment> \<open>with the cap \<open>u64::MAX\<close> the counter would wrap and never stop\<close>
  "step_ok c \<longleftrightarrow> stc_max c \<noteq> - 1"

lemma step_admit_Some:
  "step_admit c = Some c' \<longleftrightarrow>
     c' = c\<lparr>stc_steps := stc_steps c + 1\<rparr> \<and> stc_steps c + 1 \<le> stc_max c"
  by (auto simp: step_admit_def tick_def Let_def)

lemma succ_le_unat:
  fixes a m :: u64
  assumes "a + 1 \<le> m" and "a + 1 \<noteq> 0"
  shows "unat (a + 1) = Suc (unat a)" and "unat a < unat m"
proof -
  show s: "unat (a + 1) = Suc (unat a)" using unatSuc [of a] assms(2) by (simp add: add.commute)
  show "unat a < unat m" using assms(1) s by (simp add: word_le_nat_alt)
qed

lemma unat_u64_less: "unat (a :: u64) < 2 ^ 64"
  by (rule less_le_trans [OF unsigned_less]) simp

lemma succ_nonzero:
  fixes a m :: u64
  assumes "a \<le> m" and "m \<noteq> - 1"
  shows "a + 1 \<noteq> 0"
proof
  assume "a + 1 = 0"
  then have "a = - 1" by (simp add: eq_neg_iff_add_eq_0)
  then show False using assms word_order.extremum_unique [of m] by simp
qed

lemma step_admit_of_nat:
  assumes "m \<noteq> - 1" and "k \<le> unat m"
  shows "step_admit \<lparr>stc_max = m, stc_steps = of_nat k\<rparr> =
    (if k < unat m then Some \<lparr>stc_max = m, stc_steps = of_nat (Suc k)\<rparr> else None)"
proof -
  have "k < 2 ^ 64" using assms(2) unat_u64_less [of m] by simp
  then have "unat (of_nat k :: u64) = k" by (simp add: unat_of_nat take_bit_nat_eq_self)
  then have km: "(of_nat k :: u64) \<le> m" "unat (of_nat k :: u64) = k"
    using assms(2) by (simp_all add: word_le_nat_alt)
  have nz: "(of_nat k :: u64) + 1 \<noteq> 0" using succ_nonzero [OF km(1) assms(1)] .
  then have "unat (1 + (of_nat k :: u64)) = Suc k"
    using unatSuc [of "of_nat k :: u64"] km by (simp add: add.commute)
  then have "unat ((of_nat k :: u64) + 1) = Suc k" by (simp add: add.commute)
  then have "(of_nat k :: u64) + 1 \<le> m \<longleftrightarrow> k < unat m" by (simp add: word_le_nat_alt Suc_le_eq)
  then show ?thesis
    by (cases "step_admit \<lparr>stc_max = m, stc_steps = of_nat k\<rparr>")
       (auto simp: step_admit_Some add.commute step_admit_def tick_def Let_def split: if_splits)
qed

text \<open>\<open>record_tool_call\<close>, \<open>k\<close> times: what a loop body does between two checks.\<close>

definition record_calls :: "nat \<Rightarrow> budget_guard \<Rightarrow> budget_guard" where
  "record_calls k = record_tool_call ^^ k"

lemma record_calls_fields [frame_simps]:
  "bg_tool_calls (record_calls k g) = bg_tool_calls g + of_nat k"
  "bg_max_tool_calls (record_calls k g) = bg_max_tool_calls g"
  "bg_max_spend (record_calls k g) = bg_max_spend g"
  "bg_spend (record_calls k g) = bg_spend g"
  by (induction k arbitrary: g) (simp_all add: record_calls_def record_tool_call_def)

text \<open>
  A session guarded by the budget: each iteration reads the clock, checks the guard and
  records the tool calls of its body. The state is the guard and the script of clock
  readings and body sizes to come.
\<close>

fun guard_admit :: "budget_guard \<times> (u64 \<times> nat) list \<Rightarrow> (budget_guard \<times> (u64 \<times> nat) list) option" where
  "guard_admit (g, []) = None"
| "guard_admit (g, (now, k) # ws) =
     (case safety_check now g of Inl _ \<Rightarrow> None | Inr _ \<Rightarrow> Some (record_calls k g, ws))"

definition guard_ok :: "budget_guard \<times> (u64 \<times> nat) list \<Rightarrow> bool" where
  \<comment> \<open>every iteration calls a tool, and no body is large enough to wrap the counter\<close>
  "guard_ok s \<longleftrightarrow>
     (\<forall>(now, k) \<in> set (snd s). 0 < k \<and> unat (bg_max_tool_calls (fst s)) + k < 2 ^ 64)"

lemma safety_check_Inr:
  "safety_check now g = Inr u \<longleftrightarrow>
     bg_tool_calls g < bg_max_tool_calls g \<and> bg_spend g < bg_max_spend g \<and>
     saturating_sub now (bg_started_at g) < bg_max_duration g"
  by (auto simp: safety_check_def bg_check_def Let_def not_le)

lemma guard_admit_Some:
  "guard_admit (g, ws) = Some t \<longleftrightarrow>
     (\<exists>now k ws'. ws = (now, k) # ws' \<and> safety_check now g = Inr () \<and> t = (record_calls k g, ws'))"
  by (cases ws) (auto split: sum.splits)

lemma unat_plus_k:
  fixes a :: u64
  assumes "unat a + k < 2 ^ 64"
  shows "unat (a + of_nat k) = unat a + k"
proof -
  have "unat (of_nat k :: u64) = k" using assms by (simp add: unat_of_nat take_bit_nat_eq_self)
  then show ?thesis using assms by (simp add: unat_word_ariths)
qed

interpretation stepm: meter step_admit "\<lambda>c. unat (stc_steps c)" "\<lambda>c. unat (stc_max c)"
  "\<lambda>c. step_ok c \<and> stc_steps c \<le> stc_max c"
proof (unfold_locales, goal_cases)
  case (1 s t)
  then show ?case
    using succ_le_unat [of "stc_steps s" "stc_max s"] succ_nonzero [of "stc_steps s" "stc_max s"]
    by (auto simp: step_admit_Some step_ok_def)
next
  case (2 s t)
  then show ?case
    using succ_le_unat [of "stc_steps s" "stc_max s"] succ_nonzero [of "stc_steps s" "stc_max s"]
    by (auto simp: step_admit_Some step_ok_def)
next
  case (3 s t)
  then show ?case by (auto simp: step_admit_Some)
next
  case (4 s t)
  then show ?case by (auto simp: step_admit_Some step_ok_def)
qed

interpretation guardm: meter guard_admit "\<lambda>s. unat (bg_tool_calls (fst s))"
  "\<lambda>s. unat (bg_max_tool_calls (fst s))" guard_ok
proof (unfold_locales, goal_cases)
  case (1 s t)
  then show ?case
    using unat_plus_k [of "bg_tool_calls (fst s)"]
    by (cases s) (fastforce simp: guard_admit_Some guard_ok_def safety_check_Inr
        word_less_nat_alt frame_simps)
next
  case (2 s t)
  then show ?case
    by (cases s) (auto simp: guard_admit_Some safety_check_Inr word_less_nat_alt)
next
  case (3 s t)
  then show ?case by (cases s) (auto simp: guard_admit_Some frame_simps)
next
  case (4 s t)
  then show ?case by (cases s) (auto simp: guard_admit_Some guard_ok_def frame_simps)
qed

section \<open>Properties\<close>

lemma show_u64_no_colon: "CHR '':'' \<notin> set (show_u64 n)"
  using show_u64_digits [of n] by (auto simp: list_all_iff ascii_digit_def)

lemma append_sep_unique:
  "c \<notin> set a \<Longrightarrow> c \<notin> set b \<Longrightarrow> x @ c # a = y @ c # b \<Longrightarrow> x = y \<and> a = b"
proof -
  assume na: "c \<notin> set a" and nb: "c \<notin> set b" and eq: "x @ c # a = y @ c # b"
  have "takeWhile (\<lambda>d. d \<noteq> c) (rev (x @ c # a)) = rev a" using na by (subst rev_append) (simp add: takeWhile_append takeWhile_eq_all_conv)
  moreover have "takeWhile (\<lambda>d. d \<noteq> c) (rev (y @ c # b)) = rev b" using nb by (subst rev_append) (simp add: takeWhile_append takeWhile_eq_all_conv)
  ultimately have "a = b" using eq by simp
  then show "x = y \<and> a = b" using eq by simp
qed

text \<open>
  Two calls share an idempotency key exactly when agent, fixture and sequence number
  agree, whatever characters the agent identifier holds, so a key never identifies two
  different calls.
\<close>

theorem idempotency_key_injective:
  "idempotency_key a f s = idempotency_key a' f' s' \<longleftrightarrow> a = a' \<and> f = f' \<and> s = s'"
proof
  assume "idempotency_key a f s = idempotency_key a' f' s'"
  then have eq: "(a @ CHR '':'' # show_u64 f) @ CHR '':'' # show_u64 s
               = (a' @ CHR '':'' # show_u64 f') @ CHR '':'' # show_u64 s'"
    by (simp add: idempotency_key_def)
  from append_sep_unique [OF show_u64_no_colon show_u64_no_colon eq]
  have "a @ CHR '':'' # show_u64 f = a' @ CHR '':'' # show_u64 f'" "s = s'" by auto
  with append_sep_unique [OF show_u64_no_colon show_u64_no_colon this(1)]
  show "a = a' \<and> f = f' \<and> s = s'" by simp
qed simp

text \<open>
  The prompt delimiter keeps the first 32768 bytes of the content between its two tags,
  and it panics exactly when byte 32768 of a longer content is inside a character: the
  byte-indexed slice is not at a character boundary.
\<close>

theorem wrap_untrusted_spec:
  "wrap_untrusted label content =
     (if max_content_bytes < length content \<and> utf8_cont (content ! max_content_bytes) then Panic
      else Return (open_delim label @ take max_content_bytes content @ close_delim))"
  by (auto simp: wrap_untrusted_def slice_to_def is_char_boundary_def max_content_bytes_def)

text \<open>
  Under the budget guard of a devnet session, a loop whose every iteration calls at least
  one tool is admitted at most 200 times, whatever the clock shows and however many tools an
  iteration calls.
\<close>

theorem devnet_session_bounded:
  assumes "guard_ok (default_devnet t0, script)"
  shows "guardm.admitted n (default_devnet t0, script) \<le> 200"
  using guardm.admitted_le [OF assms, of n] by (simp add: default_devnet_def bg_new_def)

lemma devnet_session_bounded_witness:
  "guardm.admitted 3 (default_devnet 5, [(5, 2), (9, 1)]) \<le> 200"
  by (rule devnet_session_bounded) (simp add: guard_ok_def default_devnet_def bg_new_def)

text \<open>
  A step counter admits exactly \<open>max_steps\<close> ticks from its start, then fails closed on
  every later one (for every cap below \<open>u64::MAX\<close>, at which the counter would wrap).
\<close>

theorem step_counter_admits_max:
  assumes "m \<noteq> - 1"
  shows "stepm.admitted n (stc_new m) = min n (unat m)"
proof -
  have "stepm.admitted n \<lparr>stc_max = m, stc_steps = of_nat k\<rparr> = min n (unat m - k)" if "k \<le> unat m" for k
    using that
  proof (induction n arbitrary: k)
    case (Suc n)
    then show ?case
      using Suc.IH [of "Suc k"] step_admit_of_nat [OF assms Suc.prems]
      by (auto simp: Suc_diff_Suc simp flip: min_Suc_Suc)
  qed simp
  from this [of 0] show ?thesis by (simp add: stc_new_def)
qed

lemma step_counter_admits_max_witness: "stepm.admitted 5 (stc_new 3) = 3"
  using step_counter_admits_max [of 3 5] by simp

end
