(* ===== verification/Tool_Loop.thy ===== *)
theory Tool_Loop
  imports Safety
begin

text \<open>
  \<open>crates/rig-venice/src/loop_runner.rs\<close>: the multi-turn tool loop. The model behind the
  completion endpoint, the tool set and the JSON text conversions are arguments; the loop's
  own state is the message history, the next prompt and the trace of tool results.
  \<open>on_step\<close> acts on a caller state \<open>'s\<close> (for the detector, its budget guard).
\<close>

section \<open>Messages and outcome\<close>

datatype assistant_content =
    TextContent string
  | ToolCallContent (tc_id: string) (tc_name: string) (tc_args: json)

datatype message =
    UserText string
  | UserResults "(string \<times> string) list"
  | AssistantMsg "assistant_content list"

datatype completion = RequestFailed string | SendFailed string | Choice "assistant_content list"

record tool_loop_outcome =
  tlo_tool_calls :: "(string \<times> json) list"
  tlo_final_args :: "json option"

definition tool_result :: "tool_loop_outcome \<Rightarrow> string \<Rightarrow> json option" where
  "tool_result out name =
     map_option snd (find (\<lambda>(n, _). n = name) (rev (tlo_tool_calls out)))"

definition show_tool_loop_error :: "string \<Rightarrow> string" where
  "show_tool_loop_error e = ''tool loop error: '' @ e"

section \<open>The loop\<close>

definition is_tool_call :: "assistant_content \<Rightarrow> bool" where
  "is_tool_call c = (case c of ToolCallContent _ _ _ \<Rightarrow> True | TextContent _ \<Rightarrow> False)"

text \<open>
  The inner \<open>for call in &requested\<close>: state, trace, results for the next prompt and the
  final arguments, first match kept.
\<close>

fun run_calls ::
  "(string \<Rightarrow> string \<Rightarrow> string + string) \<Rightarrow> (json \<Rightarrow> string) \<Rightarrow> (string \<Rightarrow> json option) \<Rightarrow> ('s \<Rightarrow> 's)
     \<Rightarrow> string \<Rightarrow> assistant_content list
     \<Rightarrow> 's \<times> (string \<times> json) list \<times> (string \<times> string) list \<times> json option
     \<Rightarrow> 's \<times> (string \<times> json) list \<times> (string \<times> string) list \<times> json option" where
  "run_calls tools to_string from_str on_step final [] acc = acc"
| "run_calls tools to_string from_str on_step final (c # cs) (s, trace, results, fin) =
     (let s' = on_step s;
          args = to_string (tc_args c);
          fin' = (if tc_name c = final \<and> fin = None then Some (tc_args c) else fin);
          (trace', text) =
            (case tools (tc_name c) args of
               Inr out \<Rightarrow> (case from_str out of Some v \<Rightarrow> (trace @ [(tc_name c, v)], out) | None \<Rightarrow> (trace, out))
             | Inl e \<Rightarrow> (trace, ''tool error: '' @ e))
      in run_calls tools to_string from_str on_step final cs
           (s', trace', results @ [(tc_id c, text)], fin'))"

fun tool_rounds ::
  "(message \<Rightarrow> message list \<Rightarrow> completion) \<Rightarrow> (string \<Rightarrow> string \<Rightarrow> string + string)
     \<Rightarrow> (json \<Rightarrow> string) \<Rightarrow> (string \<Rightarrow> json option) \<Rightarrow> ('s \<Rightarrow> 's) \<Rightarrow> string
     \<Rightarrow> nat \<Rightarrow> message \<Rightarrow> message list \<Rightarrow> (string \<times> json) list \<Rightarrow> 's
     \<Rightarrow> (string + tool_loop_outcome) \<times> 's" where
  "tool_rounds llm tools to_string from_str on_step final 0 prompt history trace s =
     (Inr \<lparr>tlo_tool_calls = trace, tlo_final_args = None\<rparr>, s)"
| "tool_rounds llm tools to_string from_str on_step final (Suc n) prompt history trace s =
     (let s1 = on_step s in
      case llm prompt history of
        RequestFailed e \<Rightarrow> (Inl (''venice completion request failed: '' @ e), s1)
      | SendFailed e \<Rightarrow> (Inl (''venice completion send failed: '' @ e), s1)
      | Choice contents \<Rightarrow>
          (let requested = filter is_tool_call contents in
           if requested = [] then (Inr \<lparr>tlo_tool_calls = trace, tlo_final_args = None\<rparr>, s1)
           else let history' = history @ [prompt, AssistantMsg contents];
                    (s2, trace', results, fin) =
                      run_calls tools to_string from_str on_step final requested (s1, trace, [], None)
                in case fin of
                     Some a \<Rightarrow> (Inr \<lparr>tlo_tool_calls = trace', tlo_final_args = Some a\<rparr>, s2)
                   | None \<Rightarrow> tool_rounds llm tools to_string from_str on_step final n
                               (UserResults results) history' trace' s2))"

definition run_tool_loop ::
  "(message \<Rightarrow> message list \<Rightarrow> completion) \<Rightarrow> (string \<Rightarrow> string \<Rightarrow> string + string)
     \<Rightarrow> (json \<Rightarrow> string) \<Rightarrow> (string \<Rightarrow> json option) \<Rightarrow> ('s \<Rightarrow> 's) \<Rightarrow> string \<Rightarrow> u32 \<Rightarrow> string \<Rightarrow> 's
     \<Rightarrow> (string + tool_loop_outcome) \<times> 's" where
  "run_tool_loop llm tools to_string from_str on_step final max_rounds initial_prompt s =
     tool_rounds llm tools to_string from_str on_step final (unat max_rounds)
       (UserText initial_prompt) [] [] s"

section \<open>The trace holds tool results only\<close>

definition honest_trace ::
  "(string \<Rightarrow> string \<Rightarrow> string + string) \<Rightarrow> (string \<Rightarrow> json option) \<Rightarrow> (string \<times> json) list \<Rightarrow> bool" where
  "honest_trace tools from_str trace \<longleftrightarrow>
     (\<forall>(name, v) \<in> set trace. \<exists>args out. tools name args = Inr out \<and> from_str out = Some v)"

lemma honest_trace_Nil [simp]: "honest_trace tools from_str []"
  by (simp add: honest_trace_def)

lemma run_calls_Cons:
  assumes "run_calls tools to_string from_str on_step final (c # cs) (s, trace, results, fin) = r"
  obtains t1 r1 where
    "run_calls tools to_string from_str on_step final cs
       (on_step s, t1, r1, if tc_name c = final \<and> fin = None then Some (tc_args c) else fin) = r"
    and "t1 = trace \<or> (\<exists>out v. tools (tc_name c) (to_string (tc_args c)) = Inr out \<and> from_str out = Some v \<and>
           t1 = trace @ [(tc_name c, v)])"
  using assms by (cases "tools (tc_name c) (to_string (tc_args c))")
    (auto simp: Let_def split: option.splits)

lemma run_calls_honest:
  assumes "run_calls tools to_string from_str on_step final cs (s, trace, results, fin) = (s', trace', results', fin')"
    and "honest_trace tools from_str trace"
  shows "honest_trace tools from_str trace'"
  using assms
proof (induction cs arbitrary: s trace results fin)
  case (Cons c cs)
  obtain t1 r1 where step: "run_calls tools to_string from_str on_step final cs
      (on_step s, t1, r1, if tc_name c = final \<and> fin = None then Some (tc_args c) else fin)
      = (s', trace', results', fin')"
    and t1: "t1 = trace \<or> (\<exists>out v. tools (tc_name c) (to_string (tc_args c)) = Inr out \<and> from_str out = Some v \<and>
           t1 = trace @ [(tc_name c, v)])"
    by (rule run_calls_Cons [OF Cons.prems(1)])
  have "honest_trace tools from_str t1" using t1 Cons.prems(2) unfolding honest_trace_def by fastforce
  then show ?case using Cons.IH [OF step] by simp
qed simp

lemma tool_rounds_honest:
  assumes "tool_rounds llm tools to_string from_str on_step final n prompt history trace s = (Inr out, s')"
    and "honest_trace tools from_str trace"
  shows "honest_trace tools from_str (tlo_tool_calls out)"
  using assms
proof (induction n arbitrary: prompt history trace s)
  case (Suc n)
  then show ?case
    by (auto simp: Let_def split: completion.splits if_splits prod.splits option.splits
        dest: run_calls_honest elim!: Suc.IH)
qed auto

lemma tool_result_honest:
  assumes "honest_trace tools from_str (tlo_tool_calls out)" and "tool_result out name = Some v"
  shows "\<exists>args text. tools name args = Inr text \<and> from_str text = Some v"
proof -
  have "(name, v) \<in> set (tlo_tool_calls out)"
    using assms(2) by (auto simp: tool_result_def find_Some_iff) (metis nth_mem length_rev set_rev)
  then show ?thesis using assms(1) by (auto simp: honest_trace_def)
qed

section \<open>The run as a dialogue\<close>

text \<open>
  What a run amounts to, written without the loop's variables: the list of the model's replies.
  The first is given to the initial prompt and an empty history, each next one to the results of
  the calls of the reply before it, after a history of everything said so far.
\<close>

abbreviation calls_in :: "assistant_content list \<Rightarrow> assistant_content list" where
  "calls_in contents \<equiv> filter is_tool_call contents"

definition answered_call :: "(string \<Rightarrow> string \<Rightarrow> string + string) \<Rightarrow> (json \<Rightarrow> string) \<Rightarrow> assistant_content \<Rightarrow> string \<times> string" where
  "answered_call tools to_string c =
     (tc_id c, case tools (tc_name c) (to_string (tc_args c)) of Inr out \<Rightarrow> out | Inl e \<Rightarrow> ''tool error: '' @ e)"

definition traced_call ::
  "(string \<Rightarrow> string \<Rightarrow> string + string) \<Rightarrow> (json \<Rightarrow> string) \<Rightarrow> (string \<Rightarrow> json option) \<Rightarrow> assistant_content
     \<Rightarrow> (string \<times> json) option" where
  \<comment> \<open>the entry of the trace for a call: none when the tool fails or its output is no JSON\<close>
  "traced_call tools to_string from_str c =
     (case tools (tc_name c) (to_string (tc_args c)) of
        Inl e \<Rightarrow> None | Inr out \<Rightarrow> map_option (Pair (tc_name c)) (from_str out))"

fun dialogue ::
  "(message \<Rightarrow> message list \<Rightarrow> completion) \<Rightarrow> (string \<Rightarrow> string \<Rightarrow> string + string) \<Rightarrow> (json \<Rightarrow> string)
     \<Rightarrow> message \<Rightarrow> message list \<Rightarrow> assistant_content list list \<Rightarrow> bool" where
  "dialogue llm tools to_string prompt history [] \<longleftrightarrow> True"
| "dialogue llm tools to_string prompt history (reply # replies) \<longleftrightarrow>
     llm prompt history = Choice reply \<and>
     dialogue llm tools to_string (UserResults (map (answered_call tools to_string) (calls_in reply)))
       (history @ [prompt, AssistantMsg reply]) replies"

definition final_call :: "string \<Rightarrow> assistant_content list \<Rightarrow> json option" where
  "final_call final cs = map_option tc_args (find (\<lambda>c. tc_name c = final) cs)"

lemma run_calls_spec:
  "run_calls tools to_string from_str on_step final cs (s, trace, results, fin) =
     ((on_step ^^ length cs) s, trace @ List.map_filter (traced_call tools to_string from_str) cs,
      results @ map (answered_call tools to_string) cs, if fin = None then final_call final cs else fin)"
proof (induction cs arbitrary: s trace results fin)
  case Nil
  then show ?case by (simp add: final_call_def List.map_filter_simps)
next
  case (Cons c cs)
  show ?case
    by (cases "tools (tc_name c) (to_string (tc_args c))")
      (auto simp: Let_def Cons.IH traced_call_def answered_call_def final_call_def List.map_filter_simps
        funpow_swap1 split: option.splits)
qed

lemma tool_rounds_dialogue:
  assumes "tool_rounds llm tools to_string from_str on_step final n prompt history trace s = (Inr out, s')"
  shows "\<exists>replies. dialogue llm tools to_string prompt history replies \<and> length replies \<le> n
    \<and> tlo_tool_calls out = trace @ List.map_filter (traced_call tools to_string from_str) (concat (map calls_in replies))
    \<and> tlo_final_args out = (if replies = [] then None else final_call final (calls_in (last replies)))
    \<and> (\<forall>reply \<in> set (butlast replies). calls_in reply \<noteq> [] \<and> final_call final (calls_in reply) = None)
    \<and> (length replies < n \<longrightarrow> replies \<noteq> [] \<and> (calls_in (last replies) = [] \<or> tlo_final_args out \<noteq> None))
    \<and> s' = (on_step ^^ (length replies + length (concat (map calls_in replies)))) s"
  using assms
proof (induction n arbitrary: prompt history trace s)
  case 0
  then show ?case by (intro exI [of _ "[]"]) (auto simp: List.map_filter_simps)
next
  case (Suc n)
  obtain reply where r: "llm prompt history = Choice reply"
    using Suc.prems by (auto simp: Let_def split: completion.splits)
  show ?case
  proof (cases "calls_in reply = [] \<or> final_call final (calls_in reply) \<noteq> None")
    case True
    have "out = \<lparr>tlo_tool_calls = trace @ List.map_filter (traced_call tools to_string from_str) (calls_in reply),
        tlo_final_args = final_call final (calls_in reply)\<rparr> \<and> s' = (on_step ^^ Suc (length (calls_in reply))) s"
      using True Suc.prems r by (cases "calls_in reply = []")
        (auto simp: Let_def run_calls_spec final_call_def List.map_filter_simps funpow_swap1)
    then show ?thesis using r True by (intro exI [of _ "[reply]"]) auto
  next
    case False
    let ?trace = "trace @ List.map_filter (traced_call tools to_string from_str) (calls_in reply)"
    let ?s = "(on_step ^^ Suc (length (calls_in reply))) s"
    have "tool_rounds llm tools to_string from_str on_step final n
        (UserResults (map (answered_call tools to_string) (calls_in reply))) (history @ [prompt, AssistantMsg reply])
        ?trace ?s = (Inr out, s')"
      using False Suc.prems r by (simp add: Let_def run_calls_spec funpow_swap1)
    from Suc.IH [OF this] obtain replies where d:
      "dialogue llm tools to_string (UserResults (map (answered_call tools to_string) (calls_in reply)))
         (history @ [prompt, AssistantMsg reply]) replies" "length replies \<le> n"
      "tlo_tool_calls out = ?trace @ List.map_filter (traced_call tools to_string from_str) (concat (map calls_in replies))"
      "tlo_final_args out = (if replies = [] then None else final_call final (calls_in (last replies)))"
      "\<forall>reply \<in> set (butlast replies). calls_in reply \<noteq> [] \<and> final_call final (calls_in reply) = None"
      "length replies < n \<longrightarrow> replies \<noteq> [] \<and> (calls_in (last replies) = [] \<or> tlo_final_args out \<noteq> None)"
      "s' = (on_step ^^ (length replies + length (concat (map calls_in replies)))) ?s" by blast
    show ?thesis
    proof (intro exI [of _ "reply # replies"] conjI)
      show "tlo_final_args out = (if reply # replies = [] then None else final_call final (calls_in (last (reply # replies))))"
        using d(4) False by auto
      show "s' = (on_step ^^ (length (reply # replies) + length (concat (map calls_in (reply # replies))))) s"
        unfolding d(7) funpow_add [symmetric, THEN fun_cong, unfolded o_apply] by (simp add: algebra_simps)
    qed (use d r False in \<open>auto simp: map_filter_def\<close>)
  qed
qed

section \<open>Properties\<close>

text \<open>
  C7: whatever the model and the tools answer, a finished tool loop reports exactly what happened
  in it. There is a dialogue of the run, of at most the configured number of replies, each given
  by the model to what the tools answered to the calls of the reply before: the trace lists, in
  order, the parsed outputs of just the calls the model requested in it; the final arguments are
  those of the first call of the final tool in the last reply, which no earlier reply made; the
  run stops early only with final arguments or at a reply without calls; and the step callback ran
  once for every reply and every call.
\<close>

theorem tool_loop_honest:
  assumes "run_tool_loop llm tools to_string from_str on_step final rounds prompt s = (Inr out, s')"
  shows "\<exists>replies. dialogue llm tools to_string (UserText prompt) [] replies \<and> length replies \<le> unat rounds
    \<and> tlo_tool_calls out = List.map_filter (traced_call tools to_string from_str) (concat (map calls_in replies))
    \<and> tlo_final_args out = (if replies = [] then None else final_call final (calls_in (last replies)))
    \<and> (\<forall>reply \<in> set (butlast replies). calls_in reply \<noteq> [] \<and> final_call final (calls_in reply) = None)
    \<and> (length replies < unat rounds \<longrightarrow> replies \<noteq> [] \<and> (calls_in (last replies) = [] \<or> tlo_final_args out \<noteq> None))
    \<and> s' = (on_step ^^ (length replies + length (concat (map calls_in replies)))) s"
  using tool_rounds_dialogue [OF assms [unfolded run_tool_loop_def]] by simp

text \<open>A model that probes once, then submits; and the tool it probes.\<close>

definition probing_llm :: "message \<Rightarrow> message list \<Rightarrow> completion" where
  "probing_llm p h = (if h = [] then Choice [TextContent ''let me see'', ToolCallContent ''1'' ''probe'' JNull]
     else Choice [ToolCallContent ''2'' ''done'' (JInt 1)])"

definition probe_tool :: "string \<Rightarrow> string \<Rightarrow> string + string" where
  "probe_tool name args = (if name = ''probe'' then Inr ''7'' else Inl ''unknown'')"

definition probe_parse :: "string \<Rightarrow> json option" where
  "probe_parse t = (if t = ''7'' then Some (JInt 7) else None)"

lemma probing_run:
  "run_tool_loop probing_llm probe_tool (\<lambda>j. ''null'') probe_parse Suc ''done'' 3 ''go'' 0
     = (Inr \<lparr>tlo_tool_calls = [(''probe'', JInt 7)], tlo_final_args = Some (JInt 1)\<rparr>, 4)"
proof -
  have "unat (3 :: u32) = Suc (Suc (Suc 0))" by simp
  then show ?thesis unfolding run_tool_loop_def
    by (simp only:) (simp add: is_tool_call_def probing_llm_def probe_tool_def probe_parse_def)
qed

theorem tool_loop_honest_witness:
  "\<exists>replies. dialogue probing_llm probe_tool (\<lambda>j. ''null'') (UserText ''go'') [] replies \<and> length replies \<le> 3
    \<and> [(''probe'', JInt 7)] = List.map_filter (traced_call probe_tool (\<lambda>j. ''null'') probe_parse) (concat (map calls_in replies))
    \<and> replies \<noteq> [] \<and> final_call ''done'' (calls_in (last replies)) = Some (JInt 1)"
  using tool_loop_honest [OF probing_run] by (auto split: if_splits)

end
