(* ===== verification/Authority.thy ===== *)
theory Authority
  imports Wager_Math Tool_Loop
begin

text \<open>
  The agents of \<open>native/src/services/agent\<close>: the Authority that rules on every proposed wager
  (\<open>authority.rs\<close>), the wager proposal (\<open>wager_agent.rs\<close>) and the pundit's reaction
  (\<open>pundit_agent.rs\<close>). The language model is reached through \<open>run\<close>: \<open>None\<close> when no client is
  configured, otherwise the tool loop as a function of prompt, final tool and round cap.
  A clamp with unordered bounds panics, so an adjudication is an \<open>exec\<close>.
\<close>

section \<open>authority.rs\<close>

record authority_policy =
  ap_min_edge :: f64
  ap_kelly_mult :: f64
  ap_bankroll :: f64
  ap_cap :: f64

definition from_max_spend :: "f64 \<Rightarrow> authority_policy" where
  "from_max_spend c =
     \<lparr>ap_min_edge = lit (2/100), ap_kelly_mult = lit (1/4),
      ap_bankroll = fmax c (lit 0), ap_cap = fmax c (lit 0)\<rparr>"

record authority_ruling =
  ru_wager :: wager
  ru_reason :: string

text \<open>The reasons, in the order of the checks.\<close>

definition invalid_odds_reason :: "f64 \<Rightarrow> string" where
  "invalid_odds_reason odds = ''invalid market odds '' @ fmt_display odds @ ''; no bet''"

definition degenerate_reason :: "f64 \<Rightarrow> string" where
  "degenerate_reason p = ''degenerate model probability '' @ fmt_display p @ ''; no bet''"

definition thin_edge_reason :: "f64 \<Rightarrow> f64 \<Rightarrow> string" where
  "thin_edge_reason edge min_edge =
     ''edge '' @ fmt_fixed 4 edge @ '' '' @ ch_le @ '' min '' @ fmt_fixed 4 min_edge
     @ ''; no positive-value bet''"

definition zero_kelly_reason :: string where
  "zero_kelly_reason = ''kelly stake rounded to zero; no bet''"

definition staked_reason :: "wager \<Rightarrow> authority_policy \<Rightarrow> f64 \<Rightarrow> f64 \<Rightarrow> bool \<Rightarrow> string" where
  "staked_reason w pol full_kelly staked clamped =
     ''edge '' @ fmt_fixed 4 (w_edge w) @ '' > min '' @ fmt_fixed 4 (ap_min_edge pol) @ ''; ''
     @ fmt_display (ap_kelly_mult pol) @ ch_times @ '' '' @ ''kelly '' @ fmt_fixed 4 full_kelly
     @ '' '' @ ch_arrow @ '' stake '' @ fmt_fixed 5 staked @ '' SOL''
     @ (if clamped then '' [clamped to cap]'' else [])
     @ '' (status '' @ debug_status (w_status w) @ '')''"

definition adjudicate :: "wager \<Rightarrow> f64 \<Rightarrow> authority_policy \<Rightarrow> authority_ruling exec" where
  "adjudicate w market_odds pol =
     (case implied_probability market_odds of
        None \<Rightarrow> Return
          \<lparr>ru_wager = w\<lparr>w_stake_sol := lit 0, w_status := NoBet, w_market_implied := lit 0, w_edge := lit 0\<rparr>,
           ru_reason = invalid_odds_reason market_odds\<rparr>
      | Some implied \<Rightarrow>
          let w1 = w\<lparr>w_market_implied := implied\<rparr> in
          if \<not> (flt (lit 0) (w_model_prob w1) \<and> flt (w_model_prob w1) (lit 1)) then Return
            \<lparr>ru_wager = w1\<lparr>w_stake_sol := lit 0, w_edge := lit 0, w_status := NoBet\<rparr>,
             ru_reason = degenerate_reason (w_model_prob w1)\<rparr>
          else
            let w2 = w1\<lparr>w_edge := fsub (w_model_prob w1) implied,
                        w_fair_odds := fdiv (lit 1) (w_model_prob w1)\<rparr> in
            if fle (w_edge w2) (ap_min_edge pol) then Return
              \<lparr>ru_wager = w2\<lparr>w_stake_sol := lit 0, w_status := NoBet\<rparr>,
               ru_reason = thin_edge_reason (w_edge w2) (ap_min_edge pol)\<rparr>
            else
              exec_bind (kelly_fraction (w_model_prob w2) market_odds) (\<lambda>full_kelly.
              let sized = fmul (fmul full_kelly (ap_kelly_mult pol)) (ap_bankroll pol) in
              exec_bind (fclamp sized (lit 0) (ap_cap pol)) (\<lambda>staked.
              let w3 = w2\<lparr>w_stake_sol := staked\<rparr> in
              if fle staked (lit 0) then Return
                \<lparr>ru_wager = w3\<lparr>w_status := NoBet\<rparr>, ru_reason = zero_kelly_reason\<rparr>
              else
                let clamped = flt f_epsilon (fabs (fsub sized staked));
                    w4 = w3\<lparr>w_status := (if w_proof_ref w3 \<noteq> None then ProofPassed else Debated)\<rparr>
                in Return \<lparr>ru_wager = w4, ru_reason = staked_reason w4 pol full_kelly staked clamped\<rparr>)))"

section \<open>wager\_agent.rs\<close>

record odds_by_selection =
  os_home :: "f64 option"
  os_draw :: "f64 option"
  os_away :: "f64 option"

definition outcome_alias :: "string \<Rightarrow> selection option" where
  "outcome_alias outcome =
     (let s = to_ascii_lowercase outcome in
      if s = ''home'' \<or> s = ''1'' \<or> s = ''h'' then Some Home
      else if s = ''draw'' \<or> s = ''x'' \<or> s = ''d'' then Some Draw
      else if s = ''away'' \<or> s = ''2'' \<or> s = ''a'' then Some Away
      else None)"

definition get_or_insert :: "'a option \<Rightarrow> 'a \<Rightarrow> 'a option" where
  "get_or_insert x d = (case x of Some y \<Rightarrow> Some y | None \<Rightarrow> Some d)"

fun insert_quotes :: "odds_by_selection \<Rightarrow> odds_quote list \<Rightarrow> odds_by_selection" where
  "insert_quotes out [] = out"
| "insert_quotes out (q # qs) = insert_quotes
     (case outcome_alias (oq_outcome q) of
        Some Home \<Rightarrow> out\<lparr>os_home := get_or_insert (os_home out) (oq_decimal q)\<rparr>
      | Some Draw \<Rightarrow> out\<lparr>os_draw := get_or_insert (os_draw out) (oq_decimal q)\<rparr>
      | Some Away \<Rightarrow> out\<lparr>os_away := get_or_insert (os_away out) (oq_decimal q)\<rparr>
      | None \<Rightarrow> out) qs"

definition extract_odds :: "txline_event \<Rightarrow> odds_by_selection" where
  "extract_odds ev =
     (let none = \<lparr>os_home = None, os_draw = None, os_away = None\<rparr> in
      case ev_odds ev of None \<Rightarrow> none | Some quotes \<Rightarrow> insert_quotes none quotes)"

record wager_assessment =
  wa_has_value :: bool
  wa_selection :: "string option"
  wa_thesis :: string

text \<open>
  \<open>serde\<close>'s derived deserializer: an object by field name, unknown fields ignored, or an
  array of the fields in order; only \<open>selection\<close> may be missing.
\<close>

definition opt_string :: "json \<Rightarrow> string option option" where
  "opt_string v = (case v of JNull \<Rightarrow> Some None | JStr s \<Rightarrow> Some (Some s) | _ \<Rightarrow> None)"

definition wager_assessment_of_json :: "json \<Rightarrow> wager_assessment option" where
  "wager_assessment_of_json v = (case v of
     JObj _ \<Rightarrow>
       (case (jget v ''has_value'', jget v ''thesis'',
              case jget v ''selection'' of None \<Rightarrow> Some None | Some s \<Rightarrow> opt_string s) of
          (Some (JBool b), Some (JStr t), Some sel) \<Rightarrow>
            Some \<lparr>wa_has_value = b, wa_selection = sel, wa_thesis = t\<rparr>
        | _ \<Rightarrow> None)
   | JArr [JBool b, s, JStr t] \<Rightarrow>
       map_option (\<lambda>sel. \<lparr>wa_has_value = b, wa_selection = sel, wa_thesis = t\<rparr>) (opt_string s)
   | _ \<Rightarrow> None)"

record wager_proposal =
  wp_ruling :: "authority_ruling option"
  wp_narrative :: string
  wp_tool_trail :: "tool_trail_entry list"

definition submit_wager_assessment :: string where
  "submit_wager_assessment = ''submit_wager_assessment''"

definition match_intelligence_agent :: string where
  "match_intelligence_agent = ''match-intelligence-agent''"

definition wager_prompt :: "u64 \<Rightarrow> f64 \<Rightarrow> f64 \<Rightarrow> f64 \<Rightarrow> string" where
  "wager_prompt fixture home draw away =
     ''Fixture '' @ show_u64 fixture @ ''. Market odds '' @ ch_dash @ '' home: '' @ fmt_fixed 2 home
     @ '', draw: '' @ fmt_fixed 2 draw @ '', away: '' @ fmt_fixed 2 away
     @ ''. Team-fundamentals data is NOT available for this fixture (no form/xG/rank/injuries/h2h feed exists) ''
     @ ch_dash @ '' call compute_model_probability with all-neutral inputs.''"

definition chosen_selection :: "string \<Rightarrow> f64 \<Rightarrow> f64 \<Rightarrow> f64 \<Rightarrow> (selection \<times> f64) option" where
  "chosen_selection s home draw away =
     (let l = to_ascii_lowercase s in
      if l = ''home'' then Some (Home, home) else if l = ''draw'' then Some (Draw, draw)
      else if l = ''away'' then Some (Away, away) else None)"

definition selection_field :: "selection \<Rightarrow> string" where
  "selection_field s = (case s of Home \<Rightarrow> ''home'' | Draw \<Rightarrow> ''draw'' | Away \<Rightarrow> ''away'')"

definition new_wager ::
  "string \<Rightarrow> string \<Rightarrow> u64 \<Rightarrow> selection \<Rightarrow> f64 \<Rightarrow> string \<Rightarrow> string option \<Rightarrow> wager" where
  "new_wager uuid now fixture sel model_prob thesis proof_ref =
     \<lparr>w_wager_id = ''wager-'' @ uuid, w_fixture_id = fixture, w_selection = sel,
      w_model_prob = model_prob, w_market_implied = lit 0, w_edge = lit 0, w_fair_odds = lit 0,
      w_stake_sol = lit 0, w_thesis = thesis, w_proof_ref = proof_ref, w_status = Proposed,
      w_debate = None, w_created_at = now\<rparr>"

definition no_proposal :: "string \<Rightarrow> tool_trail_entry list \<Rightarrow> wager_proposal exec" where
  "no_proposal narrative trail =
     Return \<lparr>wp_ruling = None, wp_narrative = narrative, wp_tool_trail = trail\<rparr>"

text \<open>The part of \<open>propose_wager\<close> after the reasoning loop has returned.\<close>

definition propose_from_outcome ::
  "string \<Rightarrow> string \<Rightarrow> u64 \<Rightarrow> f64 \<times> f64 \<times> f64 \<Rightarrow> string option \<Rightarrow> authority_policy
     \<Rightarrow> tool_loop_outcome \<Rightarrow> wager_proposal exec" where
  "propose_from_outcome uuid now fixture odds proof_ref pol out =
     (let (home, draw, away) = odds;
          trail = from_calls match_intelligence_agent (tlo_tool_calls out) in
      case tlo_final_args out of
        None \<Rightarrow> no_proposal ''agent did not reach a wager decision within the round cap'' trail
      | Some args \<Rightarrow>
      (case wager_assessment_of_json args of
        None \<Rightarrow> no_proposal ''malformed wager assessment; no wager proposed'' trail
      | Some assessment \<Rightarrow>
      if \<not> wa_has_value assessment then no_proposal (wa_thesis assessment) trail
      else (case wa_selection assessment of
        None \<Rightarrow> no_proposal ''agent claimed value but named no selection; no wager proposed'' trail
      | Some sel_text \<Rightarrow>
      (case chosen_selection sel_text home draw away of
        None \<Rightarrow> no_proposal (''unrecognised selection '' @ [CHR 0x27] @ to_ascii_lowercase sel_text
                  @ [CHR 0x27] @ ''; no wager proposed'') trail
      | Some (sel, market_odds) \<Rightarrow>
      (case tool_result out ''compute_model_probability'' of
        None \<Rightarrow> no_proposal ''agent never called compute_model_probability; no wager proposed'' trail
      | Some probs \<Rightarrow>
      (case Option.bind (jget probs (selection_field sel)) as_f64 of
        None \<Rightarrow> no_proposal ''compute_model_probability result missing the chosen selection'' trail
      | Some model_prob \<Rightarrow>
          exec_map (\<lambda>ruling. \<lparr>wp_ruling = Some ruling, wp_narrative = ru_reason ruling, wp_tool_trail = trail\<rparr>)
            (adjudicate (new_wager uuid now fixture sel model_prob (wa_thesis assessment) proof_ref)
               market_odds pol)))))))"

definition propose_wager ::
  "(string \<Rightarrow> string \<Rightarrow> u32 \<Rightarrow> string + tool_loop_outcome) option \<Rightarrow> string \<Rightarrow> string
     \<Rightarrow> txline_event \<Rightarrow> string option \<Rightarrow> authority_policy \<Rightarrow> wager_proposal exec" where
  "propose_wager run uuid now ev proof_ref pol =
     (let odds = extract_odds ev in
      case (os_home odds, os_draw odds, os_away odds) of
        (Some home, Some draw, Some away) \<Rightarrow>
          (case run of
             None \<Rightarrow> no_proposal ''Venice not configured; no wager proposed'' []
           | Some loop \<Rightarrow>
               (case loop (wager_prompt (ev_fixture_id ev) home draw away) submit_wager_assessment 6 of
                  Inl _ \<Rightarrow> no_proposal ''Venice reasoning failed; no wager proposed'' []
                | Inr out \<Rightarrow> propose_from_outcome uuid now (ev_fixture_id ev) (home, draw, away) proof_ref pol out))
      | _ \<Rightarrow> no_proposal ''incomplete 1X2 market odds on this event; no wager proposed'' [])"

section \<open>pundit\_agent.rs\<close>

definition confidence_nudge :: f64 where
  "confidence_nudge = lit (3/100)"

record pundit_verdict =
  pv_stance :: string
  pv_reason :: string

definition pundit_verdict_of_json :: "json \<Rightarrow> pundit_verdict option" where
  "pundit_verdict_of_json v = (case v of
     JObj _ \<Rightarrow>
       (case (jget v ''stance'', jget v ''reason'') of
          (Some (JStr s), Some (JStr r)) \<Rightarrow> Some \<lparr>pv_stance = s, pv_reason = r\<rparr> | _ \<Rightarrow> None)
   | JArr [JStr s, JStr r] \<Rightarrow> Some \<lparr>pv_stance = s, pv_reason = r\<rparr>
   | _ \<Rightarrow> None)"

record pundit_outcome =
  po_updated :: "authority_ruling option"
  po_narrative :: string
  po_tool_trail :: "tool_trail_entry list"

definition submit_pundit_verdict :: string where
  "submit_pundit_verdict = ''submit_pundit_verdict''"

definition fan_pundit_agent :: string where
  "fan_pundit_agent = ''fan-pundit-agent''"

definition pundit_prompt :: "wager \<Rightarrow> string" where
  "pundit_prompt w =
     ''Selection: '' @ debug_selection (w_selection w) @ ''. Model probability: '' @ fmt_fixed 3 (w_model_prob w)
     @ ''. Market-implied probability: '' @ fmt_fixed 3 (w_market_implied w) @ ''. Edge: ''
     @ fmt_fixed 3 (w_edge w) @ ''. Thesis: '' @ w_thesis w"

definition no_reaction :: "string \<Rightarrow> tool_trail_entry list \<Rightarrow> pundit_outcome exec" where
  "no_reaction narrative trail =
     Return \<lparr>po_updated = None, po_narrative = narrative, po_tool_trail = trail\<rparr>"

definition stance_nudge :: "string \<Rightarrow> f64" where
  "stance_nudge s =
     (if s = ''endorse'' then confidence_nudge
      else if s = ''challenge'' \<or> s = ''no_bet'' then fminus confidence_nudge
      else lit 0)"

text \<open>The deterministic part: nudge the probability and send the wager back to the Authority.\<close>

definition pundit_readjudicate ::
  "authority_ruling \<Rightarrow> authority_policy \<Rightarrow> f64 \<Rightarrow> pundit_verdict \<Rightarrow> authority_ruling exec" where
  "pundit_readjudicate ruling pol market_odds v =
     exec_bind (fclamp (fadd (w_model_prob (ru_wager ruling)) (stance_nudge (pv_stance v)))
                  (lit (1/100)) (lit (99/100))) (\<lambda>nudged.
     let w = ru_wager ruling in
     exec_map (\<lambda>upd. if pv_stance v = ''no_bet''
           then \<lparr>ru_wager = (ru_wager upd)\<lparr>w_status := NoBet, w_stake_sol := lit 0\<rparr>,
                 ru_reason = ru_reason upd @ '' [pundit override: severe objection]''\<rparr>
           else upd)
       (adjudicate (w\<lparr>w_model_prob := nudged,
                      w_thesis := w_thesis w @ '' | Pundit '' @ pv_stance v @ '': '' @ pv_reason v\<rparr>)
          market_odds pol))"

definition react_to_wager ::
  "(string \<Rightarrow> string \<Rightarrow> u32 \<Rightarrow> string + tool_loop_outcome) option \<Rightarrow> authority_ruling
     \<Rightarrow> authority_policy \<Rightarrow> pundit_outcome exec" where
  "react_to_wager run ruling pol =
     (if w_status (ru_wager ruling) = NoBet
      then no_reaction ''no live proposal to react to; holding narrative view'' []
      else case run of
        None \<Rightarrow> no_reaction ''Venice not configured; pundit reaction skipped'' []
      | Some loop \<Rightarrow>
      (case loop (pundit_prompt (ru_wager ruling)) submit_pundit_verdict 3 of
        Inl _ \<Rightarrow> no_reaction ''Venice reasoning failed; pundit reaction skipped'' []
      | Inr out \<Rightarrow>
      (let trail = from_calls fan_pundit_agent (tlo_tool_calls out) in
      case tlo_final_args out of
        None \<Rightarrow> no_reaction ''pundit did not reach a verdict within the round cap'' trail
      | Some args \<Rightarrow>
      (case pundit_verdict_of_json args of
        None \<Rightarrow> no_reaction ''malformed pundit verdict; reaction skipped'' trail
      | Some v \<Rightarrow>
      (let market_odds = fdiv (lit 1) (w_market_implied (ru_wager ruling)) in
       if \<not> is_finite market_odds \<or> fle market_odds (lit 1)
       then no_reaction ''could not reconstruct market odds; reaction skipped'' trail
       else exec_map (\<lambda>upd. \<lparr>po_updated = Some upd,
                po_narrative = ''pundit '' @ pv_stance v @ '' ('' @ pv_reason v @ ''): '' @ ru_reason upd,
                po_tool_trail = trail\<rparr>)
              (pundit_readjudicate ruling pol market_odds v))))))"

section \<open>What a ruling changes\<close>

definition same_wager :: "wager \<Rightarrow> wager \<Rightarrow> bool" where
  \<comment> \<open>equal up to the fields the Authority recomputes\<close>
  "same_wager w v \<longleftrightarrow>
     w_wager_id v = w_wager_id w \<and> w_fixture_id v = w_fixture_id w \<and> w_selection v = w_selection w \<and>
     w_model_prob v = w_model_prob w \<and> w_thesis v = w_thesis w \<and> w_proof_ref v = w_proof_ref w \<and>
     w_debate v = w_debate w \<and> w_created_at v = w_created_at w"

definition rederived :: "wager \<Rightarrow> f64 \<Rightarrow> f64 \<Rightarrow> wager_status \<Rightarrow> wager" where
  \<comment> \<open>the wager with the market probability, the recomputed edge and odds, stake and status\<close>
  "rederived w implied stake status =
     w\<lparr>w_market_implied := implied, w_edge := fsub (w_model_prob w) implied,
       w_fair_odds := fdiv (lit 1) (w_model_prob w), w_stake_sol := stake, w_status := status\<rparr>"

lemma rederived_fields [simp]:
  "w_market_implied (rederived w i s st) = i"
  "w_edge (rederived w i s st) = fsub (w_model_prob w) i"
  "w_fair_odds (rederived w i s st) = fdiv (lit 1) (w_model_prob w)"
  "w_stake_sol (rederived w i s st) = s" "w_status (rederived w i s st) = st"
  "w_proof_ref (rederived w i s st) = w_proof_ref w"
  "w_model_prob (rederived w i s st) = w_model_prob w"
  by (simp_all add: rederived_def)

text \<open>A ruling comes from one of the five returns of \<open>adjudicate\<close>.\<close>

inductive ruled :: "wager \<Rightarrow> f64 \<Rightarrow> authority_policy \<Rightarrow> wager \<Rightarrow> bool"
  for w :: wager and d :: f64 and pol :: authority_policy where
  Invalid: "implied_probability d = None \<Longrightarrow>
    ruled w d pol (w\<lparr>w_stake_sol := lit 0, w_status := NoBet, w_market_implied := lit 0, w_edge := lit 0\<rparr>)"
| Degenerate: "implied_probability d = Some i \<Longrightarrow>
    ruled w d pol (w\<lparr>w_market_implied := i, w_stake_sol := lit 0, w_edge := lit 0, w_status := NoBet\<rparr>)"
| Thin: "implied_probability d = Some i \<Longrightarrow> ruled w d pol (rederived w i (lit 0) NoBet)"
| Zero: "implied_probability d = Some i \<Longrightarrow> kelly_fraction (w_model_prob w) d = Return k \<Longrightarrow>
    fclamp (fmul (fmul k (ap_kelly_mult pol)) (ap_bankroll pol)) (lit 0) (ap_cap pol) = Return stake \<Longrightarrow>
    fle stake (lit 0) \<Longrightarrow> ruled w d pol (rederived w i stake NoBet)"
| Bet: "implied_probability d = Some i \<Longrightarrow>
    flt (lit 0) (w_model_prob w) \<Longrightarrow> flt (w_model_prob w) (lit 1) \<Longrightarrow>
    \<not> fle (fsub (w_model_prob w) i) (ap_min_edge pol) \<Longrightarrow>
    kelly_fraction (w_model_prob w) d = Return k \<Longrightarrow>
    fclamp (fmul (fmul k (ap_kelly_mult pol)) (ap_bankroll pol)) (lit 0) (ap_cap pol) = Return stake \<Longrightarrow>
    \<not> fle stake (lit 0) \<Longrightarrow>
    ruled w d pol (rederived w i stake (if w_proof_ref w \<noteq> None then ProofPassed else Debated))"

lemma adjudicate_sized:
  assumes "implied_probability d = Some i" and "flt (lit 0) (w_model_prob w)" "flt (w_model_prob w) (lit 1)"
    and "\<not> fle (fsub (w_model_prob w) i) (ap_min_edge pol)"
    and "kelly_fraction (w_model_prob w) d = Return k"
    and "fclamp (fmul (fmul k (ap_kelly_mult pol)) (ap_bankroll pol)) (lit 0) (ap_cap pol) = s"
  shows "adjudicate w d pol = exec_bind s (\<lambda>stake.
           if fle stake (lit 0)
           then Return \<lparr>ru_wager = rederived w i stake NoBet, ru_reason = zero_kelly_reason\<rparr>
           else let v = rederived w i stake (if w_proof_ref w \<noteq> None then ProofPassed else Debated)
                in Return \<lparr>ru_wager = v, ru_reason = staked_reason v pol k stake
                     (flt f_epsilon (fabs (fsub (fmul (fmul k (ap_kelly_mult pol)) (ap_bankroll pol)) stake)))\<rparr>)"
  using assms by (simp add: adjudicate_def Let_def rederived_def del: lit_01 cong: if_cong)

lemma adjudicate_ruled:
  assumes r: "adjudicate w d pol = Return r" shows "ruled w d pol (ru_wager r)"
proof (cases "implied_probability d")
  case None
  then show ?thesis using r by (auto simp: adjudicate_def intro: ruled.Invalid simp del: lit_01)
next
  case (Some i)
  consider (deg) "\<not> (flt (lit 0) (w_model_prob w) \<and> flt (w_model_prob w) (lit 1))"
    | (thin) "flt (lit 0) (w_model_prob w) \<and> flt (w_model_prob w) (lit 1)"
        "fle (fsub (w_model_prob w) i) (ap_min_edge pol)"
    | (sized) "flt (lit 0) (w_model_prob w)" "flt (w_model_prob w) (lit 1)"
        "\<not> fle (fsub (w_model_prob w) i) (ap_min_edge pol)" by blast
  then show ?thesis
  proof cases
    case deg
    then show ?thesis using r Some
      by (auto simp: adjudicate_def Let_def intro: ruled.Degenerate simp del: lit_01)
  next
    case thin
    then have "ru_wager r = rederived w i (lit 0) NoBet" using r Some
      by (auto simp: adjudicate_def Let_def rederived_def simp del: lit_01)
    then show ?thesis using ruled.Thin [OF Some] by simp
  next
    case sized
    obtain k where k: "kelly_fraction (w_model_prob w) d = Return k"
      using kelly_not_panic by (metis not_panics_iff)
    obtain s where s: "fclamp (fmul (fmul k (ap_kelly_mult pol)) (ap_bankroll pol)) (lit 0) (ap_cap pol) = s"
      by blast
    show ?thesis
      using r ruled.Zero [OF Some k] ruled.Bet [OF Some sized k] s
      unfolding adjudicate_sized [OF Some sized k s]
      by (cases s) (auto simp: Let_def simp del: lit_01 split: if_splits)
  qed
qed

lemma adjudicate_same:
  assumes "adjudicate w d pol = Return r" shows "same_wager w (ru_wager r)"
  using adjudicate_ruled [OF assms]
  by cases (simp_all add: same_wager_def rederived_def)

lemma adjudicate_no_bet:
  assumes "adjudicate w d pol = Return r" and "w_status (ru_wager r) = NoBet"
  shows "fle (w_stake_sol (ru_wager r)) (lit 0)"
  using adjudicate_ruled [OF assms(1)] assms(2)
  by cases (simp_all add: fle_refl split: if_splits)

lemma adjudicate_total: "fle (lit 0) (ap_cap pol) \<Longrightarrow> \<exists>r. adjudicate w d pol = Return r"
proof (cases "adjudicate w d pol")
  case Panic
  assume "fle (lit 0) (ap_cap pol)"
  then show ?thesis using Panic kelly_not_panic [of "w_model_prob w" d]
    by (simp add: adjudicate_def Let_def exec_simps panics_def split: option.splits if_splits)
qed simp

section \<open>The policy derived from the spend cap\<close>

lemma fmax_0: "is_finite (fmax c (lit 0)) \<or> c = Infty False"
  "\<not> is_nan (fmax c (lit 0))" "0 \<le> fval (fmax c (lit 0))" "fle (lit 0) (fmax c (lit 0))"
  "is_f64 c \<Longrightarrow> is_f64 (fmax c (lit 0))"
  by (cases c; auto simp: fmax_def flt_def fle_def)+

lemma rnd_quarter: "rnd (1 / 4) = 1 / 4"
  using rnd_pow2 [of "- 2"] by (simp add: pow2_def)

lemma lit_quarter: "lit (1 / 4) = Fin (1 / 4)"
  using lit_Fin [of "1 / 4"] by (simp add: rnd_quarter)

lemma kelly_sized:
  assumes "is_finite k" "0 \<le> fval k" "fval k \<le> 1" and "is_finite b" "is_f64 b" "0 \<le> fval b"
  shows "is_finite (fmul (fmul k (lit (1/4))) b) \<and>
         0 \<le> fval (fmul (fmul k (lit (1/4))) b) \<and> fval (fmul (fmul k (lit (1/4))) b) \<le> fval b"
proof -
  define q where "q = fmul k (lit (1/4))"
  have k4: "0 \<le> fval k * (1 / 4)" "fval k * (1 / 4) \<le> 1" using assms by auto
  then have "\<bar>fval k * (1 / 4)\<bar> \<le> 2 ^ 53" by simp
  then have q: "is_finite q" "fval q = rnd (fval k * (1 / 4))"
    using fmul_finite [of k "lit (1/4)"] assms by (simp_all add: q_def lit_quarter)
  have q01: "0 \<le> fval q" "fval q \<le> 1"
    using rnd_nonneg [OF k4(1)] rnd_le_rnd [OF k4(2)] q by simp_all
  have b: "rnd (fval b) = fval b" "\<bar>fval b\<bar> < huge" using is_f64_fval [OF assms(5)] by auto
  have qb: "0 \<le> fval q * fval b" "fval q * fval b \<le> fval b"
    using q01 assms(6) by (simp_all add: mult_left_le_one_le)
  have r: "0 \<le> rnd (fval q * fval b)" "rnd (fval q * fval b) \<le> fval b"
    using rnd_nonneg [OF qb(1)] rnd_le_rnd [OF qb(2) b(1)] by simp_all
  then have "\<bar>rnd (fval q * fval b)\<bar> < huge" using b(2) by linarith
  then have "is_finite (fmul q b)" "fval (fmul q b) = rnd (fval q * fval b)"
    using fmul_rnd [of q b] q assms(4) by auto
  then show ?thesis using r by (simp add: q_def)
qed

lemma fclamp_finite:
  assumes "fclamp x (lit 0) hi = Return y" and "is_finite x" and "is_finite hi"
  shows "is_finite y \<and> 0 \<le> fval y \<and> fval y \<le> fval hi"
  using assms by (auto simp: fclamp_def flt_finite fle_finite not_less split: if_splits)

lemma adjudicate_capped:
  assumes r: "adjudicate w d (from_max_spend c) = Return r"
    and d: "is_f64 d" and c: "is_f64 c" "c \<noteq> Infty False"
  shows "is_finite (w_stake_sol (ru_wager r)) \<and> 0 \<le> fval (w_stake_sol (ru_wager r)) \<and>
         fval (w_stake_sol (ru_wager r)) \<le> fval (fmax c (lit 0))"
proof -
  define cap where "cap = fmax c (lit 0)"
  have cap: "is_finite cap" "is_f64 cap" "0 \<le> fval cap"
    using fmax_0 [of c] c by (auto simp: cap_def)
  have sized: "is_finite s \<and> 0 \<le> fval s \<and> fval s \<le> fval cap"
    if "kelly_fraction p d = Return k" "fclamp (fmul (fmul k (lit (1/4))) cap) (lit 0) cap = Return s" for p k s
    using fclamp_finite [OF that(2)] kelly_sized [of k cap] kelly_range [OF that(1) d] cap by auto
  show ?thesis using adjudicate_ruled [OF r]
    by cases (use sized cap in \<open>auto simp: from_max_spend_def cap_def\<close>)
qed

section \<open>Proposal and reaction\<close>

lemma no_proposal_None [simp]: "no_proposal n t = Return wp \<longleftrightarrow>
    wp = \<lparr>wp_ruling = None, wp_narrative = n, wp_tool_trail = t\<rparr>"
  by (auto simp: no_proposal_def)

lemma propose_from_outcome_ruling:
  assumes "propose_from_outcome uuid now fixture (home, draw, away) proof_ref pol out = Return wp"
    and "wp_ruling wp = Some r"
  obtains sel odds why probs p where
    "(sel, odds) \<in> {(Home, home), (Draw, draw), (Away, away)}"
    and "tool_result out ''compute_model_probability'' = Some probs"
    and "Option.bind (jget probs (selection_field sel)) as_f64 = Some p"
    and "adjudicate (new_wager uuid now fixture sel p why proof_ref) odds pol = Return r"
proof -
  define cmp where "cmp = ''compute_model_probability''"
  have r: "propose_from_outcome uuid now fixture (home, draw, away) proof_ref pol out = Return wp"
    using assms(1) .
  obtain args a sel_text sel odds probs p where
      "wager_assessment_of_json args = Some a"
    and c: "chosen_selection sel_text home draw away = Some (sel, odds)"
    and t: "tool_result out cmp = Some probs"
    and p: "Option.bind (jget probs (selection_field sel)) as_f64 = Some p"
    and e: "exec_map (\<lambda>ruling. \<lparr>wp_ruling = Some ruling, wp_narrative = ru_reason ruling,
                wp_tool_trail = from_calls match_intelligence_agent (tlo_tool_calls out)\<rparr>)
            (adjudicate (new_wager uuid now fixture sel p (wa_thesis a) proof_ref) odds pol) = Return wp"
    using r assms(2) unfolding propose_from_outcome_def cmp_def [symmetric] Let_def prod.case
    by (auto split: option.splits prod.splits if_splits)
  have "adjudicate (new_wager uuid now fixture sel p (wa_thesis a) proof_ref) odds pol = Return r"
    using e assms(2) by (auto simp: exec_simps)
  moreover have "(sel, odds) \<in> {(Home, home), (Draw, draw), (Away, away)}"
    using c by (auto simp: chosen_selection_def Let_def split: if_splits)
  ultimately show thesis using that t p unfolding cmp_def by blast
qed

lemma propose_wager_ruling:
  assumes "propose_wager run uuid now ev proof_ref pol = Return wp" and "wp_ruling wp = Some r"
  obtains loop home draw away out where "run = Some loop"
    and "loop (wager_prompt (ev_fixture_id ev) home draw away) submit_wager_assessment 6 = Inr out"
    and "propose_from_outcome uuid now (ev_fixture_id ev) (home, draw, away) proof_ref pol out = Return wp"
    and "os_home (extract_odds ev) = Some home" "os_draw (extract_odds ev) = Some draw"
      "os_away (extract_odds ev) = Some away"
  using assms unfolding propose_wager_def Let_def
  by (auto split: option.splits prod.splits if_splits sum.splits)

lemma lit_cents: "lit (1/100) = Fin (rnd (1/100))" "lit (99/100) = Fin (rnd (99/100))"
  "fle (lit (1/100)) (lit (99/100))"
proof -
  have "rnd (1/100) \<noteq> 0" "rnd (99/100) \<noteq> 0" by code_simp+
  then show "lit (1/100) = Fin (rnd (1/100))" "lit (99/100) = Fin (rnd (99/100))"
    using lit_Fin [of "1/100"] lit_Fin [of "99/100"] by simp_all
  then show "fle (lit (1/100)) (lit (99/100))" using rnd_mono [of "1/100" "99/100"] by (simp add: fle_finite)
qed

lemma pundit_readjudicate_ruling:
  assumes "pundit_readjudicate ruling pol odds v = Return u"
  obtains p t r where "adjudicate ((ru_wager ruling)\<lparr>w_model_prob := p, w_thesis := t\<rparr>) odds pol = Return r"
    and "u = (if pv_stance v = ''no_bet''
              then \<lparr>ru_wager = (ru_wager r)\<lparr>w_status := NoBet, w_stake_sol := lit 0\<rparr>,
                    ru_reason = ru_reason r @ '' [pundit override: severe objection]''\<rparr> else r)"
  using assms unfolding pundit_readjudicate_def Let_def exec_bind_Return_iff exec_map_Return_iff by blast

lemma pundit_readjudicate_total:
  "fle (lit 0) (ap_cap pol) \<Longrightarrow> \<exists>u. pundit_readjudicate ruling pol odds v = Return u"
  using adjudicate_total [of pol] lit_cents(3)
  by (auto simp: pundit_readjudicate_def Let_def exec_simps fclamp_def)

lemma no_reaction_None [simp]: "no_reaction n t = Return po \<longleftrightarrow>
    po = \<lparr>po_updated = None, po_narrative = n, po_tool_trail = t\<rparr>"
  by (auto simp: no_reaction_def)

lemma react_to_wager_updated:
  assumes "react_to_wager run ruling pol = Return po" and "po_updated po = Some u"
  obtains v where "w_status (ru_wager ruling) \<noteq> NoBet"
    and "pundit_readjudicate ruling pol (fdiv (lit 1) (w_market_implied (ru_wager ruling))) v = Return u"
  using assms unfolding react_to_wager_def Let_def
  by (auto simp: exec_simps split: option.splits if_splits sum.splits)

lemma react_to_wager_total:
  assumes "fle (lit 0) (ap_cap pol)" shows "\<exists>po. react_to_wager run ruling pol = Return po"
proof -
  have "\<exists>u. exec_map f (pundit_readjudicate ruling pol odds v) = Return u" for f :: "authority_ruling \<Rightarrow> pundit_outcome" and odds v
    using pundit_readjudicate_total [OF assms, of ruling odds v] by (auto simp: exec_simps)
  then show ?thesis unfolding react_to_wager_def Let_def no_reaction_def
    by (auto split: option.splits if_splits sum.splits)
qed

section \<open>Properties\<close>

text \<open>
  C3: a wager that the Authority does not turn into a no-bet has been re-derived: the market
  probability is the reciprocal of the offered odds, edge and fair odds are computed from the
  model probability, which lies strictly between 0 and 1, the edge exceeds the policy's
  minimum, the stake is not at or below zero, and the status is \<open>ProofPassed\<close> exactly when a proof
  reference is attached and \<open>Debated\<close> otherwise; nothing else of the wager changes.
\<close>

theorem authority_rederives_bet:
  assumes "adjudicate w d pol = Return r" and "w_status (ru_wager r) \<noteq> NoBet"
    and "is_f64 d" and "\<not> is_nan (ap_min_edge pol)"
  shows "same_wager w (ru_wager r) \<and>
         implied_probability d = Some (w_market_implied (ru_wager r)) \<and>
         w_edge (ru_wager r) = fsub (w_model_prob w) (w_market_implied (ru_wager r)) \<and>
         w_fair_odds (ru_wager r) = fdiv (lit 1) (w_model_prob w) \<and>
         flt (lit 0) (w_model_prob w) \<and> flt (w_model_prob w) (lit 1) \<and>
         flt (ap_min_edge pol) (w_edge (ru_wager r)) \<and>
         \<not> fle (w_stake_sol (ru_wager r)) (lit 0) \<and>
         w_status (ru_wager r) = (if w_proof_ref w \<noteq> None then ProofPassed else Debated)"
proof -
  obtain implied stake where b:
    "implied_probability d = Some implied" "flt (lit 0) (w_model_prob w)" "flt (w_model_prob w) (lit 1)"
    "\<not> fle (fsub (w_model_prob w) implied) (ap_min_edge pol)" "\<not> fle stake (lit 0)"
    "ru_wager r = rederived w implied stake (if w_proof_ref w \<noteq> None then ProofPassed else Debated)"
    using adjudicate_ruled [OF assms(1)] assms(2) by cases auto

  have p: "is_finite (w_model_prob w)" "0 < fval (w_model_prob w)" "fval (w_model_prob w) < 1"
    using b(2,3) flt_between_finite [of 0 _ 1] by simp_all
  have i: "is_finite implied" "0 < fval implied" "fval implied < 1"
    using implied_probability_bounds [OF b(1) assms(3)] by auto
  have "\<bar>fval (w_model_prob w) - fval implied\<bar> \<le> 2 ^ 53" using p i by (simp add: abs_le_iff)
  then have "is_finite (fsub (w_model_prob w) implied)" using fsub_finite p i by blast
  then have "flt (ap_min_edge pol) (fsub (w_model_prob w) implied)"
    using b(4) assms(4) fle_total [OF assms(4) not_nan_finite] by (auto simp: flt_def)
  then show ?thesis using b adjudicate_same [OF assms(1)] by simp
qed

text \<open>
  C2: under the policy derived from the configured spend cap the Authority always returns a
  ruling (no clamp panics) whose status is no-bet, debated or proof-passed and whose stake is
  a finite amount between zero and the cap; a no-bet stakes nothing. This holds for every
  cap but positive infinity, negative and NaN caps included, and every price.
\<close>

theorem authority_stake_capped:
  assumes "is_f64 d" and "is_f64 c" and "c \<noteq> Infty False"
  shows "\<exists>r. adjudicate w d (from_max_spend c) = Return r \<and>
           w_status (ru_wager r) \<in> {NoBet, Debated, ProofPassed} \<and>
           is_finite (w_stake_sol (ru_wager r)) \<and> 0 \<le> fval (w_stake_sol (ru_wager r)) \<and>
           fval (w_stake_sol (ru_wager r)) \<le> fval (fmax c (lit 0)) \<and>
           (w_status (ru_wager r) = NoBet \<longrightarrow> fval (w_stake_sol (ru_wager r)) = 0)"
proof -
  obtain r where r: "adjudicate w d (from_max_spend c) = Return r"
    using adjudicate_total [of "from_max_spend c"] fmax_0(4) [of c] by (auto simp: from_max_spend_def)
  have st: "w_status (ru_wager r) \<in> {NoBet, Debated, ProofPassed}"
    using adjudicate_ruled [OF r] by cases simp_all
  have cap: "is_finite (w_stake_sol (ru_wager r)) \<and> 0 \<le> fval (w_stake_sol (ru_wager r)) \<and>
         fval (w_stake_sol (ru_wager r)) \<le> fval (fmax c (lit 0))"
    using adjudicate_capped [OF r assms] .
  moreover have "w_status (ru_wager r) = NoBet \<longrightarrow> fval (w_stake_sol (ru_wager r)) = 0"
    using adjudicate_no_bet [OF r] cap by (auto simp: fle_finite)
  ultimately show ?thesis using r st by blast
qed

text \<open>The sample wager of the unit tests, with a model probability and a proof reference.\<close>

definition sample_wager :: "f64 \<Rightarrow> string option \<Rightarrow> wager" where
  "sample_wager p proof = (new_wager ''1'' ''2026-01-01T00:00:00.000Z'' 1 Home p ''test'' proof)"

lemma sample_bet:
  assumes "adjudicate (sample_wager (lit (6/10)) proof) (lit 2) (from_max_spend (lit (5/100))) = Return r"
  shows "w_status (ru_wager r) = (if proof \<noteq> None then ProofPassed else Debated)"
proof -
  let ?w = "sample_wager (lit (6/10)) proof" and ?pol = "from_max_spend (lit (5/100))"
  have p: "w_model_prob ?w = lit (6/10)" by (simp add: sample_wager_def new_wager_def)
  have i: "implied_probability (lit 2) = Some (lit (1/2))" by code_simp
  have a: "flt (lit 0) (lit (6/10))" "flt (lit (6/10)) (lit 1)" by code_simp+
  have e: "\<not> fle (fsub (lit (6/10)) (lit (1/2))) (ap_min_edge ?pol)" by code_simp
  let ?k = "Fin (900719925474099 / 4503599627370496)" and ?s = "Fin (2882303761517117 / 1152921504606846976)"
  have f: "lit 2 = Fin 2" "fsub (Fin 2) (Fin 1) = Fin 1" "lit (6/10) = Fin (5404319552844595 / 9007199254740992)"
    "fsub (Fin 1) (Fin (5404319552844595 / 9007199254740992)) = Fin (3602879701896397 / 9007199254740992)"
    "fmul (Fin 1) (Fin (5404319552844595 / 9007199254740992)) = Fin (5404319552844595 / 9007199254740992)"
    "fdiv (fsub (Fin (5404319552844595 / 9007199254740992)) (Fin (3602879701896397 / 9007199254740992))) (Fin 1) = ?k"
    by code_simp+
  have k: "kelly_fraction (lit (6/10)) (lit 2) = Return ?k"
    unfolding kelly_fraction_def lit_01 f Let_def by (simp add: fle_finite flt_finite fclamp_def)
  have pol: "ap_kelly_mult ?pol = Fin (1/4)" "ap_bankroll ?pol = Fin (3602879701896397 / 72057594037927936)"
      "ap_cap ?pol = Fin (3602879701896397 / 72057594037927936)" by code_simp+
  have m: "fmul ?k (Fin (1/4)) = Fin (900719925474099 / 18014398509481984)"
    "fmul (Fin (900719925474099 / 18014398509481984)) (Fin (3602879701896397 / 72057594037927936)) = ?s" by code_simp+
  have s: "fclamp (fmul (fmul ?k (ap_kelly_mult ?pol)) (ap_bankroll ?pol)) (lit 0) (ap_cap ?pol) = Return ?s"
    unfolding pol m by code_simp
  have pos: "\<not> fle ?s (lit 0)" by code_simp

  have href: "w_proof_ref ?w = proof" by (simp add: sample_wager_def new_wager_def)
  show ?thesis
    using assms adjudicate_sized [of "lit 2" "lit (1/2)" ?w ?pol ?k "Return ?s"] i a e k s pos p href
    by (auto simp: Let_def simp del: lit_01)
qed

lemma authority_rederives_bet_witness:
  "\<exists>r. adjudicate (sample_wager (lit (6/10)) None) (lit 2) (from_max_spend (lit (5/100))) = Return r \<and>
       w_status (ru_wager r) = Debated \<and> flt (ap_min_edge (from_max_spend (lit (5/100)))) (w_edge (ru_wager r))"
proof -
  let ?pol = "from_max_spend (lit (5/100))"
  have cap: "fle (lit 0) (ap_cap ?pol)" by code_simp
  obtain r where r: "adjudicate (sample_wager (lit (6/10)) None) (lit 2) ?pol = Return r"
    using adjudicate_total [OF cap] by blast
  have st: "w_status (ru_wager r) = Debated" using sample_bet [OF r] by simp
  have "\<not> is_nan (ap_min_edge ?pol)" "is_f64 (lit 2)"
    by (simp_all add: from_max_spend_def lit_finite)
  then show ?thesis using authority_rederives_bet [OF r] st r by auto
qed

lemma authority_stake_capped_witness:
  "\<exists>r. adjudicate (sample_wager (lit (9/10)) None) (lit 2) (from_max_spend (lit (5/100))) = Return r \<and>
       fval (w_stake_sol (ru_wager r)) \<le> fval (fmax (lit (5/100)) (lit 0))"
proof -
  have "is_f64 (lit 2)" "is_f64 (lit (5/100))" "lit (5/100) \<noteq> Infty False"
    by (simp_all add: lit_not_Infty)
  from authority_stake_capped [OF this, of "sample_wager (lit (9/10)) None"] show ?thesis by blast
qed

text \<open>
  C4: the pundit's reaction never panics and cannot loosen the Authority: whatever verdict the
  model submits, the updated ruling stakes between zero and the cap, a no-bet stakes nothing,
  the wager's identity and proof reference are untouched, a wager without proof reference
  does not reach \<open>ProofPassed\<close>, and a ruling that was already a no-bet is never revived.
\<close>

theorem pundit_stays_capped:
  assumes "is_f64 (w_market_implied (ru_wager ruling))" and "is_f64 c" and "c \<noteq> Infty False"
  shows "\<exists>po. react_to_wager run ruling (from_max_spend c) = Return po \<and>
     (case po_updated po of None \<Rightarrow> True | Some u \<Rightarrow>
        w_status (ru_wager ruling) \<noteq> NoBet \<and>
        is_finite (w_stake_sol (ru_wager u)) \<and> 0 \<le> fval (w_stake_sol (ru_wager u)) \<and>
        fval (w_stake_sol (ru_wager u)) \<le> fval (fmax c (lit 0)) \<and>
        (w_status (ru_wager u) = NoBet \<longrightarrow> fval (w_stake_sol (ru_wager u)) = 0) \<and>
        (w_status (ru_wager u) = ProofPassed \<longrightarrow> w_proof_ref (ru_wager ruling) \<noteq> None) \<and>
        w_wager_id (ru_wager u) = w_wager_id (ru_wager ruling) \<and>
        w_selection (ru_wager u) = w_selection (ru_wager ruling) \<and>
        w_proof_ref (ru_wager u) = w_proof_ref (ru_wager ruling))"
proof -
  define cap where "cap = fmax c (lit 0)"
  have cap: "is_finite cap" "0 \<le> fval cap" "fle (lit 0) (ap_cap (from_max_spend c))"
    using fmax_0 [of c] assms by (auto simp: cap_def from_max_spend_def)
  obtain po where po: "react_to_wager run ruling (from_max_spend c) = Return po"
    using react_to_wager_total [OF cap(3)] by blast
  let ?d = "fdiv (lit 1) (w_market_implied (ru_wager ruling))"
  have d: "is_f64 ?d" using assms(1) by simp
  show ?thesis
  proof (cases "po_updated po")
    case None
    then show ?thesis using po by auto
  next
    case (Some u)
    obtain v where nb: "w_status (ru_wager ruling) \<noteq> NoBet"
      and v: "pundit_readjudicate ruling (from_max_spend c) ?d v = Return u"
      by (rule react_to_wager_updated [OF po Some])
    obtain p t r where
      r: "adjudicate ((ru_wager ruling)\<lparr>w_model_prob := p, w_thesis := t\<rparr>) ?d (from_max_spend c) = Return r"
      and u: "u = (if pv_stance v = ''no_bet''
              then \<lparr>ru_wager = (ru_wager r)\<lparr>w_status := NoBet, w_stake_sol := lit 0\<rparr>,
                    ru_reason = ru_reason r @ '' [pundit override: severe objection]''\<rparr> else r)"
      by (rule pundit_readjudicate_ruling [OF v])
    have same: "same_wager ((ru_wager ruling)\<lparr>w_model_prob := p, w_thesis := t\<rparr>) (ru_wager r)"
      using adjudicate_same [OF r] .
    have st: "w_status (ru_wager r) = ProofPassed \<longrightarrow> w_proof_ref (ru_wager ruling) \<noteq> None"
      using adjudicate_ruled [OF r] by cases (auto split: if_splits)
    have stake: "is_finite (w_stake_sol (ru_wager r)) \<and> 0 \<le> fval (w_stake_sol (ru_wager r)) \<and>
        fval (w_stake_sol (ru_wager r)) \<le> fval cap"
      using adjudicate_capped [OF r d assms(2,3)] by (simp add: cap_def)
    have "w_status (ru_wager r) = NoBet \<longrightarrow> fval (w_stake_sol (ru_wager r)) = 0"
      using adjudicate_no_bet [OF r] stake by (auto simp: fle_finite)
    then show ?thesis
      using po Some nb same st stake cap u by (auto simp: same_wager_def cap_def)
  qed
qed

definition sample_ruling :: authority_ruling where
  "sample_ruling = \<lparr>ru_wager = (sample_wager (lit (6/10)) None)\<lparr>w_market_implied := lit (1/2), w_status := Debated\<rparr>,
     ru_reason = ''edge positive''\<rparr>"

lemma pundit_stays_capped_witness:
  "\<exists>po. react_to_wager (Some (\<lambda>p f n. Inr \<lparr>tlo_tool_calls = [],
        tlo_final_args = Some (JArr [JStr ''endorse'', JStr ''solid''])\<rparr>))
      sample_ruling (from_max_spend (lit (5/100))) = Return po"
proof -
  have "w_market_implied (ru_wager sample_ruling) = lit (1/2)" by (simp add: sample_ruling_def)
  then have "is_f64 (w_market_implied (ru_wager sample_ruling))" by simp
  moreover have "is_f64 (lit (5/100))" "lit (5/100) \<noteq> Infty False" by (simp_all add: lit_not_Infty)
  ultimately show ?thesis using pundit_stays_capped by blast
qed

text \<open>
  A proposed wager trusts tools, not the model. When the reasoning is the modelled tool
  loop, the model probability of the adjudicated wager is the number that a genuine call of
  \<open>compute_model_probability\<close> returned for the chosen selection, and the price the Authority
  uses is the event's own quote for that selection.
\<close>

theorem proposal_uses_tool_probability:
  assumes "propose_wager (Some (\<lambda>prompt final n.
             fst (run_tool_loop llm tools to_string from_str on_step final n prompt s)))
           uuid now ev proof_ref pol = Return wp"
    and "wp_ruling wp = Some r"
  shows "(\<exists>args text v. tools ''compute_model_probability'' args = Inr text \<and> from_str text = Some v \<and>
            Option.bind (jget v (selection_field (w_selection (ru_wager r)))) as_f64
              = Some (w_model_prob (ru_wager r))) \<and>
         (\<exists>odds w. (w_selection (ru_wager r), Some odds) \<in>
              {(Home, os_home (extract_odds ev)), (Draw, os_draw (extract_odds ev)),
               (Away, os_away (extract_odds ev))} \<and> adjudicate w odds pol = Return r)"
proof -
  obtain home draw away out where
    run: "fst (run_tool_loop llm tools to_string from_str on_step submit_wager_assessment 6
            (wager_prompt (ev_fixture_id ev) home draw away) s) = Inr out"
    and pf: "propose_from_outcome uuid now (ev_fixture_id ev) (home, draw, away) proof_ref pol out = Return wp"
    and odds: "os_home (extract_odds ev) = Some home" "os_draw (extract_odds ev) = Some draw"
      "os_away (extract_odds ev) = Some away"
    by (rule propose_wager_ruling [OF assms]) auto
  obtain sel d why probs p where sel: "(sel, d) \<in> {(Home, home), (Draw, draw), (Away, away)}"
    and t: "tool_result out ''compute_model_probability'' = Some probs"
    and p: "Option.bind (jget probs (selection_field sel)) as_f64 = Some p"
    and adj: "adjudicate (new_wager uuid now (ev_fixture_id ev) sel p why proof_ref) d pol = Return r"
    by (rule propose_from_outcome_ruling [OF pf assms(2)])
  have fields: "w_selection (ru_wager r) = sel" "w_model_prob (ru_wager r) = p"
    using adjudicate_same [OF adj] by (simp_all add: same_wager_def new_wager_def)
  obtain s' where "run_tool_loop llm tools to_string from_str on_step submit_wager_assessment 6
            (wager_prompt (ev_fixture_id ev) home draw away) s = (Inr out, s')"
    using run by (metis prod.collapse)
  then have "honest_trace tools from_str (tlo_tool_calls out)"
    unfolding run_tool_loop_def by (rule tool_rounds_honest) simp
  from tool_result_honest [OF this t] show ?thesis using p fields adj sel odds by auto
qed

text \<open>A scripted run: one tool call, then the final assessment, on a complete 1X2 market.\<close>

definition sample_quote :: "string \<Rightarrow> f64 \<Rightarrow> odds_quote" where
  "sample_quote outcome d = \<lparr>oq_fixture_id = 1, oq_outcome = outcome, oq_decimal = d,
     oq_implied_probability = fdiv (lit 1) d, oq_source = None, oq_ts = ''t''\<rparr>"

definition sample_event :: "odds_quote list option \<Rightarrow> txline_event" where
  "sample_event odds = \<lparr>ev_id = ''event'', ev_kind = OddsUpdate, ev_fixture_id = 1, ev_seq = Some 1,
     ev_txline_ts = None, ev_action = None, ev_confirmed = None, ev_participant = None, ev_period = None,
     ev_stat_keys = [], ev_schema_family = None, ev_title = ''title'', ev_body = ''body'', ev_ts = ''t'',
     ev_raw = None, ev_odds = odds, ev_score = None, ev_proof = None\<rparr>"

definition sample_llm :: "message \<Rightarrow> message list \<Rightarrow> completion" where
  "sample_llm p h =
     (if h = [] then Choice [ToolCallContent ''1'' ''compute_model_probability'' JNull]
      else Choice [ToolCallContent ''2'' submit_wager_assessment (JArr [JBool True, JStr ''home'', JStr ''value''])])"

definition sample_tools :: "string \<Rightarrow> string \<Rightarrow> string + string" where
  "sample_tools name args = (if name = submit_wager_assessment then Inl ''done'' else Inr ''probs'')"

definition sample_parse :: "string \<Rightarrow> json option" where
  "sample_parse t = Some (JObj [(''home'', JInt 0)])"

lemma sample_run:
  "fst (run_tool_loop sample_llm sample_tools (\<lambda>j. ''args'') sample_parse id submit_wager_assessment 6 prompt ())
   = Inr \<lparr>tlo_tool_calls = [(''compute_model_probability'', JObj [(''home'', JInt 0)])],
          tlo_final_args = Some (JArr [JBool True, JStr ''home'', JStr ''value''])\<rparr>"
proof -
  have six: "unat (6 :: u32) = Suc (Suc (Suc (Suc (Suc (Suc 0)))))" by simp
  show ?thesis unfolding run_tool_loop_def six
    by (simp add: sample_llm_def sample_tools_def sample_parse_def is_tool_call_def submit_wager_assessment_def)
qed

lemma proposal_uses_tool_probability_witness:
  "\<exists>wp r args text. propose_wager (Some (\<lambda>prompt final n.
        fst (run_tool_loop sample_llm sample_tools (\<lambda>j. ''args'') sample_parse id final n prompt ())))
      ''1'' ''now'' (sample_event (Some [sample_quote ''home'' (lit 2), sample_quote ''X'' (lit 3),
        sample_quote ''2'' (lit 4)])) None (from_max_spend (lit (5/100))) = Return wp \<and> wp_ruling wp = Some r \<and>
      sample_tools ''compute_model_probability'' args = Inr text"
proof -
  let ?ev = "sample_event (Some [sample_quote ''home'' (lit 2), sample_quote ''X'' (lit 3), sample_quote ''2'' (lit 4)])"
  let ?pol = "from_max_spend (lit (5/100))"
  let ?run = "\<lambda>prompt final n. fst (run_tool_loop sample_llm sample_tools (\<lambda>j. ''args'') sample_parse id final n prompt ())"
  have names: "outcome_alias ''home'' = Some Home" "outcome_alias ''X'' = Some Draw" "outcome_alias ''2'' = Some Away"
    by code_simp+
  have odds: "extract_odds ?ev = \<lparr>os_home = Some (lit 2), os_draw = Some (lit 3), os_away = Some (lit 4)\<rparr>"
    by (simp add: extract_odds_def sample_event_def sample_quote_def names get_or_insert_def del: lit_01)
  have cap: "fle (lit 0) (ap_cap ?pol)" by code_simp
  obtain r where r: "adjudicate (new_wager ''1'' ''now'' 1 Home (of_int_f64 0) ''value'' None) (lit 2) ?pol = Return r"
    using adjudicate_total [OF cap] by blast
  have fx: "ev_fixture_id ?ev = 1" by (simp add: sample_event_def)
  have ch: "chosen_selection ''home'' (lit 2) (lit 3) (lit 4) = Some (Home, lit 2)" by code_simp
  have as: "as_f64 (JInt 0) = Some (of_int_f64 0)" by simp
  have "\<exists>wp. propose_wager (Some ?run) ''1'' ''now'' ?ev None ?pol = Return wp \<and> wp_ruling wp = Some r"
    unfolding propose_wager_def odds
    using ch as r
    by (simp add: fx Let_def sample_run propose_from_outcome_def wager_assessment_of_json_def opt_string_def
        tool_result_def selection_field_def del: lit_01)
  then obtain wp where wp: "propose_wager (Some ?run) ''1'' ''now'' ?ev None ?pol = Return wp" "wp_ruling wp = Some r"
    by blast
  from proposal_uses_tool_probability [OF wp] show ?thesis using wp by blast
qed

end
