(* ===== verification/Proof_Guard.thy ===== *)
theory Proof_Guard
  imports Authority
begin

text \<open>
  \<open>crates/agent-core/src/proof_guard.rs\<close>: the consistency checks a wager must pass before
  settlement. The shortened proof reference in a failure message is a byte slice, which
  panics inside a multi-byte character, so the checks are \<open>exec\<close> computations; \<open>uni\<close> is
  the \<open>Debug\<close> rendering of a non-ASCII character.
\<close>

section \<open>Definitions\<close>

record proof_guard_config =
  gc_consistency_tol :: f64
  gc_max_devnet_spend :: f64

definition default_config :: proof_guard_config where
  "default_config = \<lparr>gc_consistency_tol = lit (2/100), gc_max_devnet_spend = lit (5/100)\<rparr>"

record proof_guard_verdict =
  gv_passed :: bool
  gv_failures :: "string list"
  gv_wager :: wager

definition is_valid_proof_ref :: "string \<Rightarrow> bool" where
  "is_valid_proof_ref s \<longleftrightarrow>
     8 \<le> length s \<and>
     list_all (\<lambda>c. ascii_alnum c \<or> c \<in> {CHR '':'', CHR ''_'', CHR ''-'', CHR ''.'', CHR ''/''}) s"

definition shorten :: "string \<Rightarrow> string exec" where
  "shorten s =
     (if length s \<le> 20 then Return s
      else exec_bind (slice_to s 12) (\<lambda>a.
           exec_map (\<lambda>b. a @ ch_ellipsis @ b) (slice_from s (length s - 4))))"

text \<open>The five checks, each the list of the messages it pushes.\<close>

definition check_model_prob :: "wager \<Rightarrow> string list" where
  "check_model_prob w =
     (if is_finite (w_model_prob w) \<and> flt (lit 0) (w_model_prob w) \<and> flt (w_model_prob w) (lit 1) then []
      else [''model probability '' @ fmt_display (w_model_prob w) @ '' outside (0, 1)''])"

definition check_edge :: "wager \<Rightarrow> proof_guard_config \<Rightarrow> string list" where
  "check_edge w cfg =
     (if is_finite (w_market_implied w) \<and> flt (lit 0) (w_market_implied w) \<and> flt (w_market_implied w) (lit 1)
      then let expected = fsub (w_model_prob w) (w_market_implied w) in
           if flt (gc_consistency_tol cfg) (fabs (fsub expected (w_edge w)))
           then [''edge '' @ fmt_signed 4 (w_edge w) @ '' inconsistent with model'' @ ch_minus @ ''market ''
                 @ fmt_signed 4 expected @ '' (tol '' @ fmt_display (gc_consistency_tol cfg) @ '')'']
           else []
      else [''market-implied probability '' @ fmt_display (w_market_implied w) @ '' outside (0, 1)''])"

definition check_fair_odds :: "wager \<Rightarrow> proof_guard_config \<Rightarrow> string list" where
  "check_fair_odds w cfg =
     (if flt (lit 0) (w_model_prob w) then
        (case implied_probability (w_fair_odds w) of
           None \<Rightarrow> [''fair odds '' @ fmt_display (w_fair_odds w) @ '' not a valid price'']
         | Some implied \<Rightarrow>
             if flt (gc_consistency_tol cfg) (fabs (fsub implied (w_model_prob w)))
             then [''fair odds '' @ fmt_display (w_fair_odds w) @ '' imply '' @ fmt_fixed 3 implied
                   @ '', not model '' @ fmt_fixed 3 (w_model_prob w)]
             else [])
      else [])"

definition check_stake :: "wager \<Rightarrow> string list" where
  "check_stake w =
     (if is_finite (w_stake_sol w) \<and> fle (lit 0) (w_stake_sol w) then []
      else [''stake '' @ fmt_display (w_stake_sol w) @ '' is negative or non-finite''])"

definition check_proof :: "(string \<Rightarrow> string) \<Rightarrow> string option \<Rightarrow> string list exec" where
  "check_proof uni proof_ref =
     (case proof_ref of
        None \<Rightarrow> Return [''no proof attestation (txoracle reference) present'']
      | Some pr \<Rightarrow>
          if \<not> is_valid_proof_ref pr
          then exec_map (\<lambda>s. [''proof reference '' @ debug_str uni s @ '' is malformed / placeholder''])
                 (shorten pr)
          else Return [])"

definition run_checks ::
  "(string \<Rightarrow> string) \<Rightarrow> wager \<Rightarrow> string option \<Rightarrow> proof_guard_config \<Rightarrow> string list exec" where
  "run_checks uni w proof_ref cfg =
     exec_map (\<lambda>p. check_model_prob w @ check_edge w cfg @ check_fair_odds w cfg @ check_stake w @ p)
       (check_proof uni proof_ref)"

definition verify ::
  "(string \<Rightarrow> string) \<Rightarrow> wager \<Rightarrow> string option \<Rightarrow> proof_guard_config \<Rightarrow> proof_guard_verdict exec" where
  "verify uni w proof_ref cfg =
     (if w_status w = NoBet \<or> fle (w_stake_sol w) (lit 0)
      then Return \<lparr>gv_passed = True, gv_failures = [], gv_wager = w\<rparr>
      else exec_bind (run_checks uni w proof_ref cfg) (\<lambda>failures.
        if failures = [] then
          let pr = unwrap_or [] proof_ref in
          exec_map (\<lambda>short. \<lparr>gv_passed = True, gv_failures = [],
              gv_wager = w\<lparr>w_proof_ref := Some pr, w_status := ProofPassed,
                w_thesis := w_thesis w @ '' | Proof-guard PASSED: edge/odds consistent, attestation ''
                  @ short @ '' present, stake within cap.''\<rparr>\<rparr>) (shorten pr)
        else
          let reason = join_with ''; '' failures in
          Return \<lparr>gv_passed = False, gv_failures = failures,
            gv_wager = w\<lparr>w_status := ProofFailed,
              w_thesis := w_thesis w @ '' | Proof-guard FAILED: '' @ reason\<rparr>\<rparr>))"

section \<open>When the guard panics\<close>

lemma valid_ref_ascii: "is_valid_proof_ref s \<Longrightarrow> list_all is_ascii s"
proof -
  assume "is_valid_proof_ref s"
  moreover have "is_ascii c" if "c \<in> {CHR '':'', CHR ''_'', CHR ''-'', CHR ''.'', CHR ''/''}" for c
    using that by (auto simp: is_ascii_def)
  ultimately show ?thesis
    using ascii_alnum_ascii unfolding is_valid_proof_ref_def list_all_iff by blast
qed

lemma shorten_Panic:
  "shorten s = Panic \<longleftrightarrow>
     20 < length s \<and> (utf8_cont (s ! 12) \<or> utf8_cont (s ! (length s - 4)))"
  by (auto simp: shorten_def slice_to_def slice_from_def is_char_boundary_def exec_simps)

lemma shorten_ascii: "list_all is_ascii s \<Longrightarrow> shorten s \<noteq> Panic"
  unfolding shorten_Panic by (auto simp: list_all_length ascii_not_cont)

lemma check_proof_Panic:
  "check_proof uni pr = Panic \<longleftrightarrow> (\<exists>s. pr = Some s \<and> shorten s = Panic)"
  using shorten_ascii valid_ref_ascii by (auto simp: check_proof_def exec_simps split: option.splits)

section \<open>What passing means\<close>

definition consistent :: "wager \<Rightarrow> proof_guard_config \<Rightarrow> bool" where
  \<comment> \<open>the numeric checks of \<open>run_checks\<close>\<close>
  "consistent w cfg \<longleftrightarrow>
     is_finite (w_model_prob w) \<and> flt (lit 0) (w_model_prob w) \<and> flt (w_model_prob w) (lit 1) \<and>
     is_finite (w_market_implied w) \<and> flt (lit 0) (w_market_implied w) \<and> flt (w_market_implied w) (lit 1) \<and>
     \<not> flt (gc_consistency_tol cfg)
         (fabs (fsub (fsub (w_model_prob w) (w_market_implied w)) (w_edge w))) \<and>
     (\<exists>i. implied_probability (w_fair_odds w) = Some i \<and>
        \<not> flt (gc_consistency_tol cfg) (fabs (fsub i (w_model_prob w)))) \<and>
     is_finite (w_stake_sol w) \<and> fle (lit 0) (w_stake_sol w)"

lemma run_checks_clean:
  "run_checks uni w proof_ref cfg = Return [] \<longleftrightarrow>
     consistent w cfg \<and> (\<exists>pr. proof_ref = Some pr \<and> is_valid_proof_ref pr)"
proof -
  have n: "check_model_prob w @ check_edge w cfg @ check_fair_odds w cfg @ check_stake w = [] \<longleftrightarrow> consistent w cfg"
    by (auto simp: check_model_prob_def check_edge_def check_fair_odds_def check_stake_def consistent_def Let_def
        simp del: lit_01 split: option.splits if_splits)
  have p: "check_proof uni proof_ref = Return [] \<longleftrightarrow> (\<exists>pr. proof_ref = Some pr \<and> is_valid_proof_ref pr)"
    by (auto simp: check_proof_def exec_simps split: option.splits if_splits)
  have "run_checks uni w proof_ref cfg = Return [] \<longleftrightarrow>
      check_model_prob w @ check_edge w cfg @ check_fair_odds w cfg @ check_stake w = [] \<and>
      check_proof uni proof_ref = Return []"
    by (auto simp: run_checks_def exec_simps)
  then show ?thesis unfolding n p .
qed

section \<open>The recomputed odds invert within the tolerance\<close>

lemma rep_lt_1:
  assumes "rnd p = p" and "1/2 \<le> p" and "p < 1"
  shows "p \<le> 1 - pow2 (- 53)"
  using rep_below_pow2 [of p 0] assms by (simp add: pow2_def)

lemma rnd_gt_1:
  assumes "1 + pow2 (- 53) < x" shows "1 < rnd x"
proof (cases "2 \<le> x")
  case True
  then show ?thesis using rnd_ge_rnd [of 2 x] rnd_pow2 [of 1] by (simp add: pow2_def)
next
  case False
  have x: "1 < x" using less_trans [OF _ assms, of 1] by simp
  have "ilog2 x = 0" using x False ilog2_ge [of x 0] ilog2_less [of x 1] by (simp add: pow2_def)
  then have "ulp_exp x = - 52" using x by (simp add: ulp_exp_def)
  then have "\<bar>rnd x - x\<bar> \<le> pow2 (- 53)" using rnd_err [of x] x by (simp add: pow2_def)
  then show ?thesis using assms by linarith
qed

lemma invert_twice:
  assumes p: "rnd p = p" and "1/64 \<le> p" and "p < 1"
  shows "1 < rnd (1 / p)" and "rnd (1 / p) \<le> 64" and "\<bar>rnd (1 / rnd (1 / p)) - p\<bar> \<le> 1/100"
proof -
  define q where "q = 1 / p"
  define r where "r = rnd q"
  have p0: "0 < p" using assms by linarith
  have q: "1 \<le> q" "q \<le> 64" using assms p0 by (simp_all add: q_def divide_le_eq le_divide_eq)
  show le: "rnd (1 / p) \<le> 64"
    using rnd_le_rnd [of q 64] rnd_pow2 [of 6] q by (simp add: pow2_def q_def)
  have "1 + pow2 (- 53) < q"
  proof (cases "p < 1/2")
    case True
    then have "2 < q" using p0 by (simp add: q_def less_divide_eq)
    then show ?thesis by (simp add: pow2_def)
  next
    case False
    have "p * (1 + pow2 (- 53)) \<le> (1 - pow2 (- 53)) * (1 + pow2 (- 53))"
      using rep_lt_1 [OF p] False assms by (intro mult_right_mono) (simp_all add: pow2_def)
    also have "\<dots> < 1" by (simp add: pow2_def)
    finally show ?thesis using p0 by (simp add: q_def less_divide_eq mult.commute)
  qed
  then have r: "1 < r" using rnd_gt_1 by (simp add: r_def)
  then show "1 < rnd (1 / p)" by (simp add: r_def q_def)
  have e1: "\<bar>r - q\<bar> \<le> q * pow2 (- 53)"
    using rnd_rel_err [of q] q le_trans [of _ 1] pow2_le_iff [of "- 1022" 0] by (simp add: r_def)
  have "1 / r - p = (q - r) / (q * r)" using r q p0 by (simp add: q_def field_simps)
  also have "\<bar>\<dots>\<bar> = \<bar>r - q\<bar> / (q * r)" using r q by (simp add: abs_mult abs_minus_commute)
  also have "\<dots> \<le> q * pow2 (- 53) / (q * r)" using e1 r q by (intro divide_right_mono) auto
  also have "\<dots> \<le> pow2 (- 53)" using r q by (simp add: divide_le_eq)
  finally have e2: "\<bar>1 / r - p\<bar> \<le> pow2 (- 53)" .
  have r1: "1/64 \<le> 1 / r" "1 / r \<le> 1" using r le by (simp_all add: r_def q_def le_divide_eq divide_le_eq)
  have "pow2 (- 1022) \<le> \<bar>1 / r\<bar>"
    using r1 r pow2_le_iff [of "- 1022" "- 6"] by (simp add: pow2_def)
  then have "\<bar>rnd (1 / r) - 1 / r\<bar> \<le> \<bar>1 / r\<bar> * pow2 (- 53)" by (rule rnd_rel_err)
  also have "\<dots> \<le> pow2 (- 53)" using r1 r mult_right_mono [of "1 / r" 1 "pow2 (- 53)"] by simp
  finally have "\<bar>rnd (1 / r) - p\<bar> \<le> 2 * pow2 (- 53)" using e2 by linarith
  then show "\<bar>rnd (1 / rnd (1 / p)) - p\<bar> \<le> 1/100" by (simp add: r_def q_def pow2_def)
qed

section \<open>Properties\<close>

definition stake_at_risk :: "wager \<Rightarrow> bool" where
  "stake_at_risk w \<longleftrightarrow> w_status w \<noteq> NoBet \<and> \<not> fle (w_stake_sol w) (lit 0)"

lemma verify_at_risk:
  assumes "stake_at_risk w" and "run_checks uni w pr cfg = Return fs" and "fs \<noteq> []"
  shows "verify uni w pr cfg = Return \<lparr>gv_passed = False, gv_failures = fs,
            gv_wager = w\<lparr>w_status := ProofFailed,
              w_thesis := w_thesis w @ '' | Proof-guard FAILED: '' @ join_with ''; '' fs\<rparr>\<rparr>"
  using assms by (simp add: verify_def stake_at_risk_def del: lit_01)

lemma verify_clean:
  assumes "stake_at_risk w" and "consistent w cfg" and "is_valid_proof_ref s"
  obtains t where "verify uni w (Some s) cfg = Return \<lparr>gv_passed = True, gv_failures = [],
      gv_wager = w\<lparr>w_proof_ref := Some s, w_status := ProofPassed, w_thesis := t\<rparr>\<rparr>"
proof -
  have "run_checks uni w (Some s) cfg = Return []" using assms run_checks_clean by blast
  moreover obtain short where "shorten s = Return short"
    using shorten_ascii [OF valid_ref_ascii [OF assms(3)]] by (cases "shorten s") auto
  ultimately show thesis
    using assms(1) that by (simp add: verify_def stake_at_risk_def unwrap_or_def del: lit_01)
qed

text \<open>
  C6: the guard's verdict on a wager with money at stake is decided by the numbers and the
  attestation alone: it passes exactly when model and market probability lie strictly between
  0 and 1, the claimed edge and fair odds agree with them within the tolerance, the stake is
  finite and not negative, and a well-shaped proof reference is supplied; a passed wager
  carries that reference and status \<open>ProofPassed\<close>, a failed one status \<open>ProofFailed\<close>, its own
  reference and at least one reason.
\<close>

theorem proof_guard_decides:
  assumes "verify uni w pr cfg = Return v" and "stake_at_risk w"
  shows "(gv_passed v \<longleftrightarrow> consistent w cfg \<and> (\<exists>s. pr = Some s \<and> is_valid_proof_ref s)) \<and>
         (gv_passed v \<longrightarrow> w_status (gv_wager v) = ProofPassed \<and> w_proof_ref (gv_wager v) = pr \<and> gv_failures v = []) \<and>
         (\<not> gv_passed v \<longrightarrow> w_status (gv_wager v) = ProofFailed \<and>
            w_proof_ref (gv_wager v) = w_proof_ref w \<and> gv_failures v \<noteq> []) \<and>
         w_stake_sol (gv_wager v) = w_stake_sol w \<and> w_selection (gv_wager v) = w_selection w"
proof (cases "run_checks uni w pr cfg")
  case Panic
  then show ?thesis using assms by (simp add: verify_def stake_at_risk_def del: lit_01)
next
  case (Return fs)
  show ?thesis
  proof (cases "fs = []")
    case False
    then have "\<not> (consistent w cfg \<and> (\<exists>s. pr = Some s \<and> is_valid_proof_ref s))"
      using Return run_checks_clean [of uni w pr cfg] by simp
    then show ?thesis using verify_at_risk [OF assms(2) Return False] assms(1) False by auto
  next
    case True
    then obtain s where c: "consistent w cfg" "pr = Some s" "is_valid_proof_ref s"
      using Return run_checks_clean by blast
    obtain t where "verify uni w (Some s) cfg = Return \<lparr>gv_passed = True, gv_failures = [],
        gv_wager = w\<lparr>w_proof_ref := Some s, w_status := ProofPassed, w_thesis := t\<rparr>\<rparr>"
      by (rule verify_clean [OF assms(2) c(1,3)])
    then show ?thesis using assms(1) c by auto
  qed
qed

text \<open>
  The guard panics exactly when a wager with money at stake comes with a proof reference
  of more than 20 bytes whose byte 12 or fourth last byte is inside a multi-byte character:
  the malformed reference is cut at a byte index for the failure message.
\<close>

theorem proof_guard_panics_iff:
  "verify uni w pr cfg = Panic \<longleftrightarrow>
     stake_at_risk w \<and>
     (\<exists>s. pr = Some s \<and> 20 < length s \<and> (utf8_cont (s ! 12) \<or> utf8_cont (s ! (length s - 4))))"
proof (cases "stake_at_risk w")
  case False
  then show ?thesis by (auto simp: verify_def stake_at_risk_def)
next
  case True
  have p: "run_checks uni w pr cfg = Panic \<longleftrightarrow> (\<exists>s. pr = Some s \<and> shorten s = Panic)"
    by (simp add: run_checks_def exec_simps check_proof_Panic)
  show ?thesis
  proof (cases "run_checks uni w pr cfg")
    case Panic
    then have "verify uni w pr cfg = Panic" using True by (simp add: verify_def stake_at_risk_def del: lit_01)
    then show ?thesis using Panic p True by (simp add: shorten_Panic)
  next
    case (Return fs)
    have np: "\<not> (\<exists>s. pr = Some s \<and> shorten s = Panic)" using Return p by simp
    have "verify uni w pr cfg \<noteq> Panic"
    proof (cases "fs = []")
      case False
      then show ?thesis using verify_at_risk [OF True Return False] by simp
    next
      case True
      then show ?thesis
        using Return np run_checks_clean [of uni w pr cfg]
        by (auto simp: verify_def exec_simps unwrap_or_def Let_def simp del: lit_01)
    qed
    then show ?thesis using np True by (auto simp: shorten_Panic)
  qed
qed

lemma sample_wager_fields:
  "w_status (sample_wager p pr) = Proposed" "w_stake_sol (sample_wager p pr) = lit 0"
  by (simp_all add: sample_wager_def new_wager_def)

lemma verify_without_proof:
  assumes "stake_at_risk w"
  shows "\<exists>v. verify uni w None cfg = Return v \<and> \<not> gv_passed v"
proof -
  obtain fs where "run_checks uni w None cfg = Return fs" "fs \<noteq> []"
    by (simp add: run_checks_def check_proof_def)
  then show ?thesis using verify_at_risk [OF assms] by simp
qed

lemma proof_guard_decides_witness:
  "\<exists>v. verify id ((sample_wager (lit (6/10)) None)\<lparr>w_stake_sol := lit 1\<rparr>) None default_config = Return v \<and>
       w_status (gv_wager v) = ProofFailed \<and> gv_failures v \<noteq> []"
proof -
  let ?w = "(sample_wager (lit (6/10)) None)\<lparr>w_stake_sol := lit 1\<rparr>"
  have risk: "stake_at_risk ?w" by (simp add: stake_at_risk_def sample_wager_fields fle_finite)
  obtain v where v: "verify id ?w None default_config = Return v" "\<not> gv_passed v"
    using verify_without_proof [OF risk] by blast
  from proof_guard_decides [OF v(1) risk] show ?thesis using v by blast
qed

text \<open>
  The Authority's bets are consistent. Its edge is the same rounded difference the guard
  recomputes, and the double reciprocal of a probability above the minimum edge stays within
  the tolerance.
\<close>

lemma default_tol: "gc_consistency_tol default_config = Fin (rnd (1/50))" "0 < rnd (1/50)"
proof -
  show pos: "0 < rnd (1/50 :: rat)" by (rule rnd_pos) (simp add: pow2_def)
  then show "gc_consistency_tol default_config = Fin (rnd (1/50))"
    using lit_Fin [of "1/50"] by (simp add: default_config_def)
qed

lemma within_default_tol:
  assumes "is_finite a" "is_finite b" and "\<bar>fval a - fval b\<bar> \<le> 1/50"
  shows "\<not> flt (gc_consistency_tol default_config) (fabs (fsub a b))"
proof -
  have "\<bar>fval a - fval b\<bar> \<le> 2 ^ 53" using assms(3) by (rule order_trans) simp
  then have f: "is_finite (fsub a b)" "fval (fsub a b) = rnd (fval a - fval b)"
    using fsub_finite assms by blast+
  have "rnd (fval a - fval b) \<le> rnd (1/50)" "rnd (- (fval a - fval b)) \<le> rnd (1/50)"
    using assms(3) by (intro rnd_mono; linarith)+
  then have "\<bar>fval (fsub a b)\<bar> \<le> rnd (1/50)" using f(2) by (simp only: rnd_minus abs_le_iff)
  then show ?thesis using f default_tol by (simp add: flt_finite)
qed

lemma authority_bet_consistent:
  assumes r: "adjudicate w d (from_max_spend c) = Return r" and nb: "w_status (ru_wager r) \<noteq> NoBet"
    and d: "is_f64 d" and c: "is_f64 c" "c \<noteq> Infty False" and pf: "is_f64 (w_model_prob w)"
  shows "consistent (ru_wager r) default_config \<and> stake_at_risk (ru_wager r)"
proof -
  obtain i stake st where i: "implied_probability d = Some i"
    and p: "flt (lit 0) (w_model_prob w)" "flt (w_model_prob w) (lit 1)"
    and e: "\<not> fle (fsub (w_model_prob w) i) (lit (2/100))" and s: "\<not> fle stake (lit 0)"
    and w: "ru_wager r = rederived w i stake st"
    using adjudicate_ruled [OF r] nb by cases (auto simp: from_max_spend_def)
  define P where "P = fval (w_model_prob w)"
  have p1: "is_finite (w_model_prob w)" "0 < P" "P < 1" "rnd P = P"
    using p flt_between_finite [of 0 _ 1] is_f64_fval [OF pf] by (simp_all add: P_def)
  have i1: "is_finite i" "0 < fval i" "fval i < 1" using implied_probability_bounds [OF i d] by auto
  have "\<bar>P - fval i\<bar> \<le> 2 ^ 53" using p1 i1 by (simp add: abs_le_iff)
  then have edge: "is_finite (fsub (w_model_prob w) i)" "fval (fsub (w_model_prob w) i) = rnd (P - fval i)"
    using fsub_finite p1(1) i1(1) by (simp_all add: P_def)
  have tol: "lit (2/100) = Fin (rnd (1/50))" using default_tol by (simp add: default_config_def)
  have "rnd (1/50) < rnd (P - fval i)" using e edge tol by (simp add: fle_finite)
  then have "1/50 < P - fval i" using rnd_mono by (meson not_less)
  then have P64: "1/64 \<le> P" using i1 by linarith
  note inv = invert_twice [OF p1(4) P64 p1(3)]
  define fo where "fo = fdiv (lit 1) (w_model_prob w)"
  have "\<bar>1 / P\<bar> \<le> 2 ^ 53" using P64 by (simp add: divide_le_eq)
  then have fo: "is_finite fo" "fval fo = rnd (1 / P)"
    using fdiv_finite [of "lit 1" "w_model_prob w"] p1 by (simp_all add: fo_def P_def)
  have io: "implied_probability fo = Some (fdiv (lit 1) fo)"
    using fo inv(1) by (simp add: implied_probability_iff)
  have "\<bar>1 / fval fo\<bar> \<le> 2 ^ 53" using fo inv(1) by (simp add: divide_le_eq)
  then have io2: "is_finite (fdiv (lit 1) fo)" "fval (fdiv (lit 1) fo) = rnd (1 / rnd (1 / P))"
    using fdiv_finite [of "lit 1" fo] fo inv(1) by auto
  have t1: "\<not> flt (gc_consistency_tol default_config) (fabs (fsub (fsub (w_model_prob w) i) (fsub (w_model_prob w) i)))"
    by (rule within_default_tol) (use edge in simp_all)
  have t2: "\<not> flt (gc_consistency_tol default_config) (fabs (fsub (fdiv (lit 1) fo) (w_model_prob w)))"
    by (rule within_default_tol) (use io2 p1 inv(3) in \<open>simp_all add: P_def\<close>)
  have stake: "is_finite stake" "0 \<le> fval stake"
    using adjudicate_capped [OF r d c] w by simp_all
  show ?thesis
    using w nb s t1 t2 io stake p1 i1
    by (auto simp: consistent_def stake_at_risk_def fle_finite flt_finite fo_def P_def)
qed

text \<open>
  C1: what the Authority approves, the guard accepts. A wager the Authority bets on under the
  policy derived from the spend cap passes the proof guard with its default tolerance as soon
  as a well-shaped proof reference is supplied: the guard recomputes implied probability, edge
  and fair odds and finds every rounding difference within the tolerance.
\<close>

theorem authority_bet_passes_guard:
  assumes "adjudicate w d (from_max_spend c) = Return r" and "w_status (ru_wager r) \<noteq> NoBet"
    and "is_f64 d" and "is_f64 c" and "c \<noteq> Infty False" and "is_f64 (w_model_prob w)"
    and "is_valid_proof_ref s"
  shows "\<exists>v. verify uni (ru_wager r) (Some s) default_config = Return v \<and> gv_passed v \<and>
             w_status (gv_wager v) = ProofPassed \<and> w_proof_ref (gv_wager v) = Some s \<and>
             w_stake_sol (gv_wager v) = w_stake_sol (ru_wager r)"
proof -
  have c: "consistent (ru_wager r) default_config" "stake_at_risk (ru_wager r)"
    using authority_bet_consistent assms(1-6) by blast+
  show ?thesis by (rule verify_clean [OF c(2,1) assms(7), of uni]) simp
qed

lemma authority_bet_passes_guard_witness:
  "\<exists>r v. adjudicate (sample_wager (lit (6/10)) None) (lit 2) (from_max_spend (lit (5/100))) = Return r \<and>
       verify id (ru_wager r) (Some ''sha256:abc123'') default_config = Return v \<and> gv_passed v"
proof -
  have cap: "fle (lit 0) (ap_cap (from_max_spend (lit (5/100))))"
    using fmax_0(4) by (simp add: from_max_spend_def)
  obtain r where r: "adjudicate (sample_wager (lit (6/10)) None) (lit 2) (from_max_spend (lit (5/100))) = Return r"
    using adjudicate_total [OF cap] by blast
  have nb: "w_status (ru_wager r) \<noteq> NoBet" using sample_bet [OF r] by simp
  have s: "is_valid_proof_ref ''sha256:abc123''" by code_simp
  have "lit (5/100) \<noteq> Infty False" by (simp add: lit_not_Infty)
  moreover have "is_f64 (w_model_prob (sample_wager (lit (6/10)) None))"
    by (simp add: sample_wager_def new_wager_def)
  ultimately show ?thesis using authority_bet_passes_guard [OF r nb _ _ _ _ s] r by fastforce
qed

end
