(* ===== verification/Policy.thy ===== *)
theory Policy
  imports Proof_Guard
begin

text \<open>
  From an event to a decision: feature extraction (\<open>agent-core/src/features.rs\<close>), signal
  derivation (\<open>runtime/signal.rs\<close>), the proof gate (\<open>services/proof/mod.rs\<close>), the action
  policy (\<open>agent-core/src/policy.rs\<close>) and its effect on the run record
  (\<open>runtime/decision.rs\<close>, \<open>runtime/mod.rs\<close>). Identifiers and the clock are arguments.
\<close>

section \<open>features.rs\<close>

record market_features =
  mf_fixture_id :: u64
  mf_kind :: string
  mf_has_score :: bool
  mf_has_odds :: bool
  mf_best_implied :: "f64 option"
  mf_proof_present :: bool
  mf_root_present :: bool
  mf_txoracle_passed :: bool
  mf_severity :: f64
  mf_actionability :: f64
  mf_reasons :: "string list"

definition cmp_or_equal :: "f64 \<Rightarrow> f64 \<Rightarrow> ordering" where
  "cmp_or_equal a b = unwrap_or Equal (partial_cmp a b)"

definition best_implied_probability :: "txline_event \<Rightarrow> f64 option" where
  "best_implied_probability ev =
     (case ev_odds ev of None \<Rightarrow> None
      | Some items \<Rightarrow> max_by cmp_or_equal (filter is_finite (map oq_implied_probability items)))"

definition kind_severity :: "event_kind \<Rightarrow> f64 \<times> string" where
  "kind_severity k = (case k of
     Goal \<Rightarrow> (lit (80/100), ''goal changes match state'')
   | RedCard \<Rightarrow> (lit (78/100), ''red card can reprice market'')
   | FinalWhistle \<Rightarrow> (lit (72/100), ''final whistle can trigger resolution'')
   | OddsMove \<Rightarrow> (lit (64/100), ''odds update observed'')
   | OddsUpdate \<Rightarrow> (lit (64/100), ''odds update observed'')
   | ProofReceived \<Rightarrow> (lit (70/100), ''proof receipt arrived'')
   | _ \<Rightarrow> (lit (35/100), ''context update observed''))"

definition add_if :: "bool \<Rightarrow> f64 \<Rightarrow> f64" where
  "add_if b x = (if b then fadd x (lit (20/100)) else x)"

definition derive_features :: "txline_event \<Rightarrow> market_features" where
  "derive_features ev =
     (let has_odds = (case ev_odds ev of None \<Rightarrow> False | Some items \<Rightarrow> items \<noteq> []);
          has_score = (ev_score ev \<noteq> None);
          proof_present = (case ev_proof ev of None \<Rightarrow> False | Some p \<Rightarrow> pr_proof_present p);
          root_present = (case ev_proof ev of None \<Rightarrow> False | Some p \<Rightarrow> pr_root_present p);
          passed = (case ev_proof ev of None \<Rightarrow> False | Some p \<Rightarrow> pr_simulation_status p = SimPassed);
          (sev, reason) = kind_severity (ev_kind ev);
          act = add_if passed (add_if root_present (add_if proof_present
                  (add_if has_score (add_if has_odds (lit 0)))))
      in \<lparr>mf_fixture_id = ev_fixture_id ev, mf_kind = debug_kind (ev_kind ev),
          mf_has_score = has_score, mf_has_odds = has_odds,
          mf_best_implied = best_implied_probability ev,
          mf_proof_present = proof_present, mf_root_present = root_present,
          mf_txoracle_passed = passed,
          mf_severity = fmin (fadd (lit 0) sev) (lit 1), mf_actionability = fmin act (lit 1),
          mf_reasons = [reason]\<rparr>)"

section \<open>runtime/signal.rs\<close>

definition signal_type_of :: "event_kind \<Rightarrow> signal_type option" where
  "signal_type_of k = (case k of
     OddsMove \<Rightarrow> Some SharpOddsMove | OddsUpdate \<Rightarrow> Some SharpOddsMove
   | Goal \<Rightarrow> Some ScoreEvent | ScoreUpdate \<Rightarrow> Some ScoreEvent
   | RedCard \<Rightarrow> Some RedCardReprice
   | FinalWhistle \<Rightarrow> Some ProofReady | ProofReceived \<Rightarrow> Some ProofReady
   | Fixture \<Rightarrow> None)"

definition severity_of :: "f64 \<Rightarrow> severity" where
  "severity_of s =
     (if fle (lit (85/100)) s then Critical else if fle (lit (70/100)) s then High
      else if fle (lit (55/100)) s then Medium else Low)"

definition measured_features :: "market_features \<Rightarrow> (string \<times> json) list" where
  "measured_features d =
     (let m1 = btree_insert ''severityScore'' (jfloat (mf_severity d)) [];
          m2 = btree_insert ''actionabilityScore'' (jfloat (mf_actionability d)) m1;
          m3 = btree_insert ''proofPresent'' (JBool (mf_proof_present d)) m2;
          m4 = btree_insert ''rootPresent'' (JBool (mf_root_present d)) m3;
          m5 = btree_insert ''txoraclePassed'' (JBool (mf_txoracle_passed d)) m4
      in case mf_best_implied d of None \<Rightarrow> m5
         | Some p \<Rightarrow> btree_insert ''bestImpliedProbability'' (jfloat p) m5)"

definition build_signal ::
  "string \<Rightarrow> string \<Rightarrow> agent_context \<Rightarrow> market_features \<Rightarrow> agent_signal option" where
  "build_signal uuid now ctx d =
     (case signal_type_of (ev_kind (cx_event ctx)) of None \<Rightarrow> None
      | Some t \<Rightarrow> Some
          \<lparr>sg_id = ''signal-'' @ uuid, sg_fixture_id = ev_fixture_id (cx_event ctx),
           sg_source_event_id = ev_id (cx_event ctx), sg_signal_type = t,
           sg_severity = severity_of (mf_severity d),
           sg_confidence = fmax (mf_severity d) (mf_actionability d),
           sg_features = measured_features d, sg_rationale = join_with ''; '' (mf_reasons d),
           sg_created_at = now\<rparr>)"

definition feature_summary :: "market_features \<Rightarrow> string" where
  "feature_summary d =
     ''severity='' @ fmt_fixed 2 (mf_severity d) @ '' actionability='' @ fmt_fixed 2 (mf_actionability d)
     @ '' proof='' @ show_bool (mf_proof_present d) @ '' root='' @ show_bool (mf_root_present d)
     @ '' txoracle='' @ show_bool (mf_txoracle_passed d)"

definition signal_summary :: "agent_signal \<Rightarrow> string" where
  "signal_summary s =
     debug_signal_type (sg_signal_type s) @ '' for fixture '' @ show_u64 (sg_fixture_id s)
     @ '' confidence '' @ fmt_fixed 2 (sg_confidence s)"

section \<open>services/proof/mod.rs\<close>

definition fallback_stat_keys :: "event_kind \<Rightarrow> string list" where
  "fallback_stat_keys k =
     (if k = Goal \<or> k = ScoreUpdate then [''score.home'', ''score.away'']
      else if k = OddsMove \<or> k = OddsUpdate then [''odds.stream'']
      else [''fixture.context''])"

text \<open>
  Integer division truncates; the cast to \<open>u32\<close> wraps. \<open>timestamp\<close> is the \<open>chrono\<close>
  parser: seconds since the epoch of an RFC 3339 text.
\<close>

definition div_trunc :: "int \<Rightarrow> int \<Rightarrow> int" where
  "div_trunc a b = sgn a * sgn b * (\<bar>a\<bar> div \<bar>b\<bar>)"

definition epoch_day_from_iso :: "(string \<Rightarrow> int option) \<Rightarrow> string \<Rightarrow> u32 option" where
  "epoch_day_from_iso timestamp s = map_option (\<lambda>t. of_int (div_trunc t 86400)) (timestamp s)"

definition opt_json :: "('a \<Rightarrow> json) \<Rightarrow> 'a option \<Rightarrow> json" where
  "opt_json f x = (case x of None \<Rightarrow> JNull | Some y \<Rightarrow> f y)"

definition receipt_for_run :: "(string \<Rightarrow> int option) \<Rightarrow> agent_run \<Rightarrow> proof_receipt" where
  "receipt_for_run timestamp run =
     (let ev = run_trigger run in
      case ev_proof ev of Some p \<Rightarrow> p
      | None \<Rightarrow>
          \<lparr>pr_fixture_id = ev_fixture_id ev, pr_seq = ev_seq ev, pr_stat_key = None,
           pr_stat_keys = (if ev_stat_keys ev = [] then fallback_stat_keys (ev_kind ev) else ev_stat_keys ev),
           pr_txline_ts = ev_txline_ts ev,
           pr_epoch_day = Option.bind (ev_txline_ts ev) (epoch_day_from_iso timestamp),
           pr_merkle_root = None, pr_stat_proof_hash = None, pr_root_pda = None,
           pr_txline_program = None, pr_root_observed_slot = None,
           pr_proof_present = False, pr_root_present = False,
           pr_simulation_status = SimNotStarted, pr_verified = False,
           pr_note = ''TxLINE proof request queued; no proof/root payload is available yet'',
           pr_raw = Some (JObj [(''source'', JStr ''local-proof-builder''),
             (''triggerEventId'', JStr (ev_id ev)), (''schemaFamily'', opt_json JStr (ev_schema_family ev))])\<rparr>)"

definition gate_checks :: "string list" where
  "gate_checks = [''fixture_id'', ''stat_keys'', ''proof_payload'', ''root_observed'', ''simulation_status'']"

definition gate_receipt :: "agent_run \<Rightarrow> proof_receipt \<Rightarrow> proof_gate_decision" where
  "gate_receipt run receipt =
     (let fail = (\<lambda>reason. \<lparr>pg_pass = False, pg_reason = reason, pg_checked = gate_checks\<rparr>) in
      if pr_fixture_id receipt \<noteq> ev_fixture_id (run_trigger run)
      then fail ''proof fixture does not match trigger fixture''
      else if pr_stat_keys receipt = [] then fail ''proof receipt has no stat keys''
      else if \<not> pr_proof_present receipt then fail ''proof payload missing''
      else if \<not> pr_root_present receipt then fail ''txoracle root not observed''
      else let pass = (pr_simulation_status receipt = SimPassed) in
        \<lparr>pg_pass = pass,
         pg_reason = (if pass then ''TxLINE proof matched observed txoracle root and validation simulation passed''
                      else ''validation simulation did not pass''),
         pg_checked = gate_checks @ [''deterministic_predicate'']\<rparr>)"

definition verdict_from_gate :: "proof_gate_decision \<Rightarrow> verdict" where
  "verdict_from_gate gate =
     \<lparr>vd_status = (if pg_pass gate then VPass else VNeedsReview), vd_reason = pg_reason gate,
      vd_checked = [CkTxlineInput, CkHash, CkProof, CkPolicy]\<rparr>"

section \<open>policy.rs\<close>

definition proof_gate_check :: string where "proof_gate_check = ''txoracle_proof_gate''"

definition policy_checks ::
  "agent_context \<Rightarrow> agent_signal \<Rightarrow> proof_gate_decision option \<Rightarrow> policy_check list" where
  "policy_checks ctx sg gate =
     [\<lparr>pc_name = ''live_txline_event'', pc_passed = 0 < ev_fixture_id (cx_event ctx),
       pc_detail = ''fixture_id='' @ show_u64 (ev_fixture_id (cx_event ctx))\<rparr>,
      \<lparr>pc_name = ''signal_threshold'', pc_passed = fle (lit (55/100)) (sg_confidence sg),
       pc_detail = ''confidence='' @ fmt_fixed 3 (sg_confidence sg)\<rparr>,
      \<lparr>pc_name = proof_gate_check, pc_passed = (case gate of None \<Rightarrow> False | Some g \<Rightarrow> pg_pass g),
       pc_detail = (case gate of None \<Rightarrow> ''proof not requested for this action'' | Some g \<Rightarrow> pg_reason g)\<rparr>]"

definition requested_action :: "track_mode \<Rightarrow> signal_type \<Rightarrow> agent_action" where
  "requested_action track t = (case track of
     Settlement \<Rightarrow> (if t = ProofReady then TriggerResolution else FetchProof)
   | Trading \<Rightarrow> (if t = SharpOddsMove then SimulatePosition else Watch)
   | Fan \<Rightarrow> (if t = ScoreEvent \<or> t = RedCardReprice then Notify else Watch))"

definition severity_bonus :: "severity \<Rightarrow> f64" where
  "severity_bonus s = (case s of Critical \<Rightarrow> lit (5/100) | High \<Rightarrow> lit (3/100) | _ \<Rightarrow> lit 0)"

definition choose_action ::
  "string \<Rightarrow> string \<Rightarrow> agent_context \<Rightarrow> agent_signal \<Rightarrow> market_features \<Rightarrow> proof_gate_decision option
     \<Rightarrow> string \<Rightarrow> agent_decision" where
  "choose_action uuid now ctx sg feats gate explanation =
     (let checks = policy_checks ctx sg gate;
          proof_passed = (case gate of None \<Rightarrow> False | Some g \<Rightarrow> pg_pass g);
          requested = requested_action (cx_track ctx) (sg_signal_type sg);
          action = (if requested = TriggerResolution \<and> \<not> proof_passed then FetchProof else requested);
          hard_blocked = list_ex (\<lambda>c. \<not> pc_passed c \<and> pc_name c \<noteq> proof_gate_check) checks
      in \<lparr>ad_id = ''decision-'' @ uuid, ad_signal_id = sg_id sg, ad_action = action,
          ad_confidence = fmin (fadd (fadd (sg_confidence sg) (mf_actionability feats))
                             (severity_bonus (sg_severity sg))) (lit 1),
          ad_policy_checks = checks, ad_explanation = explanation,
          ad_execution_status = (if hard_blocked then ExBlocked else ExPending), ad_created_at = now\<rparr>)"

section \<open>evaluation.rs\<close>

record agent_evaluation =
  ae_run_id :: string
  ae_decision_id :: string
  ae_outcome :: string
  ae_score :: f64
  ae_reason :: string

definition evaluate_decision ::
  "string \<Rightarrow> agent_decision \<Rightarrow> txline_event list \<Rightarrow> agent_evaluation option" where
  "evaluate_decision run d later =
     (let proof_passed_later =
            list_ex (\<lambda>ev. case ev_proof ev of None \<Rightarrow> False | Some p \<Rightarrow> pr_simulation_status p = SimPassed) later;
          final_seen = list_ex (\<lambda>ev. ev_kind ev = FinalWhistle) later in
      if ad_action d = TriggerResolution \<and> proof_passed_later \<and> final_seen then Some
        \<lparr>ae_run_id = run, ae_decision_id = ad_id d, ae_outcome = ''correct'', ae_score = lit 1,
         ae_reason = ''resolution signal matched later final event and proof pass''\<rparr>
      else if ad_action d = FetchProof \<and> proof_passed_later then Some
        \<lparr>ae_run_id = run, ae_decision_id = ad_id d, ae_outcome = ''useful'', ae_score = lit (80/100),
         ae_reason = ''proof fetch led to later txoracle pass''\<rparr>
      else None)"

section \<open>runtime/decision.rs\<close>

definition role_for_track :: "track_mode \<Rightarrow> agent_role" where
  "role_for_track t = (case t of Settlement \<Rightarrow> RoleVerifier | Trading \<Rightarrow> RoleSharp | Fan \<Rightarrow> RolePundit)"

definition action_summary :: "agent_decision \<Rightarrow> string" where
  "action_summary d = ''action '' @ debug_action (ad_action d) @ '' status ''
     @ (case ad_execution_status d of ExPending \<Rightarrow> ''Pending'' | ExBlocked \<Rightarrow> ''Blocked''
        | ExCompleted \<Rightarrow> ''Completed'' | ExFailed \<Rightarrow> ''Failed'')"

text \<open>
  The serializers of \<open>serde_json\<close> and the digest of \<open>sha2\<close>, packages the code calls.
\<close>

record encoders =
  en_signal :: "agent_signal \<Rightarrow> json"
  en_decision :: "agent_decision \<Rightarrow> json"
  en_features :: "market_features \<Rightarrow> json"
  en_gate :: "proof_gate_decision \<Rightarrow> json"
  en_receipt :: "proof_receipt \<Rightarrow> json"
  en_render :: "json \<Rightarrow> string"
  en_sha256_hex :: "string \<Rightarrow> string"

definition decision_payload ::
  "encoders \<Rightarrow> agent_run \<Rightarrow> agent_context \<Rightarrow> market_features \<Rightarrow> proof_receipt \<Rightarrow> proof_gate_decision
     \<Rightarrow> agent_signal \<Rightarrow> agent_decision \<Rightarrow> string" where
  "decision_payload en run ctx d receipt gate sg dec = en_render en (JObj
     [(''type'', JStr ''match_intelligence_decision''), (''runId'', JStr (run_id run)),
      (''fixtureId'', JInt (uint (ev_fixture_id (cx_event ctx)))), (''track'', JStr (show_track (cx_track ctx))),
      (''signal'', en_signal en sg), (''decision'', en_decision en dec), (''features'', en_features en d),
      (''proofGate'', en_gate en gate), (''proof'', en_receipt en receipt), (''fundsMoved'', JBool False)])"

definition apply_decision_to_run ::
  "encoders \<Rightarrow> agent_context \<Rightarrow> market_features \<Rightarrow> proof_receipt \<Rightarrow> proof_gate_decision
     \<Rightarrow> agent_signal \<Rightarrow> agent_decision \<Rightarrow> agent_run \<Rightarrow> agent_run" where
  "apply_decision_to_run en ctx d receipt gate sg dec run =
     (let bid = \<lparr>bid_agent_id = match_intelligence_agent, bid_role = role_for_track (cx_track ctx),
            bid_price_sol = lit 0, bid_confidence = ad_confidence dec, bid_eta_ms = 0,
            bid_note = ''Real Rust Coral agent: '' @ debug_signal_type (sg_signal_type sg) @ '' with ''
              @ debug_action (ad_action dec) @ ''; no seller auction or fake verifier.''\<rparr>;
          payload = decision_payload en run ctx d receipt gate sg dec;
          sha = en_sha256_hex en payload
      in run\<lparr>
        run_bids := [bid], run_winner := Some bid,
        run_delivery := Some
          \<lparr>dl_agent_id = match_intelligence_agent, dl_title = ''Match Intelligence decision package'',
           dl_payload = payload, dl_sha256 = sha,
           dl_citations = [''Live TxLINE SSE event'', ''Read-only txoracle validation bridge''],
           dl_strategy = (if cx_track ctx = Trading then Some ''simulate only; no position is executed'' else None),
           dl_risk = Some ''LLM cannot pass proof, release funds, or sign transactions'',
           dl_fan_copy = (if cx_track ctx = Fan then Some (ad_explanation dec) else None)\<rparr>,
        run_verdict := Some
          (if pg_pass gate \<and> cx_track ctx = Settlement then verdict_from_gate gate
           else \<lparr>vd_status = VNeedsReview,
                 vd_reason = (if cx_track ctx = Settlement then pg_reason gate
                   else ''non-settlement decision recorded; settlement remains proof-gated''),
                 vd_checked = [CkTxlineInput, CkProof, CkPolicy]\<rparr>),
        run_settlement := map_option (\<lambda>s. s\<lparr>sr_reference := Some (''sha256:'' @ sha),
                              sr_status := StNotStarted\<rparr>) (run_settlement run)\<rparr>)"

section \<open>runtime/mod.rs: the deterministic core of a round\<close>

definition empty_settlement :: settlement_receipt where
  "empty_settlement =
     \<lparr>sr_rail = None, sr_status = StNotStarted, sr_reference = None, sr_escrow_pda = None,
      sr_deposit_tx = None, sr_release_tx = None, sr_explorer_url = None, sr_chain_observed = Some False,
      sr_chain_slot = None, sr_payment_url = None, sr_payment_reference = None, sr_payment_memo = None,
      sr_payment_signature = None, sr_payment_status = None, sr_payment_recipient = None,
      sr_payment_amount_sol = None\<rparr>"

definition empty_run :: "string \<Rightarrow> agent_context \<Rightarrow> agent_run" where
  "empty_run now ctx =
     \<lparr>run_id = cx_run_id ctx, run_track = cx_track ctx, run_trigger = cx_event ctx, run_bids = [],
      run_winner = None, run_delivery = None, run_verdict = None, run_settlement = Some empty_settlement,
      run_timeline = [\<lparr>tl_at = now, tl_label = ''TRIGGER'',
        tl_detail = debug_kind (ev_kind (cx_event ctx)) @ '': '' @ ev_title (cx_event ctx)\<rparr>]\<rparr>"

definition append_timeline :: "string \<Rightarrow> string \<Rightarrow> string \<Rightarrow> agent_run \<Rightarrow> agent_run" where
  "append_timeline now label detail run =
     run\<lparr>run_timeline := run_timeline run @ [\<lparr>tl_at = now, tl_label = label, tl_detail = detail\<rparr>]\<rparr>"

text \<open>The proof reference handed to the wager proposal.\<close>

definition wager_proof_ref :: "proof_gate_decision \<Rightarrow> proof_receipt \<Rightarrow> string option" where
  "wager_proof_ref gate receipt =
     (if pg_pass gate then Some (unwrap_or (''txoracle:'' @ pr_note receipt) (pr_stat_proof_hash receipt))
      else None)"

text \<open>From the gated receipt to the run's verdict: the signal branch of the round.\<close>

definition round_decision ::
  "encoders \<Rightarrow> string \<Rightarrow> string \<Rightarrow> agent_context \<Rightarrow> proof_receipt \<Rightarrow> proof_gate_decision \<Rightarrow> string
     \<Rightarrow> agent_run \<Rightarrow> agent_run \<times> agent_signal option \<times> agent_decision option" where
  "round_decision en uuid now ctx receipt gate explanation run =
     (let derived = derive_features (cx_event ctx) in
      case build_signal uuid now ctx derived of
        Some sg \<Rightarrow>
          (let dec = choose_action uuid now ctx sg derived (Some gate) explanation;
               run1 = apply_decision_to_run en ctx derived receipt gate sg dec run
           in (append_timeline now ''DECISION'' (debug_signal_type (sg_signal_type sg) @ '' -> ''
                 @ debug_action (ad_action dec)) run1, Some sg, Some dec))
      | None \<Rightarrow>
          (append_timeline now ''DECISION'' ''no actionable signal emitted''
             (run\<lparr>run_verdict := Some \<lparr>vd_status = VNeedsReview,
                vd_reason = ''event stayed below autonomous signal threshold'',
                vd_checked = [CkTxlineInput, CkPolicy]\<rparr>\<rparr>), None, None))"

section \<open>Scores\<close>

definition fact_count :: "txline_event \<Rightarrow> nat" where
  \<comment> \<open>how many of the five facts of the actionability score the event carries\<close>
  "fact_count ev = length (filter id
     [case ev_odds ev of None \<Rightarrow> False | Some items \<Rightarrow> items \<noteq> [],
      ev_score ev \<noteq> None,
      case ev_proof ev of None \<Rightarrow> False | Some p \<Rightarrow> pr_proof_present p,
      case ev_proof ev of None \<Rightarrow> False | Some p \<Rightarrow> pr_root_present p,
      case ev_proof ev of None \<Rightarrow> False | Some p \<Rightarrow> pr_simulation_status p = SimPassed])"

definition act_value :: "nat \<Rightarrow> rat" where
  \<comment> \<open>the double sum of \<open>n\<close> steps of 0.2\<close>
  "act_value n = [0, 3602879701896397 / 18014398509481984, 3602879701896397 / 9007199254740992,
     1351079888211149 / 2251799813685248, 3602879701896397 / 4503599627370496, 1] ! n"

lemma add_fifth:
  "fadd (Fin 0) (lit (20/100)) = Fin (3602879701896397 / 18014398509481984)"
  "fadd (Fin (3602879701896397 / 18014398509481984)) (lit (20/100)) = Fin (3602879701896397 / 9007199254740992)"
  "fadd (Fin (3602879701896397 / 9007199254740992)) (lit (20/100)) = Fin (1351079888211149 / 2251799813685248)"
  "fadd (Fin (1351079888211149 / 2251799813685248)) (lit (20/100)) = Fin (3602879701896397 / 4503599627370496)"
  "fadd (Fin (3602879701896397 / 4503599627370496)) (lit (20/100)) = Fin 1"
  by code_simp+

lemma act_value_at:
  "act_value 0 = 0" "act_value (Suc 0) = 3602879701896397 / 18014398509481984"
  "act_value (Suc (Suc 0)) = 3602879701896397 / 9007199254740992"
  "act_value (Suc (Suc (Suc 0))) = 1351079888211149 / 2251799813685248"
  "act_value (Suc (Suc (Suc (Suc 0)))) = 3602879701896397 / 4503599627370496"
  "act_value (Suc (Suc (Suc (Suc (Suc 0))))) = 1"
  by (simp_all add: act_value_def)

lemma add_if_step:
  assumes "n < 5"
  shows "add_if b (Fin (act_value n)) = Fin (act_value (n + (if b then 1 else 0)))"
proof -
  have "n = 0 \<or> n = Suc 0 \<or> n = Suc (Suc 0) \<or> n = Suc (Suc (Suc 0)) \<or> n = Suc (Suc (Suc (Suc 0)))"
    using assms by auto
  then have "fadd (Fin (act_value n)) (lit (20/100)) = Fin (act_value (Suc n))"
    by (elim disjE) (simp_all only: act_value_at add_fifth)
  then show ?thesis by (simp only: add_if_def) simp
qed

lemma act_value_bounds:
  assumes "n \<le> 5"
  shows "0 \<le> act_value n" and "act_value n \<le> 1" and "2476979795053773 / 4503599627370496 \<le> act_value n \<longleftrightarrow> 3 \<le> n"
    and "act_value n = 1 \<longleftrightarrow> n = 5"
proof -
  have "n \<in> {0, 1, 2, 3, 4, 5}" using assms by auto
  then show "0 \<le> act_value n" "act_value n \<le> 1"
    "2476979795053773 / 4503599627370496 \<le> act_value n \<longleftrightarrow> 3 \<le> n" "act_value n = 1 \<longleftrightarrow> n = 5"
    by (auto simp: act_value_def)
qed

lemma fact_count_le: "fact_count ev \<le> 5"
  unfolding fact_count_def by (rule order_trans [OF length_filter_le]) simp

lemma add_if_chain:
  "add_if e (add_if d (add_if c (add_if b (add_if a (Fin 0))))) = Fin (act_value (length (filter id [a, b, c, d, e])))"
proof -
  have "Fin 0 = Fin (act_value 0)" by (simp add: act_value_def)
  then have "add_if e (add_if d (add_if c (add_if b (add_if a (Fin 0))))) =
      Fin (act_value (0 + (if a then 1 else 0) + (if b then 1 else 0) + (if c then 1 else 0)
        + (if d then 1 else 0) + (if e then 1 else 0)))"
    by (simp only: add_if_step)  (simp add: add_if_step)
  then show ?thesis by (simp add: add.commute)
qed

lemma actionability_value: "mf_actionability (derive_features ev) = Fin (act_value (fact_count ev))"
proof -
  have "act_value (fact_count ev) \<le> 1" using act_value_bounds(2) [OF fact_count_le] .
  moreover have "mf_actionability (derive_features ev) = fmin (Fin (act_value (fact_count ev))) (Fin 1)"
    unfolding derive_features_def Let_def fact_count_def
    by (simp add: add_if_chain split: prod.splits del: filter.simps)
  ultimately show ?thesis by (simp add: fmin_def flt_finite)
qed

lemma severity_values:
  "lit (80/100) = Fin (3602879701896397 / 4503599627370496)"
  "lit (78/100) = Fin (3512807709348987 / 4503599627370496)"
  "lit (72/100) = Fin (3242591731706757 / 4503599627370496)"
  "lit (64/100) = Fin (5764607523034235 / 9007199254740992)"
  "lit (70/100) = Fin (3152519739159347 / 4503599627370496)"
  "lit (35/100) = Fin (3152519739159347 / 9007199254740992)"
  "lit (85/100) = Fin (7656119366529843 / 9007199254740992)"
  "lit (55/100) = Fin (2476979795053773 / 4503599627370496)"
  by code_simp+

definition severity_rat :: "event_kind \<Rightarrow> rat" where
  "severity_rat k = fval (fst (kind_severity k))"

lemma kind_severity_Fin: "fst (kind_severity k) = Fin (severity_rat k)"
  unfolding severity_rat_def kind_severity_def by (cases k) (simp_all only: event_kind.case fst_conv severity_values fval.simps)

lemma severity_rat_bounds:
  "0 < severity_rat k" "severity_rat k \<le> 3602879701896397 / 4503599627370496"
  "2476979795053773 / 4503599627370496 \<le> severity_rat k \<longleftrightarrow> k \<noteq> ScoreUpdate \<and> k \<noteq> Fixture"
  unfolding severity_rat_def kind_severity_def
  by (cases k; simp only: event_kind.case fst_conv severity_values fval.simps; simp)+

lemma rnd_severity: "rnd (severity_rat k) = severity_rat k"
proof -
  have "is_f64 (fst (kind_severity k))"
    unfolding kind_severity_def by (cases k) (simp_all only: event_kind.case fst_conv is_f64_lit)
  then show ?thesis by (simp add: kind_severity_Fin)
qed

lemma severity_value: "mf_severity (derive_features ev) = Fin (severity_rat (ev_kind ev))"
proof -
  let ?s = "severity_rat (ev_kind ev)"
  have s: "0 < ?s" "?s \<le> 1" using severity_rat_bounds [of "ev_kind ev"] by simp_all
  have "\<bar>?s\<bar> < huge" using s by (intro le_less_trans [OF _ huge_gt(2)]) simp
  then have "fadd (Fin 0) (Fin ?s) = Fin ?s"
    using s rnd_severity by (simp add: fadd_def of_q_def Let_def)
  moreover have "mf_severity (derive_features ev) = fmin (fadd (Fin 0) (fst (kind_severity (ev_kind ev)))) (Fin 1)"
    by (simp add: derive_features_def Let_def split: prod.splits)
  ultimately show ?thesis using s by (simp add: kind_severity_Fin fmin_def flt_finite)
qed

lemma severity_not_critical: "severity_of (Fin (severity_rat k)) \<noteq> Critical"
proof -
  have "\<not> fle (Fin (7656119366529843 / 9007199254740992)) (Fin (severity_rat k))"
    using severity_rat_bounds(2) [of k] by (simp add: fle_finite)
  then show ?thesis unfolding severity_of_def severity_values by (simp only: if_False) simp
qed

lemma signal_confidence:
  assumes "build_signal uuid now ctx (derive_features (cx_event ctx)) = Some sg"
  shows "sg_confidence sg = Fin (max (severity_rat (ev_kind (cx_event ctx))) (act_value (fact_count (cx_event ctx))))"
  using assms
  by (auto simp: build_signal_def severity_value actionability_value fmax_def flt_finite max_def split: option.splits)

text \<open>
  Both scores of an event lie in [0, 1], and the actionability score, a rounded sum of
  five steps of 0.2, reaches 1 exactly when all five facts hold: odds, score, proof payload,
  root and a passed simulation.
\<close>

theorem feature_scores:
  "is_finite (mf_severity (derive_features ev)) \<and> 0 < fval (mf_severity (derive_features ev)) \<and>
   fval (mf_severity (derive_features ev)) \<le> 1 \<and>
   is_finite (mf_actionability (derive_features ev)) \<and> 0 \<le> fval (mf_actionability (derive_features ev)) \<and>
   fval (mf_actionability (derive_features ev)) \<le> 1 \<and>
   (mf_actionability (derive_features ev) = lit 1 \<longleftrightarrow>
      mf_has_odds (derive_features ev) \<and> mf_has_score (derive_features ev) \<and>
      mf_proof_present (derive_features ev) \<and> mf_root_present (derive_features ev) \<and>
      mf_txoracle_passed (derive_features ev))"
proof -
  have "fact_count ev = 5 \<longleftrightarrow>
      mf_has_odds (derive_features ev) \<and> mf_has_score (derive_features ev) \<and>
      mf_proof_present (derive_features ev) \<and> mf_root_present (derive_features ev) \<and>
      mf_txoracle_passed (derive_features ev)"
    by (simp add: fact_count_def derive_features_def Let_def split: prod.splits)
  then show ?thesis
    using severity_rat_bounds [of "ev_kind ev"] act_value_bounds [OF fact_count_le [of ev]]
    by (simp add: severity_value actionability_value)
qed

text \<open>
  The decision of a round. A context event of kind \<open>Fixture\<close> emits no signal. Otherwise
  the decision triggers resolution only on the settlement track, for a final whistle or a
  proof event, and with a passed gate, and it never leaves the states pending and blocked: it
  is blocked exactly when the fixture id is zero or the event is a bare score update that
  carries fewer than three of the five facts. The signal is never of severity \<open>Critical\<close>.
\<close>

theorem round_decision_policy:
  "case round_decision en uuid now ctx receipt gate expl run of (run', sg, dec) \<Rightarrow>
     (sg = None \<longleftrightarrow> ev_kind (cx_event ctx) = Fixture) \<and> (dec = None \<longleftrightarrow> sg = None) \<and>
     (\<forall>s d. sg = Some s \<longrightarrow> dec = Some d \<longrightarrow>
        sg_severity s \<noteq> Critical \<and>
        (ad_action d = TriggerResolution \<longrightarrow>
           pg_pass gate \<and> cx_track ctx = Settlement \<and> ev_kind (cx_event ctx) \<in> {FinalWhistle, ProofReceived}) \<and>
        ad_execution_status d =
          (if ev_fixture_id (cx_event ctx) = 0 \<or>
              (ev_kind (cx_event ctx) = ScoreUpdate \<and> fact_count (cx_event ctx) < 3)
           then ExBlocked else ExPending))"
proof -
  let ?d = "derive_features (cx_event ctx)" and ?k = "ev_kind (cx_event ctx)"
  have none: "build_signal uuid now ctx ?d = None \<longleftrightarrow> ?k = Fixture"
    by (cases ?k) (simp_all add: build_signal_def signal_type_of_def)
  have ok: "sg_severity s \<noteq> Critical \<and>
      (ad_action d = TriggerResolution \<longrightarrow>
         pg_pass gate \<and> cx_track ctx = Settlement \<and> ?k \<in> {FinalWhistle, ProofReceived}) \<and>
      ad_execution_status d =
        (if ev_fixture_id (cx_event ctx) = 0 \<or> (?k = ScoreUpdate \<and> fact_count (cx_event ctx) < 3)
         then ExBlocked else ExPending)"
    if s: "build_signal uuid now ctx ?d = Some s" and d: "d = choose_action uuid now ctx s ?d (Some gate) expl" for s d
  proof -
    have "sg_severity s \<noteq> Critical"
      using s severity_not_critical by (auto simp: build_signal_def severity_value split: option.splits)
    moreover have "ad_action d = TriggerResolution \<Longrightarrow>
        pg_pass gate \<and> cx_track ctx = Settlement \<and> ?k \<in> {FinalWhistle, ProofReceived}"
      using s d
      by (cases ?k; auto simp: choose_action_def Let_def requested_action_def build_signal_def signal_type_of_def
          split: track_mode.splits if_splits)
    moreover have "ad_execution_status d =
        (if ev_fixture_id (cx_event ctx) = 0 \<or> (?k = ScoreUpdate \<and> fact_count (cx_event ctx) < 3)
         then ExBlocked else ExPending)"
    proof -
      have conf: "fle (lit (55/100)) (sg_confidence s) \<longleftrightarrow> \<not> (?k = ScoreUpdate \<and> fact_count (cx_event ctx) < 3)"
        unfolding signal_confidence [OF s] severity_values
        using severity_rat_bounds(3) [of ?k] act_value_bounds(3) [OF fact_count_le [of "cx_event ctx"]] none s
        by (auto simp: fle_finite le_max_iff_disj)
      have names: "''live_txline_event'' \<noteq> proof_gate_check" "''signal_threshold'' \<noteq> proof_gate_check"
        by (simp_all add: proof_gate_check_def)
      show ?thesis using d conf names
        by (simp add: choose_action_def Let_def policy_checks_def word_gt_0 del: lit_01)
    qed
    ultimately show ?thesis by blast
  qed
  show ?thesis
  proof (cases "build_signal uuid now ctx ?d")
    case None
    then show ?thesis using none by (simp add: round_decision_def Let_def)
  next
    case (Some s)
    then have "snd (round_decision en uuid now ctx receipt gate expl run)
        = (Some s, Some (choose_action uuid now ctx s ?d (Some gate) expl))"
      by (simp add: round_decision_def Let_def)
    then show ?thesis using none Some ok [OF Some refl]
      by (cases "round_decision en uuid now ctx receipt gate expl run") simp
  qed
qed

definition sample_encoders :: encoders where
  "sample_encoders =
     \<lparr>en_signal = (\<lambda>s. JStr (sg_id s)), en_decision = (\<lambda>d. JStr (ad_id d)), en_features = (\<lambda>f. JStr (mf_kind f)),
      en_gate = (\<lambda>g. JBool (pg_pass g)), en_receipt = (\<lambda>r. JStr (pr_note r)),
      en_render = (\<lambda>j. case as_object j of Some kvs \<Rightarrow> concat (map fst kvs) | None \<Rightarrow> []),
      en_sha256_hex = (\<lambda>s. show_nat (length s))\<rparr>"

definition sample_context :: agent_context where
  "sample_context = build_context ''uuid'' ''now'' \<lparr>th_odds_move_trigger_pct = lit 5, th_max_devnet_spend_sol = lit (5/100)\<rparr>
     Settlement (sample_event None) None []"

definition sample_run_record :: agent_run where
  "sample_run_record = empty_run ''now'' sample_context"

lemma round_decision_policy_witness:
  "\<exists>s d. snd (round_decision sample_encoders ''u'' ''now'' sample_context
        (receipt_for_run (\<lambda>t. None) sample_run_record)
        (gate_receipt sample_run_record (receipt_for_run (\<lambda>t. None) sample_run_record)) ''e'' sample_run_record)
      = (Some s, Some d) \<and> sg_severity s \<noteq> Critical \<and> ad_execution_status d = ExPending"
proof -
  have k: "ev_kind (cx_event sample_context) = OddsUpdate" "ev_fixture_id (cx_event sample_context) = 1"
    by (simp_all add: sample_context_def build_context_def sample_event_def)
  let ?r = "round_decision sample_encoders ''u'' ''now'' sample_context
        (receipt_for_run (\<lambda>t. None) sample_run_record)
        (gate_receipt sample_run_record (receipt_for_run (\<lambda>t. None) sample_run_record)) ''e'' sample_run_record"
  obtain run' sg dec where r: "?r = (run', sg, dec)" by (cases ?r)
  from round_decision_policy [where en = sample_encoders and uuid = "''u''" and now = "''now''"
        and ctx = sample_context and receipt = "receipt_for_run (\<lambda>t. None) sample_run_record"
        and gate = "gate_receipt sample_run_record (receipt_for_run (\<lambda>t. None) sample_run_record)"
        and expl = "''e''" and run = sample_run_record]
  show ?thesis unfolding r using k by (cases sg; cases dec) simp_all
qed

text \<open>
  The proof gate passes exactly when the receipt is for the run's fixture, names a stat
  key, carries a proof payload and an observed root, and its validation simulation passed; only
  then, and only on the settlement track, does a run with a signal get the verdict \<open>Pass\<close>. The
  \<open>verified\<close> flag of the receipt plays no part.
\<close>

theorem gate_and_verdict:
  "(pg_pass (gate_receipt run receipt) \<longleftrightarrow>
      pr_fixture_id receipt = ev_fixture_id (run_trigger run) \<and> pr_stat_keys receipt \<noteq> [] \<and>
      pr_proof_present receipt \<and> pr_root_present receipt \<and> pr_simulation_status receipt = SimPassed) \<and>
   (map_option vd_status (run_verdict (fst (round_decision en uuid now ctx receipt (gate_receipt run receipt) expl run)))
      = Some VPass \<longleftrightarrow>
      pg_pass (gate_receipt run receipt) \<and> cx_track ctx = Settlement \<and> ev_kind (cx_event ctx) \<noteq> Fixture)"
proof -
  have g: "pg_pass (gate_receipt run receipt) \<longleftrightarrow>
      pr_fixture_id receipt = ev_fixture_id (run_trigger run) \<and> pr_stat_keys receipt \<noteq> [] \<and>
      pr_proof_present receipt \<and> pr_root_present receipt \<and> pr_simulation_status receipt = SimPassed"
    by (auto simp: gate_receipt_def Let_def)
  have "build_signal uuid now ctx (derive_features (cx_event ctx)) = None \<longleftrightarrow> ev_kind (cx_event ctx) = Fixture"
    by (cases "ev_kind (cx_event ctx)") (simp_all add: build_signal_def signal_type_of_def)
  then have "map_option vd_status (run_verdict (fst (round_decision en uuid now ctx receipt G expl run))) = Some VPass
      \<longleftrightarrow> pg_pass G \<and> cx_track ctx = Settlement \<and> ev_kind (cx_event ctx) \<noteq> Fixture" for G
    by (auto simp: round_decision_def Let_def append_timeline_def apply_decision_to_run_def verdict_from_gate_def
        split: option.splits)
  then show ?thesis using g by blast
qed

text \<open>
  A passed gate without a stat-proof hash breaks the wager pipeline. The fallback
  reference \<open>txoracle:<note>\<close> quotes the receipt's note, which is a sentence; a note with a
  space in it, such as both texts the validation bridge writes, gives a reference the proof
  guard refuses, so every wager at risk that carries it ends \<open>ProofFailed\<close>.
\<close>

theorem fallback_proof_ref_rejected:
  assumes "pg_pass gate" and "pr_stat_proof_hash receipt = None" and "CHR '' '' \<in> set (pr_note receipt)"
    and "stake_at_risk w" and "verify uni w (wager_proof_ref gate receipt) cfg = Return v"
  shows "\<not> gv_passed v \<and> w_status (gv_wager v) = ProofFailed"
proof -
  let ?s = "''txoracle:'' @ pr_note receipt"
  have ref: "wager_proof_ref gate receipt = Some ?s" using assms by (simp add: wager_proof_ref_def unwrap_or_def)
  have "\<not> ascii_alnum (CHR '' '')" by code_simp
  then have "\<not> is_valid_proof_ref ?s" using assms(3) by (auto simp: is_valid_proof_ref_def list_all_iff)
  then have nc: "run_checks uni w (Some ?s) cfg \<noteq> Return []" using run_checks_clean by blast
  obtain fs where fs: "run_checks uni w (Some ?s) cfg = Return fs"
    using assms(4,5) ref by (cases "run_checks uni w (Some ?s) cfg") (simp_all add: verify_def stake_at_risk_def del: lit_01)
  then show ?thesis using verify_at_risk [OF assms(4) fs] nc assms(5) ref by auto
qed

lemma fallback_proof_ref_rejected_witness:
  "\<exists>v. verify id ((sample_wager (lit (6/10)) None)\<lparr>w_stake_sol := lit 1\<rparr>)
        (wager_proof_ref \<lparr>pg_pass = True, pg_reason = ''ok'', pg_checked = []\<rparr>
           ((receipt_for_run (\<lambda>t. None) sample_run_record)\<lparr>pr_note := ''txoracle validation sidecar passed''\<rparr>))
        default_config = Return v \<and> w_status (gv_wager v) = ProofFailed"
proof -
  let ?w = "(sample_wager (lit (6/10)) None)\<lparr>w_stake_sol := lit 1\<rparr>"
  let ?g = "\<lparr>pg_pass = True, pg_reason = ''ok'', pg_checked = []\<rparr> :: proof_gate_decision"
  let ?rc = "(receipt_for_run (\<lambda>t. None) sample_run_record)\<lparr>pr_note := ''txoracle validation sidecar passed''\<rparr>"
  have risk: "stake_at_risk ?w" by (simp add: stake_at_risk_def sample_wager_fields fle_finite)
  have h: "pr_stat_proof_hash ?rc = None"
    by (simp add: receipt_for_run_def sample_run_record_def empty_run_def sample_context_def build_context_def sample_event_def Let_def)
  have ref: "wager_proof_ref ?g ?rc = Some (''txoracle:'' @ ''txoracle validation sidecar passed'')"
    using h by (simp add: wager_proof_ref_def unwrap_or_def)
  have "run_checks id ?w (wager_proof_ref ?g ?rc) default_config \<noteq> Panic"
    unfolding ref run_checks_def exec_map_Panic_iff check_proof_Panic
    using shorten_ascii [of "''txoracle:'' @ ''txoracle validation sidecar passed''"] by (auto simp: is_ascii_def)
  then obtain fs where fs: "run_checks id ?w (wager_proof_ref ?g ?rc) default_config = Return fs"
    by (cases "run_checks id ?w (wager_proof_ref ?g ?rc) default_config") auto
  have space: "CHR '' '' \<in> set (pr_note ?rc)" by simp
  have "\<exists>v. verify id ?w (wager_proof_ref ?g ?rc) default_config = Return v"
  proof (cases "fs = []")
    case False
    then show ?thesis using verify_at_risk [OF risk fs] by blast
  next
    case True
    then obtain s where "wager_proof_ref ?g ?rc = Some s" "is_valid_proof_ref s" "consistent ?w default_config"
      using fs run_checks_clean by blast
    then show ?thesis using verify_clean [OF risk, of default_config s id] by metis
  qed
  then obtain v where v: "verify id ?w (wager_proof_ref ?g ?rc) default_config = Return v" by blast
  have "pg_pass ?g" by simp
  from fallback_proof_ref_rejected [OF this h space risk v] v show ?thesis by blast
qed

end
