(* ===== verification/Coral_Wire.thy ===== *)
theory Coral_Wire
  imports Policy
begin

text \<open>
  \<open>crates/coral-client/src/wire.rs\<close>: the flat \<open>VERB key=value\<close> grammar the agents speak, on
  UTF-8 byte strings. Bracket depth is an unbounded integer: a 32-bit overflow needs two
  thousand million open brackets in one message.
\<close>

section \<open>Tokens\<close>

definition wire_verb :: "string \<Rightarrow> string" where
  "wire_verb msg = to_ascii_uppercase (case split_whitespace msg of [] \<Rightarrow> [] | w # _ \<Rightarrow> w)"

definition tok :: "string \<Rightarrow> string \<Rightarrow> string option" where
  "tok msg key =
     find_map (\<lambda>word. Option.bind (strip_prefix key word) (strip_prefix ''='')) (split_whitespace msg)"

definition num :: "string \<Rightarrow> string \<Rightarrow> f64 option" where
  "num msg key = Option.bind (tok msg key) parse_f64"

definition quoted :: "string \<Rightarrow> string \<Rightarrow> string option" where
  "quoted msg key =
     (let needle = key @ ''='' @ [CHR 0x22] in
      Option.bind (find_sub needle msg) (\<lambda>i.
        let rest = drop (i + length needle) msg in
        map_option (\<lambda>j. take j rest) (find_sub [CHR 0x22] rest)))"

section \<open>JSON values on the wire\<close>

definition open_bracket :: "char \<Rightarrow> bool" where
  "open_bracket c \<longleftrightarrow> c = CHR 0x7B \<or> c = CHR 0x5B"

definition close_bracket :: "char \<Rightarrow> bool" where
  "close_bracket c \<longleftrightarrow> c = CHR 0x7D \<or> c = CHR 0x5D"

text \<open>
  The search loop: the first occurrence of the needle at or after the position that starts a
  word and is followed by an opening bracket. The needle is not empty, so the position grows.
\<close>

definition at_word_start :: "string \<Rightarrow> bool" where
  "at_word_start before \<longleftrightarrow> before = [] \<or> 0 < ws_len_end before"

function key_position :: "string \<Rightarrow> string \<Rightarrow> nat \<Rightarrow> nat option" where
  "key_position needle msg k =
     (if needle = [] then None
      else case find_sub needle (drop k msg) of None \<Rightarrow> None
      | Some rel \<Rightarrow>
          let pos = k + rel; rest = drop (pos + length needle) msg in
          if at_word_start (take pos msg) \<and> (case rest of [] \<Rightarrow> False | c # _ \<Rightarrow> open_bracket c)
          then Some pos else key_position needle msg (pos + length needle))"
  by pat_completeness auto

termination
proof (relation "measure (\<lambda>(needle, msg, k). Suc (length msg) - k)", goal_cases)
  case (2 needle msg k rel pos rest)
  then have "find_sub needle (drop k msg) = Some rel" by simp
  then have "rel + length needle \<le> length (drop k msg)" using find_sub_Some by blast
  moreover have "needle \<noteq> []" using 2 by simp
  ultimately show ?case using 2 by (cases needle) auto
qed simp

declare key_position.simps [simp del]

text \<open>
  The scan: depth, inside a string, after a backslash; the result is the index just after the
  bracket that closes the value.
\<close>

fun scan_value :: "int \<Rightarrow> bool \<Rightarrow> bool \<Rightarrow> nat \<Rightarrow> string \<Rightarrow> nat option" where
  "scan_value depth in_string escaped i [] = None"
| "scan_value depth in_string escaped i (c # cs) =
     (if in_string then
        (if escaped then scan_value depth True False (Suc i) cs
         else if c = CHR 0x5C then scan_value depth True True (Suc i) cs
         else if c = CHR 0x22 then scan_value depth False False (Suc i) cs
         else scan_value depth True False (Suc i) cs)
      else if c = CHR 0x22 then scan_value depth True False (Suc i) cs
      else if open_bracket c then scan_value (depth + 1) False False (Suc i) cs
      else if close_bracket c then
        (if depth - 1 = 0 then Some (Suc i) else scan_value (depth - 1) False False (Suc i) cs)
      else scan_value depth False False (Suc i) cs)"

definition json_val :: "string \<Rightarrow> string \<Rightarrow> string option" where
  "json_val msg key =
     (let needle = key @ ''='' in
      Option.bind (key_position needle msg 0) (\<lambda>idx.
        let rest = drop (idx + length needle) msg in
        map_option (\<lambda>n. take n rest) (scan_value 0 False False 0 rest)))"

section \<open>Well-formed values\<close>

text \<open>
  Texts in which strings are closed and brackets nest, the shape of every serialized JSON
  value: a grammar independent of the scanner.
\<close>

inductive str_body :: "string \<Rightarrow> bool" where
  str_Nil: "str_body []"
| str_char: "c \<noteq> CHR 0x22 \<Longrightarrow> c \<noteq> CHR 0x5C \<Longrightarrow> str_body s \<Longrightarrow> str_body (c # s)"
| str_escape: "str_body s \<Longrightarrow> str_body (CHR 0x5C # c # s)"

inductive balanced :: "string \<Rightarrow> bool" where
  bal_Nil: "balanced []"
| bal_char: "c \<noteq> CHR 0x22 \<Longrightarrow> \<not> open_bracket c \<Longrightarrow> \<not> close_bracket c \<Longrightarrow> balanced s \<Longrightarrow> balanced (c # s)"
| bal_string: "str_body b \<Longrightarrow> balanced s \<Longrightarrow> balanced (CHR 0x22 # b @ CHR 0x22 # s)"
| bal_nested: "open_bracket c \<Longrightarrow> close_bracket d \<Longrightarrow> balanced b \<Longrightarrow> balanced s \<Longrightarrow> balanced (c # b @ d # s)"

definition container :: "string \<Rightarrow> bool" where
  "container v \<longleftrightarrow> (\<exists>c b d. v = c # b @ [d] \<and> open_bracket c \<and> close_bracket d \<and> balanced b)"

lemma brackets_distinct [simp]:
  "open_bracket c \<Longrightarrow> c \<noteq> CHR 0x22" "close_bracket c \<Longrightarrow> c \<noteq> CHR 0x22"
  "close_bracket c \<Longrightarrow> \<not> open_bracket c"
  by (auto simp: open_bracket_def close_bracket_def)

lemma scan_str_body:
  "str_body b \<Longrightarrow> scan_value depth True False i (b @ CHR 0x22 # s)
     = scan_value depth False False (Suc (i + length b)) s"
  by (induction b arbitrary: i rule: str_body.induct) simp_all

lemma scan_balanced:
  "balanced b \<Longrightarrow> 0 < depth \<Longrightarrow>
     scan_value depth False False i (b @ s) = scan_value depth False False (i + length b) s"
proof (induction b arbitrary: depth i s rule: balanced.induct)
  case (bal_string b t)
  then show ?case using scan_str_body [OF bal_string(1), of depth "Suc i" "t @ s"] by (simp add: add.assoc)
next
  case (bal_nested c d b t)
  then show ?case by (simp add: add_ac)
qed simp_all

lemma scan_container:
  assumes "container v" shows "scan_value 0 False False 0 (v @ s) = Some (length v)"
proof -
  obtain c b d where v: "v = c # b @ [d]" "open_bracket c" "close_bracket d" "balanced b"
    using assms by (auto simp: container_def)
  then show ?thesis using scan_balanced [OF v(4), of 1 "Suc 0" "d # s"] by simp
qed

section \<open>Where the key is found\<close>

lemma no_straddle:
  assumes "key @ ''='' = p @ u" and "p \<noteq> []" and "u \<noteq> []" and "u @ w = key @ ''='' @ s"
    and "CHR ''='' \<notin> set key"
  shows False
proof -
  have "length p + length u = Suc (length key)" using arg_cong [OF assms(1), of length] by simp
  moreover have "0 < length p" using assms(2) by simp
  ultimately have "length u \<le> length key" by linarith
  then have "take (length u) (key @ ''='' @ s) = take (length u) key" by simp
  then have "u = take (length u) key" using arg_cong [OF assms(4), of "take (length u)"] by simp
  then have sub: "set u \<subseteq> set key" by (metis set_take_subset)
  have "last u = last (p @ u)" using assms(3) by simp
  then have l: "last u = CHR ''=''" unfolding assms(1) [symmetric] by simp
  have "last u \<in> set key" using last_in_set [OF assms(3)] sub by (rule subsetD [rotated])
  then show False unfolding l using assms(5) by simp
qed

lemma find_sub_first:
  assumes "find_sub (key @ ''='') pre = None" and "CHR ''='' \<notin> set key"
  shows "find_sub (key @ ''='') (pre @ key @ ''='' @ s) = Some (length pre)"
  using assms(1)
proof (induction pre)
  case Nil
  then show ?case by (cases key) (auto simp: prefix_of_iff)
next
  case (Cons c pre)
  let ?n = "key @ ''=''"
  have "\<not> prefix_of ?n ((c # pre) @ ?n @ s)"
  proof
    assume "prefix_of ?n ((c # pre) @ ?n @ s)"
    then obtain t where t: "(c # pre) @ ?n @ s = ?n @ t" by (auto simp: prefix_of_iff)
    have np: "\<not> prefix_of ?n (c # pre)" using Cons.prems by (auto split: if_splits)
    from t obtain us where "(c # pre) = ?n @ us \<and> us @ ?n @ s = t \<or> (c # pre) @ us = ?n \<and> ?n @ s = us @ t"
      unfolding append_eq_append_conv2 by blast
    then show False
    proof
      assume "(c # pre) = ?n @ us \<and> us @ ?n @ s = t"
      then show False using np by (auto simp: prefix_of_iff)
    next
      assume u: "(c # pre) @ us = ?n \<and> ?n @ s = us @ t"
      show False
      proof (cases "us = []")
        case True
        then show False using np u by (auto simp: prefix_of_iff)
      next
        case False
        show False by (rule no_straddle [of key "c # pre" us t s]) (use u False assms(2) in auto)
      qed
    qed
  qed
  then show ?case using Cons by (auto split: if_splits)
qed

lemma key_position_first:
  assumes "find_sub (key @ ''='') pre = None" and "CHR ''='' \<notin> set key" and "at_word_start pre"
    and "open_bracket c"
  shows "key_position (key @ ''='') (pre @ key @ ''='' @ c # s) 0 = Some (length pre)"
  using assms find_sub_first [OF assms(1,2), of "c # s"]
  by (subst key_position.simps) (simp add: Let_def)

lemma key_position_Some:
  assumes "key_position needle msg k = Some i"
  shows "k \<le> i \<and> (\<exists>c rest. msg = take i msg @ needle @ c # rest \<and> at_word_start (take i msg) \<and> open_bracket c)"
  using assms
proof (induction needle msg k rule: key_position.induct)
  case (1 needle msg k)
  obtain rel where n: "needle \<noteq> []" and rel: "find_sub needle (drop k msg) = Some rel"
    using 1(2) by (subst (asm) key_position.simps) (auto split: if_splits option.splits)
  obtain t where t: "drop k msg = take rel (drop k msg) @ needle @ t" and le: "rel + length needle \<le> length (drop k msg)"
    using find_sub_Some [OF rel] by blast
  let ?p = "k + rel" and ?rest = "drop (k + rel + length needle) msg"
  let ?C = "at_word_start (take ?p msg) \<and> (case ?rest of [] \<Rightarrow> False | c # _ \<Rightarrow> open_bracket c)"
  have step: "key_position needle msg k = (if ?C then Some ?p else key_position needle msg (?p + length needle))"
    using n rel by (subst key_position.simps) (simp add: Let_def)
  show ?case
  proof (cases ?C)
    case True
    then have i: "i = ?p" using 1(2) unfolding step by simp
    have d: "drop ?p msg = needle @ t"
      using arg_cong [OF t, of "drop rel"] le by (simp add: add.commute)
    then have "msg = take ?p msg @ needle @ t" by (metis append_take_drop_id)
    moreover have "?rest = t" using arg_cong [OF d, of "drop (length needle)"] by (simp add: add_ac)
    ultimately show ?thesis using True i by (auto split: list.splits)
  next
    case False
    have "key_position needle msg (?p + length needle) = Some i"
      using 1(2) unfolding step if_not_P [OF False] .
    from 1(1) [OF n rel refl refl False this] show ?thesis by auto
  qed
qed

lemma json_val_extract:
  assumes "container v" and "CHR ''='' \<notin> set key" and "find_sub (key @ ''='') pre = None" and "at_word_start pre"
  shows "json_val (pre @ key @ ''='' @ v @ rest) key = Some v"
proof -
  obtain c w where v: "v = c # w" "open_bracket c" using assms(1) by (auto simp: container_def)
  have "key_position (key @ ''='') (pre @ key @ ''='' @ v @ rest) 0 = Some (length pre)"
    using key_position_first [OF assms(3,2,4) v(2), of "w @ rest"] v by simp
  then show ?thesis using scan_container [OF assms(1), of rest] by (simp add: json_val_def Let_def)
qed

text \<open>
  What can go wrong before the key: the same key at the start of a word, followed by a bracket.
  \<open>no_key\<close> says that a text has no such place, \<open>no_key_inside\<close> that it has none after its start.
\<close>

definition no_key :: "string \<Rightarrow> string \<Rightarrow> bool" where
  "no_key key pre \<longleftrightarrow> (\<forall>a c b. pre = a @ key @ ''='' @ c # b \<longrightarrow> at_word_start a \<longrightarrow> \<not> open_bracket c)"

definition no_key_inside :: "string \<Rightarrow> string \<Rightarrow> bool" where
  "no_key_inside key pre \<longleftrightarrow>
     (\<forall>a c b. pre = a @ key @ ''='' @ c # b \<longrightarrow> a \<noteq> [] \<longrightarrow> at_word_start a \<longrightarrow> \<not> open_bracket c)"

lemma drop_of_split: "drop k m = take r (drop k m) @ u \<Longrightarrow> drop (k + r) m = u"
  by (metis add.commute append_take_drop_id drop_drop same_append_eq)

lemma key_position_no_key:
  assumes pre: "no_key key pre" "at_word_start pre" and key: "CHR ''='' \<notin> set key" "key \<noteq> []" "\<not> open_bracket (hd key)"
    and c: "open_bracket c"
  shows "k \<le> length pre \<Longrightarrow> key_position (key @ ''='') (pre @ key @ ''='' @ c # s) k = Some (length pre)"
proof (induction "length pre - k" arbitrary: k rule: less_induct)
  case less
  let ?n = "key @ ''=''" and ?msg = "pre @ key @ ''='' @ c # s"
  have dk: "drop k ?msg = drop k pre @ ?n @ c # s" using less.prems by simp
  obtain rel where rel: "find_sub ?n (drop k ?msg) = Some rel" "rel \<le> length (drop k pre)"
    using find_sub_append [of ?n "drop k pre" "c # s"] unfolding dk by blast
  define pos where "pos = k + rel"
  have pos: "pos \<le> length pre" using rel(2) less.prems by (simp add: pos_def)
  let ?C = "at_word_start (take pos ?msg) \<and> (case drop (pos + length ?n) ?msg of [] \<Rightarrow> False | c # _ \<Rightarrow> open_bracket c)"
  have step: "key_position ?n ?msg k = (if ?C then Some pos else key_position ?n ?msg (pos + length ?n))"
    using rel(1) by (subst key_position.simps) (simp add: Let_def pos_def)
  show ?case
  proof (cases "pos = length pre")
    case True
    then show ?thesis unfolding step using pre(2) c by simp
  next
    case False
    let ?u = "drop pos pre"
    obtain t where "drop k ?msg = take rel (drop k ?msg) @ ?n @ t"
      using find_sub_Some [OF rel(1)] by blast
    from drop_of_split [OF this] have "drop pos ?msg = ?n @ t" unfolding pos_def .
    then have "?u @ ?n @ c # s = ?n @ t" using pos by simp
    then obtain us where "?u = ?n @ us \<and> us @ ?n @ c # s = t \<or> ?u @ us = ?n \<and> ?n @ c # s = us @ t"
      unfolding append_eq_append_conv2 by blast
    then have "\<exists>us. ?u = ?n @ us"
    proof
      assume a: "?u @ us = ?n \<and> ?n @ c # s = us @ t"
      show ?thesis
      proof (cases "us = []")
        case False
        have "?u \<noteq> []" using \<open>pos \<noteq> length pre\<close> pos by simp
        then show ?thesis using no_straddle [of key ?u us t "c # s"] False a key(1) by auto
      qed (use a in auto)
    qed blast
    then obtain us where u: "?u = ?n @ us" by blast
    then have p: "pre = take pos pre @ key @ ''='' @ us" by (metis append.assoc append_take_drop_id)
    have next_pos: "pos + length ?n \<le> length pre" using arg_cong [OF u, of length] pos by simp
    have "\<not> ?C"
    proof
      assume ?C
      then have w: "at_word_start (take pos pre)" and d: "case us @ ?n @ c # s of [] \<Rightarrow> False | c # _ \<Rightarrow> open_bracket c"
        using pos arg_cong [OF u, of "drop (length ?n)"] next_pos by (simp_all add: add.commute)
      show False
      proof (cases us)
        case Nil
        then show False using d key(2,3) by (cases key) auto
      next
        case (Cons e us')
        then show False using pre(1) p w d unfolding no_key_def by auto
      qed
    qed
    then have "key_position ?n ?msg k = key_position ?n ?msg (pos + length ?n)" unfolding step by (rule if_not_P)
    moreover have "length pre - (pos + length ?n) < length pre - k" using next_pos by (simp add: pos_def)
    then have "key_position ?n ?msg (pos + length ?n) = Some (length pre)" using next_pos by (rule less.hyps)
    ultimately show ?thesis by (rule trans)
  qed
qed

lemma json_val_no_key:
  assumes "container v" and "no_key key pre" "at_word_start pre"
    and "CHR ''='' \<notin> set key" "key \<noteq> []" "\<not> open_bracket (hd key)"
  shows "json_val (pre @ key @ ''='' @ v @ rest) key = Some v"
proof -
  obtain c w where v: "v = c # w" "open_bracket c" using assms(1) by (auto simp: container_def)
  have "key_position (key @ ''='') (pre @ key @ ''='' @ v @ rest) 0 = Some (length pre)"
    using key_position_no_key [OF assms(2-6) v(2), of 0 "w @ rest"] v by simp
  then show ?thesis using scan_container [OF assms(1), of rest] by (simp add: json_val_def Let_def)
qed

text \<open>Whole words before the key: a place inside or across them does not start a word.\<close>

lemma ws_no_word_char: assumes "w \<in> set ws_seqs" "c \<in> set w" shows "\<not> word_char c"
proof -
  have "list_all (list_all (\<lambda>c. \<not> word_char c)) ws_seqs" by code_simp
  then show ?thesis using assms by (auto simp: list_all_iff)
qed

lemma ws_space_alone: assumes "w \<in> set ws_seqs" "CHR '' '' \<in> set w" shows "w = '' ''"
proof -
  have "list_all (\<lambda>w. CHR '' '' \<in> set w \<longrightarrow> w = '' '') ws_seqs" by code_simp
  then show ?thesis using assms by (auto simp: list_all_iff)
qed

lemma ws_end_iff: "0 < ws_len_end s \<longleftrightarrow> (\<exists>w a. w \<in> set ws_seqs \<and> s = a @ w)"
proof -
  have ne: "[] \<notin> set ws_seqs" by (auto simp: ws_seqs_def)
  have "0 < ws_len_end s \<longleftrightarrow> filter (\<lambda>w. prefix_of (rev w) (rev s)) ws_seqs \<noteq> []"
    using ne by (cases "filter (\<lambda>w. prefix_of (rev w) (rev s)) ws_seqs")
      (auto simp: ws_len_end_def dest!: arg_cong [where f = set])
  also have "\<dots> \<longleftrightarrow> (\<exists>w \<in> set ws_seqs. prefix_of (rev w) (rev s))" by (auto simp: filter_empty_conv)
  finally show ?thesis by (auto simp: prefix_of_iff) (metis rev_append rev_rev_ident)+
qed

lemma word_start_after_char:
  assumes "word_char c" and "at_word_start (x @ c # a)"
  shows "a \<noteq> [] \<and> at_word_start a"
proof -
  obtain w y where w: "w \<in> set ws_seqs" "x @ c # a = y @ w"
    using assms(2) by (auto simp: at_word_start_def ws_end_iff)
  have "c \<notin> set w" using ws_no_word_char w(1) assms(1) by blast
  then have "\<exists>z. a = z @ w"
    using w(2) by (auto simp: append_eq_append_conv2 append_eq_Cons_conv Cons_eq_append_conv)
  moreover have "w \<noteq> []" using w(1) by (auto simp: ws_seqs_def)
  ultimately show ?thesis using w(1) by (auto simp: at_word_start_def ws_end_iff)
qed

lemma word_start_after_space:
  assumes "at_word_start (CHR '' '' # a)" shows "at_word_start a"
proof (cases "a = []")
  case False
  obtain w y where w: "w \<in> set ws_seqs" "CHR '' '' # a = y @ w"
    using assms by (auto simp: at_word_start_def ws_end_iff)
  then have "y \<noteq> []" using ws_space_alone [OF w(1)] False by (cases y) auto
  then show ?thesis using w by (cases y) (auto simp: at_word_start_def ws_end_iff)
qed (simp add: at_word_start_def)

lemma no_key_word:
  assumes "list_all word_char u" "u \<noteq> []" and "\<not> prefix_of (key @ ''='') (u @ s)" and "no_key_inside key s"
  shows "no_key key (u @ s)"
  unfolding no_key_def
proof (intro allI impI)
  fix a c b
  assume eq: "u @ s = a @ key @ ''='' @ c # b" and a: "at_word_start a"
  have "a \<noteq> []" using eq assms(3) by (auto simp: prefix_of_iff)
  obtain d v where v: "u = v @ [d]" "word_char d" using assms(1,2) by (cases u rule: rev_cases) auto
  from eq obtain z where "u = a @ z \<and> z @ s = key @ ''='' @ c # b \<or> u @ z = a \<and> s = z @ key @ ''='' @ c # b"
    unfolding append_eq_append_conv2 by blast
  then show "\<not> open_bracket c"
  proof
    assume z: "u = a @ z \<and> z @ s = key @ ''='' @ c # b"
    obtain e t where "a = t @ [e]" using \<open>a \<noteq> []\<close> by (cases a rule: rev_cases) auto
    moreover from this have "word_char e" using z assms(1) by auto
    ultimately show ?thesis using word_start_after_char [of e t "[]"] a by simp
  next
    assume z: "u @ z = a \<and> s = z @ key @ ''='' @ c # b"
    then have "z \<noteq> [] \<and> at_word_start z" using word_start_after_char [OF v(2), of v z] a v(1) by simp
    then show ?thesis using assms(4) z unfolding no_key_inside_def by blast
  qed
qed

lemma no_key_inside_space:
  assumes "no_key key s" shows "no_key_inside key (CHR '' '' # s)"
  unfolding no_key_inside_def
proof (intro allI impI)
  fix a c b
  assume eq: "CHR '' '' # s = a @ key @ ''='' @ c # b" and a: "a \<noteq> []" "at_word_start a"
  then obtain z where "a = CHR '' '' # z" by (cases a) auto
  then show "\<not> open_bracket c"
    using assms eq word_start_after_space [of z] a(2) unfolding no_key_def by auto
qed

lemma no_key_inside_end:
  assumes "no_key_inside key s" shows "no_key_inside key (s @ '' '')"
  unfolding no_key_inside_def
proof (intro allI impI)
  fix a c b
  assume eq: "s @ '' '' = a @ key @ ''='' @ c # b" and a: "a \<noteq> []" "at_word_start a"
  show "\<not> open_bracket c"
  proof (cases b rule: rev_cases)
    case Nil
    then have "c = CHR '' ''" using arg_cong [OF eq, of last] by simp
    then show ?thesis by (simp add: open_bracket_def)
  next
    case (snoc b' e)
    then have "s = a @ key @ ''='' @ c # b'" using eq by simp
    then show ?thesis using assms a unfolding no_key_inside_def by blast
  qed
qed

section \<open>Words\<close>

lemma ws_len_space: "ws_len (CHR '' '' # s) = 1"
proof -
  have "map (\<lambda>n. [char_of (n::nat)]) [9, 10, 11, 12, 13, 32] =
      [[CHR 0x09], [CHR 0x0A], [CHR 0x0B], [CHR 0x0C], [CHR 0x0D], [CHR 0x20]]" by code_simp
  moreover have "prefix_of [c, d, e] (CHR '' '' # s) \<longleftrightarrow> c = CHR '' '' \<and> prefix_of [d, e] s" for c d e
    by (cases s) auto
  ultimately show ?thesis by (simp add: ws_len_def ws_seqs_def)
qed

lemma split_ws_word:
  "list_all word_char w \<Longrightarrow> split_ws acc (w @ CHR '' '' # s) =
     (if acc = [] \<and> w = [] then [] else [rev acc @ w]) @ split_ws [] s"
proof (induction w arbitrary: acc)
  case Nil
  then show ?case by (subst split_ws.simps) (simp add: ws_len_space)
next
  case (Cons c w)
  then show ?case by (subst split_ws.simps) (simp add: ws_len_word)
qed

lemma split_whitespace_word:
  "list_all word_char w \<Longrightarrow> w \<noteq> [] \<Longrightarrow> split_whitespace (w @ CHR '' '' # s) = w # split_whitespace s"
  using split_ws_word [of w "[]" s] by (simp add: split_whitespace_def)

lemma tok_word:
  assumes "list_all word_char w" "w \<noteq> []"
  shows "tok (w @ CHR '' '' # s) key =
    (case Option.bind (strip_prefix key w) (strip_prefix ''='') of Some v \<Rightarrow> Some v | None \<Rightarrow> tok s key)"
  unfolding tok_def split_whitespace_word [OF assms] by (simp split: option.splits)

lemma wire_verb_word:
  "list_all word_char v \<Longrightarrow> v \<noteq> [] \<Longrightarrow> wire_verb (v @ CHR '' '' # s) = to_ascii_uppercase v"
  by (simp add: wire_verb_def split_whitespace_word)

lemma strip_prefix_append [simp]: "strip_prefix p (p @ s) = Some s"
  by (simp add: strip_prefix_def prefix_of_iff)

section \<open>Properties\<close>

text \<open>
  C11: a JSON object or array put on the wire under a key is extracted byte for byte, whatever
  follows it and whatever its strings contain, as long as the key has not occurred before it
  and stands at the start of a word.
\<close>

theorem json_val_roundtrip:
  assumes "container v" and "CHR ''='' \<notin> set key" and "find_sub (key @ ''='') pre = None" and "at_word_start pre"
  shows "json_val (pre @ key @ ''='' @ v @ rest) key = Some v"
  using assms by (rule json_val_extract)

lemma json_val_roundtrip_witness:
  "json_val (''V round=1 '' @ ''wager'' @ ''='' @ ''{a:[1,2]}'' @ '' tail=x'') ''wager'' = Some ''{a:[1,2]}''"
proof (rule json_val_roundtrip)
  have plain: "c \<noteq> CHR 0x22 \<and> \<not> open_bracket c \<and> \<not> close_bracket c" if "c \<in> set ''a:1,2''" for c
    using that by (auto simp: open_bracket_def close_bracket_def)
  have "balanced ''1,2''" using plain by (intro balanced.intros) auto
  moreover have "open_bracket (CHR ''['')" "close_bracket (CHR '']'')" by (simp_all add: open_bracket_def close_bracket_def)
  ultimately have "balanced (CHR ''['' # ''1,2'' @ CHR '']'' # [])" using bal_nested bal_Nil by blast
  then have "balanced ''a:[1,2]''" using plain by (simp add: bal_char)
  then have "balanced ''a:[1,2]'' \<and> open_bracket (CHR ''{'') \<and> close_bracket (CHR ''}'')"
    by (simp add: open_bracket_def close_bracket_def)
  then show "container ''{a:[1,2]}''"
    unfolding container_def by (intro exI [of _ "CHR ''{''"] exI [of _ "''a:[1,2]''"] exI [of _ "CHR ''}''"]) simp
qed (code_simp, code_simp, code_simp)

text \<open>
  The converse fails: the key is also found inside the string of an earlier value when a space
  precedes it there, so that text, not the field of that name, is extracted.
\<close>

definition lookalike_message :: string where
  "lookalike_message =
     ''V trail={'' @ [CHR 0x22] @ ''note'' @ [CHR 0x22] @ '':'' @ [CHR 0x22] @ '' wager={fake}'' @ [CHR 0x22]
     @ ''} wager={'' @ [CHR 0x22] @ ''real'' @ [CHR 0x22] @ '':true}''"

lemma json_val_lookalike: "json_val lookalike_message ''wager'' = Some ''{fake}''"
  by code_simp

end
