(* ===== verification/Config.thy ===== *)
theory Config
  imports Domain_Types
begin

text \<open>
  Configuration: \<open>native/src/config.rs\<close> and the provider selection of
  \<open>crates/rig-venice/src/lib.rs\<close>. The process environment and the OS keychain are maps
  from names to texts; the random token of the diagnostics server is an argument.
\<close>

type_synonym env = "string \<rightharpoonup> string"

section \<open>rig-venice: providers\<close>

datatype provider = Venice | Groq

definition active_provider :: "env \<Rightarrow> provider" where
  "active_provider env =
     (case map_option to_ascii_lowercase (env ''LLM_PROVIDER'') of
        Some v \<Rightarrow>
          if v = ''groq'' then Groq
          else if v = ''venice'' then Venice
          else if env ''VENICE_API_KEY'' \<noteq> None then Venice
          else if env ''GROQ_API_KEY'' \<noteq> None then Groq else Venice
      | None \<Rightarrow>
          if env ''VENICE_API_KEY'' \<noteq> None then Venice
          else if env ''GROQ_API_KEY'' \<noteq> None then Groq else Venice)"

datatype venice_error = MissingApiKey string

definition show_venice_error :: "venice_error \<Rightarrow> string" where
  "show_venice_error e = (case e of MissingApiKey var \<Rightarrow> var @ '' environment variable not set'')"

text \<open>The client is its key and base URL.\<close>

definition llm_client :: "env \<Rightarrow> venice_error + string \<times> string" where
  "llm_client env =
     (case active_provider env of
        Venice \<Rightarrow>
          (case env ''VENICE_API_KEY'' of None \<Rightarrow> Inl (MissingApiKey ''VENICE_API_KEY'')
           | Some k \<Rightarrow> Inr (k, unwrap_or ''https://api.venice.ai/api/v1'' (env ''VENICE_BASE_URL'')))
      | Groq \<Rightarrow>
          (case env ''GROQ_API_KEY'' of None \<Rightarrow> Inl (MissingApiKey ''GROQ_API_KEY'')
           | Some k \<Rightarrow> Inr (k, unwrap_or ''https://api.groq.com/openai/v1'' (env ''GROQ_BASE_URL''))))"

definition model_name :: "env \<Rightarrow> string" where
  "model_name env = (case active_provider env of
     Venice \<Rightarrow> unwrap_or ''kimi-k2-7-code'' (env ''VENICE_MODEL'')
   | Groq \<Rightarrow> unwrap_or ''llama-3.1-8b-instant'' (env ''GROQ_MODEL''))"

definition prose_model_name :: "env \<Rightarrow> string" where
  "prose_model_name env = (case active_provider env of
     Venice \<Rightarrow> unwrap_or ''llama-3.3-70b'' (env ''VENICE_PROSE_MODEL'')
   | Groq \<Rightarrow> unwrap_or ''llama-3.3-70b-versatile'' (env ''GROQ_PROSE_MODEL''))"

section \<open>config.rs: environment helpers\<close>

definition nonblank :: "string \<Rightarrow> string option" where
  \<comment> \<open>\<open>map(trim)\<close> and \<open>filter(not empty)\<close>\<close>
  "nonblank v = opt_filter (\<lambda>s. s \<noteq> []) (Some (trim v))"

definition optional_env :: "env \<Rightarrow> string \<Rightarrow> string option" where
  "optional_env env name = Option.bind (env name) nonblank"

definition env_or_default :: "env \<Rightarrow> string \<Rightarrow> string \<Rightarrow> string" where
  "env_or_default env name fallback = unwrap_or fallback (optional_env env name)"

definition secret :: "env \<Rightarrow> env \<Rightarrow> string \<Rightarrow> string \<Rightarrow> string option" where
  "secret env keys env_name key_name =
     opt_or (optional_env env env_name) (Option.bind (keys key_name) nonblank)"

definition bool_env :: "env \<Rightarrow> string \<Rightarrow> bool \<Rightarrow> bool" where
  "bool_env env name fallback =
     unwrap_or fallback (map_option (\<lambda>v. v \<in> set [''1'', ''true'', ''TRUE'', ''yes'', ''YES''])
       (optional_env env name))"

definition number_env :: "env \<Rightarrow> string \<Rightarrow> f64 \<Rightarrow> f64" where
  "number_env env name fallback = unwrap_or fallback (Option.bind (optional_env env name) parse_f64)"

definition parse_u16 :: "string \<Rightarrow> 16 word option" where
  "parse_u16 s = (case parse_dec (if prefix_of ''+'' s then drop 1 s else s) of
     None \<Rightarrow> None | Some n \<Rightarrow> if n < 2 ^ 16 then Some (of_int n) else None)"

section \<open>config.rs: the configuration\<close>

record app_config =
  txline_api_origin :: string
  txline_network :: string
  txline_guest_jwt :: "string option"
  txline_api_token :: "string option"
  txline_program_id_override :: "string option"
  solana_cluster :: string
  rpc_devnet_endpoint :: "string option"
  rpc_devnet_token :: "string option"
  rpc_mainnet_endpoint :: "string option"
  rpc_mainnet_token :: "string option"
  grpc_endpoint :: "string option"
  grpc_x_token :: "string option"
  solana_pay_recipient :: "string option"
  solana_pay_spl_token :: "string option"
  solana_pay_default_amount_sol :: f64
  watch_escrow_program_id :: "string option"
  watch_market_program_id :: "string option"
  watch_escrow_account :: "string option"
  coralos_root :: "string option"
  coralos_bridge_url :: "string option"
  coralos_proxy_url :: string
  coralos_server_url :: string
  coralos_token :: string
  coralos_namespace :: string
  coralos_session_id :: "string option"
  coralos_console_enabled :: bool
  coralos_sidecar_path :: "string option"
  coralos_settlement_enabled :: bool
  llm_provider :: string
  llm_model :: string
  venice_api_key :: "string option"
  groq_api_key :: "string option"
  llm_trace :: bool
  odds_move_trigger_pct :: f64
  max_devnet_spend_sol :: f64
  axum_enabled :: bool
  axum_token :: string
  axum_bind :: string
  axum_port :: "16 word"
  autonomous_enabled :: bool
  autonomous_poll_secs :: u64

definition load_config :: "env \<Rightarrow> env \<Rightarrow> string \<Rightarrow> app_config" where
  \<comment> \<open>environment, keychain, fresh UUID\<close>
  "load_config env keys uuid =
    \<lparr>txline_api_origin = env_or_default env ''TXLINE_API_ORIGIN'' ''https://txline-dev.txodds.com'',
     txline_network = env_or_default env ''TXLINE_NETWORK'' ''devnet'',
     txline_guest_jwt = secret env keys ''TXLINE_GUEST_JWT'' ''txline_guest_jwt'',
     txline_api_token = secret env keys ''TXLINE_API_TOKEN'' ''txline_api_token'',
     txline_program_id_override = optional_env env ''TXLINE_PROGRAM_ID'',
     solana_cluster = env_or_default env ''SOLANA_CLUSTER'' ''devnet'',
     rpc_devnet_endpoint = optional_env env ''TRITON_DEVNET_RPC'',
     rpc_devnet_token = secret env keys ''TRITON_DEVNET_TOKEN'' ''triton_devnet_token'',
     rpc_mainnet_endpoint = optional_env env ''TRITON_MAINNET_RPC'',
     rpc_mainnet_token = secret env keys ''TRITON_MAINNET_TOKEN'' ''triton_mainnet_token'',
     grpc_endpoint = optional_env env ''TRITON_GRPC_ENDPOINT'',
     grpc_x_token = secret env keys ''TRITON_X_TOKEN'' ''triton_x_token'',
     solana_pay_recipient = optional_env env ''SOLANA_PAY_RECIPIENT'',
     solana_pay_spl_token = optional_env env ''SOLANA_PAY_SPL_TOKEN'',
     solana_pay_default_amount_sol = number_env env ''SOLANA_PAY_DEFAULT_AMOUNT_SOL'' (lit (1/1000)),
     watch_escrow_program_id = optional_env env ''WATCH_ESCROW_PROGRAM_ID'',
     watch_market_program_id = optional_env env ''WATCH_MARKET_PROGRAM_ID'',
     watch_escrow_account = optional_env env ''WATCH_ESCROW_ACCOUNT'',
     coralos_root = optional_env env ''CORALOS_ROOT'',
     coralos_bridge_url = optional_env env ''CORALOS_BRIDGE_URL'',
     coralos_proxy_url = env_or_default env ''CORALOS_TXODDS_PROXY'' ''http://localhost:8801'',
     coralos_server_url = env_or_default env ''CORAL_SERVER_URL'' ''http://localhost:5555'',
     coralos_token = env_or_default env ''CORAL_TOKEN'' ''dev'',
     coralos_namespace = env_or_default env ''CORALOS_NAMESPACE'' ''default'',
     coralos_session_id = optional_env env ''CORALOS_SESSION_ID'',
     coralos_console_enabled = bool_env env ''CORALOS_CONSOLE_ENABLED'' True,
     coralos_sidecar_path = optional_env env ''CORALOS_SIDECAR_PATH'',
     coralos_settlement_enabled = bool_env env ''CORALOS_SETTLEMENT_ENABLED'' True,
     llm_provider = (case active_provider env of Venice \<Rightarrow> ''venice'' | Groq \<Rightarrow> ''groq''),
     llm_model = env_or_default env ''LLM_MODEL'' ''default'',
     venice_api_key = secret env keys ''VENICE_API_KEY'' ''venice_api_key'',
     groq_api_key = secret env keys ''GROQ_API_KEY'' ''groq_api_key'',
     llm_trace = bool_env env ''LLM_TRACE'' (bool_env env ''TRACE'' False),
     odds_move_trigger_pct = number_env env ''ODDS_MOVE_TRIGGER_PCT'' (lit 5),
     max_devnet_spend_sol = number_env env ''MAX_DEVNET_SPEND_SOL'' (lit (5/100)),
     axum_enabled = bool_env env ''DESK_AXUM_ENABLED'' False,
     axum_token = unwrap_or uuid (optional_env env ''DESK_AXUM_TOKEN''),
     axum_bind = env_or_default env ''DESK_AXUM_BIND'' ''127.0.0.1'',
     axum_port = unwrap_or 47990 (Option.bind (optional_env env ''DESK_AXUM_PORT'') parse_u16),
     autonomous_enabled = bool_env env ''AUTONOMOUS_ENABLED'' True,
     autonomous_poll_secs = unwrap_or 60 (Option.bind (optional_env env ''AUTONOMOUS_POLL_SECS'') parse_u64)\<rparr>"

definition rpc_endpoint :: "app_config \<Rightarrow> cluster \<Rightarrow> string option" where
  "rpc_endpoint c k = (case k of Devnet \<Rightarrow> rpc_devnet_endpoint c | Mainnet \<Rightarrow> rpc_mainnet_endpoint c)"

definition rpc_token :: "app_config \<Rightarrow> cluster \<Rightarrow> string option" where
  "rpc_token c k = (case k of Devnet \<Rightarrow> rpc_devnet_token c | Mainnet \<Rightarrow> rpc_mainnet_token c)"

definition rpc_pair_configured :: "app_config \<Rightarrow> cluster \<Rightarrow> bool" where
  "rpc_pair_configured c k \<longleftrightarrow> rpc_endpoint c k \<noteq> None \<and> rpc_token c k \<noteq> None"

definition txline_program_id :: "app_config \<Rightarrow> string" where
  "txline_program_id c = (case txline_program_id_override c of Some i \<Rightarrow> i
   | None \<Rightarrow> if eq_ignore_ascii_case (txline_network c) ''mainnet''
             then ''9ExbZjAapQww1vfcisDmrngPinHTEfpjYRWMunJgcKaA''
             else ''6pW64gN1s2uqjHkn1unFeEjAwJkPGHoppGvS715wyP2J'')"

record public_config =
  pub_txline_api_origin :: string
  pub_txline_network :: string
  pub_solana_cluster :: string
  pub_odds_move_trigger_pct :: f64
  pub_max_devnet_spend_sol :: f64
  pub_txline_configured :: bool
  pub_rpc_configured :: bool
  pub_rpc_devnet_configured :: bool
  pub_rpc_mainnet_configured :: bool
  pub_yellowstone_configured :: bool
  pub_solana_pay_configured :: bool
  pub_coralos_configured :: bool
  pub_coralos_console_enabled :: bool
  pub_llm_configured :: bool
  pub_llm_provider :: string
  pub_llm_model :: string
  pub_axum_enabled :: bool

definition public_view :: "app_config \<Rightarrow> public_config" where
  "public_view c =
    \<lparr>pub_txline_api_origin = txline_api_origin c, pub_txline_network = txline_network c,
     pub_solana_cluster = solana_cluster c, pub_odds_move_trigger_pct = odds_move_trigger_pct c,
     pub_max_devnet_spend_sol = max_devnet_spend_sol c,
     pub_txline_configured = (txline_guest_jwt c \<noteq> None \<and> txline_api_token c \<noteq> None),
     pub_rpc_configured = (rpc_pair_configured c Devnet \<or> rpc_pair_configured c Mainnet),
     pub_rpc_devnet_configured = rpc_pair_configured c Devnet,
     pub_rpc_mainnet_configured = rpc_pair_configured c Mainnet,
     pub_yellowstone_configured = (grpc_endpoint c \<noteq> None \<and> grpc_x_token c \<noteq> None),
     pub_solana_pay_configured = (solana_pay_recipient c \<noteq> None \<and> eq_ignore_ascii_case (solana_cluster c) ''devnet''),
     pub_coralos_configured = (coralos_settlement_enabled c \<and> (coralos_bridge_url c \<noteq> None \<or> coralos_root c \<noteq> None)),
     pub_coralos_console_enabled = coralos_console_enabled c,
     pub_llm_configured = (venice_api_key c \<noteq> None \<or> groq_api_key c \<noteq> None),
     pub_llm_provider = llm_provider c, pub_llm_model = llm_model c, pub_axum_enabled = axum_enabled c\<rparr>"

section \<open>Redaction\<close>

text \<open>
  A configuration with every credential and private endpoint, where present, replaced by the
  same placeholder: what the webview may depend on.
\<close>

definition redact :: "app_config \<Rightarrow> app_config" where
  "redact c = (let hide = map_option (\<lambda>_. ''***'') in
    c\<lparr>txline_guest_jwt := hide (txline_guest_jwt c), txline_api_token := hide (txline_api_token c),
      rpc_devnet_endpoint := hide (rpc_devnet_endpoint c), rpc_devnet_token := hide (rpc_devnet_token c),
      rpc_mainnet_endpoint := hide (rpc_mainnet_endpoint c), rpc_mainnet_token := hide (rpc_mainnet_token c),
      grpc_endpoint := hide (grpc_endpoint c), grpc_x_token := hide (grpc_x_token c),
      solana_pay_recipient := hide (solana_pay_recipient c), coralos_token := ''***'',
      venice_api_key := hide (venice_api_key c), groq_api_key := hide (groq_api_key c),
      axum_token := ''***'', coralos_session_id := hide (coralos_session_id c)\<rparr>)"

lemma nonblank_Some: "nonblank v = Some s \<longleftrightarrow> s = trim v \<and> s \<noteq> []"
  by (auto simp: nonblank_def)

lemma optional_env_Some: "optional_env env name = Some s \<longleftrightarrow> (\<exists>v. env name = Some v \<and> s = trim v \<and> s \<noteq> [])"
  by (auto simp: optional_env_def nonblank_Some bind_eq_Some_conv)

text \<open>
  The public view handed to the webview is unchanged when every credential, token and
  private endpoint is replaced by a placeholder: it reveals only whether they are present.
\<close>

theorem public_view_redacts: "public_view (redact c) = public_view c"
  by (simp add: public_view_def redact_def Let_def rpc_pair_configured_def rpc_endpoint_def rpc_token_def)

text \<open>
  The provider of the configuration is the provider of the reasoning client of the same
  environment, so the client never asks for the other provider's key; but the choice reads the
  raw environment only. A Groq key in the keychain alone is loaded into the configuration,
  reported as configured, and yet the provider is Venice and no client can be built.
\<close>

theorem provider_selection:
  "llm_provider (load_config env keys uuid) = (case active_provider env of Venice \<Rightarrow> ''venice'' | Groq \<Rightarrow> ''groq'')
   \<and> llm_client env \<noteq> Inl (MissingApiKey
        (if llm_provider (load_config env keys uuid) = ''groq'' then ''VENICE_API_KEY'' else ''GROQ_API_KEY''))
   \<and> pub_llm_configured (public_view (load_config Map.empty [''groq_api_key'' \<mapsto> ''gsk''] uuid))
   \<and> llm_client Map.empty = Inl (MissingApiKey ''VENICE_API_KEY'')"
proof (intro conjI)
  show "llm_provider (load_config env keys uuid) = (case active_provider env of Venice \<Rightarrow> ''venice'' | Groq \<Rightarrow> ''groq'')"
    by (simp add: load_config_def)
  show "llm_client env \<noteq> Inl (MissingApiKey
        (if llm_provider (load_config env keys uuid) = ''groq'' then ''VENICE_API_KEY'' else ''GROQ_API_KEY''))"
    by (auto simp: load_config_def llm_client_def split: provider.splits option.splits)
  have "trim ''gsk'' = ''gsk''" by code_simp
  then show "pub_llm_configured (public_view (load_config Map.empty [''groq_api_key'' \<mapsto> ''gsk''] uuid))"
    by (simp add: public_view_def load_config_def secret_def optional_env_def nonblank_def)
  show "llm_client Map.empty = Inl (MissingApiKey ''VENICE_API_KEY'')"
    by (simp add: llm_client_def active_provider_def)
qed

end
