(* ===== verification/Coral_Bus.thy ===== *)
theory Coral_Bus
  imports Coral_Wire Config
begin

text \<open>
  The desk's side of the Coral bus: \<open>coralos/protocol.rs\<close>, the console publisher
  \<open>coralos/console.rs\<close> and the thread reader \<open>coralos/thread_reader.rs\<close>. The network, the
  clock and the identifier generator are the outside world: a state of type \<open>'w\<close> that every
  call threads, with the operations of record \<open>io\<close> on it.
\<close>

section \<open>The outside world\<close>

record http_request =
  hq_post :: bool
  hq_url :: string
  hq_token :: string
  hq_body :: "json option"

record http_response =
  hs_status :: nat
  hs_text :: "string + string"

record 'w io =
  io_http :: "http_request \<Rightarrow> 'w \<Rightarrow> (string + http_response) \<times> 'w"
  io_parse :: "string \<Rightarrow> string + json"
  io_show_status :: "nat \<Rightarrow> string"
  io_now :: "'w \<Rightarrow> nat"
  io_sleep :: "nat \<Rightarrow> 'w \<Rightarrow> 'w"
  io_uuid :: "'w \<Rightarrow> string \<times> 'w"
  io_now_iso :: "'w \<Rightarrow> string \<times> 'w"

definition is_success :: "http_response \<Rightarrow> bool" where
  "is_success r \<longleftrightarrow> 200 \<le> hs_status r \<and> hs_status r < 300"

definition trim_end_char :: "char \<Rightarrow> string \<Rightarrow> string" where
  "trim_end_char c s = rev (dropWhile ((=) c) (rev s))"

fun take_chars :: "nat \<Rightarrow> string \<Rightarrow> string" where
  \<comment> \<open>\<open>chars().take(n)\<close> on UTF-8 text\<close>
  "take_chars 0 s = []"
| "take_chars (Suc n) [] = []"
| "take_chars (Suc n) (c # s) = c # takeWhile utf8_cont s @ take_chars n (dropWhile utf8_cont s)"

fun trim_start_matches :: "nat \<Rightarrow> string \<Rightarrow> string \<Rightarrow> string" where
  \<comment> \<open>strips the prefix as often as it occurs; the fuel is the length of the text\<close>
  "trim_start_matches 0 p s = s"
| "trim_start_matches (Suc n) p s =
     (case strip_prefix p s of None \<Rightarrow> s | Some t \<Rightarrow> trim_start_matches n p t)"

section \<open>protocol.rs\<close>

datatype coral_verb =
    VObserved | VNormalized | VRootObserved | VWant | VAgentThought | VToolCall | VToolResult | VSignal
  | VProofRequested | VProofReceived | VValidationSimulated | VPaymentRequired | VWalletConnected
  | VPaymentProof | VPaymentConfirmed | VVerified | VSettled | VEvaluated

record coral_session =
  cs_id :: string
  cs_thread_id :: string
  cs_fixture_id :: u64
  cs_track :: track_mode
  cs_created_at :: string

record coral_message =
  msg_id :: string
  msg_session_id :: string
  msg_thread_id :: string
  msg_round :: u64
  msg_from :: string
  msg_to :: "string list"
  msg_verb :: coral_verb
  msg_text :: string
  msg_payload :: "json option"
  msg_ts :: string

definition user_proxy :: string where "user_proxy = ''user-proxy''"
definition match_intelligence :: string where "match_intelligence = ''match-intelligence-agent''"
definition proof_guard_agent :: string where "proof_guard_agent = ''proof-guard-agent''"
definition settlement_agent :: string where "settlement_agent = ''settlement-agent''"
definition sharp_movement_detector :: string where "sharp_movement_detector = ''sharp-movement-detector''"
definition fan_pundit_agent :: string where "fan_pundit_agent = ''fan-pundit-agent''"

definition all_agents :: "string list" where
  "all_agents = [match_intelligence, proof_guard_agent, settlement_agent, sharp_movement_detector,
                 fan_pundit_agent, user_proxy]"

definition start_session :: "string \<Rightarrow> u64 \<Rightarrow> track_mode \<Rightarrow> string \<Rightarrow> coral_session" where
  "start_session rid fid track now =
     (let i = ''coral-'' @ rid in
      \<lparr>cs_id = i, cs_thread_id = (i @ '':main''), cs_fixture_id = fid, cs_track = track, cs_created_at = now\<rparr>)"

definition new_message ::
  "'w io \<Rightarrow> coral_session \<Rightarrow> u64 \<Rightarrow> string \<Rightarrow> string list \<Rightarrow> coral_verb \<Rightarrow> string \<Rightarrow> json option
     \<Rightarrow> 'w \<Rightarrow> coral_message \<times> 'w" where
  "new_message io s rd sender to verb txt payload w =
     (case io_uuid io w of (u, w1) \<Rightarrow>
      case io_now_iso io w1 of (t, w2) \<Rightarrow>
        (\<lparr>msg_id = ''msg-'' @ u, msg_session_id = cs_id s, msg_thread_id = cs_thread_id s,
          msg_round = rd, msg_from = sender, msg_to = to, msg_verb = verb, msg_text = txt,
          msg_payload = payload, msg_ts = t\<rparr>, w2))"

section \<open>console.rs\<close>

record live_session =
  lv_session_id :: string
  lv_thread_id :: string
  lv_console_url :: string

datatype publish_status = PubDisabled | PubPublished | PubUnavailable

record publish_result =
  pb_status :: publish_status
  pb_session_id :: "string option"
  pb_thread_id :: "string option"
  pb_console_url :: "string option"
  pb_note :: string

definition str_option :: "string \<Rightarrow> json" where
  "str_option v = JObj [(''type'', JStr ''string''), (''value'', JStr v)]"

definition agent_options :: "app_config \<Rightarrow> string \<Rightarrow> (string \<times> json) list" where
  "agent_options cfg name =
     (let o1 = btree_insert ''AGENT_NAME'' (str_option name) [] in
      if name \<noteq> fan_pundit_agent then o1
      else
        let o2 = (case venice_api_key cfg of None \<Rightarrow> o1 | Some k \<Rightarrow> btree_insert ''VENICE_API_KEY'' (str_option k) o1);
            o3 = (case groq_api_key cfg of None \<Rightarrow> o2 | Some k \<Rightarrow> btree_insert ''GROQ_API_KEY'' (str_option k) o2);
            o4 = btree_insert ''LLM_PROVIDER'' (str_option (llm_provider cfg)) o3
        in if \<not> axum_enabled cfg then o4
           else btree_insert ''DESK_API_TOKEN'' (str_option (axum_token cfg))
                  (btree_insert ''DESK_API_BASE''
                     (str_option (''http://host.docker.internal:'' @ show_int (uint (axum_port cfg)))) o4))"

definition agent_graph_entry :: "string \<Rightarrow> app_config \<Rightarrow> json" where
  "agent_graph_entry name cfg = JObj
     [(''id'', JObj [(''name'', JStr name), (''version'', JStr ''0.1.0''),
         (''registrySourceId'', JObj [(''type'', JStr ''local'')])]),
      (''name'', JStr name),
      (''provider'', JObj [(''type'', JStr ''local''), (''runtime'', JStr ''docker'')]),
      (''options'', JObj (agent_options cfg name))]"

definition base_url :: "app_config \<Rightarrow> string" where
  "base_url cfg = trim_end_char (CHR ''/'') (coralos_server_url cfg)"

definition post_json :: "'w io \<Rightarrow> app_config \<Rightarrow> string \<Rightarrow> json \<Rightarrow> 'w \<Rightarrow> (string + http_response) \<times> 'w" where
  "post_json io cfg url body =
     io_http io \<lparr>hq_post = True, hq_url = url, hq_token = coralos_token cfg, hq_body = Some body\<rparr>"

definition http_failure :: "'w io \<Rightarrow> http_response \<Rightarrow> string \<Rightarrow> string" where
  "http_failure io r body = ''HTTP '' @ io_show_status io (hs_status r) @ '': '' @ take_chars 280 body"

text \<open>
  The answer of a creating request: the body must be readable, the status a success, the body
  JSON, and the identifier a string in it.
\<close>

definition read_id :: "'w io \<Rightarrow> (json \<Rightarrow> json option) \<Rightarrow> string \<Rightarrow> http_response \<Rightarrow> string + string" where
  "read_id io pick missing r =
     (case hs_text r of Inl e \<Rightarrow> Inl e
      | Inr body \<Rightarrow>
          if \<not> is_success r then Inl (http_failure io r body)
          else case io_parse io body of Inl e \<Rightarrow> Inl e
          | Inr v \<Rightarrow> (case Option.bind (pick v) as_str of None \<Rightarrow> Inl missing | Some i \<Rightarrow> Inr i))"

definition create_session :: "'w io \<Rightarrow> app_config \<Rightarrow> string \<Rightarrow> 'w \<Rightarrow> (string + string) \<times> 'w" where
  "create_session io cfg base w =
     (case post_json io cfg (base @ ''/api/v1/local/session'') (JObj
        [(''agentGraphRequest'', JObj [(''agents'', JArr (map (\<lambda>n. agent_graph_entry n cfg) all_agents))]),
         (''namespaceProvider'', JObj [(''type'', JStr ''create_if_not_exists''),
            (''namespaceRequest'', JObj [(''name'', JStr (coralos_namespace cfg))])]),
         (''execution'', JObj [(''mode'', JStr ''immediate'')])]) w of
        (Inl e, w1) \<Rightarrow> (Inl e, w1)
      | (Inr r, w1) \<Rightarrow>
          (read_id io (\<lambda>v. opt_or (jget v ''sessionId'') (jget v ''id''))
             ''session response did not include sessionId'' r, w1))"

definition puppet_url :: "app_config \<Rightarrow> string \<Rightarrow> string \<Rightarrow> string" where
  "puppet_url cfg base sid =
     base @ ''/api/v1/puppet/'' @ coralos_namespace cfg @ ''/'' @ sid @ ''/'' @ match_intelligence"

definition create_thread :: "'w io \<Rightarrow> app_config \<Rightarrow> string \<Rightarrow> string \<Rightarrow> agent_run \<Rightarrow> 'w \<Rightarrow> (string + string) \<times> 'w" where
  "create_thread io cfg base sid run w =
     (case post_json io cfg (puppet_url cfg base sid @ ''/thread'') (JObj
        [(''threadName'', JStr (''txodds-'' @ show_track (run_track run) @ ''-'' @ show_u64 (ev_fixture_id (run_trigger run)))),
         (''participantNames'', JArr (map JStr all_agents))]) w of
        (Inl e, w1) \<Rightarrow> (Inl e, w1)
      | (Inr r, w1) \<Rightarrow>
          (read_id io (\<lambda>v. opt_or (jpointer v [''thread'', ''id'']) (opt_or (jget v ''threadId'') (jget v ''id'')))
             ''thread response did not include id'' r, w1))"

definition ensure_session_with_override ::
  "'w io \<Rightarrow> app_config \<Rightarrow> agent_run \<Rightarrow> string option \<Rightarrow> 'w \<Rightarrow> (string + live_session) \<times> 'w" where
  "ensure_session_with_override io cfg run override w =
     (let base = base_url cfg;
          (session, w1) = (case opt_or override (coralos_session_id cfg) of
             Some sid \<Rightarrow> (Inr sid, w) | None \<Rightarrow> create_session io cfg base w)
      in case session of Inl e \<Rightarrow> (Inl e, w1)
         | Inr sid \<Rightarrow>
             (case create_thread io cfg base sid run w1 of
                (Inl e, w2) \<Rightarrow> (Inl e, w2)
              | (Inr tid, w2) \<Rightarrow>
                  (Inr \<lparr>lv_session_id = sid, lv_thread_id = tid, lv_console_url = base @ ''/ui/console''\<rparr>, w2)))"

definition ensure_session :: "'w io \<Rightarrow> app_config \<Rightarrow> agent_run \<Rightarrow> 'w \<Rightarrow> (string + live_session) \<times> 'w" where
  "ensure_session io cfg run = ensure_session_with_override io cfg run None"

definition send_raw_message ::
  "'w io \<Rightarrow> app_config \<Rightarrow> live_session \<Rightarrow> string \<Rightarrow> string list \<Rightarrow> 'w \<Rightarrow> (string + unit) \<times> 'w" where
  "send_raw_message io cfg live content mentions w =
     (case post_json io cfg (puppet_url cfg (base_url cfg) (lv_session_id live) @ ''/thread/message'') (JObj
        [(''threadId'', JStr (lv_thread_id live)), (''content'', JStr content),
         (''mentions'', JArr (map JStr mentions))]) w of
        (Inl e, w1) \<Rightarrow> (Inl e, w1)
      | (Inr r, w1) \<Rightarrow>
          (if is_success r then Inr () else Inl (http_failure io r (case hs_text r of Inl _ \<Rightarrow> [] | Inr b \<Rightarrow> b)), w1))"

definition show_verb :: "coral_verb \<Rightarrow> string" where
  "show_verb v = (case v of
     VObserved \<Rightarrow> ''OBSERVED'' | VNormalized \<Rightarrow> ''NORMALIZED'' | VRootObserved \<Rightarrow> ''ROOT_OBSERVED''
   | VWant \<Rightarrow> ''WANT'' | VAgentThought \<Rightarrow> ''AGENT_THOUGHT'' | VToolCall \<Rightarrow> ''TOOL_CALL''
   | VToolResult \<Rightarrow> ''TOOL_RESULT'' | VSignal \<Rightarrow> ''SIGNAL'' | VProofRequested \<Rightarrow> ''PROOF_REQUESTED''
   | VProofReceived \<Rightarrow> ''PROOF_RECEIVED'' | VValidationSimulated \<Rightarrow> ''VALIDATION_SIMULATED''
   | VPaymentRequired \<Rightarrow> ''PAYMENT_REQUIRED'' | VWalletConnected \<Rightarrow> ''WALLET_CONNECTED''
   | VPaymentProof \<Rightarrow> ''PAYMENT_PROOF'' | VPaymentConfirmed \<Rightarrow> ''PAYMENT_CONFIRMED''
   | VVerified \<Rightarrow> ''VERIFIED'' | VSettled \<Rightarrow> ''SETTLED'' | VEvaluated \<Rightarrow> ''EVALUATED'')"

definition coral_wire_message :: "coral_message \<Rightarrow> string" where
  "coral_wire_message m =
     (let txt = map (\<lambda>c. if c = CHR 0x22 then CHR 0x27 else if c = CHR 0x0A then CHR '' '' else c) (msg_text m)
      in ''['' @ show_verb (msg_verb m) @ ''] '' @ msg_from m @ '' '' @ ch_arrow @ '' ''
         @ join_with '', '' (msg_to m) @ '' | '' @ txt @ ''  run=''
         @ trim_start_matches (length (msg_session_id m)) ''coral-'' (msg_session_id m)
         @ '' round='' @ show_u64 (msg_round m))"

definition send_live_message ::
  "'w io \<Rightarrow> app_config \<Rightarrow> live_session \<Rightarrow> coral_message \<Rightarrow> 'w \<Rightarrow> (string + unit) \<times> 'w" where
  "send_live_message io cfg live m w =
     send_raw_message io cfg live (coral_wire_message m) (msg_to m) w"

text \<open>The loop of \<open>publish_run\<close>: how many messages went out, and the error that stopped it.\<close>

fun publish_messages ::
  "'w io \<Rightarrow> app_config \<Rightarrow> live_session \<Rightarrow> coral_message list \<Rightarrow> nat \<Rightarrow> 'w \<Rightarrow> (nat \<times> string option) \<times> 'w" where
  "publish_messages io cfg live [] sent w = ((sent, None), w)"
| "publish_messages io cfg live (m # ms) sent w =
     (case send_live_message io cfg live m w of
        (Inl e, w1) \<Rightarrow> ((sent, Some e), w1)
      | (Inr _, w1) \<Rightarrow> publish_messages io cfg live ms (Suc sent) w1)"

definition publish_live ::
  "'w io \<Rightarrow> app_config \<Rightarrow> live_session \<Rightarrow> coral_message list \<Rightarrow> 'w \<Rightarrow> publish_result \<times> 'w" where
  "publish_live io cfg live ms w =
     (case publish_messages io cfg live ms 0 w of
        ((sent, Some e), w1) \<Rightarrow>
          (\<lparr>pb_status = PubUnavailable, pb_session_id = Some (lv_session_id live),
            pb_thread_id = Some (lv_thread_id live), pb_console_url = Some (lv_console_url live),
            pb_note = ''CoralOS message publish failed after '' @ show_nat sent @ '' messages: '' @ e\<rparr>, w1)
      | ((sent, None), w1) \<Rightarrow>
          (\<lparr>pb_status = PubPublished, pb_session_id = Some (lv_session_id live),
            pb_thread_id = Some (lv_thread_id live), pb_console_url = Some (lv_console_url live),
            pb_note = ''published '' @ show_nat sent @ '' Match Intelligence messages to CoralOS Console''\<rparr>, w1))"

definition publish_run ::
  "'w io \<Rightarrow> app_config \<Rightarrow> agent_run \<Rightarrow> coral_message list \<Rightarrow> live_session option \<Rightarrow> 'w \<Rightarrow> publish_result \<times> 'w" where
  "publish_run io cfg run ms existing w =
     (if \<not> coralos_console_enabled cfg then
        (\<lparr>pb_status = PubDisabled, pb_session_id = None, pb_thread_id = None, pb_console_url = None,
          pb_note = ''CORALOS_CONSOLE_ENABLED=0''\<rparr>, w)
      else case existing of
        Some live \<Rightarrow> publish_live io cfg live ms w
      | None \<Rightarrow>
          (case ensure_session io cfg run w of
             (Inr live, w1) \<Rightarrow> publish_live io cfg live ms w1
           | (Inl e, w1) \<Rightarrow>
               (\<lparr>pb_status = PubUnavailable, pb_session_id = None, pb_thread_id = None,
                 pb_console_url = Some (base_url cfg @ ''/ui/console''),
                 pb_note = ''CoralOS session/thread unavailable: '' @ e\<rparr>, w1)))"


section \<open>thread\_reader.rs\<close>

definition str_field :: "json \<Rightarrow> string list \<Rightarrow> string option" where
  "str_field v keys = find_map (\<lambda>k. Option.bind (jget v k) as_str) keys"

definition messages_of :: "json \<Rightarrow> json list" where
  "messages_of state =
     (let threads = unwrap_or [] (Option.bind
            (opt_or (jget state ''threads'') (jpointer state [''session'', ''threads''])) as_array)
      in concat (List.map_filter (\<lambda>t. Option.bind (jget t ''messages'') as_array) threads))"

definition match_message :: "string \<Rightarrow> string \<Rightarrow> string \<Rightarrow> json \<Rightarrow> string option" where
  "match_message sender verb needle m =
     (case str_field m [''senderName'', ''sender'', ''senderId''] of None \<Rightarrow> None
      | Some s \<Rightarrow>
          (case str_field m [''text'', ''content''] of None \<Rightarrow> None
           | Some t \<Rightarrow> if s = sender \<and> prefix_of verb t \<and> contains_sub t needle then Some t else None))"

definition state_request :: "app_config \<Rightarrow> live_session \<Rightarrow> http_request" where
  "state_request cfg live =
     \<lparr>hq_post = False,
      hq_url = base_url cfg @ ''/api/v1/local/session/'' @ coralos_namespace cfg @ ''/''
        @ lv_session_id live @ ''/extended'',
      hq_token = coralos_token cfg, hq_body = None\<rparr>"

definition poll_once ::
  "'w io \<Rightarrow> app_config \<Rightarrow> live_session \<Rightarrow> string \<Rightarrow> string \<Rightarrow> string \<Rightarrow> 'w \<Rightarrow> string option \<times> 'w" where
  "poll_once io cfg live sender verb needle w =
     (case io_http io (state_request cfg live) w of
        (Inl _, w1) \<Rightarrow> (None, w1)
      | (Inr r, w1) \<Rightarrow>
          (if \<not> is_success r then None
           else case hs_text r of Inl _ \<Rightarrow> None
           | Inr body \<Rightarrow>
               (case io_parse io body of Inl _ \<Rightarrow> None
                | Inr v \<Rightarrow> find_map (match_message sender verb needle) (messages_of v)), w1))"

text \<open>The polling loop; \<open>None\<close> when it never returns.\<close>

partial_function (option) poll_until ::
  "('w \<Rightarrow> 'a option \<times> 'w) \<Rightarrow> ('w \<Rightarrow> nat) \<Rightarrow> ('w \<Rightarrow> 'w) \<Rightarrow> nat \<Rightarrow> 'w \<Rightarrow> ('a option \<times> 'w) option" where
  "poll_until poll now pause deadline w =
     (case poll w of (r, w1) \<Rightarrow>
        (case r of
           Some m \<Rightarrow> Some (Some m, w1)
         | None \<Rightarrow> if deadline \<le> now w1 then Some (None, w1)
                   else poll_until poll now pause deadline (pause w1)))"

definition wait_for_message ::
  "'w io \<Rightarrow> app_config \<Rightarrow> live_session \<Rightarrow> string \<Rightarrow> string \<Rightarrow> string \<Rightarrow> nat \<Rightarrow> nat \<Rightarrow> 'w
     \<Rightarrow> (string option \<times> 'w) option" where
  \<comment> \<open>times in milliseconds\<close>
  "wait_for_message io cfg live sender verb needle timeout interval w =
     poll_until (poll_once io cfg live sender verb needle) (io_now io) (io_sleep io interval)
       (io_now io w + timeout) w"

lemma poll_until_result:
  "poll_until poll now pause deadline w = Some r \<Longrightarrow>
     (\<exists>v. poll v = r) \<and> (fst r = None \<longrightarrow> deadline \<le> now (snd r))"
proof (rule poll_until.raw_induct [where P = "\<lambda>poll now pause deadline w r.
    (\<exists>v. poll v = r) \<and> (fst r = None \<longrightarrow> deadline \<le> now (snd r))"], goal_cases)
  case (1 rec poll now pause deadline w r)
  obtain x w1 where p: "poll w = (x, w1)" by (cases "poll w")
  show ?case
  proof (cases x)
    case None
    then have eq: "(if deadline \<le> now w1 then Some (None, w1) else rec poll now pause deadline (pause w1)) = Some r"
      using 1(3) p by simp
    show ?thesis
    proof (cases "deadline \<le> now w1")
      case True
      then have "r = (None, w1)" using eq by simp
      then show ?thesis using p None True by auto
    next
      case False
      then show ?thesis using 1(2) eq by auto
    qed
  next
    case (Some m)
    then have "r = (Some m, w1)" using 1(3) p by simp
    then show ?thesis using p Some by auto
  qed
qed

lemma poll_until_returns:
  fixes now :: "'w \<Rightarrow> nat"
  assumes pause: "\<And>v. now v < now (pause v)" and poll: "\<And>v. now v \<le> now (snd (poll v))"
  shows "poll_until poll now pause deadline w \<noteq> None"
proof (induction "deadline - now w" arbitrary: w rule: less_induct)
  case less
  obtain r w1 where p: "poll w = (r, w1)" by (cases "poll w")
  show ?case
  proof (cases r)
    case None
    show ?thesis
    proof (cases "deadline \<le> now w1")
      case False
      have "deadline - now (pause w1) < deadline - now w"
        using False pause [of w1] poll [of w] p by simp
      from less [OF this] show ?thesis using None False p by (subst poll_until.simps) simp
    qed (use None p in \<open>subst poll_until.simps, simp\<close>)
  qed (use p in \<open>subst poll_until.simps, simp\<close>)
qed


definition thread_holds ::
  "'w io \<Rightarrow> app_config \<Rightarrow> live_session \<Rightarrow> string \<Rightarrow> string \<Rightarrow> 'w \<Rightarrow> bool" where
  \<comment> \<open>the last answer of the session's state, read just before world \<open>w'\<close>, has a message of \<open>sender\<close> with text \<open>t\<close>\<close>
  "thread_holds io cfg live sender t w' \<longleftrightarrow>
     (\<exists>v resp body state m. io_http io (state_request cfg live) v = (Inr resp, w') \<and> is_success resp
        \<and> hs_text resp = Inr body \<and> io_parse io body = Inr state \<and> m \<in> set (messages_of state)
        \<and> str_field m [''senderName'', ''sender'', ''senderId''] = Some sender
        \<and> str_field m [''text'', ''content''] = Some t)"

lemma match_message_Some:
  "match_message sender verb needle m = Some t \<Longrightarrow>
     str_field m [''senderName'', ''sender'', ''senderId''] = Some sender
     \<and> str_field m [''text'', ''content''] = Some t \<and> prefix_of verb t \<and> contains_sub t needle"
  by (auto simp: match_message_def split: option.splits if_splits)

lemma poll_once_Some:
  assumes "poll_once io cfg live sender verb needle w = (Some t, w')"
  shows "thread_holds io cfg live sender t w' \<and> prefix_of verb t \<and> contains_sub t needle"
proof -
  obtain resp body state where h: "io_http io (state_request cfg live) w = (Inr resp, w')" "is_success resp"
    "hs_text resp = Inr body" "io_parse io body = Inr state"
    and f: "find_map (match_message sender verb needle) (messages_of state) = Some t"
    using assms by (auto simp: poll_once_def split: prod.splits sum.splits if_splits)
  obtain m where m: "m \<in> set (messages_of state)" "match_message sender verb needle m = Some t"
    using find_map_Some [OF f] by blast
  show ?thesis using h m(1) match_message_Some [OF m(2)] unfolding thread_holds_def by blast
qed

definition clock_advances :: "'w io \<Rightarrow> bool" where
  \<comment> \<open>documented: \<open>Instant\<close> is monotonic and \<open>sleep\<close> lasts at least its duration\<close>
  "clock_advances io \<longleftrightarrow> (\<forall>d w. io_now io w + d \<le> io_now io (io_sleep io d w))
     \<and> (\<forall>q w. io_now io w \<le> io_now io (snd (io_http io q w)))"

lemma poll_once_snd: "snd (poll_once io cfg live sender verb needle w) = snd (io_http io (state_request cfg live) w)"
  by (simp add: poll_once_def split: prod.splits sum.splits)

lemma wait_returns:
  assumes "clock_advances io" and "0 < interval"
  shows "wait_for_message io cfg live sender verb needle timeout interval w \<noteq> None"
  unfolding wait_for_message_def
proof (rule poll_until_returns)
  show "io_now io v < io_now io (io_sleep io interval v)" for v
  proof -
    have "io_now io v + interval \<le> io_now io (io_sleep io interval v)"
      using assms by (simp add: clock_advances_def)
    then show ?thesis using assms(2) by linarith
  qed
  show "io_now io v \<le> io_now io (snd (poll_once io cfg live sender verb needle v))" for v
    using assms by (simp add: clock_advances_def poll_once_snd)
qed

lemma wait_result:
  assumes "wait_for_message io cfg live sender verb needle timeout interval w = Some (r, w')"
  shows "case r of Some t \<Rightarrow> thread_holds io cfg live sender t w' \<and> prefix_of verb t \<and> contains_sub t needle
         | None \<Rightarrow> io_now io w + timeout \<le> io_now io w'"
proof -
  have "(\<exists>v. poll_once io cfg live sender verb needle v = (r, w')) \<and> (r = None \<longrightarrow> io_now io w + timeout \<le> io_now io w')"
    using poll_until_result [OF assms [unfolded wait_for_message_def]] by simp
  then show ?thesis by (auto dest: poll_once_Some split: option.splits)
qed

section \<open>What goes out\<close>

text \<open>The same world, with a log of the requests made.\<close>

definition logged :: "'w io \<Rightarrow> ('w \<times> http_request list) io" where
  "logged io = \<lparr>io_http = (\<lambda>q (w, l). case io_http io q w of (r, w') \<Rightarrow> (r, w', l @ [q])),
     io_parse = io_parse io, io_show_status = io_show_status io, io_now = io_now io \<circ> fst,
     io_sleep = (\<lambda>d (w, l). (io_sleep io d w, l)),
     io_uuid = (\<lambda>(w, l). case io_uuid io w of (u, w') \<Rightarrow> (u, w', l)),
     io_now_iso = (\<lambda>(w, l). case io_now_iso io w of (t, w') \<Rightarrow> (t, w', l))\<rparr>"

definition message_request :: "app_config \<Rightarrow> live_session \<Rightarrow> coral_message \<Rightarrow> http_request" where
  "message_request cfg live m =
     \<lparr>hq_post = True,
      hq_url = puppet_url cfg (base_url cfg) (lv_session_id live) @ ''/thread/message'',
      hq_token = coralos_token cfg,
      hq_body = Some (JObj [(''threadId'', JStr (lv_thread_id live)), (''content'', JStr (coral_wire_message m)),
        (''mentions'', JArr (map JStr (msg_to m)))])\<rparr>"

lemma send_live_message_log:
  "send_live_message (logged io) cfg live m (w, l) = (r, w', l') \<Longrightarrow> l' = l @ [message_request cfg live m]"
  by (auto simp: send_live_message_def send_raw_message_def post_json_def logged_def message_request_def
      split: prod.splits sum.splits)

lemma publish_messages_log:
  "publish_messages (logged io) cfg live ms n (w, l) = ((sent, e), w', l') \<Longrightarrow>
     \<exists>k \<le> length ms. sent = n + k \<and> (e = None \<longleftrightarrow> k = length ms)
       \<and> l' = l @ map (message_request cfg live) (take (if e = None then k else Suc k) ms)"
proof (induction ms arbitrary: n w l)
  case Nil
  then show ?case by auto
next
  case (Cons m ms)
  obtain r w1 l1 where s: "send_live_message (logged io) cfg live m (w, l) = (r, w1, l1)"
    by (metis prod_cases3)
  have l1: "l1 = l @ [message_request cfg live m]" by (rule send_live_message_log [OF s])
  show ?case
  proof (cases r)
    case (Inl err)
    then show ?thesis using Cons.prems s l1 by (intro exI [of _ 0]) auto
  next
    case (Inr u)
    then have "publish_messages (logged io) cfg live ms (Suc n) (w1, l1) = ((sent, e), w', l')"
      using Cons.prems s by simp
    from Cons.IH [OF this] obtain k where "k \<le> length ms" "sent = Suc n + k" "e = None \<longleftrightarrow> k = length ms"
      "l' = l1 @ map (message_request cfg live) (take (if e = None then k else Suc k) ms)" by blast
    then show ?thesis using l1 by (intro exI [of _ "Suc k"]) auto
  qed
qed


section \<open>Properties\<close>

text \<open>
  C12: waiting for a specialist's reply returns on any clock that advances. A reply is one the
  bus holds at that moment: a message of the expected sender with the expected verb and
  correlation text in the session's state; none is invented, and giving up means that the
  timeout has passed.
\<close>

theorem wait_for_message_sound:
  assumes "clock_advances io" and "0 < interval"
  shows "\<exists>r w'. wait_for_message io cfg live sender verb needle timeout interval w = Some (r, w') \<and>
    (case r of Some t \<Rightarrow> thread_holds io cfg live sender t w' \<and> prefix_of verb t \<and> contains_sub t needle
     | None \<Rightarrow> io_now io w + timeout \<le> io_now io w')"
proof -
  obtain r w' where r: "wait_for_message io cfg live sender verb needle timeout interval w = Some (r, w')"
    using wait_returns [OF assms] by (metis not_None_eq surj_pair)
  show ?thesis using r wait_result [OF r] by (intro exI conjI)
qed

text \<open>
  A world for evaluation: the clock in milliseconds and the messages of the thread that have
  arrived by then; the session's state is served as its own JSON text.
\<close>

definition sample_config :: app_config where
  "sample_config = load_config Map.empty Map.empty ''uuid''"

definition sample_live :: live_session where
  "sample_live = \<lparr>lv_session_id = ''s'', lv_thread_id = ''t'', lv_console_url = ''u''\<rparr>"

definition sample_message :: json where
  "sample_message = JObj [(''senderName'', JStr ''settlement-agent''),
     (''text'', JStr ''SETTLE_VERDICT wagerId=w-1 status=settled'')]"

definition sample_io :: "nat \<Rightarrow> nat io" where
  "sample_io arrives = \<lparr>io_http = (\<lambda>q now. (Inr \<lparr>hs_status = 200, hs_text = Inr (if arrives \<le> now then ''late'' else ''early'')\<rparr>, now)),
     io_parse = (\<lambda>b. Inr (JObj [(''threads'', JArr [JObj [(''messages'',
        JArr (if b = ''late'' then [sample_message] else []))]])])),
     io_show_status = show_nat, io_now = id, io_sleep = (+),
     io_uuid = (\<lambda>n. (show_nat n, n)), io_now_iso = (\<lambda>n. (show_nat n, n))\<rparr>"

lemma sample_io_clock: "clock_advances (sample_io n)"
  by (auto simp: clock_advances_def sample_io_def)

theorem wait_for_message_sound_witness:
  "\<exists>r w'. wait_for_message (sample_io 1000) sample_config sample_live ''settlement-agent'' ''SETTLE_VERDICT'' ''w-1'' 30000 750 0 = Some (r, w') \<and>
    (case r of Some t \<Rightarrow> thread_holds (sample_io 1000) sample_config sample_live ''settlement-agent'' t w'
        \<and> prefix_of ''SETTLE_VERDICT'' t \<and> contains_sub t ''w-1''
     | None \<Rightarrow> io_now (sample_io 1000) 0 + 30000 \<le> io_now (sample_io 1000) w')"
  by (rule wait_for_message_sound) (simp_all add: sample_io_clock)

text \<open>
  Publishing a finished round over a live session posts its messages to the thread in the
  order of the transcript, stops at the first one the bus refuses, and reports \<open>published\<close> with
  the number of messages exactly when all of them were accepted.
\<close>

theorem publish_run_in_order:
  assumes "coralos_console_enabled cfg" and "publish_run (logged io) cfg run ms (Some live) (w, l) = (res, w', l')"
  shows "\<exists>k \<le> length ms. \<exists>err.
    l' = l @ map (message_request cfg live) (take (if err = None then k else Suc k) ms)
    \<and> (err = None \<longleftrightarrow> k = length ms) \<and> (pb_status res = PubPublished \<longleftrightarrow> err = None)
    \<and> pb_note res = (case err of
         None \<Rightarrow> ''published '' @ show_nat (length ms) @ '' Match Intelligence messages to CoralOS Console''
       | Some e \<Rightarrow> ''CoralOS message publish failed after '' @ show_nat k @ '' messages: '' @ e)"
proof -
  obtain sent e w1 l1 where p: "publish_messages (logged io) cfg live ms 0 (w, l) = ((sent, e), w1, l1)"
    by (metis prod.exhaust)
  from publish_messages_log [OF this] obtain k where k: "k \<le> length ms" "sent = k" "e = None \<longleftrightarrow> k = length ms"
    "l1 = l @ map (message_request cfg live) (take (if e = None then k else Suc k) ms)" by auto
  have "l' = l1" using assms p by (auto simp: publish_run_def publish_live_def split: option.splits)
  moreover have "pb_status res = PubPublished \<longleftrightarrow> e = None"
    using assms p by (auto simp: publish_run_def publish_live_def split: option.splits)
  moreover have "pb_note res = (case e of
         None \<Rightarrow> ''published '' @ show_nat (length ms) @ '' Match Intelligence messages to CoralOS Console''
       | Some e \<Rightarrow> ''CoralOS message publish failed after '' @ show_nat k @ '' messages: '' @ e)"
    using assms p k by (auto simp: publish_run_def publish_live_def split: option.splits)
  ultimately show ?thesis using k by blast
qed


lemma sample_config_console: "coralos_console_enabled sample_config"
  by (simp add: sample_config_def load_config_def bool_env_def optional_env_def)

definition sample_chat :: coral_message where
  "sample_chat = \<lparr>msg_id = ''m'', msg_session_id = ''coral-run-1'', msg_thread_id = ''coral-run-1:main'',
     msg_round = 1, msg_from = user_proxy, msg_to = [match_intelligence], msg_verb = VWant,
     msg_text = ''WANT'', msg_payload = None, msg_ts = ''now''\<rparr>"

definition sample_publish :: "publish_result \<times> nat \<times> http_request list" where
  "sample_publish = publish_run (logged (sample_io 0)) sample_config sample_run_record [sample_chat]
     (Some sample_live) (0, [])"

theorem publish_run_in_order_witness:
  "\<exists>k \<le> length [sample_chat]. \<exists>err.
    snd (snd sample_publish) = [] @ map (message_request sample_config sample_live) (take (if err = None then k else Suc k) [sample_chat])
    \<and> (err = None \<longleftrightarrow> k = length [sample_chat]) \<and> (pb_status (fst sample_publish) = PubPublished \<longleftrightarrow> err = None)
    \<and> pb_note (fst sample_publish) = (case err of
         None \<Rightarrow> ''published '' @ show_nat (length [sample_chat]) @ '' Match Intelligence messages to CoralOS Console''
       | Some e \<Rightarrow> ''CoralOS message publish failed after '' @ show_nat k @ '' messages: '' @ e)"
  by (rule publish_run_in_order [OF sample_config_console, where io = "sample_io 0" and w = 0
        and run = sample_run_record and w' = "fst (snd sample_publish)"])
     (simp add: sample_publish_def)

end
