(* ===== verification/Coral_Agents.thy ===== *)
theory Coral_Agents
  imports Coral_Bus
begin

text \<open>
  The agents on the Coral bus: the mention loop of \<open>coral-client/src/lib.rs\<close>, the
  specialists \<open>settlement-agent\<close>, \<open>proof-guard-agent\<close>, \<open>trading-specialist\<close> and
  \<open>fan-pundit-agent\<close>, the thread reader (\<open>coralos/thread_reader.rs\<close>) and the four
  delegation modules of \<open>agent/runtime\<close>. \<open>serde_json\<close>'s conversions of whole records are
  arguments (\<open>parse\<close>, \<open>ser\<close>), as is the bus itself.
\<close>

section \<open>coral-client: the MCP tools\<close>

record tool_names =
  tn_wait_for_mention :: string
  tn_wait_for_agent :: string
  tn_send_message :: string
  tn_create_thread :: string

definition ends_with :: "string \<Rightarrow> string \<Rightarrow> bool" where
  "ends_with p s = prefix_of (rev p) (rev s)"

definition pick_tools :: "string list \<Rightarrow> tool_names" where
  "pick_tools names =
     \<lparr>tn_wait_for_mention = unwrap_or ''coral_wait_for_mention'' (find (\<lambda>n. contains_sub n ''wait_for_mention'') names),
      tn_wait_for_agent = unwrap_or ''coral_wait_for_agent'' (find (\<lambda>n. contains_sub n ''wait_for_agent'') names),
      tn_send_message = unwrap_or ''coral_send_message'' (find (ends_with ''send_message'') names),
      tn_create_thread = unwrap_or ''coral_create_thread'' (find (\<lambda>n. contains_sub n ''create_thread'') names)\<rparr>"

record coral_mention =
  cm_thread_id :: "string option"
  cm_sender :: "string option"
  cm_text :: string

text \<open>The content items of a tool result: their text, if they are text.\<close>

definition extract_text :: "string option list \<Rightarrow> string" where
  "extract_text content = trim (join_with '' '' (List.map_filter id content))"

text \<open>
  \<open>parse_mention\<close> is a sequence of overwrites of three variables: the flat fields, then the
  first message, then the \<open>message\<close> object, then the flat text.
\<close>

definition thread_keys :: "string list" where "thread_keys = [''threadId'', ''thread_id'']"
definition sender_keys :: "string list" where "sender_keys = [''senderName'', ''sender'', ''senderId'']"
definition text_keys :: "string list" where "text_keys = [''text'', ''content'']"

definition absorb :: "string \<Rightarrow> json \<Rightarrow> string option \<times> string option \<times> string \<Rightarrow> string option \<times> string option \<times> string" where
  "absorb raw v st = (case st of (thread, sender, _) \<Rightarrow>
     (opt_or (str_field v thread_keys) thread, opt_or (str_field v sender_keys) sender,
      unwrap_or raw (str_field v text_keys)))"

definition mention_fields :: "string \<Rightarrow> json \<Rightarrow> string option \<times> string option \<times> string" where
  "mention_fields raw data =
     (let s0 = (str_field data thread_keys, str_field data (sender_keys @ [''from'']), raw);
          s1 = (case Option.bind (jget data ''messages'') as_array of Some (m0 # _) \<Rightarrow> absorb raw m0 s0 | _ \<Rightarrow> s0);
          s2 = (case opt_filter (\<lambda>v. as_object v \<noteq> None) (jget data ''message'') of
                  Some m \<Rightarrow> absorb raw m s1 | None \<Rightarrow> s1)
      in case s2 of (thread, sender, txt) \<Rightarrow>
           (thread, sender, if txt = raw then unwrap_or raw (str_field data text_keys) else txt))"

definition parse_mention :: "(string \<Rightarrow> string + json) \<Rightarrow> string \<Rightarrow> coral_mention option" where
  "parse_mention parse raw =
     (if raw = [] \<or> raw = ''null'' \<or> raw = ''{}'' \<or> raw = ''[]'' then None
      else case parse raw of
        Inl _ \<Rightarrow> Some \<lparr>cm_thread_id = None, cm_sender = None, cm_text = raw\<rparr>
      | Inr data \<Rightarrow>
          if Option.bind (jget data ''status'') as_str \<in> {Some ''Timeout reached'', Some ''timeout''} then None
          else case mention_fields raw data of (thread, sender, txt) \<Rightarrow>
            if txt = [] then None else Some \<lparr>cm_thread_id = thread, cm_sender = sender, cm_text = txt\<rparr>)"

section \<open>coral-client: the mention loop\<close>

text \<open>The answer of the waiting tool: an MCP error, or the content of its result.\<close>

datatype mcp_result = McpError string | McpContent "string option list"

datatype wait_result = Mention coral_mention | WaitTimeout | WaitError

definition wait_for_mention :: "(string \<Rightarrow> string + json) \<Rightarrow> mcp_result \<Rightarrow> wait_result" where
  "wait_for_mention parse r = (case r of
     McpError _ \<Rightarrow> WaitError
   | McpContent content \<Rightarrow>
       (case parse_mention parse (extract_text content) of None \<Rightarrow> WaitTimeout | Some m \<Rightarrow> Mention m))"

record reply_sent =
  rp_text :: string
  rp_thread :: string
  rp_mentions :: "string list"

text \<open>
  The loop over the script of \<open>wait_for_mention\<close> results: the replies sent, the counter and
  whether the loop returned. A panicking handler ends the process; a reply that cannot be sent
  is logged and the loop goes on, so the replies are those handed to the transport. A handler may
  answer equal mentions differently (it draws identifiers and asks a model), so it also gets the
  number of the replies before it.
\<close>

fun serve :: "(nat \<Rightarrow> coral_mention \<Rightarrow> string exec) \<Rightarrow> step_counter \<Rightarrow> wait_result list \<Rightarrow> reply_sent list
    \<Rightarrow> (reply_sent list \<times> step_counter \<times> bool) exec" where
  "serve handle steps [] sent = Return (sent, steps, False)"
| "serve handle steps (r # rs) sent =
     (case r of
        WaitTimeout \<Rightarrow> serve handle steps rs sent
      | WaitError \<Rightarrow> serve handle steps rs sent
      | Mention m \<Rightarrow>
          (case cm_thread_id m of None \<Rightarrow> serve handle steps rs sent
           | Some thread \<Rightarrow>
               (case tick steps of
                  (Inl _, steps') \<Rightarrow> Return (sent, steps', True)
                | (Inr _, steps') \<Rightarrow>
                    exec_bind (handle (length sent) m) (\<lambda>response.
                      serve handle steps' rs
                        (sent @ [\<lparr>rp_text = response, rp_thread = thread,
                          rp_mentions = (case cm_sender m of None \<Rightarrow> [] | Some s \<Rightarrow> [s])\<rparr>])))))"

datatype coral_client_error = NoConnectionUrl | ConnectFailed string

definition coral_run ::
  "string option \<Rightarrow> (string \<Rightarrow> string option) \<Rightarrow> (string \<Rightarrow> string + json) \<Rightarrow> (nat \<Rightarrow> coral_mention \<Rightarrow> string exec)
     \<Rightarrow> u64 \<Rightarrow> mcp_result list \<Rightarrow> coral_client_error + (reply_sent list \<times> step_counter \<times> bool) exec" where
  \<comment> \<open>\<open>url\<close> is the variable \<open>CORAL_CONNECTION_URL\<close>; \<open>connect\<close> gives the error of a failed connection\<close>
  "coral_run url connect parse handle max_steps script =
     (case url of None \<Rightarrow> Inl NoConnectionUrl
      | Some u \<Rightarrow>
          (case connect u of Some e \<Rightarrow> Inl (ConnectFailed e)
           | None \<Rightarrow> Inr (serve handle (stc_new max_steps) (map (wait_for_mention parse) script) [])))"

section \<open>settlement-agent\<close>

datatype settle_status = SettleSettled | SettleRejected

definition show_settle_status :: "settle_status \<Rightarrow> string" where
  "show_settle_status s = (case s of SettleSettled \<Rightarrow> ''settled'' | SettleRejected \<Rightarrow> ''rejected'')"

definition dquote :: string where "dquote = [CHR 0x22]"

definition escape_quotes :: "string \<Rightarrow> string" where
  \<comment> \<open>\<open>replace\<close> of the double quote by a single one\<close>
  "escape_quotes s = map (\<lambda>c. if c = CHR 0x22 then CHR 0x27 else c) s"

definition simulate_settlement :: "wager \<Rightarrow> string \<Rightarrow> (settle_status \<times> string \<times> string) exec" where
  "simulate_settlement w proof_ref =
     (if fle (w_edge w) (lit 0)
      then Return (SettleRejected, ''none'',
             ''non-positive edge ('' @ fmt_fixed 4 (w_edge w) @ ''); settlement rejected'')
      else if fle (w_stake_sol w) (lit 0)
      then Return (SettleRejected, ''none'', ''zero-stake wager; settlement rejected'')
      else exec_map (\<lambda>p. (SettleSettled, ''devnet:settle:'' @ w_wager_id w @ '':'' @ p,
             ''settlement simulated on devnet '' @ ch_dash @ '' stake='' @ fmt_fixed 4 (w_stake_sol w)
             @ '' SOL, edge='' @ fmt_fixed 4 (w_edge w) @ '', selection='' @ debug_selection (w_selection w)))
           (slice_to proof_ref (min (length proof_ref) 8)))"

definition settle_verdict :: "string \<Rightarrow> string \<Rightarrow> string \<Rightarrow> string \<Rightarrow> string" where
  "settle_verdict wid status reason sig =
     ''SETTLE_VERDICT wagerId='' @ wid @ '' status='' @ status @ '' reason='' @ dquote @ reason @ dquote
     @ '' txSig='' @ sig"

definition settlement_handle :: "(string \<Rightarrow> wager option) \<Rightarrow> coral_mention \<Rightarrow> string exec" where
  "settlement_handle parse m =
     (if wire_verb (cm_text m) \<noteq> ''SETTLE_REQUESTED'' then Return []
      else case Option.bind (json_val (cm_text m) ''wager'') parse of
        None \<Rightarrow> Return (settle_verdict ''unknown'' ''rejected'' ''malformed wager payload'' ''none'')
      | Some w \<Rightarrow>
          (let proof_ref = unwrap_or ''none'' (tok (cm_text m) ''proofRef'') in
           if proof_ref = ''none'' \<or> proof_ref = []
           then Return (settle_verdict (w_wager_id w) ''rejected'' ''missing proof reference'' ''none'')
           else if w_status w = NoBet
           then Return (settle_verdict (w_wager_id w) ''rejected'' ''wager status is NoBet'' ''none'')
           else exec_map (\<lambda>(status, sig, reason).
                  settle_verdict (w_wager_id w) (show_settle_status status) (escape_quotes reason) sig)
                (simulate_settlement w proof_ref)))"

section \<open>proof-guard-agent\<close>

definition proof_guard_handle ::
  "(string \<Rightarrow> string) \<Rightarrow> (string \<Rightarrow> wager option) \<Rightarrow> (wager \<Rightarrow> string) \<Rightarrow> proof_guard_config
     \<Rightarrow> coral_mention \<Rightarrow> string exec" where
  "proof_guard_handle uni parse ser cfg m =
     (if wire_verb (cm_text m) \<noteq> ''WAGER_PROOF_REQUESTED'' then Return []
      else let round = f64_as_u64 (unwrap_or (lit 0) (num (cm_text m) ''round'')) in
      case Option.bind (json_val (cm_text m) ''wager'') parse of
        None \<Rightarrow> Return (''WAGER_PROOF_VERDICT round='' @ show_u64 round @ '' wagerId=unknown passed=false reason=''
                  @ dquote @ ''malformed delegation: no wager payload'' @ dquote)
      | Some w \<Rightarrow>
          exec_map (\<lambda>v.
            ''WAGER_PROOF_VERDICT round='' @ show_u64 round @ '' wagerId='' @ w_wager_id (gv_wager v)
            @ '' passed='' @ show_bool (gv_passed v)
            @ (if gv_passed v then [] else '' reason='' @ dquote @ escape_quotes (join_with ''; '' (gv_failures v)) @ dquote)
            @ '' wager='' @ ser (gv_wager v))
          (verify uni w (w_proof_ref w) cfg))"

section \<open>trading-specialist\<close>

definition min_confidence :: f64 where "min_confidence = lit (4/10)"

definition severity_weight :: "severity \<Rightarrow> f64" where
  "severity_weight s = (case s of Critical \<Rightarrow> lit 1 | High \<Rightarrow> lit (75/100) | Medium \<Rightarrow> lit (1/2) | Low \<Rightarrow> lit (25/100))"

definition simulated_size :: "f64 \<Rightarrow> agent_signal \<Rightarrow> f64" where
  "simulated_size max_position sg =
     fmax (fmul (fmul max_position (sg_confidence sg)) (severity_weight (sg_severity sg))) (lit 0)"

definition trading_handle :: "(string \<Rightarrow> agent_signal option) \<Rightarrow> string \<Rightarrow> f64 \<Rightarrow> coral_mention \<Rightarrow> string" where
  "trading_handle parse uuid max_position m =
     (if wire_verb (cm_text m) \<noteq> ''TRADE_REQUESTED'' then []
      else case Option.bind (json_val (cm_text m) ''signal'') parse of
        None \<Rightarrow> ''TRADE_VERDICT status=declined reason='' @ dquote @ ''malformed delegation: no signal payload''
                 @ dquote @ '' positionId=none sizeSol=0.0''
      | Some sg \<Rightarrow>
          if flt (sg_confidence sg) min_confidence
          then ''TRADE_VERDICT status=declined reason='' @ dquote @ ''confidence '' @ fmt_fixed 2 (sg_confidence sg)
               @ '' below floor '' @ fmt_fixed 2 min_confidence @ dquote @ '' positionId=none sizeSol=0.0''
          else ''TRADE_VERDICT status=simulated reason='' @ dquote @ ''position simulation queued'' @ dquote
               @ '' positionId='' @ uuid @ '' sizeSol='' @ fmt_fixed 4 (simulated_size max_position sg))"

section \<open>fan-pundit-agent\<close>

definition run_venice_verdict ::
  "(string \<Rightarrow> string \<Rightarrow> string + tool_loop_outcome) option \<Rightarrow> wager \<Rightarrow> pundit_verdict" where
  \<comment> \<open>the reasoning call of the agent, \<open>None\<close> when no client is configured; its round cap is part of \<open>run\<close>\<close>
  "run_venice_verdict run w =
     (case run of
        None \<Rightarrow> \<lparr>pv_stance = ''endorse'', pv_reason = ''Venice not configured; defaulting to endorse''\<rparr>
      | Some loop \<Rightarrow>
          (case loop (pundit_prompt w) submit_pundit_verdict of
             Inl _ \<Rightarrow> \<lparr>pv_stance = ''endorse'', pv_reason = ''Venice reasoning failed; defaulting to endorse''\<rparr>
           | Inr out \<Rightarrow>
               (case tlo_final_args out of
                  None \<Rightarrow> \<lparr>pv_stance = ''endorse'', pv_reason = ''pundit did not reach a verdict within round cap''\<rparr>
                | Some args \<Rightarrow>
                    unwrap_or \<lparr>pv_stance = ''endorse'', pv_reason = ''malformed verdict; defaulting to endorse''\<rparr>
                      (pundit_verdict_of_json args))))"

definition fan_nudge :: "wager \<Rightarrow> pundit_verdict \<Rightarrow> wager exec" where
  "fan_nudge w v =
     exec_map (\<lambda>p.
       let n = w\<lparr>w_model_prob := p, w_edge := fsub p (w_market_implied w),
                 w_thesis := w_thesis w @ '' | Pundit '' @ pv_stance v @ '': '' @ pv_reason v\<rparr>
       in if pv_stance v = ''no_bet'' then n\<lparr>w_status := NoBet, w_stake_sol := lit 0\<rparr> else n)
     (fclamp (fadd (w_model_prob w) (stance_nudge (pv_stance v))) (lit (1/100)) (lit (99/100)))"

definition fan_pundit_handle ::
  "(string \<Rightarrow> string \<Rightarrow> string + tool_loop_outcome) option \<Rightarrow> (string \<Rightarrow> wager option) \<Rightarrow> (wager \<Rightarrow> string)
     \<Rightarrow> coral_mention \<Rightarrow> string exec" where
  "fan_pundit_handle run parse ser m =
     (if wire_verb (cm_text m) \<noteq> ''PUNDIT_REACT_REQUESTED'' then Return []
      else case Option.bind (json_val (cm_text m) ''wager'') parse of
        None \<Rightarrow> Return (''PUNDIT_REACT_VERDICT stance=challenge reason='' @ dquote
                  @ ''malformed delegation: no wager payload'' @ dquote @ '' wager={}'')
      | Some w \<Rightarrow>
          if w_status w = NoBet
          then Return (''PUNDIT_REACT_VERDICT stance=endorse reason='' @ dquote @ ''no live proposal to react to''
                 @ dquote @ '' wager='' @ ser w)
          else let v = run_venice_verdict run w in
            exec_map (\<lambda>n. ''PUNDIT_REACT_VERDICT stance='' @ pv_stance v @ '' reason='' @ dquote
                 @ escape_quotes (pv_reason v) @ dquote @ '' wager='' @ ser n) (fan_nudge w v))"


section \<open>The loop serves in order\<close>

definition replies_to :: "(nat \<Rightarrow> coral_mention \<Rightarrow> string exec) \<Rightarrow> nat \<Rightarrow> coral_mention \<Rightarrow> reply_sent \<Rightarrow> bool" where
  \<comment> \<open>\<open>r\<close> is what the handler says to \<open>m\<close>, in the thread of \<open>m\<close>, with its sender mentioned\<close>
  "replies_to handle i m r \<longleftrightarrow> handle i m = Return (rp_text r) \<and> cm_thread_id m = Some (rp_thread r) \<and>
     rp_mentions r = (case cm_sender m of None \<Rightarrow> [] | Some s \<Rightarrow> [s])"

text \<open>The mentions that carry a thread, in order of arrival.\<close>

definition threaded :: "wait_result list \<Rightarrow> coral_mention list" where
  "threaded rs = List.map_filter (\<lambda>r. case r of
     Mention m \<Rightarrow> if cm_thread_id m = None then None else Some m | _ \<Rightarrow> None) rs"

lemma serve_skips:
  assumes "\<nexists>mn th. r = Mention mn \<and> cm_thread_id mn = Some th"
  shows "threaded (r # rs) = threaded rs" and "serve handle st (r # rs) sent = serve handle st rs sent"
  using assms by (cases r; auto simp: threaded_def List.map_filter_simps split: option.splits)+

lemma threaded_mention:
  "cm_thread_id mn = Some th \<Longrightarrow> threaded (Mention mn # rs) = mn # threaded rs"
  by (simp add: threaded_def List.map_filter_simps)

lemma serve_tick:
  assumes "mx \<noteq> - 1" and "k \<le> unat mx" and "cm_thread_id mn = Some th"
  shows "k < unat mx \<Longrightarrow> serve handle \<lparr>stc_max = mx, stc_steps = of_nat k\<rparr> (Mention mn # rs) sent =
      exec_bind (handle (length sent) mn) (\<lambda>t. serve handle \<lparr>stc_max = mx, stc_steps = of_nat (Suc k)\<rparr> rs
        (sent @ [\<lparr>rp_text = t, rp_thread = th, rp_mentions = (case cm_sender mn of None \<Rightarrow> [] | Some s \<Rightarrow> [s])\<rparr>]))"
    and "\<not> k < unat mx \<Longrightarrow> \<exists>st. serve handle \<lparr>stc_max = mx, stc_steps = of_nat k\<rparr> (Mention mn # rs) sent = Return (sent, st, True)"
proof -
  obtain v st where tk: "tick \<lparr>stc_max = mx, stc_steps = of_nat k\<rparr> = (v, st)" by (meson surj_pair)
  then have v: "if k < unat mx then v = Inr () \<and> st = \<lparr>stc_max = mx, stc_steps = of_nat (Suc k)\<rparr> else isl v"
    using step_admit_of_nat [OF assms(1,2)] by (auto simp: step_admit_def split: sum.splits if_splits)
  show "k < unat mx \<Longrightarrow> serve handle \<lparr>stc_max = mx, stc_steps = of_nat k\<rparr> (Mention mn # rs) sent =
      exec_bind (handle (length sent) mn) (\<lambda>t. serve handle \<lparr>stc_max = mx, stc_steps = of_nat (Suc k)\<rparr> rs
        (sent @ [\<lparr>rp_text = t, rp_thread = th, rp_mentions = (case cm_sender mn of None \<Rightarrow> [] | Some s \<Rightarrow> [s])\<rparr>]))"
    using tk v assms(3) by simp
  show "\<not> k < unat mx \<Longrightarrow> \<exists>st. serve handle \<lparr>stc_max = mx, stc_steps = of_nat k\<rparr> (Mention mn # rs) sent = Return (sent, st, True)"
    using tk v assms(3) by (cases v) auto
qed

text \<open>What the loop has sent when it is looked at: one answer to each mention of a thread, up to the cap.\<close>

lemma serve_sound:
  assumes m: "mx \<noteq> - 1"
  shows "k \<le> unat mx \<Longrightarrow> serve handle \<lparr>stc_max = mx, stc_steps = of_nat k\<rparr> rs sent = Return (out, st, over) \<Longrightarrow>
    \<exists>new. out = sent @ new \<and> length new = min (unat mx - k) (length (threaded rs)) \<and>
      (over \<longleftrightarrow> unat mx - k < length (threaded rs)) \<and>
      (\<forall>i < length new. replies_to handle (length sent + i) (threaded rs ! i) (new ! i))"
proof (induction rs arbitrary: k sent)
  case Nil
  then show ?case by (auto simp: threaded_def)
next
  case (Cons r rs)
  show ?case
  proof (cases "\<exists>mn th. r = Mention mn \<and> cm_thread_id mn = Some th")
    case False
    then show ?thesis using Cons serve_skips [OF False] by simp
  next
    case True
    then obtain mn th where r: "r = Mention mn" "cm_thread_id mn = Some th" by blast
    note t = threaded_mention [OF r(2)]
    show ?thesis
    proof (cases "k < unat mx")
      case k: True
      then obtain tx where h: "handle (length sent) mn = Return tx"
        and rest: "serve handle \<lparr>stc_max = mx, stc_steps = of_nat (Suc k)\<rparr> rs
          (sent @ [\<lparr>rp_text = tx, rp_thread = th, rp_mentions = (case cm_sender mn of None \<Rightarrow> [] | Some s \<Rightarrow> [s])\<rparr>])
          = Return (out, st, over)" (is "serve _ _ _ (sent @ [?r]) = _")
        using serve_tick(1) [OF m Cons.prems(1) r(2) k] Cons.prems(2) r(1) by (auto simp: exec_bind_Return_iff)
      obtain new where n: "out = (sent @ [?r]) @ new" "length new = min (unat mx - Suc k) (length (threaded rs))"
          "over \<longleftrightarrow> unat mx - Suc k < length (threaded rs)"
          "\<forall>i < length new. replies_to handle (length (sent @ [?r]) + i) (threaded rs ! i) (new ! i)"
        using Cons.IH [OF _ rest] k by auto
      have "replies_to handle (length sent) mn ?r" using h r(2) by (simp add: replies_to_def)
      then have "\<forall>i < length (?r # new). replies_to handle (length sent + i) (threaded (r # rs) ! i) ((?r # new) ! i)"
        using n(4) t r(1) by (simp add: All_less_Suc2)
      moreover have "length (?r # new) = min (unat mx - k) (length (threaded (r # rs)))"
        and "over \<longleftrightarrow> unat mx - k < length (threaded (r # rs))"
        using n(2,3) t r(1) k by auto
      ultimately show ?thesis using n(1) by (intro exI [of _ "?r # new"]) simp
    next
      case False
      then obtain st' where "serve handle \<lparr>stc_max = mx, stc_steps = of_nat k\<rparr> (r # rs) sent = Return (sent, st', True)"
        using serve_tick(2) [OF m Cons.prems(1) r(2)] r(1) by blast
      then show ?thesis using Cons.prems(2) False t r(1) by auto
    qed
  qed
qed

lemma serve_total:
  assumes "\<And>i m. handle i m \<noteq> Panic"
  shows "serve handle st rs sent \<noteq> Panic"
proof (induction rs arbitrary: st sent)
  case (Cons r rs)
  have "\<exists>h. \<forall>i m. handle i m = Return (h i m)" using assms by (meson exec.exhaust)
  then obtain h where h: "\<And>i m. handle i m = Return (h i m)" by blast
  show ?case using Cons.IH by (auto simp: h split: wait_result.splits option.splits prod.splits sum.splits)
qed simp

section \<open>The settlement verdict\<close>

lemma exec_map_Return [simp]: "exec_map f (Return x) = Return (f x)"
  by simp

definition settleable :: "wager \<Rightarrow> bool" where
  \<comment> \<open>what the settlement agent looks at\<close>
  "settleable w \<longleftrightarrow> w_status w \<noteq> NoBet \<and> \<not> fle (w_edge w) (lit 0) \<and> \<not> fle (w_stake_sol w) (lit 0)"

lemma settle_verdict_words:
  assumes "list_all word_char wid" and "list_all word_char st" and "st \<noteq> []"
  shows "tok (settle_verdict wid st reason sig) ''status'' = Some st"
proof -
  have plain: "list_all word_char ''SETTLE_VERDICT''" "list_all word_char ''wagerId=''" "list_all word_char ''status=''"
    by code_simp+
  have v: "settle_verdict wid st reason sig = ''SETTLE_VERDICT'' @ CHR '' '' #
      (''wagerId='' @ wid) @ CHR '' '' # (''status='' @ st) @ CHR '' '' #
      (''reason='' @ dquote @ reason @ dquote @ '' txSig='' @ sig)"
    by (simp add: settle_verdict_def)
  have w1: "tok (''SETTLE_VERDICT'' @ CHR '' '' # s) ''status'' = tok s ''status''" for s
    using plain(1) by (subst tok_word) (simp_all add: strip_prefix_def)
  have w2: "tok ((''wagerId='' @ wid) @ CHR '' '' # s) ''status'' = tok s ''status''" for s
    using plain(2) assms(1) by (subst tok_word) (simp_all add: strip_prefix_def)
  have w3: "tok ((''status='' @ st) @ CHR '' '' # s) ''status'' = Some st" for s
    using plain(3) assms(2) by (subst tok_word) (simp_all add: strip_prefix_def)
  show ?thesis unfolding v w1 w2 w3 ..
qed


lemma settlement_handle_verdict:
  assumes "wire_verb (cm_text m) = ''SETTLE_REQUESTED''"
    and "Option.bind (json_val (cm_text m) ''wager'') parse = Some w"
    and "tok (cm_text m) ''proofRef'' = Some p" and "p \<noteq> ''none''" and "p \<noteq> []"
    and "is_char_boundary p (min (length p) 8)"
  shows "\<exists>reason sig. settlement_handle parse m = Return
    (settle_verdict (w_wager_id w) (if settleable w then ''settled'' else ''rejected'') reason sig)"
proof (cases "w_status w = NoBet")
  case True
  then show ?thesis using assms by (auto simp: settlement_handle_def settleable_def)
next
  case False
  have "\<exists>st sig reason. simulate_settlement w p = Return (st, sig, reason)
      \<and> show_settle_status st = (if settleable w then ''settled'' else ''rejected'')"
    using False assms(6)
    by (auto simp: simulate_settlement_def settleable_def show_settle_status_def slice_to_def)
  then obtain st sig reason where "simulate_settlement w p = Return (st, sig, reason)"
      "show_settle_status st = (if settleable w then ''settled'' else ''rejected'')" by blast
  then have "settlement_handle parse m = Return (settle_verdict (w_wager_id w)
      (if settleable w then ''settled'' else ''rejected'') (escape_quotes reason) sig)"
    using False assms by (simp add: settlement_handle_def Let_def)
  then show ?thesis by blast
qed

section \<open>Properties\<close>

text \<open>
  An agent of the bus answers exactly the first \<open>max_steps\<close> mentions that carry a thread, in
  order of arrival, each in its own thread with only the sender mentioned; timeouts, transport
  errors and threadless mentions use no step. It shuts down at the first mention beyond the cap.
\<close>

theorem agent_replies_in_order:
  assumes "coral_run (Some u) connect parse handle mx script = Inr (Return (sent, st, over))" and "mx \<noteq> - 1"
  shows "length sent = min (unat mx) (length (threaded (map (wait_for_mention parse) script)))"
    and "over \<longleftrightarrow> unat mx < length (threaded (map (wait_for_mention parse) script))"
    and "i < length sent \<Longrightarrow> replies_to handle i (threaded (map (wait_for_mention parse) script) ! i) (sent ! i)"
  using serve_sound [OF assms(2), where k = 0 and sent = "[]"] assms(1)
  by (auto simp: coral_run_def stc_new_def split: option.splits)

definition sample_script :: "mcp_result list" where
  "sample_script = [McpError ''down'', McpContent [Some ''a''], McpContent [Some ''b''], McpContent [None]]"

definition sample_parse :: "string \<Rightarrow> string + json" where
  "sample_parse s = Inr (JObj [(''threadId'', JStr ''th''), (''sender'', JStr ''desk''), (''text'', JStr s)])"

lemma agent_replies_in_order_witness:
  "coral_run (Some ''url'') (\<lambda>_. None) sample_parse (\<lambda>_ m. Return (cm_text m)) 1 sample_script =
     Inr (Return ([\<lparr>rp_text = ''a'', rp_thread = ''th'', rp_mentions = [''desk'']\<rparr>], \<lparr>stc_max = 1, stc_steps = 2\<rparr>, True))"
  by code_simp

text \<open>
  A well-formed settlement request with a proof reference is answered with \<open>settled\<close>
  exactly when the wager is not a no-bet and its edge and stake are not at most zero, and with
  \<open>rejected\<close> otherwise. Nothing else is looked at: a wager whose proof failed, or that was
  refunded, is settled as well.
\<close>

theorem settlement_agent_decides:
  assumes "wire_verb (cm_text m) = ''SETTLE_REQUESTED''"
    and "Option.bind (json_val (cm_text m) ''wager'') parse = Some w"
    and "tok (cm_text m) ''proofRef'' = Some p" and "p \<noteq> ''none''" and "p \<noteq> []"
    and "is_char_boundary p (min (length p) 8)" and "list_all word_char (w_wager_id w)"
  shows "\<exists>reply. settlement_handle parse m = Return reply
    \<and> tok reply ''status'' = Some (if settleable w then ''settled'' else ''rejected'')"
proof -
  have words: "list_all word_char ''settled''" "list_all word_char ''rejected''" by code_simp+
  obtain reason sig where "settlement_handle parse m = Return
      (settle_verdict (w_wager_id w) (if settleable w then ''settled'' else ''rejected'') reason sig)"
    using settlement_handle_verdict [OF assms(1-6)] by blast
  then show ?thesis using settle_verdict_words [OF assms(7)] words by auto
qed

text \<open>A wager the proof guard has failed, as the witness.\<close>

definition failed_wager :: wager where
  "failed_wager = (sample_wager (lit 1) (Some ''abc''))
     \<lparr>w_wager_id := ''w-1'', w_status := ProofFailed, w_edge := lit 1, w_stake_sol := lit 1\<rparr>"

definition settle_mention :: coral_mention where
  "settle_mention = \<lparr>cm_thread_id = Some ''th'', cm_sender = Some ''desk'',
     cm_text = ''SETTLE_REQUESTED proofRef=abc wager={}''\<rparr>"

lemma failed_wager_settleable: "settleable failed_wager"
proof -
  have "\<not> fle (lit 1) (lit 0)" by code_simp
  then show ?thesis by (simp add: settleable_def failed_wager_def)
qed

theorem settlement_agent_decides_witness:
  "\<exists>reply. settlement_handle (\<lambda>_. Some failed_wager) settle_mention = Return reply \<and> tok reply ''status'' = Some ''settled''"
proof -
  have "\<exists>reply. settlement_handle (\<lambda>_. Some failed_wager) settle_mention = Return reply
    \<and> tok reply ''status'' = Some (if settleable failed_wager then ''settled'' else ''rejected'')"
  proof (rule settlement_agent_decides)
    have word: "list_all word_char ''SETTLE_REQUESTED''" and "to_ascii_uppercase ''SETTLE_REQUESTED'' = ''SETTLE_REQUESTED''"
      by code_simp+
    then show "wire_verb (cm_text settle_mention) = ''SETTLE_REQUESTED''"
      using wire_verb_word [OF word, of "''proofRef=abc wager={}''"] by (simp add: settle_mention_def)
    have "json_val (cm_text settle_mention) ''wager'' = Some ''{}''" by code_simp
    then show "Option.bind (json_val (cm_text settle_mention) ''wager'') (\<lambda>_. Some failed_wager) = Some failed_wager"
      by simp
    have "list_all word_char ''proofRef=abc''" by code_simp
    then show "tok (cm_text settle_mention) ''proofRef'' = Some ''abc''"
      using tok_word [of "''SETTLE_REQUESTED''" "''proofRef=abc wager={}''"] word
        tok_word [of "''proofRef=abc''" "''wager={}''"]
      by (simp add: settle_mention_def strip_prefix_def)
    show "is_char_boundary ''abc'' (min (length ''abc'') 8)" by code_simp
    have "list_all word_char ''w-1''" by code_simp
    then show "list_all word_char (w_wager_id failed_wager)" by (simp add: failed_wager_def)
  qed simp_all
  then show ?thesis by (simp add: failed_wager_settleable)
qed

end
