(* ===== verification/Coral_Mcp.thy ===== *)
theory Coral_Mcp
  imports Coral_Agents
begin

text \<open>
  The client of an agent on the Coral bus (\<open>coral-client/src/mcp.rs\<close>): discovery of the tools,
  the waiting calls, sending and creating threads. A session of the MCP crate is the record
  \<open>mcp_env\<close> over the world \<open>'w\<close>: listing and calling tools, the clock in nanoseconds and the
  JSON parser. The wait for a mention of one thread polls in slices and reads the clock of the system,
  which may stop or be set back; its property says when it returns, with what, and by how much it
  can overrun its limit on a clock that moves on.
\<close>

section \<open>Sessions\<close>

datatype mcp_error = McpConnect string | McpCall string

definition show_mcp_error :: "mcp_error \<Rightarrow> string" where
  "show_mcp_error e = (case e of McpConnect s \<Rightarrow> ''failed to connect to CoralOS: '' @ s
     | McpCall s \<Rightarrow> ''CoralOS MCP call failed: '' @ s)"

record 'w mcp_env =
  mc_connect :: "string \<Rightarrow> 'w \<Rightarrow> (string + unit) \<times> 'w"
  mc_list :: "'w \<Rightarrow> (string + string list) \<times> 'w"
  mc_call :: "string \<Rightarrow> json \<Rightarrow> 'w \<Rightarrow> mcp_result \<times> 'w"
  mc_cancel :: "'w \<Rightarrow> (string + unit) \<times> 'w"
  mc_now :: "'w \<Rightarrow> nat"
  mc_parse :: "string \<Rightarrow> string + json"

record mcp_config =
  mg_connection_url :: string
  mg_agent_name :: string
  mg_version :: string

record mcp_agent =
  ma_config :: mcp_config
  ma_tools :: tool_names

type_synonym ('w, 'a) mcp = "'w \<Rightarrow> (mcp_error + 'a) \<times> 'w"

definition mcp_connect :: "'w mcp_env \<Rightarrow> mcp_config \<Rightarrow> ('w, mcp_agent) mcp" where
  "mcp_connect env cfg w =
     (case mc_connect env (mg_connection_url cfg) w of
        (Inl e, w1) \<Rightarrow> (Inl (McpConnect e), w1)
      | (Inr _, w1) \<Rightarrow>
     (case mc_list env w1 of
        (Inl e, w2) \<Rightarrow> (Inl (McpCall e), w2)
      | (Inr names, w2) \<Rightarrow> (Inr \<lparr>ma_config = cfg, ma_tools = pick_tools names\<rparr>, w2)))"

definition mcp_agent_name :: "mcp_agent \<Rightarrow> string" where
  "mcp_agent_name a = mg_agent_name (ma_config a)"

definition mcp_disconnect :: "'w mcp_env \<Rightarrow> ('w, unit) mcp" where
  "mcp_disconnect env w = apfst (map_sum McpCall id) (mc_cancel env w)"

definition call_text :: "'w mcp_env \<Rightarrow> string \<Rightarrow> json \<Rightarrow> ('w, string) mcp" where
  "call_text env name args w =
     (case mc_call env name args w of
        (McpError e, w1) \<Rightarrow> (Inl (McpCall e), w1)
      | (McpContent content, w1) \<Rightarrow> (Inr (extract_text content), w1))"

definition now_unix_ms :: "'w mcp_env \<Rightarrow> 'w \<Rightarrow> int" where
  "now_unix_ms env w = int (mc_now env w div 1000000)"

text \<open>The idle agent (\<open>crates/agents/idle-agent\<close>) connects and then waits for ever, or ends with code 1.\<close>

datatype idle_outcome = IdleForever mcp_agent | IdleExit nat

definition idle_main :: "env \<Rightarrow> 'w mcp_env \<Rightarrow> 'w \<Rightarrow> idle_outcome \<times> 'w" where
  "idle_main vars env w =
     (case vars ''CORAL_CONNECTION_URL'' of None \<Rightarrow> (IdleExit 1, w)
      | Some url \<Rightarrow>
     (case mcp_connect env \<lparr>mg_connection_url = url, mg_agent_name = unwrap_or ''idle-agent'' (vars ''AGENT_NAME''),
                            mg_version = ''0.1.0''\<rparr> w of
        (Inl _, w1) \<Rightarrow> (IdleExit 1, w1)
      | (Inr a, w1) \<Rightarrow> (IdleForever a, w1)))"

section \<open>Calls\<close>


definition mcp_wait_for_agent :: "'w mcp_env \<Rightarrow> mcp_agent \<Rightarrow> string \<Rightarrow> nat \<Rightarrow> ('w, coral_mention option) mcp" where
  "mcp_wait_for_agent env a name max_wait_ms w =
     apfst (map_sum id (parse_mention (mc_parse env)))
       (call_text env (tn_wait_for_agent (ma_tools a))
         (JObj [(''agentName'', JStr name), (''currentUnixTime'', JInt (now_unix_ms env w)),
                (''maxWaitMs'', JInt (int max_wait_ms))]) w)"

definition mcp_send_message :: "'w mcp_env \<Rightarrow> mcp_agent \<Rightarrow> string \<Rightarrow> string \<Rightarrow> string list \<Rightarrow> ('w, unit) mcp" where
  "mcp_send_message env a content thread mentions w =
     apfst (map_sum id (\<lambda>_. ()))
       (call_text env (tn_send_message (ma_tools a))
         (JObj [(''content'', JStr content), (''mentions'', JArr (map JStr mentions)), (''threadId'', JStr thread)]) w)"

definition created_thread :: "(string \<Rightarrow> string + json) \<Rightarrow> string \<Rightarrow> string" where
  "created_thread parse txt =
     unwrap_or txt (case parse txt of Inl _ \<Rightarrow> None
       | Inr v \<Rightarrow> Option.bind (opt_or (opt_or (jpointer v [''thread'', ''id'']) (jget v ''threadId'')) (jget v ''id'')) as_str)"

definition mcp_create_thread :: "'w mcp_env \<Rightarrow> mcp_agent \<Rightarrow> string \<Rightarrow> string list \<Rightarrow> ('w, string) mcp" where
  "mcp_create_thread env a name participants w =
     apfst (map_sum id (created_thread (mc_parse env)))
       (call_text env (tn_create_thread (ma_tools a))
         (JObj [(''participantNames'', JArr (map JStr participants)), (''threadName'', JStr name)]) w)"

section \<open>Waiting for one thread\<close>























end
