(* ===== verification/Delegation.thy ===== *)
theory Delegation
  imports Coral_Agents
begin

text \<open>
  The four delegation modules of \<open>agent/runtime\<close> and \<open>handoff.rs\<close>: how the orchestrator asks
  another process for a verdict over the bus, and what it does when no answer comes. The four
  modules repeat the same steps, reaching the session and exchanging one message; here the
  steps are shared. \<open>serde_json\<close>'s conversions are the record \<open>wire_codec\<close>.
\<close>

record wire_codec =
  wc_wager :: "wager \<Rightarrow> string + string"
  wc_trail :: "tool_trail_entry list \<Rightarrow> string + string"
  wc_signal :: "agent_signal \<Rightarrow> string + string"
  wc_decision :: "agent_decision \<Rightarrow> string + string"
  wc_parse_wager :: "string \<Rightarrow> wager option"

section \<open>handoff.rs\<close>

definition specialist_for_track :: "track_mode \<Rightarrow> string" where
  "specialist_for_track t = (case t of
     Settlement \<Rightarrow> settlement_agent | Trading \<Rightarrow> sharp_movement_detector | Fan \<Rightarrow> fan_pundit_agent)"

definition tool_trail_wire_suffix :: "wire_codec \<Rightarrow> tool_trail_entry list \<Rightarrow> string" where
  "tool_trail_wire_suffix wc trail =
     (if trail = [] then []
      else case wc_trail wc trail of Inr j \<Rightarrow> '' toolTrail='' @ j | Inl _ \<Rightarrow> [])"

section \<open>The shared steps\<close>

definition wait_timeout :: nat where "wait_timeout = 30000"
definition poll_interval :: nat where "poll_interval = 750"

text \<open>
  The session to use: the round's live one, or a new one that becomes the live one. The second
  component is the live session afterwards.
\<close>

definition reach ::
  "'w io \<Rightarrow> app_config \<Rightarrow> agent_run \<Rightarrow> string \<Rightarrow> live_session option \<Rightarrow> 'w
     \<Rightarrow> ((string + live_session) \<times> live_session option) \<times> 'w" where
  "reach io cfg run agent live w =
     (if \<not> coralos_console_enabled cfg then
        ((Inl (''CoralOS console disabled (CORALOS_CONSOLE_ENABLED=0) '' @ ch_dash @ '' cannot reach '' @ agent), live), w)
      else case live of
        Some s \<Rightarrow> ((Inr s, live), w)
      | None \<Rightarrow>
          (case ensure_session io cfg run w of
             (Inr s, w1) \<Rightarrow> ((Inr s, Some s), w1)
           | (Inl e, w1) \<Rightarrow> ((Inl (''CoralOS session unavailable, cannot reach '' @ agent @ '': '' @ e), live), w1)))"

text \<open>Post a request to the agent and wait for its reply.\<close>

definition exchange ::
  "'w io \<Rightarrow> app_config \<Rightarrow> live_session \<Rightarrow> string \<Rightarrow> string \<Rightarrow> string \<Rightarrow> string \<Rightarrow> string \<Rightarrow> 'w
     \<Rightarrow> ((string + string) \<times> 'w) option" where
  "exchange io cfg s agent content verb needle treated w =
     (case send_raw_message io cfg s content [agent] w of
        (Inl e, w1) \<Rightarrow> Some (Inl (''failed to delegate to '' @ agent @ '': '' @ e), w1)
      | (Inr _, w1) \<Rightarrow>
          (case wait_for_message io cfg s agent verb needle wait_timeout poll_interval w1 of
             None \<Rightarrow> None
           | Some (Some reply, w2) \<Rightarrow> Some (Inr reply, w2)
           | Some (None, w2) \<Rightarrow> Some (Inl (agent @ '' did not respond within '' @ show_nat (wait_timeout div 1000)
               @ ''s '' @ ch_dash @ '' treating as '' @ treated @ '' (fail closed)''), w2)))"

definition conclude ::
  "(string \<Rightarrow> 'o) \<Rightarrow> (string \<Rightarrow> 'o) \<Rightarrow> live_session option \<Rightarrow> ((string + string) \<times> 'w) option
     \<Rightarrow> (('o \<times> live_session option) \<times> 'w) option" where
  \<comment> \<open>the outcome of an exchange: a fallback with its reason, or what the reply says\<close>
  "conclude bad good live r =
     map_option (\<lambda>(x, w). ((case x of Inl e \<Rightarrow> bad e | Inr reply \<Rightarrow> good reply, live), w)) r"

text \<open>
  The steps in order: reach the session, serialize, exchange. \<open>payload\<close> is the request text,
  or the reason why it could not be built.
\<close>

definition consult ::
  "'w io \<Rightarrow> app_config \<Rightarrow> agent_run \<Rightarrow> string \<Rightarrow> (string \<Rightarrow> 'o) \<Rightarrow> (string \<Rightarrow> 'o) \<Rightarrow> string + string
     \<Rightarrow> string \<Rightarrow> string \<Rightarrow> string \<Rightarrow> live_session option \<Rightarrow> 'w \<Rightarrow> (('o \<times> live_session option) \<times> 'w) option" where
  "consult io cfg run agent bad good payload verb needle treated live w =
     (case reach io cfg run agent live w of
        ((Inl e, live'), w1) \<Rightarrow> Some ((bad e, live'), w1)
      | ((Inr s, live'), w1) \<Rightarrow>
          (case payload of
             Inl e \<Rightarrow> Some ((bad e, live'), w1)
           | Inr content \<Rightarrow>
               conclude bad good live' (exchange io cfg s agent content verb needle treated w1)))"

definition wager_payload :: "wire_codec \<Rightarrow> wager \<Rightarrow> (string \<Rightarrow> string) \<Rightarrow> string + string" where
  "wager_payload wc wg request = map_sum (\<lambda>e. ''failed to serialize wager: '' @ e) request (wc_wager wc wg)"

definition parse_verdict_wager :: "wire_codec \<Rightarrow> string \<Rightarrow> wager option" where
  "parse_verdict_wager wc msg = Option.bind (json_val msg ''wager'') (wc_parse_wager wc)"

section \<open>settlement\_delegation.rs\<close>

record settlement_outcome =
  so_status :: string
  so_reason :: string
  so_tx_sig :: "string option"

definition settlement_unreachable :: "string \<Rightarrow> settlement_outcome" where
  "settlement_unreachable reason = \<lparr>so_status = ''unreachable'', so_reason = reason, so_tx_sig = None\<rparr>"

definition settlement_request :: "wire_codec \<Rightarrow> string \<Rightarrow> tool_trail_entry list \<Rightarrow> string \<Rightarrow> string" where
  "settlement_request wc proof_ref trail wager_json =
     ''SETTLE_REQUESTED proofRef='' @ proof_ref @ tool_trail_wire_suffix wc trail @ '' wager='' @ wager_json"

definition read_settlement :: "string \<Rightarrow> settlement_outcome" where
  "read_settlement reply =
     \<lparr>so_status = unwrap_or ''unreachable'' (tok reply ''status''),
      so_reason = unwrap_or ''settlement-agent replied without a reason'' (quoted reply ''reason''),
      so_tx_sig = opt_filter (\<lambda>s. s \<noteq> ''none'') (tok reply ''txSig'')\<rparr>"

definition delegate_settlement ::
  "'w io \<Rightarrow> app_config \<Rightarrow> wire_codec \<Rightarrow> agent_run \<Rightarrow> wager \<Rightarrow> tool_trail_entry list
     \<Rightarrow> live_session option \<Rightarrow> 'w \<Rightarrow> ((settlement_outcome \<times> live_session option) \<times> 'w) option" where
  "delegate_settlement io cfg wc run wg trail live w =
     (case w_proof_ref wg of
        None \<Rightarrow> Some ((settlement_unreachable (''wager has no proof_ref yet '' @ ch_dash
                   @ '' cannot request settlement''), live), w)
      | Some proof_ref \<Rightarrow>
          consult io cfg run settlement_agent settlement_unreachable read_settlement
            (wager_payload wc wg (settlement_request wc proof_ref trail))
            ''SETTLE_VERDICT'' (''wagerId='' @ w_wager_id wg) ''unreachable'' live w)"

section \<open>wager\_proof\_delegation.rs\<close>

record guard_outcome =
  go_wager :: wager
  go_reason :: string

definition fail_closed :: "wager \<Rightarrow> string \<Rightarrow> guard_outcome" where
  "fail_closed wg reason = \<lparr>go_wager = wg\<lparr>w_status := ProofFailed\<rparr>, go_reason = reason\<rparr>"

definition guard_request :: "wire_codec \<Rightarrow> wager \<Rightarrow> tool_trail_entry list \<Rightarrow> string \<Rightarrow> string" where
  "guard_request wc wg trail wager_json =
     ''WAGER_PROOF_REQUESTED round='' @ show_u64 (w_fixture_id wg) @ '' wagerId='' @ w_wager_id wg
     @ tool_trail_wire_suffix wc trail @ '' wager='' @ wager_json"

definition read_guard :: "wire_codec \<Rightarrow> wager \<Rightarrow> string \<Rightarrow> guard_outcome" where
  "read_guard wc wg reply =
     (case parse_verdict_wager wc reply of
        Some u \<Rightarrow> \<lparr>go_wager = u, go_reason = match_intelligence @ '': real proof-guard-agent verdict ''
                   @ ch_dash @ '' '' @ debug_status (w_status u)\<rparr>
      | None \<Rightarrow> fail_closed wg (''proof-guard-agent reply was malformed: '' @ reply))"

definition delegate_guard ::
  "'w io \<Rightarrow> app_config \<Rightarrow> wire_codec \<Rightarrow> agent_run \<Rightarrow> wager \<Rightarrow> tool_trail_entry list
     \<Rightarrow> live_session option \<Rightarrow> 'w \<Rightarrow> ((guard_outcome \<times> live_session option) \<times> 'w) option" where
  "delegate_guard io cfg wc run wg trail live w =
     consult io cfg run proof_guard_agent (fail_closed wg) (read_guard wc wg)
       (wager_payload wc wg (guard_request wc wg trail))
       ''WAGER_PROOF_VERDICT'' (''wagerId='' @ w_wager_id wg) ''failed'' live w"

section \<open>trading\_delegation.rs\<close>

record trade_outcome =
  to_status :: string
  to_reason :: string
  to_position_id :: "string option"
  to_size_sol :: f64

definition trade_unreachable :: "string \<Rightarrow> trade_outcome" where
  "trade_unreachable reason =
     \<lparr>to_status = ''unreachable'', to_reason = reason, to_position_id = None, to_size_sol = lit 0\<rparr>"

definition read_trade :: "string \<Rightarrow> trade_outcome" where
  "read_trade reply =
     \<lparr>to_status = unwrap_or ''unreachable'' (tok reply ''status''),
      to_reason = unwrap_or ''sharp-movement-detector replied without a reason'' (quoted reply ''reason''),
      to_position_id = opt_filter (\<lambda>s. s \<noteq> ''none'') (tok reply ''positionId''),
      to_size_sol = unwrap_or (lit 0) (num reply ''sizeSol'')\<rparr>"

definition delegate_trade ::
  "'w io \<Rightarrow> app_config \<Rightarrow> wire_codec \<Rightarrow> agent_run \<Rightarrow> agent_signal \<Rightarrow> agent_decision
     \<Rightarrow> live_session option \<Rightarrow> 'w \<Rightarrow> ((trade_outcome \<times> live_session option) \<times> 'w) option" where
  "delegate_trade io cfg wc run sg dec live w =
     consult io cfg run sharp_movement_detector trade_unreachable read_trade
       (case (wc_signal wc sg, wc_decision wc dec) of
          (Inr sj, Inr dj) \<Rightarrow> Inr (''TRADE_REQUESTED signal='' @ sj @ '' decision='' @ dj)
        | _ \<Rightarrow> Inl ''failed to serialize signal/decision'')
       ''TRADE_VERDICT'' [] ''unreachable'' live w"

section \<open>fan\_pundit\_delegation.rs\<close>

record pundit_handoff =
  po_wager :: wager
  po_stance :: string
  po_reason :: string

definition pundit_unreachable :: "wager \<Rightarrow> string \<Rightarrow> pundit_handoff" where
  "pundit_unreachable wg reason = \<lparr>po_wager = wg, po_stance = ''unreachable'', po_reason = reason\<rparr>"

definition pundit_needle :: "wager \<Rightarrow> string" where
  "pundit_needle wg = ''wagerId'' @ dquote @ '':'' @ dquote @ w_wager_id wg"

definition read_pundit :: "wire_codec \<Rightarrow> wager \<Rightarrow> string \<Rightarrow> pundit_handoff" where
  "read_pundit wc wg reply =
     \<lparr>po_wager = unwrap_or wg (parse_verdict_wager wc reply),
      po_stance = unwrap_or ''unreachable'' (tok reply ''stance''),
      po_reason = unwrap_or ''fan-pundit-agent replied without a reason'' (quoted reply ''reason'')\<rparr>"

definition delegate_pundit ::
  "'w io \<Rightarrow> app_config \<Rightarrow> wire_codec \<Rightarrow> agent_run \<Rightarrow> wager \<Rightarrow> tool_trail_entry list
     \<Rightarrow> live_session option \<Rightarrow> 'w \<Rightarrow> ((pundit_handoff \<times> live_session option) \<times> 'w) option" where
  "delegate_pundit io cfg wc run wg trail live w =
     consult io cfg run fan_pundit_agent (pundit_unreachable wg) (read_pundit wc wg)
       (wager_payload wc wg (\<lambda>j. ''PUNDIT_REACT_REQUESTED'' @ tool_trail_wire_suffix wc trail @ '' wager='' @ j))
       ''PUNDIT_REACT_VERDICT'' (pundit_needle wg) ''unreachable'' live w"

section \<open>What every delegation promises\<close>

text \<open>
  A delegation returns on an advancing clock, keeps a live session it is given, and its outcome
  is either a fallback the module makes up itself (\<open>closed\<close>) or read from a message of the
  agent that the bus holds in the session.
\<close>

definition answered ::
  "'w io \<Rightarrow> app_config \<Rightarrow> live_session option \<Rightarrow> string \<Rightarrow> string \<Rightarrow> string \<Rightarrow> string \<Rightarrow> 'w \<Rightarrow> bool" where
  "answered io cfg live agent verb needle t w' \<longleftrightarrow> coralos_console_enabled cfg \<and>
     (\<exists>s. live = Some s \<and> thread_holds io cfg s agent t w') \<and> prefix_of verb t \<and> contains_sub t needle"

locale delegation =
  fixes delegate :: "'w io \<Rightarrow> app_config \<Rightarrow> live_session option \<Rightarrow> 'w \<Rightarrow> (('o \<times> live_session option) \<times> 'w) option"
    and closed :: "'o \<Rightarrow> bool"
    and reads :: "string \<Rightarrow> 'o"
    and agent verb needle :: string
  assumes returns: "clock_advances io \<Longrightarrow> delegate io cfg live w \<noteq> None"
    and keeps_session: "delegate io cfg (Some s) w = Some ((out, live'), w') \<Longrightarrow> live' = Some s"
    and outcome: "delegate io cfg live w = Some ((out, live'), w') \<Longrightarrow>
      closed out \<or> (\<exists>t. out = reads t \<and> answered io cfg live' agent verb needle t w')"
begin

lemma genuine:
  assumes "clock_advances io"
  shows "\<exists>out live' w'. delegate io cfg live w = Some ((out, live'), w') \<and>
    (closed out \<or> (\<exists>t. out = reads t \<and> answered io cfg live' agent verb needle t w'))"
  using returns [OF assms, of cfg live w] outcome by fastforce

lemma disabled_closed:
  "delegate io cfg live w = Some ((out, live'), w') \<Longrightarrow> \<not> coralos_console_enabled cfg \<Longrightarrow> closed out"
  using outcome by (fastforce simp: answered_def)

end

lemma reach_session:
  "reach io cfg run agent live w = ((r, live'), w1) \<Longrightarrow>
     (case r of Inr s \<Rightarrow> coralos_console_enabled cfg \<and> live' = Some s | Inl _ \<Rightarrow> True)
     \<and> (live \<noteq> None \<longrightarrow> live' = live)"
  by (auto simp: reach_def split: if_splits option.splits prod.splits sum.splits)

lemma exchange_returns:
  assumes "clock_advances io"
  obtains a b where "exchange io cfg s agent content verb needle treated w = Some (a, b)"
proof (cases "send_raw_message io cfg s content [agent] w")
  case (Pair r w1)
  obtain v w2 where "wait_for_message io cfg s agent verb needle wait_timeout poll_interval w1 = Some (v, w2)"
    using wait_returns [OF assms, of poll_interval] by (metis not_None_eq poll_interval_def surj_pair zero_less_numeral)
  then show ?thesis using that Pair by (cases r; cases v) (auto simp: exchange_def)
qed

lemma exchange_reply:
  "exchange io cfg s agent content verb needle treated w = Some (Inr reply, w') \<Longrightarrow>
     thread_holds io cfg s agent reply w' \<and> prefix_of verb reply \<and> contains_sub reply needle"
  by (auto simp: exchange_def split: prod.splits sum.splits option.splits dest: wait_result)

text \<open>The shape the four modules share, from a reached session to the outcome.\<close>

lemma conclude_None [simp]: "conclude bad good live r = None \<longleftrightarrow> r = None"
  by (simp add: conclude_def)

lemma conclude_outcome:
  assumes "conclude bad good live' (exchange io cfg s agent content verb needle treated w1) = Some ((out, live''), w')"
    and "reach io cfg run agent live w = ((Inr s, live'), w1)"
  shows "live'' = live' \<and> (live \<noteq> None \<longrightarrow> live' = live)
    \<and> ((\<exists>e. out = bad e) \<or> (\<exists>t. out = good t \<and> answered io cfg live' agent verb needle t w'))"
proof -
  obtain r where x: "exchange io cfg s agent content verb needle treated w1 = Some (r, w')"
    and o: "out = (case r of Inl e \<Rightarrow> bad e | Inr t \<Rightarrow> good t)" "live'' = live'"
    using assms(1) by (auto simp: conclude_def split: prod.splits)
  show ?thesis
  proof (cases r)
    case (Inl e)
    then show ?thesis using o reach_session [OF assms(2)] by auto
  next
    case (Inr t)
    then show ?thesis using o exchange_reply [OF x [unfolded Inr]] reach_session [OF assms(2)]
      by (auto simp: answered_def)
  qed
qed

lemma consult_returns:
  assumes "clock_advances io"
  shows "consult io cfg run agent bad good payload verb needle treated live w \<noteq> None"
proof -
  have "exchange io cfg s agent content verb needle treated v \<noteq> None" for s content v
    using exchange_returns [OF assms] by (metis option.distinct(1))
  then show ?thesis by (simp add: consult_def split: prod.splits sum.splits del: not_None_eq)
qed

lemma consult_outcome:
  assumes "consult io cfg run agent bad good payload verb needle treated live w = Some ((out, live''), w')"
  shows "(live \<noteq> None \<longrightarrow> live'' = live)
    \<and> ((\<exists>e. out = bad e) \<or> (\<exists>t. out = good t \<and> answered io cfg live'' agent verb needle t w'))"
proof -
  obtain r live' w1 where r: "reach io cfg run agent live w = ((r, live'), w1)" by (metis surj_pair)
  show ?thesis
  proof (cases r)
    case (Inl e)
    then show ?thesis using assms r reach_session [OF r] by (auto simp: consult_def)
  next
    case (Inr s)
    show ?thesis
    proof (cases payload)
      case (Inl e)
      then show ?thesis using assms r Inr reach_session [OF r] by (auto simp: consult_def)
    next
      case p: (Inr content)
      have "conclude bad good live' (exchange io cfg s agent content verb needle treated w1) = Some ((out, live''), w')"
        using assms r Inr p by (simp add: consult_def)
      from conclude_outcome [OF this] r Inr show ?thesis by blast
    qed
  qed
qed

interpretation settlement_link: delegation
  "\<lambda>io cfg live w. delegate_settlement io cfg wc run wg trail live w" "\<lambda>out. \<exists>e. out = settlement_unreachable e"
  read_settlement settlement_agent "''SETTLE_VERDICT''" "''wagerId='' @ w_wager_id wg"
  by unfold_locales
     (auto simp: delegate_settlement_def consult_returns dest!: consult_outcome simp del: not_None_eq split: option.splits)

interpretation guard_link: delegation
  "\<lambda>io cfg live w. delegate_guard io cfg wc run wg trail live w" "\<lambda>out. \<exists>e. out = fail_closed wg e"
  "read_guard wc wg" proof_guard_agent "''WAGER_PROOF_VERDICT''" "''wagerId='' @ w_wager_id wg"
  by unfold_locales (auto simp: delegate_guard_def consult_returns dest!: consult_outcome simp del: not_None_eq)

interpretation trade_link: delegation
  "\<lambda>io cfg live w. delegate_trade io cfg wc run sg dec live w" "\<lambda>out. \<exists>e. out = trade_unreachable e"
  read_trade sharp_movement_detector "''TRADE_VERDICT''" "[]"
  by unfold_locales (auto simp: delegate_trade_def consult_returns dest!: consult_outcome simp del: not_None_eq)

interpretation pundit_link: delegation
  "\<lambda>io cfg live w. delegate_pundit io cfg wc run wg trail live w" "\<lambda>out. \<exists>e. out = pundit_unreachable wg e"
  "read_pundit wc wg" fan_pundit_agent "''PUNDIT_REACT_VERDICT''" "pundit_needle wg"
  by unfold_locales (auto simp: delegate_pundit_def consult_returns dest!: consult_outcome simp del: not_None_eq)


section \<open>The settlement conversation\<close>

lemma at_word_start_space: "at_word_start (s @ '' '')"
proof -
  have "filter (\<lambda>w. prefix_of (rev w) (CHR '' '' # rev s)) ws_seqs \<noteq> []"
  proof -
    have "[char_of (32::nat)] = '' ''" by code_simp
    then have "'' '' \<in> set ws_seqs" by (auto simp: ws_seqs_def)
    moreover have "prefix_of (rev '' '') (CHR '' '' # rev s)" by simp
    ultimately show ?thesis unfolding filter_empty_conv by blast
  qed
  then obtain w ws where f: "filter (\<lambda>w. prefix_of (rev w) (CHR '' '' # rev s)) ws_seqs = w # ws"
    by (meson neq_Nil_conv)
  then have "w \<in> set (filter (\<lambda>w. prefix_of (rev w) (CHR '' '' # rev s)) ws_seqs)" by simp
  then have "w \<in> set ws_seqs" by simp
  moreover have "[] \<notin> set ws_seqs" by (auto simp: ws_seqs_def)
  ultimately have "0 < length w" by (metis length_greater_0_conv)
  then show ?thesis using f by (simp add: at_word_start_def ws_len_end_def)
qed

text \<open>
  The tool trail stands before the wager on the wire. \<open>trail_clear\<close> says that its JSON has no
  \<open>wager=\<close> at the start of a word and followed by a bracket, inside a quoted result for instance.
\<close>

definition trail_clear :: "wire_codec \<Rightarrow> tool_trail_entry list \<Rightarrow> bool" where
  "trail_clear wc trail \<longleftrightarrow> (\<forall>tj. wc_trail wc trail = Inr tj \<longrightarrow> no_key_inside ''wager'' tj)"

lemma request_has_no_key:
  assumes "list_all word_char p" and "trail_clear wc trail"
  shows "no_key ''wager'' (''SETTLE_REQUESTED proofRef='' @ p @ tool_trail_wire_suffix wc trail @ '' '')"
proof -
  have words: "list_all word_char ''SETTLE_REQUESTED''" "list_all word_char ''proofRef=''"
    "list_all word_char ''toolTrail=''" by code_simp+
  have "no_key ''wager'' []" by (simp add: no_key_def)
  note space = no_key_inside_space [OF this]
  have suffix: "no_key_inside ''wager'' (tool_trail_wire_suffix wc trail @ '' '')"
  proof (cases "tool_trail_wire_suffix wc trail = []")
    case True
    then show ?thesis using space by simp
  next
    case False
    then obtain tj where tj: "tool_trail_wire_suffix wc trail = '' toolTrail='' @ tj" "wc_trail wc trail = Inr tj"
      by (auto simp: tool_trail_wire_suffix_def split: if_splits sum.splits)
    then have "no_key_inside ''wager'' (tj @ '' '')"
      using assms(2) no_key_inside_end unfolding trail_clear_def by blast
    then have "no_key ''wager'' (''toolTrail='' @ (tj @ '' ''))" by (intro no_key_word words) simp_all
    from no_key_inside_space [OF this] show ?thesis unfolding tj(1) by simp
  qed
  have "no_key ''wager'' ((''proofRef='' @ p) @ (tool_trail_wire_suffix wc trail @ '' ''))"
    using words(2) assms(1) suffix by (intro no_key_word) simp_all
  from no_key_word [OF words(1) _ _ no_key_inside_space [OF this]]
  have "no_key ''wager'' (''SETTLE_REQUESTED'' @ CHR '' '' # ((''proofRef='' @ p) @ (tool_trail_wire_suffix wc trail @ '' '')))"
    by simp
  then show ?thesis by simp
qed

lemma contains_sub_mid: "contains_sub (a @ p @ b) p"
  by (metis contains_sub_def find_sub_append option.distinct(1))

lemma wager_key_in_request:
  assumes "container j" and "list_all word_char p" and "trail_clear wc trail"
  shows "json_val (settlement_request wc p trail j) ''wager'' = Some j"
proof -
  let ?pre = "''SETTLE_REQUESTED proofRef='' @ p @ tool_trail_wire_suffix wc trail @ '' ''"
  have eq: "settlement_request wc p trail j = ?pre @ ''wager'' @ ''='' @ j @ []"
    by (simp add: settlement_request_def)
  have "at_word_start ((''SETTLE_REQUESTED proofRef='' @ p @ tool_trail_wire_suffix wc trail) @ '' '')"
    by (rule at_word_start_space)
  then have "at_word_start ?pre" by simp
  then show ?thesis unfolding eq
    using request_has_no_key [OF assms(2,3)]
    by (intro json_val_no_key [OF assms(1)]) (simp_all add: open_bracket_def)
qed

lemma settlement_request_tokens:
  assumes "list_all word_char p"
  shows "wire_verb (settlement_request wc p trail j) = ''SETTLE_REQUESTED''"
    and "tok (settlement_request wc p trail j) ''proofRef'' = Some p"
proof -
  have word: "list_all word_char ''SETTLE_REQUESTED''" "list_all word_char ''proofRef=''"
    and up: "to_ascii_uppercase ''SETTLE_REQUESTED'' = ''SETTLE_REQUESTED''" by code_simp+
  obtain s where "tool_trail_wire_suffix wc trail @ '' wager='' @ j = CHR '' '' # s"
    by (cases "tool_trail_wire_suffix wc trail = []")
      (auto simp: tool_trail_wire_suffix_def split: if_splits sum.splits)
  then have eq: "settlement_request wc p trail j =
      ''SETTLE_REQUESTED'' @ CHR '' '' # (''proofRef='' @ p) @ CHR '' '' # s"
    by (simp add: settlement_request_def)
  show "wire_verb (settlement_request wc p trail j) = ''SETTLE_REQUESTED''"
    unfolding eq using wire_verb_word [OF word(1)] up by simp
  have "tok (''SETTLE_REQUESTED'' @ CHR '' '' # s) ''proofRef'' = tok s ''proofRef''" for s
    using tok_word [OF word(1)] by (simp add: strip_prefix_def)
  moreover have "tok ((''proofRef='' @ p) @ CHR '' '' # s) ''proofRef'' = Some p" for s
    using tok_word [of "''proofRef='' @ p"] word(2) assms by (simp add: strip_prefix_def)
  ultimately show "tok (settlement_request wc p trail j) ''proofRef'' = Some p" unfolding eq by simp
qed

section \<open>Properties\<close>

text \<open>
  C8: delegating a settlement fails closed. On an advancing clock it returns, and its outcome is
  \<open>unreachable\<close> without a signature unless the wager has a proof reference, the console is
  enabled, and the bus holds, in the round's session, a \<open>SETTLE_VERDICT\<close> message of the
  settlement agent naming the wager: then it is what that message says.
\<close>

theorem settlement_fails_closed:
  assumes "clock_advances io"
  shows "\<exists>out live' w'. delegate_settlement io cfg wc run wg trail live w = Some ((out, live'), w')
    \<and> ((so_status out = ''unreachable'' \<and> so_tx_sig out = None)
       \<or> (w_proof_ref wg \<noteq> None \<and> (\<exists>t. out = read_settlement t
            \<and> answered io cfg live' settlement_agent ''SETTLE_VERDICT'' (''wagerId='' @ w_wager_id wg) t w')))"
proof -
  obtain out live' w' where d: "delegate_settlement io cfg wc run wg trail live w = Some ((out, live'), w')"
    and o: "(\<exists>e. out = settlement_unreachable e) \<or> (\<exists>t. out = read_settlement t
            \<and> answered io cfg live' settlement_agent ''SETTLE_VERDICT'' (''wagerId='' @ w_wager_id wg) t w')"
    using settlement_link.genuine [OF assms] by metis
  show ?thesis
  proof (cases "w_proof_ref wg")
    case None
    then show ?thesis using d by (auto simp: delegate_settlement_def settlement_unreachable_def)
  next
    case (Some p)
    then show ?thesis using d o by (auto simp: settlement_unreachable_def)
  qed
qed

text \<open>
  Delegating the proof check fails closed. On an advancing clock it returns, and the wager
  that comes back is the delegated one with status \<open>ProofFailed\<close>, unless the console is enabled
  and the bus holds a verdict message of the proof guard naming the wager from which the
  returned wager was parsed.
\<close>

theorem guard_fails_closed:
  assumes "clock_advances io"
  shows "\<exists>out live' w'. delegate_guard io cfg wc run wg trail live w = Some ((out, live'), w')
    \<and> (go_wager out = wg\<lparr>w_status := ProofFailed\<rparr>
       \<or> (\<exists>t. parse_verdict_wager wc t = Some (go_wager out)
            \<and> answered io cfg live' proof_guard_agent ''WAGER_PROOF_VERDICT'' (''wagerId='' @ w_wager_id wg) t w'))"
proof -
  obtain out live' w' where d: "delegate_guard io cfg wc run wg trail live w = Some ((out, live'), w')"
    and o: "(\<exists>e. out = fail_closed wg e) \<or> (\<exists>t. out = read_guard wc wg t
            \<and> answered io cfg live' proof_guard_agent ''WAGER_PROOF_VERDICT'' (''wagerId='' @ w_wager_id wg) t w')"
    using guard_link.genuine [OF assms] by metis
  have "go_wager (read_guard wc wg t) = wg\<lparr>w_status := ProofFailed\<rparr> \<or> parse_verdict_wager wc t = Some (go_wager (read_guard wc wg t))" for t
    by (simp add: read_guard_def fail_closed_def split: option.splits)
  then show ?thesis using d o by (auto simp: fail_closed_def)
qed

text \<open>
  C9: the settlement conversation, from the desk's request to the outcome it reads back. For a
  wager whose JSON and identifier survive the wire, a proof reference of ASCII word characters
  and any tool trail in whose JSON no word starts with \<open>wager=\<close> and a bracket (the trail stands
  before the wager), the agent answers with a message that the desk's wait accepts, and the desk
  reads \<open>settled\<close> exactly when the wager is not a no-bet and its edge and stake are not at most zero.
\<close>

theorem settlement_conversation:
  assumes "wc_wager wc wg = Inr j" and "container j" and "wc_parse_wager wc j = Some wg"
    and "list_all word_char (w_wager_id wg)" and "list_all word_char p"
    and "p \<noteq> []" and "p \<noteq> ''none''" and "trail_clear wc trail"
  shows "\<exists>reply. settlement_handle (wc_parse_wager wc)
      \<lparr>cm_thread_id = th, cm_sender = sender, cm_text = settlement_request wc p trail j\<rparr> = Return reply
    \<and> prefix_of ''SETTLE_VERDICT'' reply \<and> contains_sub reply (''wagerId='' @ w_wager_id wg)
    \<and> so_status (read_settlement reply) = (if settleable wg then ''settled'' else ''rejected'')"
proof -
  let ?m = "\<lparr>cm_thread_id = th, cm_sender = sender, cm_text = settlement_request wc p trail j\<rparr>"
  have "is_char_boundary p (min (length p) 8)"
    using assms(5) by (intro ascii_boundary) (auto simp: word_char_def list_all_iff)
  then obtain reason sig where r: "settlement_handle (wc_parse_wager wc) ?m = Return
      (settle_verdict (w_wager_id wg) (if settleable wg then ''settled'' else ''rejected'') reason sig)"
    using settlement_handle_verdict [of ?m "wc_parse_wager wc" wg p] settlement_request_tokens [OF assms(5)]
      wager_key_in_request [OF assms(2,5,8)] assms(3,6,7) by auto
  let ?r = "settle_verdict (w_wager_id wg) (if settleable wg then ''settled'' else ''rejected'') reason sig"
  have words: "list_all word_char ''settled''" "list_all word_char ''rejected''" by code_simp+
  have "tok ?r ''status'' = Some (if settleable wg then ''settled'' else ''rejected'')"
    using settle_verdict_words [OF assms(4)] words by auto
  moreover have "prefix_of ''SETTLE_VERDICT'' ?r" by (simp add: settle_verdict_def)
  moreover have "contains_sub (''SETTLE_VERDICT '' @ (''wagerId='' @ w_wager_id wg) @ s) (''wagerId='' @ w_wager_id wg)" for s
    by (rule contains_sub_mid)
  then have "contains_sub ?r (''wagerId='' @ w_wager_id wg)" by (simp add: settle_verdict_def)
  ultimately show ?thesis using r by (auto simp: read_settlement_def)
qed


text \<open>
  The trading delegation reads the first verdict of the session, not the answer to its own
  request. The request carries no identifier and the wait accepts any text, so whenever the
  session's state already holds a \<open>TRADE_VERDICT\<close> of the specialist, as it does from the second
  trading round of the process on, that old verdict is the outcome, whatever was asked now.
\<close>

theorem trade_verdict_is_stale:
  assumes "coralos_console_enabled cfg" and "wc_signal wc sg = Inr sj" and "wc_decision wc dec = Inr dj"
    and "send_raw_message io cfg s (''TRADE_REQUESTED signal='' @ sj @ '' decision='' @ dj) [sharp_movement_detector] w = (Inr (), w1)"
    and "io_http io (state_request cfg s) w1 = (Inr resp, w2)" and "is_success resp"
    and "hs_text resp = Inr body" and "io_parse io body = Inr state"
    and "messages_of state = old # later"
    and "match_message sharp_movement_detector ''TRADE_VERDICT'' [] old = Some t"
  shows "delegate_trade io cfg wc run sg dec (Some s) w = Some ((read_trade t, Some s), w2)"
proof -
  have "poll_once io cfg s sharp_movement_detector ''TRADE_VERDICT'' [] w1 = (Some t, w2)"
    using assms by (simp add: poll_once_def)
  then have "wait_for_message io cfg s sharp_movement_detector ''TRADE_VERDICT'' [] wait_timeout poll_interval w1
      = Some (Some t, w2)"
    unfolding wait_for_message_def by (subst poll_until.simps) simp
  then show ?thesis
    using assms by (simp add: delegate_trade_def consult_def reach_def exchange_def conclude_def)
qed

section \<open>Witnesses\<close>

definition sample_codec :: wire_codec where
  "sample_codec = \<lparr>wc_wager = (\<lambda>_. Inr ''{}''), wc_trail = (\<lambda>_. Inr ''[]''), wc_signal = (\<lambda>_. Inr ''{}''),
     wc_decision = (\<lambda>_. Inr ''{}''), wc_parse_wager = (\<lambda>_. Some failed_wager)\<rparr>"

theorem settlement_fails_closed_witness:
  "\<exists>out live' w'. delegate_settlement (sample_io 1000) sample_config sample_codec sample_run_record failed_wager [] None 0
      = Some ((out, live'), w')
    \<and> ((so_status out = ''unreachable'' \<and> so_tx_sig out = None)
       \<or> (w_proof_ref failed_wager \<noteq> None \<and> (\<exists>t. out = read_settlement t
            \<and> answered (sample_io 1000) sample_config live' settlement_agent ''SETTLE_VERDICT'' (''wagerId='' @ w_wager_id failed_wager) t w')))"
  by (rule settlement_fails_closed [OF sample_io_clock])

theorem guard_fails_closed_witness:
  "\<exists>out live' w'. delegate_guard (sample_io 1000) sample_config sample_codec sample_run_record failed_wager [] None 0
      = Some ((out, live'), w')
    \<and> (go_wager out = failed_wager\<lparr>w_status := ProofFailed\<rparr>
       \<or> (\<exists>t. parse_verdict_wager sample_codec t = Some (go_wager out)
            \<and> answered (sample_io 1000) sample_config live' proof_guard_agent ''WAGER_PROOF_VERDICT'' (''wagerId='' @ w_wager_id failed_wager) t w'))"
  by (rule guard_fails_closed [OF sample_io_clock])

lemma container_empty: "container ''{}''"
proof -
  have "balanced []" by (rule bal_Nil)
  then show ?thesis unfolding container_def
    by (intro exI [of _ "CHR ''{''"] exI [of _ "[]"] exI [of _ "CHR ''}''"])
       (simp add: open_bracket_def close_bracket_def)
qed

definition sample_trail :: "tool_trail_entry list" where
  "sample_trail = [\<lparr>tt_agent = ''analyst'', tt_tool = ''fair_odds'', tt_result = JStr ''1.9''\<rparr>]"

lemma sample_trail_clear: "trail_clear sample_codec sample_trail"
  by (auto simp: trail_clear_def sample_codec_def no_key_inside_def Cons_eq_append_conv append_eq_Cons_conv)

theorem settlement_conversation_witness:
  "\<exists>reply. settlement_handle (wc_parse_wager sample_codec)
      \<lparr>cm_thread_id = None, cm_sender = None,
       cm_text = settlement_request sample_codec ''abc'' sample_trail ''{}''\<rparr> = Return reply
    \<and> so_status (read_settlement reply) = ''settled''"
proof -
  have w: "list_all word_char ''w-1''" "list_all word_char ''abc''" by code_simp+
  have "\<exists>reply. settlement_handle (wc_parse_wager sample_codec)
      \<lparr>cm_thread_id = None, cm_sender = None,
       cm_text = settlement_request sample_codec ''abc'' sample_trail ''{}''\<rparr> = Return reply
    \<and> prefix_of ''SETTLE_VERDICT'' reply \<and> contains_sub reply (''wagerId='' @ w_wager_id failed_wager)
    \<and> so_status (read_settlement reply) = (if settleable failed_wager then ''settled'' else ''rejected'')"
    by (rule settlement_conversation)
       (use container_empty w sample_trail_clear in \<open>simp_all add: sample_codec_def failed_wager_def\<close>)
  then show ?thesis by (auto simp: failed_wager_settleable)
qed

text \<open>
  The condition on the trail is needed: a tool result that quotes a wager at the start of a word
  stands earlier in the request, and the agent reads it instead of the delegated wager.
\<close>

definition quoting_codec :: wire_codec where
  "quoting_codec = sample_codec\<lparr>wc_trail := (\<lambda>_. Inr (''['' @ dquote @ ''a wager={} b'' @ dquote @ '']''))\<rparr>"

definition quoting_trail :: "tool_trail_entry list" where
  "quoting_trail = [\<lparr>tt_agent = ''analyst'', tt_tool = ''news'', tt_result = JStr ''a wager={} b''\<rparr>]"

lemma quoted_wager_is_read:
  "json_val (settlement_request quoting_codec ''abc'' quoting_trail ''{1}'') ''wager'' = Some ''{}''"
  by code_simp

definition stale_message :: json where
  "stale_message = JObj [(''senderName'', JStr ''sharp-movement-detector''),
     (''text'', JStr ''TRADE_VERDICT status=declined'')]"

definition stale_io :: "nat io" where
  "stale_io = (sample_io 0)\<lparr>io_parse := (\<lambda>b. Inr (JObj [(''threads'', JArr [JObj [(''messages'', JArr [stale_message])]])]))\<rparr>"

definition sample_signal :: agent_signal where
  "sample_signal = \<lparr>sg_id = ''s'', sg_fixture_id = 1, sg_source_event_id = ''e'', sg_signal_type = SharpOddsMove,
     sg_severity = High, sg_confidence = lit 1, sg_features = [], sg_rationale = [], sg_created_at = []\<rparr>"

definition sample_decision :: agent_decision where
  "sample_decision = choose_action ''u'' ''now'' sample_context sample_signal (derive_features (sample_event None)) None ''e''"

theorem trade_verdict_is_stale_witness:
  "delegate_trade stale_io sample_config sample_codec sample_run_record sample_signal sample_decision (Some sample_live) 0
     = Some ((read_trade ''TRADE_VERDICT status=declined'', Some sample_live), 0)"
  by (rule trade_verdict_is_stale [where later = "[]" and old = stale_message and ?w1.0 = 0
        and sj = "''{}''" and dj = "''{}''" and body = "''late''"
        and resp = "\<lparr>hs_status = 200, hs_text = Inr ''late''\<rparr>"
        and state = "JObj [(''threads'', JArr [JObj [(''messages'', JArr [stale_message])]])]"])
     (simp_all add: sample_config_console sample_codec_def send_raw_message_def post_json_def stale_io_def
       sample_io_def is_success_def messages_of_def match_message_def stale_message_def str_field_def
       sharp_movement_detector_def contains_sub_def List.map_filter_simps)

end
