(* ===== verification/Txline.thy ===== *)
theory Txline
  imports Config
begin

text \<open>
  The TxLINE feed: the documented-path filter and token refresh of \<open>services/txline/api.rs\<close>
  and the server-sent-event ingest of \<open>services/txline/ingest.rs\<close>. JSON parsing, the network
  and the clock are arguments; within one block of the stream the clock is read once.
\<close>

section \<open>Application errors\<close>

datatype app_error =
    ConfigError string
  | InvalidInput string
  | NotFound string
  | RpcError i64 string
  | HttpError string
  | IoError string
  | SqlError string
  | JsonError string
  | TaskError string
  | LockPoisoned

definition error_code :: "app_error \<Rightarrow> string" where
  "error_code e = (case e of
     ConfigError _ \<Rightarrow> ''CONFIG'' | InvalidInput _ \<Rightarrow> ''INVALID_INPUT'' | NotFound _ \<Rightarrow> ''NOT_FOUND''
   | RpcError _ _ \<Rightarrow> ''RPC'' | HttpError _ \<Rightarrow> ''HTTP'' | IoError _ \<Rightarrow> ''IO'' | SqlError _ \<Rightarrow> ''SQLITE''
   | JsonError _ \<Rightarrow> ''JSON'' | TaskError _ \<Rightarrow> ''TASK'' | LockPoisoned \<Rightarrow> ''LOCK_POISONED'')"

definition show_app_error :: "app_error \<Rightarrow> string" where
  "show_app_error e = (case e of
     ConfigError m \<Rightarrow> ''configuration error: '' @ m
   | InvalidInput m \<Rightarrow> ''invalid input: '' @ m
   | NotFound m \<Rightarrow> ''not found: '' @ m
   | RpcError c m \<Rightarrow> ''rpc error '' @ show_int c @ '': '' @ m
   | HttpError m \<Rightarrow> ''http error: '' @ m
   | IoError m \<Rightarrow> ''io error: '' @ m
   | SqlError m \<Rightarrow> ''sqlite error: '' @ m
   | JsonError m \<Rightarrow> ''json error: '' @ m
   | TaskError m \<Rightarrow> ''task error: '' @ m
   | LockPoisoned \<Rightarrow> ''internal lock poisoned'')"

section \<open>api.rs: documented data paths\<close>

definition allowed_paths :: "string list" where
  "allowed_paths = [''api/fixtures/snapshot'', ''api/fixtures/validation'', ''api/fixtures/batch-validation'',
     ''api/odds/validation'', ''api/scores/stat-validation'']"

definition allowed_prefixes :: "string list" where
  "allowed_prefixes = [''api/fixtures/updates/'', ''api/odds/snapshot/'', ''api/odds/updates/'',
     ''api/scores/snapshot/'', ''api/scores/updates/'', ''api/scores/historical/'']"

definition is_allowed_data_path :: "string \<Rightarrow> bool" where
  "is_allowed_data_path p \<longleftrightarrow> p \<in> set allowed_paths \<or> list_ex (\<lambda>q. prefix_of q p) allowed_prefixes"

fun split_once :: "char \<Rightarrow> string \<Rightarrow> (string \<times> string) option" where
  "split_once c [] = None"
| "split_once c (d # s) =
     (if c = d then Some ([], s) else map_option (\<lambda>(a, b). (d # a, b)) (split_once c s))"

definition trim_char :: "char \<Rightarrow> string \<Rightarrow> string" where
  \<comment> \<open>\<open>trim_matches\<close> of one character\<close>
  "trim_char c s = rev (dropWhile ((=) c) (rev (dropWhile ((=) c) s)))"

definition disallowed_path :: "string \<Rightarrow> bool" where
  "disallowed_path p \<longleftrightarrow> contains_sub p ''://'' \<or> contains_sub p [CHR 0x5C] \<or> contains_sub p ''..''
     \<or> contains_sub p ''//'' \<or> contains_sub p ''#''"

definition normalize_data_path :: "string \<Rightarrow> app_error + string" where
  "normalize_data_path path =
     (let (path_part, query_part) = (case split_once (CHR ''?'') (trim path) of
            Some (p, q) \<Rightarrow> (p, Some q) | None \<Rightarrow> (trim path, None)) in
      if disallowed_path path_part then Inl (InvalidInput ''TxLINE path contains disallowed characters'')
      else
        let trimmed = trim_char (CHR ''/'') path_part;
            clean = (if prefix_of ''api/'' trimmed then trimmed else ''api/'' @ trimmed) in
        if \<not> is_allowed_data_path clean
        then Inl (InvalidInput (''TxLINE path '' @ clean @ '' is not in the documented data allowlist''))
        else case query_part of None \<Rightarrow> Inr clean
        | Some q \<Rightarrow>
            if contains_sub q ''#'' \<or> contains_sub q ''://''
            then Inl (InvalidInput ''TxLINE query contains disallowed characters'')
            else if trim q = [] then Inr clean else Inr (clean @ ''?'' @ q))"

text \<open>
  An authenticated read: the first answer decides whether the guest token is renewed once.
  \<open>get\<close> sends a request with a token and gives the status with the parsed body; \<open>renew\<close> posts to
  the guest endpoint.
\<close>

record data_answer =
  da_status :: nat
  da_json :: "string + json"

definition guest_token :: "json \<Rightarrow> string option" where
  "guest_token body =
     Option.bind (opt_or (jget body ''token'') (opt_or (jget body ''jwt'') (jget body ''accessToken''))) as_str"

definition answer_json :: "data_answer \<Rightarrow> app_error + json" where
  \<comment> \<open>\<open>error_for_status\<close>, then \<open>json\<close>\<close>
  "answer_json a =
     (if 400 \<le> da_status a \<and> da_status a < 600 then Inl (HttpError (show_nat (da_status a)))
      else case da_json a of Inl e \<Rightarrow> Inl (HttpError e) | Inr v \<Rightarrow> Inr v)"

definition refresh_guest_jwt ::
  "(string \<Rightarrow> 'w \<Rightarrow> (string + data_answer) \<times> 'w) \<Rightarrow> string \<Rightarrow> 'w \<Rightarrow> (app_error + string) \<times> 'w" where
  "refresh_guest_jwt post origin w =
     (case post (rev (dropWhile ((=) (CHR ''/'')) (rev origin)) @ ''/auth/guest/start'') w of
        (Inl e, w1) \<Rightarrow> (Inl (HttpError e), w1)
      | (Inr a, w1) \<Rightarrow>
          (case answer_json a of Inl e \<Rightarrow> Inl e
           | Inr body \<Rightarrow> (case guest_token body of Some t \<Rightarrow> Inr t
               | None \<Rightarrow> Inl (ConfigError ''guest/start returned no token field'')), w1))"

definition authenticated_get ::
  "(string \<Rightarrow> 'w \<Rightarrow> (string + data_answer) \<times> 'w)
   \<Rightarrow> (string \<Rightarrow> string \<Rightarrow> string \<Rightarrow> (string \<times> string) list \<Rightarrow> 'w \<Rightarrow> (string + data_answer) \<times> 'w)
   \<Rightarrow> app_config \<Rightarrow> string \<Rightarrow> (string \<times> string) list \<Rightarrow> 'w \<Rightarrow> (app_error + json) \<times> 'w" where
  "authenticated_get post get cfg path query w =
     (case normalize_data_path path of Inl e \<Rightarrow> (Inl e, w)
      | Inr p \<Rightarrow>
     (case txline_guest_jwt cfg of None \<Rightarrow> (Inl (ConfigError ''TXLINE_GUEST_JWT missing''), w)
      | Some jwt \<Rightarrow>
     (case txline_api_token cfg of None \<Rightarrow> (Inl (ConfigError ''TXLINE_API_TOKEN missing''), w)
      | Some token \<Rightarrow>
     (let url = rev (dropWhile ((=) (CHR ''/'')) (rev (txline_api_origin cfg))) @ ''/'' @ p in
      case get url jwt token query w of
        (Inl e, w1) \<Rightarrow> (Inl (HttpError e), w1)
      | (Inr a, w1) \<Rightarrow>
          if da_status a \<noteq> 401 then (answer_json a, w1)
          else case refresh_guest_jwt post (txline_api_origin cfg) w1 of
            (Inl e, w2) \<Rightarrow> (Inl e, w2)
          | (Inr jwt', w2) \<Rightarrow>
              (case get url jwt' token query w2 of
                 (Inl e, w3) \<Rightarrow> (Inl (HttpError e), w3)
               | (Inr b, w3) \<Rightarrow> (answer_json b, w3))))))"

section \<open>ingest.rs: fields of an event\<close>

definition extract_string :: "json \<Rightarrow> string list \<Rightarrow> string option" where
  "extract_string v keys =
     find_map (\<lambda>k. opt_filter (\<lambda>s. s \<noteq> []) (map_option trim (Option.bind (jget v k) as_str))) keys"

definition extract_u64 :: "json \<Rightarrow> string list \<Rightarrow> u64 option" where
  "extract_u64 v keys =
     find_map (\<lambda>k. Option.bind (jget v k) (\<lambda>i. opt_or (as_u64 i) (Option.bind (as_str i) parse_u64))) keys"

definition extract_i64 :: "json \<Rightarrow> string list \<Rightarrow> i64 option" where
  "extract_i64 v keys =
     find_map (\<lambda>k. Option.bind (jget v k) (\<lambda>i. opt_or (as_i64 i) (Option.bind (as_str i) parse_i64))) keys"

definition extract_f64 :: "json \<Rightarrow> string list \<Rightarrow> f64 option" where
  "extract_f64 v keys =
     find_map (\<lambda>k. Option.bind (jget v k) (\<lambda>i. opt_or (as_f64 i) (Option.bind (as_str i) parse_f64))) keys"

definition bool_word :: "string \<Rightarrow> bool option" where
  "bool_word s = (let t = to_ascii_lowercase s in
     if t \<in> set [''true'', ''1'', ''yes''] then Some True
     else if t \<in> set [''false'', ''0'', ''no''] then Some False else None)"

definition extract_bool :: "json \<Rightarrow> string list \<Rightarrow> bool option" where
  "extract_bool v keys =
     find_map (\<lambda>k. Option.bind (jget v k) (\<lambda>i. opt_or (as_bool i) (Option.bind (as_str i) bool_word))) keys"

definition ts_keys :: "string list" where "ts_keys = [''Ts'', ''ts'', ''Timestamp'', ''timestamp'']"

definition parse_quote :: "string \<Rightarrow> u64 \<Rightarrow> json \<Rightarrow> odds_quote option" where
  "parse_quote now fixture item =
     (case extract_f64 item [''decimal'', ''price'', ''odds''] of None \<Rightarrow> None
      | Some d \<Rightarrow>
          if fle d (lit 1) then None else Some
          \<lparr>oq_fixture_id = unwrap_or fixture (extract_u64 item [''FixtureId'', ''fixtureId'', ''fixture_id'']),
           oq_outcome = unwrap_or ''unknown'' (extract_string item
             [''Outcome'', ''Selection'', ''Name'', ''Side'', ''outcome'', ''selection'', ''name'', ''side'']),
           oq_decimal = d, oq_implied_probability = fdiv (lit 1) d,
           oq_source = extract_string item [''Source'', ''Book'', ''Bookmaker'', ''source'', ''book'', ''bookmaker''],
           oq_ts = unwrap_or now (extract_string item ts_keys)\<rparr>)"

definition parse_odds :: "string \<Rightarrow> json \<Rightarrow> u64 \<Rightarrow> odds_quote list option" where
  "parse_odds now raw fixture =
     Option.bind (opt_or (as_array raw) (opt_or (Option.bind (jget raw ''odds'') as_array)
        (opt_or (Option.bind (jget raw ''quotes'') as_array) (Option.bind (jget raw ''markets'') as_array))))
     (\<lambda>values. let quotes = List.map_filter (parse_quote now fixture) values
               in if quotes = [] then None else Some quotes)"

definition parse_score_object :: "json \<Rightarrow> score option" where
  "parse_score_object v =
     Option.bind (extract_i64 v [''Home'', ''HomeScore'', ''home'', ''homeScore'', ''home_score'', ''homeGoals''])
     (\<lambda>h. map_option (\<lambda>a. \<lparr>sc_home = h, sc_away = a\<rparr>)
        (extract_i64 v [''Away'', ''AwayScore'', ''away'', ''awayScore'', ''away_score'', ''awayGoals'']))"

definition parse_score :: "json \<Rightarrow> score option" where
  "parse_score raw = opt_or (Option.bind (jget raw ''score'') parse_score_object) (parse_score_object raw)"

definition feed_stat_keys :: "string \<Rightarrow> json \<Rightarrow> string option \<Rightarrow> string list" where
  "feed_stat_keys stream raw action =
     (let listed = (case Option.bind (opt_or (jget raw ''StatKeys'') (jget raw ''statKeys'')) as_array of
            None \<Rightarrow> [] | Some ks \<Rightarrow> filter (\<lambda>k. k \<noteq> []) (map trim (List.map_filter as_str ks))) in
      if listed \<noteq> [] then listed
      else if stream = ''odds'' then [''odds.stream'']
      else case map_option to_ascii_lowercase action of
        Some a \<Rightarrow> if contains_sub a ''goal'' then [''score.home'', ''score.away'']
                  else if contains_sub a ''card'' then [''discipline.cards''] else [''scores.stream'']
      | None \<Rightarrow> [''scores.stream''])"

definition feed_event_kind :: "string \<Rightarrow> string \<Rightarrow> json \<Rightarrow> event_kind" where
  "feed_event_kind stream title raw =
     (let needle = to_ascii_lowercase title @ '' '' @ to_ascii_lowercase (unwrap_or [] (extract_string raw
            [''Action'', ''action'', ''Kind'', ''kind'', ''EventType'', ''eventType'', ''event_type'', ''Status'', ''status''])) in
      if contains_sub needle ''goal'' then Goal
      else if contains_sub needle ''red_card'' \<or> contains_sub needle ''red card'' then RedCard
      else if contains_sub needle ''final'' then FinalWhistle
      else if stream = ''odds'' then OddsUpdate else ScoreUpdate)"


section \<open>ingest.rs: blocks\<close>

definition strip_cr :: "string \<Rightarrow> string" where
  "strip_cr l = (if l \<noteq> [] \<and> last l = CHR 0x0D then butlast l else l)"

definition str_lines :: "string \<Rightarrow> string list" where
  \<comment> \<open>\<open>str::lines\<close>: pieces ended by a newline, the newline and one carriage return before it dropped\<close>
  "str_lines s =
     (let ps = split_on (CHR 0x0A) s in
      map strip_cr (butlast ps) @ (if last ps = [] then [] else [last ps]))"

record sse_fields =
  sf_data :: "string list"
  sf_event :: "string option"
  sf_id :: "string option"

definition sse_line :: "string \<Rightarrow> sse_fields \<Rightarrow> sse_fields" where
  "sse_line l f =
     (let line = trim_start l in
      case strip_prefix ''data:'' line of
        Some d \<Rightarrow> f\<lparr>sf_data := sf_data f @ [trim_start d]\<rparr>
      | None \<Rightarrow>
          (case strip_prefix ''event:'' line of
             Some e \<Rightarrow> f\<lparr>sf_event := Some (trim e)\<rparr>
           | None \<Rightarrow>
               (case strip_prefix ''id:'' line of
                  Some i \<Rightarrow> f\<lparr>sf_id := Some (trim i)\<rparr>
                | None \<Rightarrow> f)))"

definition sse_fields_of :: "string \<Rightarrow> sse_fields" where
  "sse_fields_of block = fold sse_line (str_lines block) \<lparr>sf_data = [], sf_event = None, sf_id = None\<rparr>"

definition feed_event ::
  "string \<Rightarrow> string \<Rightarrow> string \<Rightarrow> json \<Rightarrow> sse_fields \<Rightarrow> txline_event" where
  \<comment> \<open>fresh identifier, clock, stream, parsed payload, fields of the block\<close>
  "feed_event uuid now stream raw f =
     (let fid = unwrap_or 0 (extract_u64 raw [''FixtureId'', ''fixtureId'', ''fixture_id'', ''MatchId'',
            ''fixture'', ''matchId'', ''gameId'', ''Id'', ''id'']);
          title = unwrap_or (stream @ '' update'') (opt_or (extract_string raw
            [''Title'', ''Headline'', ''Event'', ''Type'', ''Action'', ''title'', ''headline'', ''event'', ''type'', ''action''])
            (sf_event f));
          action = extract_string raw [''Action'', ''action'', ''Type'', ''type'']
      in \<lparr>ev_id = unwrap_or (unwrap_or (stream @ ''-'' @ uuid) (extract_string raw [''eventId'', ''event_id'', ''uuid''])) (sf_id f),
          ev_kind = feed_event_kind stream title raw, ev_fixture_id = fid,
          ev_seq = extract_u64 raw [''Seq'', ''seq'', ''Sequence'', ''sequence''],
          ev_txline_ts = extract_string raw ts_keys, ev_action = action,
          ev_confirmed = extract_bool raw [''Confirmed'', ''confirmed''],
          ev_participant = extract_string raw [''Participant'', ''participant'', ''Team'', ''team'', ''Player'', ''player''],
          ev_period = extract_string raw [''Period'', ''period'', ''Phase'', ''phase''],
          ev_stat_keys = feed_stat_keys stream raw action,
          ev_schema_family = Some (if stream = ''scores'' then ''scores'' else ''odds''),
          ev_title = title,
          ev_body = unwrap_or ''Live TxLINE SSE event received by Rust'' (extract_string raw
            [''Body'', ''Message'', ''Description'', ''Summary'', ''body'', ''message'', ''description'', ''summary'']),
          ev_ts = now, ev_raw = Some raw,
          ev_odds = (if stream = ''odds'' then parse_odds now raw fid else None),
          ev_score = (if stream = ''scores'' then parse_score raw else None), ev_proof = None\<rparr>)"

definition parse_sse_block ::
  "(string \<Rightarrow> json option) \<Rightarrow> string \<Rightarrow> string \<Rightarrow> string \<Rightarrow> string \<Rightarrow> txline_event option" where
  "parse_sse_block parse uuid now stream block =
     (let f = sse_fields_of block; payload = join_with [CHR 0x0A] (sf_data f) in
      if trim payload = [] \<or> trim payload = ''[DONE]'' then None
      else map_option (\<lambda>raw. feed_event uuid now stream raw f) (parse payload))"

definition sse_block_id :: "string \<Rightarrow> string option" where
  "sse_block_id block =
     opt_filter (\<lambda>i. i \<noteq> []) (map_option trim
       (find_map (\<lambda>l. strip_prefix ''id:'' (trim_start l)) (str_lines block)))"

section \<open>ingest.rs: framing\<close>

definition lf_sep :: string where "lf_sep = [CHR 0x0A, CHR 0x0A]"
definition crlf_sep :: string where "crlf_sep = [CHR 0x0D, CHR 0x0A, CHR 0x0D, CHR 0x0A]"

definition find_sse_separator :: "string \<Rightarrow> (nat \<times> nat) option" where
  "find_sse_separator b =
     (case (find_sub lf_sep b, find_sub crlf_sep b) of
        (Some i, Some j) \<Rightarrow> Some (if i < j then (i, 2) else (j, 4))
      | (Some i, None) \<Rightarrow> Some (i, 2)
      | (None, Some j) \<Rightarrow> Some (j, 4)
      | (None, None) \<Rightarrow> None)"

lemma find_sse_separator_bound:
  "find_sse_separator b = Some (i, d) \<Longrightarrow> i + d \<le> length b \<and> 2 \<le> d"
  by (auto simp: find_sse_separator_def lf_sep_def crlf_sep_def split: option.splits if_splits
      dest: find_sub_Some)

text \<open>The inner loop: every complete block of the buffer, and what is left.\<close>

function drain :: "string \<Rightarrow> string list \<times> string" where
  "drain b = (case find_sse_separator b of None \<Rightarrow> ([], b)
     | Some (i, d) \<Rightarrow> (case drain (drop (i + d) b) of (bs, r) \<Rightarrow> (take i b # bs, r)))"
  by pat_completeness auto
termination
proof (relation "measure length", goal_cases)
  case (2 b p i d)
  then show ?case using find_sse_separator_bound [of b i d] by auto
qed simp

declare drain.simps [simp del]

section \<open>UTF-8 decoding\<close>

text \<open>
  \<open>String::from_utf8_lossy\<close>: well-formed characters are kept, every maximal ill-formed piece
  becomes one replacement character. \<open>seq_len\<close> is the length of the well-formed character at
  the head, \<open>bad_len\<close> the length of the ill-formed piece.
\<close>

definition byte :: "char \<Rightarrow> nat" where "byte c = of_char c"

definition second_ok :: "nat \<Rightarrow> nat \<Rightarrow> bool" where
  "second_ok a b \<longleftrightarrow>
     (if a = 0xE0 then 0xA0 \<le> b \<and> b \<le> 0xBF
      else if a = 0xED then 0x80 \<le> b \<and> b \<le> 0x9F
      else if a = 0xF0 then 0x90 \<le> b \<and> b \<le> 0xBF
      else if a = 0xF4 then 0x80 \<le> b \<and> b \<le> 0x8F
      else 0x80 \<le> b \<and> b \<le> 0xBF)"

definition need :: "nat \<Rightarrow> nat" where
  \<comment> \<open>characters a lead byte announces, 0 for a byte that cannot lead\<close>
  "need a = (if a < 0x80 then 1 else if 0xC2 \<le> a \<and> a \<le> 0xDF then 2
     else if 0xE0 \<le> a \<and> a \<le> 0xEF then 3 else if 0xF0 \<le> a \<and> a \<le> 0xF4 then 4 else 0)"

fun good_run :: "nat \<Rightarrow> nat \<Rightarrow> string \<Rightarrow> nat" where
  \<comment> \<open>how many of the announced continuation bytes are there; first argument: those still due, second: the lead byte, 0 after the second byte\<close>
  "good_run 0 a s = 0"
| "good_run (Suc n) a [] = 0"
| "good_run (Suc n) a (c # s) =
     (if (if a = 0 then 0x80 \<le> byte c \<and> byte c \<le> 0xBF else second_ok a (byte c))
      then Suc (good_run n 0 s) else 0)"

definition char_run :: "char \<Rightarrow> string \<Rightarrow> nat" where
  "char_run c s = good_run (need (byte c) - 1) (byte c) s"

definition well_formed :: "char \<Rightarrow> string \<Rightarrow> bool" where
  "well_formed c s \<longleftrightarrow> need (byte c) \<noteq> 0 \<and> char_run c s = need (byte c) - 1"

lemma good_run_le: "good_run n a s \<le> n"
  by (induction n a s rule: good_run.induct) auto

definition replacement :: string where "replacement = [CHR 0xEF, CHR 0xBF, CHR 0xBD]"

function from_utf8_lossy :: "string \<Rightarrow> string" where
  "from_utf8_lossy [] = []"
| "from_utf8_lossy (c # s) =
     (if well_formed c s then c # take (char_run c s) s @ from_utf8_lossy (drop (char_run c s) s)
      else replacement @ from_utf8_lossy (drop (char_run c s) s))"
  by pat_completeness auto
termination by (relation "measure length") auto

section \<open>ingest.rs: a connection\<close>

datatype feed_effect =
    StatusEffect string string string
  | ReplayEffect string txline_event
  | EventEffect txline_event

record feed_state =
  fd_last_id :: "string option"
  fd_buffer :: string
  fd_effects :: "feed_effect list"

text \<open>Replay files are appended best-effort: one effect per file the event goes to.\<close>

definition append_replay :: "txline_event \<Rightarrow> feed_effect list" where
  "append_replay ev = ReplayEffect ''default.jsonl'' ev #
     (if 0 < ev_fixture_id ev then [ReplayEffect (show_u64 (ev_fixture_id ev) @ ''.jsonl'') ev] else [])"

definition handle_block ::
  "(string \<Rightarrow> txline_event option) \<Rightarrow> string \<Rightarrow> feed_state \<Rightarrow> feed_state" where
  "handle_block parse_block block st =
     (let st1 = (case sse_block_id block of Some i \<Rightarrow> st\<lparr>fd_last_id := Some i\<rparr> | None \<Rightarrow> st) in
      case parse_block block of None \<Rightarrow> st1
      | Some ev \<Rightarrow> st1\<lparr>fd_effects := fd_effects st1 @ append_replay ev @ [EventEffect ev]\<rparr>)"

definition feed_chunk :: "(string \<Rightarrow> txline_event option) \<Rightarrow> string \<Rightarrow> feed_state \<Rightarrow> feed_state" where
  "feed_chunk parse_block chunk st =
     (case drain (fd_buffer st @ from_utf8_lossy chunk) of
        (blocks, rest) \<Rightarrow> (fold (handle_block parse_block) blocks st)\<lparr>fd_buffer := rest\<rparr>)"

fun feed_chunks ::
  "(string \<Rightarrow> txline_event option) \<Rightarrow> string option list \<Rightarrow> feed_state \<Rightarrow> (string + unit) \<times> feed_state" where
  \<comment> \<open>\<open>None\<close>: the transport failed in the middle of the body\<close>
  "feed_chunks parse_block [] st = (Inr (), st)"
| "feed_chunks parse_block (None # cs) st = (Inl ''TxLINE stream chunk failed'', st)"
| "feed_chunks parse_block (Some c # cs) st = feed_chunks parse_block cs (feed_chunk parse_block c st)"

record sse_request =
  sq_url :: string
  sq_jwt :: string
  sq_token :: string
  sq_last_id :: "string option"

record sse_answer =
  sa_status :: nat
  sa_chunks :: "string option list"

definition emit_status :: "string \<Rightarrow> string \<Rightarrow> string \<Rightarrow> feed_state \<Rightarrow> feed_state" where
  "emit_status source state detail st = st\<lparr>fd_effects := fd_effects st @ [StatusEffect source state detail]\<rparr>"

definition stream_url :: "string \<Rightarrow> string \<Rightarrow> string option \<Rightarrow> string" where
  "stream_url origin stream fixture =
     (let base = origin @ ''/api/'' @ stream @ ''/stream'' in
      case opt_filter (\<lambda>f. trim f \<noteq> []) fixture of None \<Rightarrow> base | Some f \<Rightarrow> base @ ''?fixtureId='' @ f)"

text \<open>
  One connection. \<open>send\<close> sends a request and gives its answer, \<open>renew\<close> is
  \<open>refresh_guest_jwt\<close>; both thread the world. \<open>show_status\<close> prints a status code with its reason.
\<close>

definition open_stream ::
  "(nat \<Rightarrow> string) \<Rightarrow> (sse_request \<Rightarrow> 'w \<Rightarrow> (string + sse_answer) \<times> 'w) \<Rightarrow> ('w \<Rightarrow> (app_error + string) \<times> 'w)
     \<Rightarrow> sse_request \<Rightarrow> string \<Rightarrow> feed_state \<Rightarrow> 'w \<Rightarrow> ((string + sse_answer) \<times> feed_state) \<times> 'w" where
  "open_stream show_status send renew q stream st w =
     (case send q w of
        (Inl e, w1) \<Rightarrow> ((Inl (''TxLINE '' @ stream @ '' SSE connection failed: '' @ e), st), w1)
      | (Inr a, w1) \<Rightarrow>
          if sa_status a = 401 then
            (let st1 = emit_status (''live:'' @ stream) ''refreshing_jwt''
                   (''TxLINE '' @ stream @ '' SSE returned 401; refreshing guest JWT'') st in
             case renew w1 of
               (Inl e, w2) \<Rightarrow> ((Inl (''TxLINE JWT refresh failed: '' @ show_app_error e), st1), w2)
             | (Inr jwt, w2) \<Rightarrow>
                 (case send (q\<lparr>sq_jwt := jwt\<rparr>) w2 of
                    (Inl e, w3) \<Rightarrow> ((Inl (''TxLINE '' @ stream @ '' SSE retry failed: '' @ e), st1), w3)
                  | (Inr b, w3) \<Rightarrow>
                      ((if 200 \<le> sa_status b \<and> sa_status b < 300 then Inr b
                        else Inl (''TxLINE '' @ stream @ '' SSE HTTP '' @ show_status (sa_status b) @ '' after JWT refresh''), st1), w3)))
          else ((if 200 \<le> sa_status a \<and> sa_status a < 300 then Inr a
                 else Inl (''TxLINE '' @ stream @ '' SSE HTTP '' @ show_status (sa_status a)), st), w1))"

definition connect_sse_once ::
  "(nat \<Rightarrow> string) \<Rightarrow> (sse_request \<Rightarrow> 'w \<Rightarrow> (string + sse_answer) \<times> 'w) \<Rightarrow> ('w \<Rightarrow> (app_error + string) \<times> 'w)
     \<Rightarrow> (string \<Rightarrow> txline_event option) \<Rightarrow> string \<Rightarrow> string \<Rightarrow> string \<Rightarrow> string option \<Rightarrow> string
     \<Rightarrow> feed_state \<Rightarrow> 'w \<Rightarrow> ((string + unit) \<times> feed_state) \<times> 'w" where
  "connect_sse_once show_status send renew parse_block origin jwt token fixture stream st w =
     (case open_stream show_status send renew \<lparr>sq_url = stream_url origin stream fixture, sq_jwt = jwt, sq_token = token,
              sq_last_id = fd_last_id st\<rparr> stream st w of
        ((Inl e, st1), w1) \<Rightarrow> ((Inl e, st1), w1)
      | ((Inr a, st1), w1) \<Rightarrow>
          (feed_chunks parse_block (sa_chunks a)
             ((emit_status (''live:'' @ stream) ''connected'' (''TxLINE '' @ stream @ '' SSE connected'') st1)
                \<lparr>fd_buffer := []\<rparr>), w1))"

text \<open>The reconnecting loop never returns; \<open>n\<close> iterations of it, with the sleeps taken.\<close>

definition backoff_secs :: "u64 \<Rightarrow> u64" where
  "backoff_secs attempt = (if attempt < 1 then 1 else if 30 < attempt then 30 else attempt)"

definition saturating_succ :: "u64 \<Rightarrow> u64" where
  "saturating_succ a = (if a = - 1 then - 1 else a + 1)"

fun live_stream_loop ::
  "(feed_state \<Rightarrow> 'w \<Rightarrow> ((string + unit) \<times> feed_state) \<times> 'w) \<Rightarrow> string \<Rightarrow> nat \<Rightarrow> u64
     \<Rightarrow> feed_state \<Rightarrow> 'w \<Rightarrow> u64 list \<times> feed_state \<times> 'w" where
  "live_stream_loop connect stream 0 attempt st w = ([], st, w)"
| "live_stream_loop connect stream (Suc n) attempt st w =
     (let attempt' = saturating_succ attempt;
          source = ''live:'' @ stream;
          st1 = emit_status source ''connecting'' (''connecting to TxLINE '' @ stream @ '' SSE attempt '' @ show_u64 attempt') st in
      case connect st1 w of
        ((r, st2), w1) \<Rightarrow>
          let st3 = emit_status source ''reconnecting'' (case r of
                Inr _ \<Rightarrow> ''TxLINE '' @ stream @ '' stream ended; reconnecting'' | Inl e \<Rightarrow> e) st2 in
          case live_stream_loop connect stream n attempt' st3 w1 of
            (ss, st4, w2) \<Rightarrow> (backoff_secs attempt' # ss, st4, w2))"


text \<open>
  Starting the feed. The two streams share one task, their states are separate: each begins
  without an event identifier and with an empty buffer.
\<close>

datatype live_start = LiveRefused | LiveStreams string string string

definition live_loop :: "app_config \<Rightarrow> feed_state \<Rightarrow> live_start \<times> feed_state" where
  "live_loop cfg st =
     (case txline_guest_jwt cfg of
        None \<Rightarrow> (LiveRefused, emit_status ''live'' ''credentials_required'' ''TXLINE_GUEST_JWT missing; live TxLINE cannot start'' st)
      | Some jwt \<Rightarrow>
     (case txline_api_token cfg of
        None \<Rightarrow> (LiveRefused, emit_status ''live'' ''credentials_required'' ''TXLINE_API_TOKEN missing; live TxLINE cannot start'' st)
      | Some token \<Rightarrow> (LiveStreams (rev (dropWhile ((=) (CHR ''/'')) (rev (txline_api_origin cfg)))) jwt token,
          emit_status ''live'' ''connecting'' ''Rust TxLINE SSE clients starting odds and scores streams'' st)))"

definition spawn_txline :: "string \<Rightarrow> app_config \<Rightarrow> feed_state \<Rightarrow> live_start \<times> feed_state" where
  "spawn_txline mode cfg st =
     (if mode = ''live'' then live_loop cfg st
      else (LiveRefused, emit_status ''live'' ''failed'' ''TxLINE ingest is live-only; alternate non-live modes are disabled'' st))"

definition run_stream ::
  "(nat \<Rightarrow> string) \<Rightarrow> (sse_request \<Rightarrow> 'w \<Rightarrow> (string + sse_answer) \<times> 'w) \<Rightarrow> ('w \<Rightarrow> (app_error + string) \<times> 'w)
     \<Rightarrow> (string \<Rightarrow> txline_event option) \<Rightarrow> live_start \<Rightarrow> string option \<Rightarrow> string \<Rightarrow> nat \<Rightarrow> 'w
     \<Rightarrow> (u64 list \<times> feed_state \<times> 'w) option" where
  \<comment> \<open>\<open>n\<close> connections of one stream\<close>
  "run_stream show_status send renew parse_block start fixture stream n w =
     (case start of LiveRefused \<Rightarrow> None
      | LiveStreams origin jwt token \<Rightarrow>
          Some (live_stream_loop (connect_sse_once show_status send renew parse_block origin jwt token fixture stream)
                  stream n 0 \<lparr>fd_last_id = None, fd_buffer = [], fd_effects = []\<rparr> w))"


section \<open>Framing does not depend on the chunks\<close>

lemma prefix_of_append: "prefix_of p s \<Longrightarrow> prefix_of p (s @ t)"
  by (auto simp: prefix_of_iff)

lemma prefix_of_long: "prefix_of p (s @ t) \<Longrightarrow> length p \<le> length s \<Longrightarrow> prefix_of p s"
  by (auto simp: prefix_of_iff) (metis append_eq_append_conv_if append_eq_conv_conj append_take_drop_id)

lemma find_sub_append_Some: "find_sub p s = Some i \<Longrightarrow> find_sub p (s @ t) = Some i"
proof (induction p s arbitrary: i rule: find_sub.induct)
  case (1 p)
  then show ?case by (cases t) (auto split: if_splits)
next
  case (2 p c s)
  show ?case
  proof (cases "prefix_of p (c # s)")
    case True
    then show ?thesis using 2(2) prefix_of_append [OF True, of t] by simp
  next
    case False
    then obtain j where j: "find_sub p s = Some j" "i = Suc j" using 2(2) by auto
    then have "length p \<le> length (c # s)" using find_sub_Some [OF j(1)] by auto
    then have "\<not> prefix_of p (c # s @ t)" using False prefix_of_long [of p "c # s" t] by auto
    then show ?thesis using 2(1) [OF False j(1)] j(2) by simp
  qed
qed

lemma find_sub_append_less:
  assumes "find_sub p (s @ t) = Some i" and "i + length p \<le> length s"
  shows "find_sub p s = Some i"
proof (cases "find_sub p s")
  case (Some j)
  then show ?thesis using find_sub_append_Some [OF Some, of t] assms(1) by simp
next
  case None
  obtain a t' where "s @ t = a @ p @ t'" "length a = i"
    using find_sub_Some [OF assms(1)] by (metis add_leD1 length_take min.absorb2)
  moreover define u where "u = a @ p"
  ultimately have eq: "s @ t = u @ t'" and len: "length u = i + length p" by simp_all
  have "take (length u) s = take (length u) (s @ t)" using assms(2) len by simp
  then have "take (length u) s = u" using eq by simp
  then have "s = u @ drop (length u) s" by (metis append_take_drop_id)
  then have "s = a @ p @ drop (length u) s" by (simp add: u_def)
  then have "find_sub p s \<noteq> None" using find_sub_append [of p a "drop (length u) s"] by auto
  then show ?thesis using None by simp
qed


lemma find_sub_nth:
  assumes "find_sub p s = Some i" and "j < length p"
  shows "s ! (i + j) = p ! j" and "i + length p \<le> length s"
proof -
  obtain t where t: "s = take i s @ p @ t" "i + length p \<le> length s" using find_sub_Some [OF assms(1)] by blast
  show "i + length p \<le> length s" by (rule t(2))
  have "(take i s @ p @ t) ! (i + j) = (p @ t) ! j" using t(2) nth_append [of "take i s" "p @ t" "i + j"] by simp
  then show "s ! (i + j) = p ! j" using t(1) assms(2) by (metis nth_append)
qed

lemma find_sse_separator_append:
  assumes "find_sse_separator s = Some r"
  shows "find_sse_separator (s @ t) = Some r"
proof (cases "find_sub crlf_sep s")
  case (Some j)
  show ?thesis
  proof (cases "find_sub lf_sep s")
    case si: (Some i)
    then show ?thesis using assms Some find_sub_append_Some [OF Some, of t] find_sub_append_Some [OF si, of t]
      by (simp add: find_sse_separator_def)
  next
    case None
    have "j < i" if i: "find_sub lf_sep (s @ t) = Some i" for i
    proof (rule ccontr)
      assume "\<not> j < i"
      then have "i + length lf_sep \<le> length s"
        using find_sub_nth(2) [OF Some, of 0] by (simp add: lf_sep_def crlf_sep_def)
      then show False using find_sub_append_less [OF i] None by simp
    qed
    then show ?thesis using assms Some None find_sub_append_Some [OF Some, of t]
      by (auto simp: find_sse_separator_def split: option.splits)
  qed
next
  case None
  then obtain i where i: "find_sub lf_sep s = Some i" "r = (i, 2)"
    using assms by (auto simp: find_sse_separator_def split: option.splits)
  have "i < j" if j: "find_sub crlf_sep (s @ t) = Some j" for j
  proof (rule ccontr)
    assume "\<not> i < j"
    have "\<not> j + 4 \<le> length s"
      using find_sub_append_less [OF j] None by (auto simp: crlf_sep_def)
    moreover have "i + 2 \<le> length s" using find_sub_nth(2) [OF i(1), of 0] by (simp add: lf_sep_def)
    ultimately have "j + 2 = i + 1 \<or> j + 2 = i + 2" using \<open>\<not> i < j\<close> by auto
    moreover have "(s @ t) ! (j + 2) = CHR 0x0D" using find_sub_nth(1) [OF j, of 2] by (simp add: crlf_sep_def)
    moreover have "(s @ t) ! j = CHR 0x0D" using find_sub_nth(1) [OF j, of 0] by (simp add: crlf_sep_def)
    ultimately show False
      using find_sub_nth [OF i(1), of 0] find_sub_nth [OF i(1), of 1] \<open>i + 2 \<le> length s\<close>
      by (auto simp: lf_sep_def nth_append split: if_splits)
  qed
  then show ?thesis using i None find_sub_append_Some [OF i(1), of t]
    by (auto simp: find_sse_separator_def split: option.splits)
qed

lemma drain_append:
  "drain s = (bs, r) \<Longrightarrow> drain (s @ t) = (case drain (r @ t) of (cs, q) \<Rightarrow> (bs @ cs, q))"
proof (induction s arbitrary: bs r rule: drain.induct)
  case (1 s)
  show ?case
  proof (cases "find_sse_separator s")
    case None
    then have "bs = []" "r = s" using 1(2) by (simp_all add: drain.simps [of s])
    then show ?thesis by (simp split: prod.splits)
  next
    case (Some p)
    obtain i d where p: "p = (i, d)" by (cases p)
    obtain bs' where d: "drain (drop (i + d) s) = (bs', r)" "bs = take i s # bs'"
      using 1(2) Some p by (auto simp: drain.simps [of s] split: prod.splits)
    have len: "i + d \<le> length s" using find_sse_separator_bound Some p by blast
    have "drain (drop (i + d) s @ t) = (case drain (r @ t) of (cs, q) \<Rightarrow> (bs' @ cs, q))"
      using 1(1) [OF Some, of i d] p d(1) by simp
    then show ?thesis
      using find_sse_separator_append [OF Some, of t] p len d(2)
      by (simp add: drain.simps [of "s @ t"] split: prod.splits)
  qed
qed

lemma drain_rest: "drain s = (bs, r) \<Longrightarrow> find_sse_separator r = None"
proof (induction s arbitrary: bs r rule: drain.induct)
  case (1 s)
  then show ?case
    by (cases "find_sse_separator s") (auto simp: drain.simps [of s] split: prod.splits)
qed

lemma drain_idem: "find_sse_separator r = None \<Longrightarrow> drain r = ([], r)"
  by (simp add: drain.simps [of r])

fun utf8_valid :: "nat \<Rightarrow> string \<Rightarrow> bool" where
  \<comment> \<open>a sequence of well-formed characters; the fuel is the length of the text\<close>
  "utf8_valid n [] = True"
| "utf8_valid 0 (c # s) = False"
| "utf8_valid (Suc n) (c # s) = (well_formed c s \<and> utf8_valid n (drop (char_run c s) s))"

definition is_utf8 :: "string \<Rightarrow> bool" where "is_utf8 s \<longleftrightarrow> utf8_valid (length s) s"

lemma good_run_append:
  "good_run n a s = n \<Longrightarrow> good_run n a (s @ t) = n \<and> n \<le> length s"
  by (induction n a s rule: good_run.induct) (auto split: if_splits)

lemma lossy_append:
  "utf8_valid n s \<Longrightarrow> from_utf8_lossy (s @ t) = s @ from_utf8_lossy t"
proof (induction n s rule: utf8_valid.induct)
  case (3 n c s)
  then have wf: "well_formed c s" and run: "char_run c s = need (byte c) - 1" by (auto simp: well_formed_def)
  then have app: "char_run c (s @ t) = char_run c s" "char_run c s \<le> length s"
    using good_run_append [of "need (byte c) - 1" "byte c" s t] by (auto simp: char_run_def)
  then have "well_formed c (s @ t)" using wf by (simp add: well_formed_def)
  then have "from_utf8_lossy ((c # s) @ t) = c # take (char_run c s) s @ from_utf8_lossy (drop (char_run c s) s @ t)"
    using app by simp
  then show ?case using 3 by simp
qed simp_all

lemma lossy_valid: "is_utf8 s \<Longrightarrow> from_utf8_lossy s = s"
  using lossy_append [of "length s" s "[]"] by (simp add: is_utf8_def)

lemma fold_handle_buffer:
  "fd_buffer (fold (handle_block pb) bs st) = fd_buffer st"
  by (induction bs arbitrary: st) (auto simp: handle_block_def Let_def split: option.splits)

lemma handle_block_buffer:
  "handle_block pb b (st\<lparr>fd_buffer := x\<rparr>) = (handle_block pb b st)\<lparr>fd_buffer := x\<rparr>"
  by (simp add: handle_block_def Let_def split: option.splits)

lemma fold_handle_buffer_update:
  "fold (handle_block pb) bs (st\<lparr>fd_buffer := x\<rparr>) = (fold (handle_block pb) bs st)\<lparr>fd_buffer := x\<rparr>"
  by (induction bs arbitrary: st) (simp_all add: handle_block_buffer)

lemma feed_chunks_drain:
  assumes "list_all is_utf8 cs" and "find_sse_separator (fd_buffer st) = None"
  shows "feed_chunks pb (map Some cs) st = (case drain (fd_buffer st @ concat cs) of
    (bs, r) \<Rightarrow> (Inr (), (fold (handle_block pb) bs st)\<lparr>fd_buffer := r\<rparr>))"
  using assms
proof (induction cs arbitrary: st)
  case Nil
  then show ?case by (simp add: drain_idem)
next
  case (Cons c cs)
  obtain bs r where d: "drain (fd_buffer st @ c) = (bs, r)" by (meson surj_pair)
  let ?st = "(fold (handle_block pb) bs st)\<lparr>fd_buffer := r\<rparr>"
  have "feed_chunk pb c st = ?st" using d Cons.prems lossy_valid by (simp add: feed_chunk_def)
  then have "feed_chunks pb (map Some (c # cs)) st = feed_chunks pb (map Some cs) ?st" by simp
  also have "\<dots> = (case drain (r @ concat cs) of
      (bs', r') \<Rightarrow> (Inr (), (fold (handle_block pb) bs' ?st)\<lparr>fd_buffer := r'\<rparr>))"
    using Cons.IH [of ?st] Cons.prems drain_rest [OF d] by simp
  also have "\<dots> = (case drain (fd_buffer st @ concat (c # cs)) of
      (bs', r') \<Rightarrow> (Inr (), (fold (handle_block pb) bs' st)\<lparr>fd_buffer := r'\<rparr>))"
    using drain_append [OF d, of "concat cs"]
    by (simp add: fold_handle_buffer_update split: prod.splits)
  finally show ?case .
qed


section \<open>Paths and prices\<close>

lemma disallowed_sub: "disallowed_path p = False \<Longrightarrow> \<not> contains_sub p ''..'' \<and> \<not> contains_sub p ''//''"
  by (simp add: disallowed_path_def)

definition path_of :: "string \<Rightarrow> string" where
  "path_of c = (case split_once (CHR ''?'') c of Some (p, _) \<Rightarrow> p | None \<Rightarrow> c)"

lemma contains_sub_drop: "contains_sub (drop n s) p \<Longrightarrow> contains_sub s p"
proof -
  assume "contains_sub (drop n s) p"
  then obtain i where "find_sub p (drop n s) = Some i" by (auto simp: contains_sub_def)
  then obtain t where "drop n s = take i (drop n s) @ p @ t" using find_sub_Some by blast
  then have "s = (take n s @ take i (drop n s)) @ p @ t" by (metis append_assoc append_take_drop_id)
  then show ?thesis using find_sub_append [of p "take n s @ take i (drop n s)" t] by (auto simp: contains_sub_def)
qed

lemma contains_sub_take: "contains_sub (take n s) p \<Longrightarrow> contains_sub s p"
  using find_sub_append_Some [of p "take n s" _ "drop n s"] by (auto simp: contains_sub_def)

lemma trim_char_infix: "\<exists>m n. trim_char c s = take m (drop n s)"
proof -
  have "dropWhile ((=) c) s = drop (length (takeWhile ((=) c) s)) s" by (simp add: dropWhile_eq_drop)
  moreover have "rev (dropWhile ((=) c) (rev u)) = take (length u - length (takeWhile ((=) c) (rev u))) u" for u
    by (simp add: dropWhile_eq_drop rev_drop)
  ultimately show ?thesis by (metis trim_char_def)
qed

lemma trim_char_clean: "\<not> contains_sub s p \<Longrightarrow> \<not> contains_sub (trim_char c s) p"
  using trim_char_infix [of c s] contains_sub_drop contains_sub_take by metis

lemma parse_quote_price:
  "parse_quote now fid item = Some q \<Longrightarrow>
     \<not> fle (oq_decimal q) (lit 1) \<and> oq_implied_probability q = fdiv (lit 1) (oq_decimal q)"
  by (auto simp: parse_quote_def split: option.splits if_splits)

lemma map_filter_mem: "y \<in> set (List.map_filter f xs) \<Longrightarrow> \<exists>x \<in> set xs. f x = Some y"
  by (auto simp: List.map_filter_def)

section \<open>Properties\<close>

text \<open>
  C13: framing is independent of the transport. However the body of an event stream is cut into
  chunks, as long as no chunk ends inside a character, the same blocks are handled in the same
  order: same events, same replay lines, same last event identifier, same unfinished rest.
\<close>

theorem sse_chunking_irrelevant:
  assumes "list_all is_utf8 cs" and "list_all is_utf8 ds" and "concat cs = concat ds"
    and "find_sse_separator (fd_buffer st) = None"
  shows "feed_chunks pb (map Some cs) st = feed_chunks pb (map Some ds) st"
  using feed_chunks_drain [OF assms(1,4)] feed_chunks_drain [OF assms(2,4)] assms(3) by simp

definition empty_feed :: feed_state where
  "empty_feed = \<lparr>fd_last_id = None, fd_buffer = [], fd_effects = []\<rparr>"

theorem sse_chunking_irrelevant_witness:
  "feed_chunks (\<lambda>_. None) (map Some [''id:7'', [CHR 0x0A], [CHR 0x0A]]) empty_feed
   = feed_chunks (\<lambda>_. None) (map Some [''id:7'' @ [CHR 0x0A, CHR 0x0A]]) empty_feed"
proof (rule sse_chunking_irrelevant)
  show "list_all is_utf8 [''id:7'', [CHR 0x0A], [CHR 0x0A]]" by code_simp
  show "list_all is_utf8 [''id:7'' @ [CHR 0x0A, CHR 0x0A]]" by code_simp
  show "find_sse_separator (fd_buffer empty_feed) = None" by code_simp
qed simp

text \<open>
  A character that two chunks share is lost. Each chunk is decoded on its own, so a two-byte
  character of the stream arrives as two replacement characters when the transport cuts it in
  two, and intact when it does not.
\<close>

theorem split_character_lost:
  "fd_buffer (snd (feed_chunks pb [Some [CHR 0xC3, CHR 0xA9]] empty_feed)) = [CHR 0xC3, CHR 0xA9]
   \<and> fd_buffer (snd (feed_chunks pb [Some [CHR 0xC3], Some [CHR 0xA9]] empty_feed)) = replacement @ replacement"
proof -
  have l: "from_utf8_lossy [CHR 0xC3, CHR 0xA9] = [CHR 0xC3, CHR 0xA9]"
    "from_utf8_lossy [CHR 0xC3] = replacement" "from_utf8_lossy [CHR 0xA9] = replacement"
    by (simp_all add: well_formed_def char_run_def need_def byte_def second_ok_def)
  have d: "drain [CHR 0xC3, CHR 0xA9] = ([], [CHR 0xC3, CHR 0xA9])" "drain replacement = ([], replacement)"
    "drain (replacement @ replacement) = ([], replacement @ replacement)"
    by code_simp+
  show ?thesis by (simp add: feed_chunk_def empty_feed_def l d del: from_utf8_lossy.simps)
qed

text \<open>
  Every price the feed lets through has an implied probability that is its reciprocal, and
  is above one or not a number: the guard \<open>decimal <= 1.0\<close> does not stop a NaN, which a quote
  may carry as text.
\<close>

theorem feed_odds_priced:
  "(\<forall>qs. parse_odds now raw fid = Some qs \<longrightarrow> qs \<noteq> [] \<and> (\<forall>q \<in> set qs.
       \<not> fle (oq_decimal q) (lit 1) \<and> oq_implied_probability q = fdiv (lit 1) (oq_decimal q)))
   \<and> (\<exists>q. parse_odds now (JArr [JObj [(''price'', JStr ''NaN'')]]) fid = Some [q] \<and> is_nan (oq_decimal q))"
proof (intro conjI allI impI ballI)
  fix qs assume "parse_odds now raw fid = Some qs"
  then obtain vs where "qs = List.map_filter (parse_quote now fid) vs" "qs \<noteq> []"
    by (auto simp: parse_odds_def bind_eq_Some_conv Let_def split: if_splits)
  then show "qs \<noteq> []" by simp
  fix q assume "q \<in> set qs"
  then obtain item where "parse_quote now fid item = Some q"
    using map_filter_mem \<open>qs = List.map_filter (parse_quote now fid) vs\<close> by metis
  from parse_quote_price [OF this] show "\<not> fle (oq_decimal q) (lit 1)" "oq_implied_probability q = fdiv (lit 1) (oq_decimal q)"
    by simp_all
next
  have nan: "parse_f64 ''NaN'' = Some NaN" by code_simp
  then have "extract_f64 (JObj [(''price'', JStr ''NaN'')]) [''decimal'', ''price'', ''odds''] = Some NaN"
    by (simp add: extract_f64_def)
  then show "\<exists>q. parse_odds now (JArr [JObj [(''price'', JStr ''NaN'')]]) fid = Some [q] \<and> is_nan (oq_decimal q)"
    by (simp add: parse_odds_def parse_quote_def List.map_filter_simps fle_def)
qed

theorem feed_odds_priced_witness:
  "\<exists>q. parse_odds ''now'' (JArr [JObj [(''price'', JStr ''NaN'')]]) 1 = Some [q] \<and> \<not> fle (oq_decimal q) (lit 1)"
  using feed_odds_priced [of "''now''" "JArr [JObj [(''price'', JStr ''NaN'')]]" 1] by auto

text \<open>
  A data path that is accepted stays inside the documented API. Its path is on the
  allow-list, has no parent reference and no empty segment, and its query, if any, carries no
  fragment and no other origin.
\<close>

theorem normalized_path_allowed:
  assumes "normalize_data_path path = Inr c"
  shows "\<exists>p. is_allowed_data_path p \<and> \<not> contains_sub p ''..'' \<and>
    (c = p \<or> (\<exists>q. c = p @ ''?'' @ q \<and> \<not> contains_sub q ''#'' \<and> \<not> contains_sub q ''://''))"
proof -
  define pp where "pp = (case split_once (CHR ''?'') (trim path) of Some (p, q) \<Rightarrow> p | None \<Rightarrow> trim path)"
  define tr where "tr = trim_char (CHR ''/'') pp"
  define clean where "clean = (if prefix_of ''api/'' tr then tr else ''api/'' @ tr)"
  have ok: "\<not> disallowed_path pp" "is_allowed_data_path clean"
    and c: "c = clean \<or> (\<exists>q. c = clean @ ''?'' @ q \<and> \<not> contains_sub q ''#'' \<and> \<not> contains_sub q ''://'')"
    using assms unfolding normalize_data_path_def pp_def clean_def tr_def
    by (auto simp: Let_def split: option.splits prod.splits if_splits)
  have "\<not> contains_sub tr ''..''" using disallowed_sub ok(1) trim_char_clean by (auto simp: tr_def)
  moreover have "contains_sub (''api/'' @ u) ''..'' \<longleftrightarrow> contains_sub u ''..''" for u
    by (simp add: contains_sub_def)
  ultimately have "\<not> contains_sub clean ''..''" by (simp add: clean_def)
  then show ?thesis using ok(2) c by blast
qed

theorem normalized_path_allowed_witness:
  "\<exists>p. is_allowed_data_path p \<and> \<not> contains_sub p ''..'' \<and>
    (''api/scores/snapshot/17?asOf=1'' = p \<or> (\<exists>q. ''api/scores/snapshot/17?asOf=1'' = p @ ''?'' @ q
       \<and> \<not> contains_sub q ''#'' \<and> \<not> contains_sub q ''://''))"
proof (rule normalized_path_allowed)
  have w: "word_char (CHR ''/'')" "word_char (CHR ''a'')" "word_char (CHR ''1'')" by code_simp+
  have "trim ''/scores/snapshot/17?asOf=1'' = ''/scores/snapshot/17?asOf=1''" "trim ''asOf=1'' = ''asOf=1''"
    using trim_word_ends [OF w(1,3), of "''scores/snapshot/17?asOf=''"] trim_word_ends [OF w(2,3), of "''sOf=''"] by simp_all
  moreover have "disallowed_path ''/scores/snapshot/17'' = False" "is_allowed_data_path ''api/scores/snapshot/17''" by code_simp+
  ultimately show "normalize_data_path ''/scores/snapshot/17?asOf=1'' = Inr ''api/scores/snapshot/17?asOf=1''"
    by (simp add: normalize_data_path_def trim_char_def contains_sub_def)
qed

end
