(* ===== verification/Arena.thy ===== *)
theory Arena
  imports Coral_Agents Txline Config
begin

text \<open>
  The agent-versus-agent arena: the domain types and leaderboard of \<open>agent-core/src/arena.rs\<close>,
  the two polling agents \<open>match-intelligence\<close> (FOLLOW) and \<open>contrarian\<close> (FADE), which share one
  step up to the direction they take, and the settlement authority \<open>arena-coordinator\<close>. Network,
  files, clock and identifiers are the world \<open>'w\<close>; parsing is an argument.
\<close>

section \<open>arena.rs\<close>

datatype strategy = FollowSharp | FadeSharp

datatype direction = With | Against

record position_outcome =
  oc_selection_won :: bool
  oc_final_score :: string
  oc_pnl_points :: f64
  oc_settled_at :: string
  oc_settlement_tx :: "string option"

record arena_position =
  ap_position_id :: string
  ap_agent_id :: string
  ap_strategy :: strategy
  ap_fixture_id :: u64
  ap_market_key :: string
  ap_selection :: string
  ap_odds_at_entry :: f64
  ap_odds_move_pct :: f64
  ap_direction :: direction
  ap_confidence :: f64
  ap_recorded_at :: string
  ap_tx_signature :: "string option"
  ap_outcome :: "position_outcome option"

definition debug_strategy :: "strategy \<Rightarrow> string" where
  "debug_strategy s = (case s of FollowSharp \<Rightarrow> ''FollowSharp'' | FadeSharp \<Rightarrow> ''FadeSharp'')"

definition debug_direction :: "direction \<Rightarrow> string" where
  "debug_direction d = (case d of With \<Rightarrow> ''With'' | Against \<Rightarrow> ''Against'')"

record leaderboard_entry =
  lb_agent_id :: string
  lb_strategy :: strategy
  lb_sessions :: u32
  lb_taken :: u32
  lb_won :: u32
  lb_total_pnl :: f64
  lb_win_rate :: f64
  lb_avg_confidence :: f64

definition is_won :: "arena_position \<Rightarrow> bool" where
  "is_won p = (case ap_outcome p of None \<Rightarrow> False | Some oc \<Rightarrow> oc_selection_won oc)"

definition from_positions :: "string \<Rightarrow> strategy \<Rightarrow> arena_position list \<Rightarrow> leaderboard_entry" where
  "from_positions agent strat positions =
     (let settled = filter (\<lambda>p. ap_agent_id p = agent \<and> ap_outcome p \<noteq> None) positions;
          taken = (of_nat (length settled) :: u32);
          won = (of_nat (length (filter is_won settled)) :: u32);
          confidences = map ap_confidence (filter is_won settled)
      in \<lparr>lb_agent_id = agent, lb_strategy = strat, lb_sessions = 0, lb_taken = taken, lb_won = won,
          lb_total_pnl = fsum (List.map_filter (\<lambda>p. map_option oc_pnl_points (ap_outcome p)) settled),
          lb_win_rate = (if 0 < taken then fdiv (of_int_f64 (uint won)) (of_int_f64 (uint taken)) else lit 0),
          lb_avg_confidence = (if confidences = [] then lit 0
             else fdiv (fsum confidences) (of_int_f64 (int (length confidences))))\<rparr>)"

section \<open>The feed and the world\<close>

record fixture_summary =
  fx_id :: u64
  fx_status :: string

record feed_selection =
  fs_name :: string
  fs_odds :: f64

record feed_market =
  fm_key :: string
  fm_selections :: "feed_selection list"

record fixture_outcome =
  fo_winner :: string
  fo_home_score :: u32
  fo_away_score :: u32

record fixture_result =
  fr_fixture_id :: u64
  fr_status :: string
  fr_result :: "fixture_outcome option"

record position_log_entry =
  pe_idempotency_key :: string
  pe_position :: arena_position
  pe_strategy :: string

record settlement_record =
  se_idempotency_key :: string
  se_fixture_id :: u64
  se_agent_id :: string
  se_strategy :: string
  se_market_key :: string
  se_selection :: string
  se_direction :: string
  se_odds_at_entry :: f64
  se_result :: string
  se_pnl_units :: f64
  se_settled_at :: string

datatype log_line = PositionLine position_log_entry | SettlementLine settlement_record

record 'w agent_io =
  ag_get :: "string \<Rightarrow> 'w \<Rightarrow> (string + http_response) \<times> 'w"
  ag_show_status :: "nat \<Rightarrow> string"
  ag_append :: "string \<Rightarrow> log_line \<Rightarrow> 'w \<Rightarrow> (agent_error + unit) \<times> 'w"
  ag_read :: "string \<Rightarrow> 'w \<Rightarrow> string option \<times> 'w"
  ag_uuid :: "'w \<Rightarrow> string \<times> 'w"
  ag_secs :: "'w \<Rightarrow> u64 \<times> 'w"
  ag_sleep :: "u64 \<Rightarrow> 'w \<Rightarrow> 'w"
  ag_parse_fixtures :: "string \<Rightarrow> string + fixture_summary list"
  ag_parse_odds :: "string \<Rightarrow> string + feed_market list"
  ag_parse_result :: "string \<Rightarrow> fixture_result option"
  ag_parse_entry :: "string \<Rightarrow> arena_position option"
  ag_lower :: "string \<Rightarrow> string"

definition utc_now :: "'w agent_io \<Rightarrow> 'w \<Rightarrow> string \<times> 'w" where
  "utc_now io w = (case ag_secs io w of (s, w1) \<Rightarrow> (show_u64 s @ ''Z'', w1))"

text \<open>A GET whose body is parsed: transport error, status, then body and JSON.\<close>

definition fetch_json ::
  "'w agent_io \<Rightarrow> string \<Rightarrow> string \<Rightarrow> (string \<Rightarrow> string + 'a) \<Rightarrow> 'w \<Rightarrow> (agent_error + 'a) \<times> 'w" where
  "fetch_json io tool url parse w =
     (case ag_get io url w of
        (Inl e, w1) \<Rightarrow> (Inl (ToolCallFailed tool e), w1)
      | (Inr r, w1) \<Rightarrow>
          (if \<not> is_success r then Inl (ToolCallFailed tool (''HTTP '' @ ag_show_status io (hs_status r)))
           else case hs_text r of Inl e \<Rightarrow> Inl (ParseError e)
           | Inr body \<Rightarrow> (case parse body of Inl e \<Rightarrow> Inl (ParseError e) | Inr v \<Rightarrow> Inr v), w1))"

section \<open>match-intelligence and contrarian\<close>

record poll_config =
  pc_api_base :: string
  pc_api_key :: string
  pc_poll_secs :: u64
  pc_confidence_gate :: f64
  pc_odds_threshold :: f64
  pc_log_path :: string
  pc_max_steps :: u64

definition env_or :: "env \<Rightarrow> string \<Rightarrow> string \<Rightarrow> string" where
  "env_or env k fallback = unwrap_or fallback (env k)"

definition env_parse :: "env \<Rightarrow> (string \<Rightarrow> 'a option) \<Rightarrow> string \<Rightarrow> 'a \<Rightarrow> 'a" where
  "env_parse env parse k fallback = unwrap_or fallback (Option.bind (env k) parse)"

definition poll_config_from_env :: "strategy \<Rightarrow> env \<Rightarrow> string + poll_config" where
  "poll_config_from_env strat env =
     (case env ''TXLINE_API_KEY'' of None \<Rightarrow> Inl ''TXLINE_API_KEY''
      | Some k \<Rightarrow> Inr
         \<lparr>pc_api_base = env_or env ''TXLINE_API_BASE'' ''https://txline.txodds.com/api/v1'', pc_api_key = k,
          pc_poll_secs = env_parse env parse_u64 ''POLL_INTERVAL_SECS'' 60,
          pc_confidence_gate = env_parse env parse_f64 ''CONFIDENCE_GATE'' (lit (55/100)),
          pc_odds_threshold = env_parse env parse_f64 ''ODDS_MOVE_THRESHOLD_PCT'' (lit 4),
          pc_log_path = env_or env ''SESSION_LOG_PATH'' (case strat of
             FollowSharp \<Rightarrow> ''match-intelligence-session.jsonl'' | FadeSharp \<Rightarrow> ''contrarian-session.jsonl''),
          pc_max_steps = env_parse env parse_u64 ''MAX_STEPS'' 500\<rparr>)"

definition fetch_live_fixtures :: "'w agent_io \<Rightarrow> string \<Rightarrow> 'w \<Rightarrow> (agent_error + fixture_summary list) \<times> 'w" where
  "fetch_live_fixtures io base w =
     (case fetch_json io ''fetch_live_fixtures'' (base @ ''/worldcup/fixtures?status=live'') (ag_parse_fixtures io) w of
        (Inl e, w1) \<Rightarrow> (Inl e, w1)
      | (Inr fs, w1) \<Rightarrow> (Inr (filter (\<lambda>f. fx_status f = ''live'') fs), w1))"

definition fetch_odds :: "'w agent_io \<Rightarrow> string \<Rightarrow> u64 \<Rightarrow> 'w \<Rightarrow> (agent_error + feed_market list) \<times> 'w" where
  "fetch_odds io base fid w =
     fetch_json io ''fetch_odds'' (base @ ''/worldcup/fixtures/'' @ show_u64 fid @ ''/odds'') (ag_parse_odds io) w"

definition move_pct :: "f64 \<Rightarrow> f64 \<Rightarrow> f64" where
  "move_pct odds prev = fabs (fmul (fdiv (fsub odds prev) prev) (lit 100))"

definition signal_confidence :: "poll_config \<Rightarrow> f64 \<Rightarrow> f64 option" where
  "signal_confidence cfg mp =
     (if \<not> fle (pc_odds_threshold cfg) mp then None
      else let c = fmin (fdiv mp (lit 20)) (lit (95/100)) in
        if fle (pc_confidence_gate cfg) c then Some c else None)"

definition take_direction :: "strategy \<Rightarrow> f64 \<Rightarrow> f64 \<Rightarrow> direction" where
  "take_direction strat odds prev = (case strat of
     FollowSharp \<Rightarrow> if flt odds prev then With else Against
   | FadeSharp \<Rightarrow> if flt odds prev then Against else With)"

definition agent_name :: "strategy \<Rightarrow> string" where
  "agent_name s = (case s of FollowSharp \<Rightarrow> ''match-intelligence'' | FadeSharp \<Rightarrow> ''contrarian'')"

definition strategy_name :: "strategy \<Rightarrow> string" where
  "strategy_name s = (case s of FollowSharp \<Rightarrow> ''follow_sharp'' | FadeSharp \<Rightarrow> ''fade_sharp'')"

definition position_key :: "strategy \<Rightarrow> u64 \<Rightarrow> string \<Rightarrow> string \<Rightarrow> string" where
  "position_key strat fid market name = idempotency_key_for
     ((case strat of FollowSharp \<Rightarrow> [] | FadeSharp \<Rightarrow> ''fade:'')
      @ show_u64 fid @ '':'' @ market @ '':'' @ name)"

record 'w agent_state =
  as_prev :: "u64 \<times> string \<times> string \<Rightarrow> f64 option"
  as_guard :: budget_guard
  as_positions :: "arena_position list"
  as_count :: u64
  as_last_at :: "string option"
  as_world :: 'w

text \<open>
  One selection of one market: the early exits of the step are \<open>Inl\<close>, a panic of the log
  label is \<open>Panic\<close>.
\<close>

definition record_position ::
  "strategy \<Rightarrow> 'w agent_io \<Rightarrow> poll_config \<Rightarrow> u64 \<Rightarrow> string \<Rightarrow> feed_selection \<Rightarrow> f64 \<Rightarrow> f64 \<Rightarrow> f64
     \<Rightarrow> 'w agent_state \<Rightarrow> ((agent_error + unit) \<times> 'w agent_state) exec" where
  "record_position strat io cfg fid market s prev mp conf st =
     (case ag_uuid io (as_world st) of (uuid, w1) \<Rightarrow>
      case utc_now io w1 of (now, w2) \<Rightarrow>
        let p = \<lparr>ap_position_id = uuid, ap_agent_id = agent_name strat, ap_strategy = strat,
                 ap_fixture_id = fid, ap_market_key = market, ap_selection = fs_name s,
                 ap_odds_at_entry = fs_odds s, ap_odds_move_pct = mp,
                 ap_direction = take_direction strat (fs_odds s) prev, ap_confidence = conf,
                 ap_recorded_at = now, ap_tx_signature = None, ap_outcome = None\<rparr> in
        case ag_append io (pc_log_path cfg) (PositionLine
            \<lparr>pe_idempotency_key = position_key strat fid market (fs_name s), pe_position = p,
             pe_strategy = strategy_name strat\<rparr>) w2 of
          (Inl e, w3) \<Rightarrow> Return (Inl e, st\<lparr>as_world := w3\<rparr>)
        | (Inr _, w3) \<Rightarrow>
            exec_map (\<lambda>_. (Inr (), st\<lparr>as_world := w3, as_positions := as_positions st @ [p]\<rparr>))
              (wrap_untrusted ''selection_name'' (fs_name s)))"

definition selection_step ::
  "strategy \<Rightarrow> 'w agent_io \<Rightarrow> poll_config \<Rightarrow> u64 \<Rightarrow> string \<Rightarrow> feed_selection
     \<Rightarrow> 'w agent_state \<Rightarrow> ((agent_error + unit) \<times> 'w agent_state) exec" where
  "selection_step strat io cfg fid market s st =
     (let key = (fid, market, fs_name s);
          remember = (\<lambda>st'. st'\<lparr>as_prev := (as_prev st')(key \<mapsto> fs_odds s)\<rparr>) in
      case as_prev st key of None \<Rightarrow> Return (Inr (), remember st)
      | Some prev \<Rightarrow>
          (let mp = move_pct (fs_odds s) prev in
           case signal_confidence cfg mp of None \<Rightarrow> Return (Inr (), remember st)
           | Some conf \<Rightarrow>
               exec_map (\<lambda>(r, st'). case r of Inl e \<Rightarrow> (Inl e, st') | Inr _ \<Rightarrow> (Inr (), remember st'))
                 (record_position strat io cfg fid market s prev mp conf st)))"

text \<open>A loop body that may leave with an error or panic, run over a list.\<close>

fun each :: "('a \<Rightarrow> 's \<Rightarrow> ((agent_error + unit) \<times> 's) exec) \<Rightarrow> 'a list \<Rightarrow> 's \<Rightarrow> ((agent_error + unit) \<times> 's) exec" where
  "each f [] st = Return (Inr (), st)"
| "each f (x # xs) st = exec_bind (f x st)
     (\<lambda>(r, st'). case r of Inl e \<Rightarrow> Return (Inl e, st') | Inr _ \<Rightarrow> each f xs st')"

definition fixture_step ::
  "strategy \<Rightarrow> 'w agent_io \<Rightarrow> poll_config \<Rightarrow> fixture_summary
     \<Rightarrow> 'w agent_state \<Rightarrow> ((agent_error + unit) \<times> 'w agent_state) exec" where
  "fixture_step strat io cfg f st =
     (let st1 = st\<lparr>as_guard := record_tool_call (as_guard st)\<rparr> in
      case fetch_odds io (pc_api_base cfg) (fx_id f) (as_world st1) of
        (Inl e, w) \<Rightarrow> Return (Inl e, st1\<lparr>as_world := w\<rparr>)
      | (Inr markets, w) \<Rightarrow>
          each (\<lambda>m. each (selection_step strat io cfg (fx_id f) (fm_key m)) (fm_selections m)) markets
            (st1\<lparr>as_world := w\<rparr>))"

definition agent_step ::
  "strategy \<Rightarrow> 'w agent_io \<Rightarrow> poll_config \<Rightarrow> 'w agent_state \<Rightarrow> ((agent_error + unit) \<times> 'w agent_state) exec" where
  \<comment> \<open>the positions of the step are collected in the state, empty at its start\<close>
  "agent_step strat io cfg st =
     (let st1 = st\<lparr>as_guard := record_tool_call (as_guard st), as_positions := []\<rparr> in
      case fetch_live_fixtures io (pc_api_base cfg) (as_world st1) of
        (Inl e, w) \<Rightarrow> Return (Inl e, st1\<lparr>as_world := w\<rparr>)
      | (Inr fs, w) \<Rightarrow> each (fixture_step strat io cfg) fs (st1\<lparr>as_world := w\<rparr>))"

section \<open>The poll loop\<close>

text \<open>
  \<open>n\<close> rounds of the loop of \<open>main\<close>: the gate, the tick, one step, then the sleep. The loop
  leaves when the gate or the counter refuses or on an error that is not retryable; \<open>publish\<close> is
  what it does after a successful step. The flag says whether it has left.
\<close>

fun poll_loop ::
  "('s \<Rightarrow> u64 \<times> 's) \<Rightarrow> ('s \<Rightarrow> budget_guard) \<Rightarrow> ('s \<Rightarrow> ((agent_error + unit) \<times> 's) exec) \<Rightarrow> ('s \<Rightarrow> 's)
     \<Rightarrow> ('s \<Rightarrow> 's) \<Rightarrow> nat \<Rightarrow> step_counter \<Rightarrow> 's \<Rightarrow> (bool \<times> step_counter \<times> 's) exec" where
  "poll_loop secs guard step publish pause 0 steps st = Return (False, steps, st)"
| "poll_loop secs guard step publish pause (Suc n) steps st =
     (case secs st of (now, st1) \<Rightarrow>
      case safety_check now (guard st1) of
        Inl _ \<Rightarrow> Return (True, steps, st1)
      | Inr _ \<Rightarrow>
          (case tick steps of
             (Inl _, steps') \<Rightarrow> Return (True, steps', st1)
           | (Inr _, steps') \<Rightarrow>
               exec_bind (step st1) (\<lambda>(r, st2).
                 case r of
                   Inr _ \<Rightarrow> poll_loop secs guard step publish pause n steps' (pause (publish st2))
                 | Inl e \<Rightarrow> if is_retryable e
                     then poll_loop secs guard step publish pause n steps' (pause st2)
                     else Return (True, steps', st2))))"

text \<open>The counters the contrarian agent keeps for the bus; the other agent has none.\<close>

definition fade_publish :: "'w agent_io \<Rightarrow> 'w agent_state \<Rightarrow> 'w agent_state" where
  "fade_publish io st =
     (if as_positions st = [] then st
      else case utc_now io (as_world st) of (now, w) \<Rightarrow>
        st\<lparr>as_count := as_count st + of_nat (length (as_positions st)), as_last_at := Some now, as_world := w\<rparr>)"

definition fade_status_handle :: "'w agent_state \<Rightarrow> coral_mention \<Rightarrow> string" where
  "fade_status_handle st m =
     (if wire_verb (cm_text m) \<noteq> ''FADE_STATUS_REQUESTED'' then []
      else ''FADE_STATUS strategy=fade_sharp positions='' @ show_u64 (as_count st) @ '' lastPositionAt=''
        @ unwrap_or ''none'' (as_last_at st))"

definition agent_main ::
  "strategy \<Rightarrow> 'w agent_io \<Rightarrow> poll_config \<Rightarrow> nat \<Rightarrow> 'w \<Rightarrow> (bool \<times> step_counter \<times> 'w agent_state) exec" where
  "agent_main strat io cfg n w =
     (case ag_secs io w of (now, w1) \<Rightarrow>
      poll_loop (\<lambda>st. case ag_secs io (as_world st) of (t, w) \<Rightarrow> (t, st\<lparr>as_world := w\<rparr>)) as_guard
        (agent_step strat io cfg)
        (case strat of FollowSharp \<Rightarrow> id | FadeSharp \<Rightarrow> fade_publish io)
        (\<lambda>st. st\<lparr>as_world := ag_sleep io (pc_poll_secs cfg) (as_world st)\<rparr>)
        n (stc_new (pc_max_steps cfg))
        \<lparr>as_prev = Map.empty, as_guard = default_devnet now, as_positions = [], as_count = 0,
         as_last_at = None, as_world = w1\<rparr>)"

section \<open>arena-coordinator\<close>

record coordinator_config =
  cc_api_base :: string
  cc_api_key :: string
  cc_poll_secs :: u64
  cc_follow_log :: string
  cc_fade_log :: string
  cc_settlement_log :: string
  cc_max_steps :: u64

definition coordinator_config_from_env :: "env \<Rightarrow> string + coordinator_config" where
  "coordinator_config_from_env env =
     (case env ''TXLINE_API_KEY'' of None \<Rightarrow> Inl ''TXLINE_API_KEY not set''
      | Some k \<Rightarrow> Inr
         \<lparr>cc_api_base = env_or env ''TXLINE_API_BASE'' ''https://txline.txodds.com/api/v1'', cc_api_key = k,
          cc_poll_secs = env_parse env parse_u64 ''COORDINATOR_POLL_SECS'' 30,
          cc_follow_log = env_or env ''FOLLOW_LOG'' ''match-intelligence-session.jsonl'',
          cc_fade_log = env_or env ''FADE_LOG'' ''contrarian-session.jsonl'',
          cc_settlement_log = env_or env ''SETTLEMENT_LOG'' ''arena-settlement.jsonl'',
          cc_max_steps = env_parse env parse_u64 ''MAX_STEPS'' 1000\<rparr>)"

record arena_score =
  sc_follow_wins :: u32
  sc_follow_losses :: u32
  sc_fade_wins :: u32
  sc_fade_losses :: u32

definition zero_score :: arena_score where
  "zero_score = \<lparr>sc_follow_wins = 0, sc_follow_losses = 0, sc_fade_wins = 0, sc_fade_losses = 0\<rparr>"

definition follow_pnl :: "arena_score \<Rightarrow> i64" where
  "follow_pnl sc = uint (sc_follow_wins sc) - uint (sc_follow_losses sc)"

definition fade_pnl :: "arena_score \<Rightarrow> i64" where
  "fade_pnl sc = uint (sc_fade_wins sc) - uint (sc_fade_losses sc)"

definition leader :: "arena_score \<Rightarrow> string" where
  "leader sc = (if fade_pnl sc < follow_pnl sc then ''FOLLOW (match-intelligence)''
     else if follow_pnl sc < fade_pnl sc then ''FADE (contrarian)'' else ''TIE'')"

record arena_status =
  ar_settled :: u64
  ar_follow_wins :: u64
  ar_follow_losses :: u64
  ar_fade_wins :: u64
  ar_fade_losses :: u64

definition publish_arena_status :: "arena_score \<Rightarrow> u64 \<Rightarrow> arena_status" where
  "publish_arena_status sc settled =
     \<lparr>ar_settled = settled, ar_follow_wins = ucast (sc_follow_wins sc), ar_follow_losses = ucast (sc_follow_losses sc),
      ar_fade_wins = ucast (sc_fade_wins sc), ar_fade_losses = ucast (sc_fade_losses sc)\<rparr>"

definition arena_status_handle :: "arena_status \<Rightarrow> coral_mention \<Rightarrow> string" where
  "arena_status_handle s m =
     (if wire_verb (cm_text m) \<noteq> ''ARENA_STATUS_REQUESTED'' then []
      else let follow = (ucast (ar_follow_wins s) - ucast (ar_follow_losses s) :: 64 word);
               fade = (ucast (ar_fade_wins s) - ucast (ar_fade_losses s) :: 64 word);
               led = (if sint fade < sint follow then ''FOLLOW'' else if sint follow < sint fade then ''FADE'' else ''TIE'')
        in ''ARENA_STATUS settled='' @ show_u64 (ar_settled s) @ '' followWins='' @ show_u64 (ar_follow_wins s)
           @ '' followLosses='' @ show_u64 (ar_follow_losses s) @ '' fadeWins='' @ show_u64 (ar_fade_wins s)
           @ '' fadeLosses='' @ show_u64 (ar_fade_losses s) @ '' leader='' @ led)"

text \<open>Finished fixtures: the list, then the detail of each, failures skipped.\<close>

fun fetch_details :: "'w agent_io \<Rightarrow> string \<Rightarrow> fixture_summary list \<Rightarrow> 'w \<Rightarrow> fixture_result list \<times> 'w" where
  "fetch_details io base [] w = ([], w)"
| "fetch_details io base (f # fs) w =
     (case ag_get io (base @ ''/worldcup/fixtures/'' @ show_u64 (fx_id f)) w of (r, w1) \<Rightarrow>
      case fetch_details io base fs w1 of (rs, w2) \<Rightarrow>
        (case r of Inl _ \<Rightarrow> rs
         | Inr resp \<Rightarrow>
             (case hs_text resp of Inl _ \<Rightarrow> rs
              | Inr body \<Rightarrow> (case ag_parse_result io body of None \<Rightarrow> rs | Some x \<Rightarrow> x # rs)), w2))"

definition fetch_completed_fixtures ::
  "'w agent_io \<Rightarrow> string \<Rightarrow> 'w \<Rightarrow> (agent_error + fixture_result list) \<times> 'w" where
  "fetch_completed_fixtures io base w =
     (case fetch_json io ''fetch_completed_fixtures'' (base @ ''/worldcup/fixtures?status=finished'')
             (ag_parse_fixtures io) w of
        (Inl e, w1) \<Rightarrow> (Inl e, w1)
      | (Inr fs, w1) \<Rightarrow>
          (case fetch_details io base (filter (\<lambda>f. fx_status f = ''finished'') fs) w1 of (rs, w2) \<Rightarrow> (Inr rs, w2)))"

definition load_positions :: "'w agent_io \<Rightarrow> string \<Rightarrow> 'w \<Rightarrow> arena_position list \<times> 'w" where
  "load_positions io path w =
     (case ag_read io path w of
        (None, w1) \<Rightarrow> ([], w1)
      | (Some content, w1) \<Rightarrow> (List.map_filter (ag_parse_entry io) (str_lines content), w1))"

definition selection_won :: "(string \<Rightarrow> string) \<Rightarrow> fixture_outcome \<Rightarrow> arena_position \<Rightarrow> bool" where
  "selection_won lower oc p =
     (lower (fo_winner oc) = lower (ap_selection p) \<or> contains_sub (lower (fo_winner oc)) (lower (ap_selection p)))"

definition position_won :: "(string \<Rightarrow> string) \<Rightarrow> fixture_outcome \<Rightarrow> arena_position \<Rightarrow> bool" where
  "position_won lower oc p = (case ap_direction p of
     With \<Rightarrow> selection_won lower oc p | Against \<Rightarrow> \<not> selection_won lower oc p)"

definition pnl_units :: "bool \<Rightarrow> arena_position \<Rightarrow> f64" where
  "pnl_units won p = (if won then fsub (ap_odds_at_entry p) (lit 1) else fminus (lit 1))"

definition settle_key :: "arena_position \<Rightarrow> string" where
  "settle_key p = idempotency_key_for (''settle:'' @ ap_position_id p)"

definition settlement_of :: "bool \<Rightarrow> arena_position \<Rightarrow> string \<Rightarrow> settlement_record" where
  "settlement_of won p now =
     \<lparr>se_idempotency_key = settle_key p, se_fixture_id = ap_fixture_id p, se_agent_id = ap_agent_id p,
      se_strategy = debug_strategy (ap_strategy p), se_market_key = ap_market_key p,
      se_selection = ap_selection p, se_direction = debug_direction (ap_direction p),
      se_odds_at_entry = ap_odds_at_entry p, se_result = (if won then ''win'' else ''loss''),
      se_pnl_units = pnl_units won p, se_settled_at = now\<rparr>"

definition score_add :: "strategy \<Rightarrow> bool \<Rightarrow> arena_score \<Rightarrow> arena_score" where
  "score_add strat won sc = (case strat of
     FollowSharp \<Rightarrow> if won then sc\<lparr>sc_follow_wins := sc_follow_wins sc + 1\<rparr>
       else sc\<lparr>sc_follow_losses := sc_follow_losses sc + 1\<rparr>
   | FadeSharp \<Rightarrow> if won then sc\<lparr>sc_fade_wins := sc_fade_wins sc + 1\<rparr>
       else sc\<lparr>sc_fade_losses := sc_fade_losses sc + 1\<rparr>)"

text \<open>
  The state of the coordinator; \<open>cs_written\<close> is a history variable: what has been appended to
  the settlement log so far, with the position each record settles.
\<close>

record 'w coordinator_state =
  cs_settled :: "string set"
  cs_score :: arena_score
  cs_guard :: budget_guard
  cs_status :: arena_status
  cs_written :: "(arena_position \<times> bool \<times> settlement_record) list"
  cs_world :: 'w

definition settle_position ::
  "'w agent_io \<Rightarrow> coordinator_config \<Rightarrow> (u64 \<Rightarrow> fixture_result option) \<Rightarrow> arena_position
     \<Rightarrow> 'w coordinator_state \<Rightarrow> ((agent_error + unit) \<times> 'w coordinator_state) exec" where
  "settle_position io cfg results p st =
     (if ap_position_id p \<in> cs_settled st then Return (Inr (), st)
      else case Option.bind (results (ap_fixture_id p)) fr_result of
        None \<Rightarrow> Return (Inr (), st)
      | Some oc \<Rightarrow>
          (let won = position_won (ag_lower io) oc p in
           case utc_now io (cs_world st) of (now, w1) \<Rightarrow>
           let rec = settlement_of won p now in
           case ag_append io (cc_settlement_log cfg) (SettlementLine rec) w1 of
             (Inl e, w2) \<Rightarrow> Return (Inl e, st\<lparr>cs_world := w2\<rparr>)
           | (Inr _, w2) \<Rightarrow> Return (Inr (), st\<lparr>cs_settled := insert (ap_position_id p) (cs_settled st),
               cs_score := score_add (ap_strategy p) won (cs_score st),
               cs_written := cs_written st @ [(p, won, rec)], cs_world := w2\<rparr>)))"

definition results_of :: "fixture_result list \<Rightarrow> u64 \<Rightarrow> fixture_result option" where
  \<comment> \<open>collecting into a map: a later fixture replaces an earlier one\<close>
  "results_of rs = map_of (map (\<lambda>r. (fr_fixture_id r, r)) (rev rs))"

definition coordinator_step ::
  "'w agent_io \<Rightarrow> coordinator_config \<Rightarrow> 'w coordinator_state
     \<Rightarrow> ((agent_error + unit) \<times> 'w coordinator_state) exec" where
  "coordinator_step io cfg st =
     (let st1 = st\<lparr>cs_guard := record_tool_call (cs_guard st)\<rparr> in
      case fetch_completed_fixtures io (cc_api_base cfg) (cs_world st1) of
        (Inl e, w) \<Rightarrow> Return (Inl e, st1\<lparr>cs_world := w\<rparr>)
      | (Inr [], w) \<Rightarrow> Return (Inr (), st1\<lparr>cs_world := w\<rparr>)
      | (Inr rs, w) \<Rightarrow>
          (case load_positions io (cc_follow_log cfg) w of (follow, w1) \<Rightarrow>
           case load_positions io (cc_fade_log cfg) w1 of (fade, w2) \<Rightarrow>
             each (settle_position io cfg (results_of rs)) (follow @ fade) (st1\<lparr>cs_world := w2\<rparr>)))"

definition coordinator_publish :: "'w coordinator_state \<Rightarrow> 'w coordinator_state" where
  "coordinator_publish st =
     st\<lparr>cs_status := publish_arena_status (cs_score st) (of_nat (card (cs_settled st)))\<rparr>"

definition initial_coordinator :: "u64 \<Rightarrow> 'w \<Rightarrow> 'w coordinator_state" where
  "initial_coordinator now w =
     \<lparr>cs_settled = {}, cs_score = zero_score, cs_guard = default_devnet now,
      cs_status = publish_arena_status zero_score 0, cs_written = [], cs_world = w\<rparr>"

definition coordinator_main ::
  "'w agent_io \<Rightarrow> coordinator_config \<Rightarrow> nat \<Rightarrow> 'w \<Rightarrow> (bool \<times> step_counter \<times> 'w coordinator_state) exec" where
  "coordinator_main io cfg n w =
     (case ag_secs io w of (now, w1) \<Rightarrow>
      poll_loop (\<lambda>st. case ag_secs io (cs_world st) of (t, w) \<Rightarrow> (t, st\<lparr>cs_world := w\<rparr>)) cs_guard
        (coordinator_step io cfg) coordinator_publish
        (\<lambda>st. st\<lparr>cs_world := ag_sleep io (cc_poll_secs cfg) (cs_world st)\<rparr>)
        n (stc_new (cc_max_steps cfg)) (initial_coordinator now w1))"

section \<open>Loops\<close>

lemma each_inv:
  assumes "\<And>x s r s'. x \<in> set xs \<Longrightarrow> P s \<Longrightarrow> f x s = Return (r, s') \<Longrightarrow> P s'"
  shows "P s \<Longrightarrow> each f xs s = Return (r, s') \<Longrightarrow> P s'"
  using assms
proof (induction xs arbitrary: s)
  case (Cons x xs)
  obtain r1 s1 where fx: "f x s = Return (r1, s1)"
    using Cons.prems(2) by (auto simp: exec_bind_Return_iff)
  have 1: "f x s = Return (r1, s1)" "P s1" using fx Cons.prems(3) [OF _ Cons.prems(1) fx] by simp_all
  show ?case
  proof (cases r1)
    case (Inl e)
    then show ?thesis using Cons.prems(2) 1 by simp
  next
    case (Inr u)
    then have "each f xs s1 = Return (r, s')" using Cons.prems(2) 1 by simp
    from Cons.IH [OF 1(2) this] Cons.prems(3) show ?thesis by auto
  qed
qed simp

text \<open>Two loops whose bodies agree up to a map of the state agree up to that map.\<close>

lemma each_map:
  assumes "\<And>x s. x \<in> set xs \<Longrightarrow> f' x (g s) = exec_map (apsnd g) (f x s)"
  shows "each f' xs (g s) = exec_map (apsnd g) (each f xs s)"
  using assms
proof (induction xs arbitrary: s)
  case (Cons x xs)
  have "f' x (g s) = exec_map (apsnd g) (f x s)" using Cons.prems by simp
  moreover have "each f' xs (g t) = exec_map (apsnd g) (each f xs t)" for t
    using Cons.IH [of t] Cons.prems by auto
  ultimately show ?case
    by (cases "f x s") (auto split: sum.splits)
qed simp

text \<open>
  What every poll loop of the program relies on: reading the clock, one step, publishing and
  sleeping keep an invariant of the state.
\<close>

locale polled =
  fixes secs :: "'s \<Rightarrow> u64 \<times> 's" and guard :: "'s \<Rightarrow> budget_guard"
    and step :: "'s \<Rightarrow> ((agent_error + unit) \<times> 's) exec" and publish :: "'s \<Rightarrow> 's" and pause :: "'s \<Rightarrow> 's"
    and inv :: "'s \<Rightarrow> bool"
  assumes secs_inv: "inv s \<Longrightarrow> inv (snd (secs s))"
    and step_inv: "inv s \<Longrightarrow> step s = Return (r, s') \<Longrightarrow> inv s'"
    and publish_inv: "inv s \<Longrightarrow> inv (publish s)"
    and pause_inv: "inv s \<Longrightarrow> inv (pause s)"
begin

lemma poll_loop_inv:
  "inv s \<Longrightarrow> poll_loop secs guard step publish pause n steps s = Return (left, steps', s') \<Longrightarrow> inv s'"
proof (induction n arbitrary: steps s)
  case (Suc n)
  obtain now s1 where 1: "secs s = (now, s1)" by (cases "secs s")
  then have i1: "inv s1" using secs_inv [OF Suc.prems(1)] by simp
  show ?case
  proof (cases "safety_check now (guard s1)")
    case (Inl e)
    then show ?thesis using Suc.prems(2) 1 i1 by simp
  next
    case (Inr u)
    note s = this
    obtain t steps1 where t: "tick steps = (t, steps1)" by (cases "tick steps")
    show ?thesis
    proof (cases t)
      case (Inl e)
      then show ?thesis using Suc.prems(2) 1 i1 s t by simp
    next
      case (Inr u)
      obtain r s2 where 2: "step s1 = Return (r, s2)"
        using Suc.prems(2) 1 s t Inr by (auto simp: exec_bind_Return_iff)
      from step_inv [OF i1 2] have "inv s2" .
      then show ?thesis
        using Suc.prems(2) 1 s t Inr 2 Suc.IH [of "pause s2"] Suc.IH [of "pause (publish s2)"]
        by (auto simp: pause_inv publish_inv split: sum.splits if_splits)
    qed
  qed
qed simp

end

text \<open>The counter ends every such loop.\<close>

lemma poll_loop_left:
  assumes "m \<noteq> - 1" and "k \<le> unat m" and "unat m < n + k"
    and "poll_loop secs guard step publish pause n \<lparr>stc_max = m, stc_steps = of_nat k\<rparr> s = Return (left, steps', s')"
  shows "left"
  using assms(2-)
proof (induction n arbitrary: k s)
  case (Suc n)
  obtain now s1 where 1: "secs s = (now, s1)" by (cases "secs s")
  obtain t steps1 where t: "tick \<lparr>stc_max = m, stc_steps = of_nat k\<rparr> = (t, steps1)"
    by (cases "tick \<lparr>stc_max = m, stc_steps = of_nat k\<rparr>")
  have a: "(case t of Inl _ \<Rightarrow> None | Inr _ \<Rightarrow> Some steps1) =
      (if k < unat m then Some \<lparr>stc_max = m, stc_steps = of_nat (Suc k)\<rparr> else None)"
    using step_admit_of_nat [OF assms(1) Suc.prems(1)] unfolding step_admit_def t by simp
  show ?case
  proof (cases t)
    case (Inl e)
    then show ?thesis using Suc.prems(3) 1 t by (auto split: sum.splits)
  next
    case (Inr u)
    then have k: "k < unat m" and s1: "steps1 = \<lparr>stc_max = m, stc_steps = of_nat (Suc k)\<rparr>"
      using a by (auto split: if_splits)
    have ih: "left" if "poll_loop secs guard step publish pause n steps1 s2 = Return (left, steps', s')" for s2
      using Suc.IH [of "Suc k" s2] Suc.prems(2) k that unfolding s1 by simp
    show ?thesis
    proof (cases "safety_check now (guard s1)")
      case (Inr v)
      then obtain r s2 where "step s1 = Return (r, s2)"
        using Suc.prems(3) 1 t \<open>t = Inr u\<close> by (auto simp: exec_bind_Return_iff)
      then show ?thesis
        using Suc.prems(3) 1 t Inr \<open>t = Inr u\<close>
        by (cases r) (auto split: if_splits dest: ih)
    qed (use Suc.prems(3) 1 in auto)
  qed
qed simp

section \<open>The mirrored agents\<close>

definition flip_direction :: "direction \<Rightarrow> direction" where
  "flip_direction d = (case d of With \<Rightarrow> Against | Against \<Rightarrow> With)"

definition mirror_position :: "arena_position \<Rightarrow> arena_position" where
  "mirror_position p =
     p\<lparr>ap_agent_id := ''contrarian'', ap_strategy := FadeSharp, ap_direction := flip_direction (ap_direction p)\<rparr>"

definition mirror_state :: "'w agent_state \<Rightarrow> 'w agent_state" where
  "mirror_state st = st\<lparr>as_positions := map mirror_position (as_positions st)\<rparr>"

definition blind_appends :: "'w agent_io \<Rightarrow> bool" where
  \<comment> \<open>the outcome of an append does not depend on the file or the line\<close>
  "blind_appends io \<longleftrightarrow> (\<forall>p q x y w. ag_append io p x w = ag_append io q y w)"

lemma mirror_record:
  assumes "blind_appends io"
  shows "record_position FadeSharp io (cfg\<lparr>pc_log_path := path\<rparr>) fid market s prev mp conf (mirror_state st) =
    exec_map (apsnd mirror_state) (record_position FollowSharp io cfg fid market s prev mp conf st)"
proof -
  have b: "ag_append io q y w = ag_append io p x w" for p q x y w
    using assms unfolding blind_appends_def by blast
  obtain uuid w1 where 1: "ag_uuid io (as_world st) = (uuid, w1)" by (cases "ag_uuid io (as_world st)")
  obtain now w2 where 2: "utc_now io w1 = (now, w2)" by (cases "utc_now io w1")
  obtain r w3 where 3: "ag_append io [] undefined w2 = (r, w3)" by (cases "ag_append io [] undefined w2")
  have 4: "ag_append io p x w2 = (r, w3)" for p x using b [of p x w2] 3 by (metis b)
  show ?thesis
    by (cases r; cases "wrap_untrusted ''selection_name'' (fs_name s)")
       (simp_all add: record_position_def mirror_state_def 1 2 4 mirror_position_def agent_name_def
         flip_direction_def take_direction_def)
qed

lemma mirror_selection:
  assumes "blind_appends io"
  shows "selection_step FadeSharp io (cfg\<lparr>pc_log_path := path\<rparr>) fid market s (mirror_state st) =
    exec_map (apsnd mirror_state) (selection_step FollowSharp io cfg fid market s st)"
proof (cases "as_prev st (fid, market, fs_name s)")
  case None
  then show ?thesis by (simp add: selection_step_def mirror_state_def Let_def)
next
  case (Some prev)
  let ?mp = "move_pct (fs_odds s) prev"
  have p: "as_prev (mirror_state st) (fid, market, fs_name s) = Some prev"
    using Some by (simp add: mirror_state_def)
  have upd: "(mirror_state t)\<lparr>as_prev := (as_prev (mirror_state t))(k \<mapsto> v)\<rparr> =
      mirror_state (t\<lparr>as_prev := (as_prev t)(k \<mapsto> v)\<rparr>)" for t k v
    by (simp add: mirror_state_def)
  have sc: "signal_confidence (cfg\<lparr>pc_log_path := path\<rparr>) ?mp = signal_confidence cfg ?mp"
    by (simp add: signal_confidence_def)
  show ?thesis
  proof (cases "signal_confidence cfg ?mp")
    case None
    then show ?thesis using Some p sc by (simp add: selection_step_def Let_def upd)
  next
    case conf: (Some conf)
    show ?thesis
    proof (cases "record_position FollowSharp io cfg fid market s prev ?mp conf st")
      case (Return x)
      then show ?thesis
        using Some p sc conf mirror_record [OF assms, of path cfg fid market s prev ?mp conf st]
        by (cases x; cases "fst x") (simp_all add: selection_step_def Let_def upd)
    next
      case Panic
      then show ?thesis
        using Some p sc conf mirror_record [OF assms, of path cfg fid market s prev ?mp conf st]
        by (simp add: selection_step_def Let_def)
    qed
  qed
qed

lemma mirror_fixture:
  assumes "blind_appends io"
  shows "fixture_step FadeSharp io (cfg\<lparr>pc_log_path := path\<rparr>) f (mirror_state st) =
    exec_map (apsnd mirror_state) (fixture_step FollowSharp io cfg f st)"
proof -
  let ?st = "st\<lparr>as_guard := record_tool_call (as_guard st)\<rparr>"
  obtain r w where f: "fetch_odds io (pc_api_base cfg) (fx_id f) (as_world st) = (r, w)"
    by (cases "fetch_odds io (pc_api_base cfg) (fx_id f) (as_world st)")
  have st: "(mirror_state st)\<lparr>as_guard := g, as_world := w\<rparr> = mirror_state (st\<lparr>as_guard := g, as_world := w\<rparr>)" for g
    by (simp add: mirror_state_def)
  have m: "as_guard (mirror_state st) = as_guard st" "as_world (mirror_state st) = as_world st"
    by (simp_all add: mirror_state_def)
  show ?thesis
  proof (cases r)
    case (Inl e)
    then show ?thesis using f by (simp add: fixture_step_def Let_def m st)
  next
    case (Inr markets)
    have "each (\<lambda>m. each (selection_step FadeSharp io (cfg\<lparr>pc_log_path := path\<rparr>) (fx_id f) (fm_key m)) (fm_selections m))
        markets (mirror_state t) = exec_map (apsnd mirror_state)
        (each (\<lambda>m. each (selection_step FollowSharp io cfg (fx_id f) (fm_key m)) (fm_selections m)) markets t)" for t
      by (intro each_map mirror_selection assms)
    then show ?thesis using f Inr by (simp add: fixture_step_def Let_def m st)
  qed
qed

lemma mirror_won: "position_won lower oc (mirror_position p) \<longleftrightarrow> \<not> position_won lower oc p"
  by (cases "ap_direction p")
     (simp_all add: position_won_def mirror_position_def flip_direction_def selection_won_def)

text \<open>
  C15: On the same feed, from the same state, the contrarian agent takes exactly the positions of the
  match-intelligence agent, in the same order with the same prices, confidences and identifiers, the
  direction inverted and the identity changed; it fails, panics and reads the world exactly when
  the other does. For every outcome exactly one of two mirrored positions wins.
\<close>

theorem strategies_mirror:
  assumes "blind_appends io"
  shows "agent_step FadeSharp io (cfg\<lparr>pc_log_path := path\<rparr>) st =
      exec_map (apsnd mirror_state) (agent_step FollowSharp io cfg st) \<and>
    (\<forall>lower oc p. position_won lower oc (mirror_position p) = (\<not> position_won lower oc p))"
proof -
  obtain r w where f: "fetch_live_fixtures io (pc_api_base cfg) (as_world st) = (r, w)"
    by (cases "fetch_live_fixtures io (pc_api_base cfg) (as_world st)")
  have st: "st\<lparr>as_guard := g, as_positions := [], as_world := w\<rparr> =
      mirror_state (st\<lparr>as_guard := g, as_positions := [], as_world := w\<rparr>)" for g
    by (simp add: mirror_state_def)
  have "agent_step FadeSharp io (cfg\<lparr>pc_log_path := path\<rparr>) st =
      exec_map (apsnd mirror_state) (agent_step FollowSharp io cfg st)"
  proof (cases r)
    case (Inl e)
    then show ?thesis using f by (simp add: agent_step_def Let_def mirror_state_def)
  next
    case (Inr fs)
    have e: "each (fixture_step FadeSharp io (cfg\<lparr>pc_log_path := path\<rparr>)) fs (mirror_state t) =
        exec_map (apsnd mirror_state) (each (fixture_step FollowSharp io cfg) fs t)" for t
      by (intro each_map mirror_fixture assms)
    show ?thesis
      using f Inr e [of "st\<lparr>as_guard := record_tool_call (as_guard st), as_positions := [], as_world := w\<rparr>"]
      by (simp add: agent_step_def Let_def flip: st)
  qed
  then show ?thesis by (simp add: mirror_won)
qed

section \<open>The coordinator\<close>

definition wins_of :: "strategy \<Rightarrow> bool \<Rightarrow> (arena_position \<times> bool \<times> settlement_record) list \<Rightarrow> u32" where
  "wins_of strat won ws = of_nat (length (filter (\<lambda>(p, w, _). ap_strategy p = strat \<and> w = won) ws))"

definition score_of :: "(arena_position \<times> bool \<times> settlement_record) list \<Rightarrow> arena_score" where
  "score_of ws = \<lparr>sc_follow_wins = wins_of FollowSharp True ws, sc_follow_losses = wins_of FollowSharp False ws,
     sc_fade_wins = wins_of FadeSharp True ws, sc_fade_losses = wins_of FadeSharp False ws\<rparr>"

definition written_ids :: "(arena_position \<times> bool \<times> settlement_record) list \<Rightarrow> string list" where
  "written_ids ws = map (\<lambda>(p, _). ap_position_id p) ws"

definition coordinator_inv :: "'w coordinator_state \<Rightarrow> bool" where
  "coordinator_inv st \<longleftrightarrow>
     distinct (written_ids (cs_written st)) \<and> cs_settled st = set (written_ids (cs_written st))
     \<and> cs_score st = score_of (cs_written st)
     \<and> list_all (\<lambda>(p, won, rec). rec = settlement_of won p (se_settled_at rec)) (cs_written st)"

lemma score_of_snoc: "score_of (ws @ [(p, won, rec)]) = score_add (ap_strategy p) won (score_of ws)"
  by (cases "ap_strategy p"; cases won) (simp_all add: score_of_def wins_of_def score_add_def)

lemma settlement_of_at [simp]: "se_settled_at (settlement_of won p now) = now"
  by (simp add: settlement_of_def)

lemma settle_position_inv:
  assumes "coordinator_inv st" and "settle_position io cfg results p st = Return (r, st')"
  shows "coordinator_inv st'"
proof (cases "ap_position_id p \<in> cs_settled st \<or> Option.bind (results (ap_fixture_id p)) fr_result = None")
  case True
  then have "st' = st" using assms(2) unfolding settle_position_def by (auto split: if_splits simp del: bind_eq_None_conv)
  then show ?thesis using assms(1) by simp
next
  case False
  then obtain oc where oc: "Option.bind (results (ap_fixture_id p)) fr_result = Some oc"
    by (auto simp del: bind_eq_None_conv)
  obtain now w1 where 1: "utc_now io (cs_world st) = (now, w1)" by (cases "utc_now io (cs_world st)")
  let ?rec = "settlement_of (position_won (ag_lower io) oc p) p now"
  obtain q w2 where 2: "ag_append io (cc_settlement_log cfg) (SettlementLine ?rec) w1 = (q, w2)"
    by (cases "ag_append io (cc_settlement_log cfg) (SettlementLine ?rec) w1")
  show ?thesis
    using assms False oc 1 2
    by (cases q) (auto simp: settle_position_def Let_def coordinator_inv_def score_of_snoc written_ids_def)
qed

lemma coordinator_inv_frame [simp]:
  "coordinator_inv (st\<lparr>cs_guard := g\<rparr>) = coordinator_inv st"
  "coordinator_inv (st\<lparr>cs_world := w\<rparr>) = coordinator_inv st"
  "coordinator_inv (st\<lparr>cs_status := s\<rparr>) = coordinator_inv st"
  by (simp_all add: coordinator_inv_def)

lemma coordinator_step_inv:
  assumes "coordinator_inv st" and "coordinator_step io cfg st = Return (r, st')"
  shows "coordinator_inv st'"
proof -
  have each: "coordinator_inv t'" if "coordinator_inv t"
      "each (settle_position io cfg rs) ps t = Return (q, t')" for rs ps t q t'
    by (rule each_inv [where P = coordinator_inv, OF settle_position_inv that]) (assumption | rule that)+
  show ?thesis
    using assms
    by (auto simp: coordinator_step_def Let_def split: prod.splits sum.splits list.splits dest!: each [rotated])
qed

interpretation coordinator_loop: polled
  "\<lambda>st. case ag_secs io (cs_world st) of (t, w) \<Rightarrow> (t, st\<lparr>cs_world := w\<rparr>)" cs_guard
  "coordinator_step io cfg" coordinator_publish
  "\<lambda>st. st\<lparr>cs_world := ag_sleep io (cc_poll_secs cfg) (cs_world st)\<rparr>" coordinator_inv
  for io :: "'w agent_io" and cfg
  by unfold_locales
    (auto simp: coordinator_publish_def split: prod.splits intro: coordinator_step_inv)

lemma coordinator_inv_initial: "coordinator_inv (initial_coordinator now w)"
  by (simp add: coordinator_inv_def initial_coordinator_def written_ids_def score_of_def wins_of_def zero_score_def)

text \<open>
  C14: However often the coordinator polls, whatever its files and the feed say and however it stops:
  no position is settled twice, the set of settled positions is exactly those with a record, the
  scoreboard counts (modulo \<open>2 ^ 32\<close>) the won and lost records of each strategy, and every
  record is the one its position and result call for.
\<close>

theorem coordinator_settles_once:
  assumes "coordinator_main io cfg n w = Return (left, steps, st)"
  shows "coordinator_inv st"
proof -
  obtain now w1 where "ag_secs io w = (now, w1)" by (cases "ag_secs io w")
  then show ?thesis
    using assms coordinator_loop.poll_loop_inv [OF coordinator_inv_initial]
    by (auto simp: coordinator_main_def)
qed


lemma spacing_11:
  assumes "rnd q = q" and "q < 11"
  shows "q \<le> 11 - 1 / 2 ^ 49"
proof (cases "8 \<le> q")
  case True
  then have "pow2 3 \<le> \<bar>q\<bar>" "\<bar>q\<bar> < pow2 4" using assms(2) by (simp_all add: pow2_def)
  then have "ilog2 \<bar>q\<bar> = 3" using ilog2_ge [of "\<bar>q\<bar>" 3] ilog2_less [of "\<bar>q\<bar>" 4] True by simp
  then have u: "ulp_exp q = - 49" by (simp add: ulp_exp_def)
  let ?k = "round_even (q / pow2 (- 49))"
  have q: "q = of_int ?k / 2 ^ 49" using assms(1) True u by (simp add: rnd_def pow2_def)
  have "of_int ?k < (of_int (11 * 2 ^ 49) :: rat)" using q assms(2) by (simp add: field_simps)
  then have "?k \<le> 11 * 2 ^ 49 - 1" by simp
  then have "(of_int ?k :: rat) \<le> of_int (11 * 2 ^ 49 - 1)" by (simp only: of_int_le_iff)
  then have "of_int ?k / 2 ^ 49 \<le> (11 * 2 ^ 49 - 1 :: rat) / 2 ^ 49" by (simp add: divide_right_mono)
  then show ?thesis using q by simp
next
  case False
  moreover have "(8 :: rat) \<le> 11 - 1 / 2 ^ 49" by simp
  ultimately show ?thesis by linarith
qed

lemma rnd_consts: "rnd ((11 - 1 / 2 ^ 49) / 20) < rnd (55/100)" "rnd (55/100) \<le> rnd (95/100)" 
    "rnd 11 = 11" "rnd 20 = 20" "rnd 4 = 4"
  by code_simp+

lemma fmin_finite:
  assumes "is_finite a" and "is_finite b"
  shows "is_finite (fmin a b)" and "fval (fmin a b) = min (fval a) (fval b)"
  using assms by (auto simp: fmin_def flt_finite)

lemma signal_confidence_default:
  assumes "is_f64 mp" and "pc_odds_threshold cfg = lit 4" and "pc_confidence_gate cfg = lit (55/100)"
  shows "(signal_confidence cfg mp \<noteq> None) = fle (lit 11) mp"
proof (cases mp)
  case (Fin q)
  have l: "is_finite (lit r) \<and> fval (lit r) = rnd r" if "r \<in> {4, 11, 20, 55/100, 95/100}" for r
    using lit_finite [of r] that by auto
  have q: "rnd q = q" "\<bar>q\<bar> < huge" using assms(1) Fin by simp_all
  have four: "fle (lit 4) mp \<longleftrightarrow> 4 \<le> q" "fle (lit 11) mp \<longleftrightarrow> 11 \<le> q"
    using l [of 4] l [of 11] Fin by (simp_all add: fle_finite rnd_consts)
  show ?thesis
  proof (cases "4 \<le> q")
    case False
    then show ?thesis using four assms(2) by (simp add: signal_confidence_def)
  next
    case True
    have "rnd (q / 20) \<le> q" using True q rnd_le_rnd [of "q / 20" q] by simp
    moreover have "0 \<le> rnd (q / 20)" using True by (intro rnd_nonneg) simp
    ultimately have "\<bar>rnd (q / 20)\<bar> < huge" using q(2) True by simp
    then have d: "is_finite (fdiv mp (lit 20))" "fval (fdiv mp (lit 20)) = rnd (q / 20)"
      using fdiv_rnd [of mp "lit 20"] l [of 20] Fin by (simp_all add: rnd_consts)
    have "fle (lit (55/100)) (fmin (fdiv mp (lit 20)) (lit (95/100))) \<longleftrightarrow> rnd (55/100) \<le> rnd (q / 20)"
      using d l [of "55/100"] l [of "95/100"] fmin_finite [of "fdiv mp (lit 20)" "lit (95/100)"] rnd_consts(2)
      by (simp add: fle_finite)
    moreover have "rnd (55/100) \<le> rnd (q / 20) \<longleftrightarrow> 11 \<le> q"
    proof
      assume "11 \<le> q"
      then show "rnd (55/100) \<le> rnd (q / 20)" by (intro rnd_mono) simp
    next
      assume le: "rnd (55/100) \<le> rnd (q / 20)"
      show "11 \<le> q"
      proof (rule ccontr)
        assume "\<not> 11 \<le> q"
        then have "rnd (q / 20) \<le> rnd ((11 - 1 / 2 ^ 49) / 20)"
          using spacing_11 [OF q(1)] by (intro rnd_mono divide_right_mono) simp_all
        then show False using le rnd_consts(1) by linarith
      qed
    qed
    ultimately show ?thesis using True four assms(2,3) by (simp add: signal_confidence_def Let_def)
  qed
next
  case (Infty s)
  have "fmin (fdiv (Infty False) (lit 20)) (lit (95/100)) = lit (95/100)" by code_simp
  moreover have "fle (lit (55/100)) (lit (95/100))" "\<not> fle (lit 4) (Infty True)" "\<not> fle (lit 11) (Infty True)"
    "fle (lit 4) (Infty False)" "fle (lit 11) (Infty False)" by code_simp+
  ultimately show ?thesis using Infty assms(2,3) by (cases s) (simp_all add: signal_confidence_def Let_def)
next
  case NegZero
  have "\<not> fle (lit 4) NegZero" "\<not> fle (lit 11) NegZero" by code_simp+
  then show ?thesis using NegZero assms(2) by (simp add: signal_confidence_def)
qed (simp_all add: signal_confidence_def fle_def)

text \<open>
  With the default settings a polling agent takes a position exactly when the price has moved by
  at least 11%: the confidence gate of 0.55 subsumes the movement threshold of 4%, which never
  decides anything (the comparison is exact, down to the last bit of the double).
\<close>

theorem arena_gate_needs_eleven:
  assumes "is_f64 mp" and "poll_config_from_env strat env = Inr cfg"
    and "env ''ODDS_MOVE_THRESHOLD_PCT'' = None" and "env ''CONFIDENCE_GATE'' = None"
  shows "(signal_confidence cfg mp \<noteq> None) = fle (lit 11) mp"
proof -
  have "pc_odds_threshold cfg = lit 4" "pc_confidence_gate cfg = lit (55/100)"
    using assms(2-) by (auto simp: poll_config_from_env_def env_parse_def split: option.splits)
  then show ?thesis by (rule signal_confidence_default [OF assms(1)])
qed

lemma arena_gate_needs_eleven_witness:
  "(signal_confidence \<lparr>pc_api_base = ''https://txline.txodds.com/api/v1'', pc_api_key = ''k'', pc_poll_secs = 60,
      pc_confidence_gate = lit (55/100), pc_odds_threshold = lit 4, pc_log_path = ''contrarian-session.jsonl'',
      pc_max_steps = 500\<rparr> (Fin 5) \<noteq> None) = fle (lit 11) (Fin 5)"
  by (rule arena_gate_needs_eleven [where strat = FadeSharp and env = "[''TXLINE_API_KEY'' \<mapsto> ''k'']"])
     (code_simp, simp_all add: poll_config_from_env_def env_parse_def env_or_def)

section \<open>A small world\<close>

definition sample_position :: arena_position where
  "sample_position = \<lparr>ap_position_id = ''p1'', ap_agent_id = ''match-intelligence'', ap_strategy = FollowSharp,
     ap_fixture_id = 7, ap_market_key = ''1x2'', ap_selection = ''home'', ap_odds_at_entry = Fin 2,
     ap_odds_move_pct = Fin 12, ap_direction = With, ap_confidence = Fin (3/5), ap_recorded_at = ''0Z'',
     ap_tx_signature = None, ap_outcome = None\<rparr>"

text \<open>Every second reading of the clock the feed offers the price 2, the others 3; the log holds one line.\<close>

definition sample_agent_io :: "nat agent_io" where
  "sample_agent_io = \<lparr>ag_get = (\<lambda>url n. (Inr \<lparr>hs_status = 200, hs_text = Inr (if n = 0 then ''a'' else ''b'')\<rparr>, n)),
     ag_show_status = show_nat, ag_append = (\<lambda>_ _ n. (Inr (), n)), ag_read = (\<lambda>_ n. (Some ''line'', n)),
     ag_uuid = (\<lambda>n. (''p1'', n)), ag_secs = (\<lambda>n. (0, n)), ag_sleep = (\<lambda>_ n. Suc n),
     ag_parse_fixtures = (\<lambda>_. Inr [\<lparr>fx_id = 7, fx_status = ''live''\<rparr>, \<lparr>fx_id = 7, fx_status = ''finished''\<rparr>]),
     ag_parse_odds = (\<lambda>s. Inr [\<lparr>fm_key = ''1x2'', fm_selections = [\<lparr>fs_name = ''home'', fs_odds = if s = ''a'' then Fin 3 else Fin 2\<rparr>]\<rparr>]),
     ag_parse_result = (\<lambda>_. Some \<lparr>fr_fixture_id = 7, fr_status = ''finished'',
       fr_result = Some \<lparr>fo_winner = ''Home'', fo_home_score = 1, fo_away_score = 0\<rparr>\<rparr>),
     ag_parse_entry = (\<lambda>_. Some sample_position), ag_lower = to_ascii_lowercase\<rparr>"

definition sample_poll_config :: poll_config where
  "sample_poll_config = \<lparr>pc_api_base = [], pc_api_key = [], pc_poll_secs = 60, pc_confidence_gate = lit (55/100),
     pc_odds_threshold = lit 4, pc_log_path = ''log'', pc_max_steps = 3\<rparr>"

definition sample_coordinator_config :: coordinator_config where
  "sample_coordinator_config = \<lparr>cc_api_base = [], cc_api_key = [], cc_poll_secs = 30, cc_follow_log = ''f'',
     cc_fade_log = ''d'', cc_settlement_log = ''s'', cc_max_steps = 3\<rparr>"

theorem strategies_mirror_witness:
  "agent_step FadeSharp sample_agent_io (sample_poll_config\<lparr>pc_log_path := ''fade''\<rparr>)
     \<lparr>as_prev = [(7, ''1x2'', ''home'') \<mapsto> Fin 3], as_guard = default_devnet 0, as_positions = [], as_count = 0,
      as_last_at = None, as_world = 1\<rparr> =
   exec_map (apsnd mirror_state) (agent_step FollowSharp sample_agent_io sample_poll_config
     \<lparr>as_prev = [(7, ''1x2'', ''home'') \<mapsto> Fin 3], as_guard = default_devnet 0, as_positions = [], as_count = 0,
      as_last_at = None, as_world = 1\<rparr>)"
  by (rule conjunct1, rule strategies_mirror) (simp add: blind_appends_def sample_agent_io_def)

theorem coordinator_settles_once_witness:
  "case coordinator_main sample_agent_io sample_coordinator_config 2 0 of
     Return (_, _, st) \<Rightarrow> coordinator_inv st \<and> length (cs_written st) = 1 | Panic \<Rightarrow> False"
proof -
  have "case coordinator_main sample_agent_io sample_coordinator_config 2 0 of
     Return (_, _, st) \<Rightarrow> length (cs_written st) = 1 | Panic \<Rightarrow> False" by code_simp
  then show ?thesis
    using coordinator_settles_once [of sample_agent_io sample_coordinator_config 2 0]
    by (auto split: exec.splits)
qed

text \<open>
  C16: The three arena processes always come to an end: after more rounds than the configured
  maximum (any but \<open>u64::MAX\<close>, at which the counter wraps) a polling agent and the
  coordinator have left their loops, or have panicked.
\<close>

theorem arena_loops_end:
  assumes "unat (pc_max_steps cfg) < n" and "pc_max_steps cfg \<noteq> - 1"
    and "unat (cc_max_steps ccfg) < n" and "cc_max_steps ccfg \<noteq> - 1"
  shows "agent_main strat io cfg n w \<noteq> Return (False, steps, st) \<and>
    coordinator_main io ccfg n w \<noteq> Return (False, steps', cst)"
  using poll_loop_left [OF assms(2), of 0 n] poll_loop_left [OF assms(4), of 0 n] assms(1,3)
  by (auto simp: agent_main_def coordinator_main_def stc_new_def split: prod.splits)

theorem arena_loops_end_witness:
  "\<forall>steps st cst. agent_main FollowSharp sample_agent_io sample_poll_config 4 0 \<noteq> Return (False, steps, st) \<and>
     coordinator_main sample_agent_io sample_coordinator_config 4 0 \<noteq> Return (False, steps, cst)"
  by (intro allI arena_loops_end) (simp_all add: sample_poll_config_def sample_coordinator_config_def)

end
