(* ===== verification/E2e_Harness.thy ===== *)
theory E2e_Harness
  imports Delegation Arena
begin

text \<open>
  The integration harness \<open>crates/coral-e2e\<close>: against a running coral-server it creates a session
  and a thread, asks the proof guard about a fixed wager and checks the verdict. The network and
  the clock are the world of the desk's bus client, \<open>serde_json\<close>'s conversions of a wager are
  \<open>ser\<close> and \<open>parse\<close>; what it prints is left out. Its property composes it with the model of the agent it
  talks to.
\<close>

section \<open>Configuration\<close>

record e2e_config =
  ee_base :: string
  ee_token :: string
  ee_namespace :: string
  ee_timeout_secs :: u64

definition e2e_config_from_env :: "env \<Rightarrow> e2e_config" where
  "e2e_config_from_env env =
     \<lparr>ee_base = trim_end_char (CHR ''/'') (env_or env ''CORALOS_SERVER_URL'' ''http://localhost:5555''),
      ee_token = env_or env ''CORAL_TOKEN'' ''dev'', ee_namespace = env_or env ''CORALOS_NAMESPACE'' ''default'',
      ee_timeout_secs = env_parse env parse_u64 ''E2E_TIMEOUT_SECS'' 180\<rparr>"

definition e2e_agents :: "string list" where
  "e2e_agents = [''match-intelligence-agent'', ''proof-guard-agent'', ''settlement-agent'', ''sharp-movement-detector'',
     ''fan-pundit-agent'', ''user-proxy'']"

definition e2e_orchestrator :: string where "e2e_orchestrator = ''match-intelligence-agent''"
definition e2e_proof_guard :: string where "e2e_proof_guard = ''proof-guard-agent''"
definition e2e_wager_id :: string where "e2e_wager_id = ''w-e2e-1''"

definition e2e_wager :: wager where
  "e2e_wager = \<lparr>w_wager_id = e2e_wager_id, w_fixture_id = 42, w_selection = Home, w_model_prob = lit (55/100),
     w_market_implied = lit (1/2), w_edge = lit (5/100), w_fair_odds = fdiv (lit 1) (lit (55/100)),
     w_stake_sol = lit (1/100), w_thesis = ''e2e harness wager'', w_proof_ref = Some ''txoracle:e2e-deadbeef'',
     w_status = Debated, w_debate = None, w_created_at = ''2026-07-11T00:00:00Z''\<rparr>"

section \<open>The HTTP surface\<close>

definition e2e_truncate :: "string \<Rightarrow> string" where "e2e_truncate body = take_chars 280 body"

definition e2e_request :: "e2e_config \<Rightarrow> string \<Rightarrow> json option \<Rightarrow> http_request" where
  "e2e_request cfg path body =
     \<lparr>hq_post = (body \<noteq> None), hq_url = ee_base cfg @ path, hq_token = ee_token cfg, hq_body = body\<rparr>"

definition e2e_failure :: "'w io \<Rightarrow> string \<Rightarrow> http_response \<Rightarrow> string \<Rightarrow> string" where
  "e2e_failure io what r body = what @ '' HTTP '' @ io_show_status io (hs_status r) @ '': '' @ e2e_truncate body"

definition e2e_read_id ::
    "'w io \<Rightarrow> string \<Rightarrow> (json \<Rightarrow> json option) \<Rightarrow> string \<Rightarrow> http_response \<Rightarrow> string + string" where
  "e2e_read_id io what pick missing r =
     (case hs_text r of Inl e \<Rightarrow> Inl e
      | Inr body \<Rightarrow>
          if \<not> is_success r then Inl (e2e_failure io what r body)
          else case io_parse io body of Inl e \<Rightarrow> Inl e
          | Inr v \<Rightarrow> (case Option.bind (pick v) as_str of
              None \<Rightarrow> Inl (missing @ e2e_truncate body) | Some i \<Rightarrow> Inr i))"

definition e2e_graph_entry :: "string \<Rightarrow> json" where
  "e2e_graph_entry name = JObj
     [(''id'', JObj [(''name'', JStr name), (''version'', JStr ''0.1.0''),
         (''registrySourceId'', JObj [(''type'', JStr ''local'')])]),
      (''name'', JStr name),
      (''provider'', JObj [(''type'', JStr ''local''), (''runtime'', JStr ''docker'')]),
      (''options'', JObj [(''AGENT_NAME'', JObj [(''type'', JStr ''string''), (''value'', JStr name)])])]"

definition e2e_create_session :: "'w io \<Rightarrow> e2e_config \<Rightarrow> 'w \<Rightarrow> (string + string) \<times> 'w" where
  "e2e_create_session io cfg w =
     (case io_http io (e2e_request cfg ''/api/v1/local/session'' (Some (JObj
        [(''agentGraphRequest'', JObj [(''agents'', JArr (map e2e_graph_entry e2e_agents))]),
         (''namespaceProvider'', JObj [(''type'', JStr ''create_if_not_exists''),
            (''namespaceRequest'', JObj [(''name'', JStr (ee_namespace cfg))])]),
         (''execution'', JObj [(''mode'', JStr ''immediate'')])]))) w of
        (Inl e, w1) \<Rightarrow> (Inl (''create session: '' @ e), w1)
      | (Inr r, w1) \<Rightarrow> (e2e_read_id io ''create session'' (\<lambda>v. opt_or (jget v ''sessionId'') (jget v ''id''))
          ''session response had no sessionId: '' r, w1))"

definition e2e_puppet :: "e2e_config \<Rightarrow> string \<Rightarrow> string" where
  "e2e_puppet cfg sid = ''/api/v1/puppet/'' @ ee_namespace cfg @ ''/'' @ sid @ ''/'' @ e2e_orchestrator"

definition e2e_create_thread :: "'w io \<Rightarrow> e2e_config \<Rightarrow> string \<Rightarrow> 'w \<Rightarrow> (string + string) \<times> 'w" where
  "e2e_create_thread io cfg sid w =
     (case io_http io (e2e_request cfg (e2e_puppet cfg sid @ ''/thread'') (Some (JObj
        [(''threadName'', JStr ''coral-e2e-proof-guard''), (''participantNames'', JArr (map JStr e2e_agents))]))) w of
        (Inl e, w1) \<Rightarrow> (Inl (''create thread: '' @ e), w1)
      | (Inr r, w1) \<Rightarrow> (e2e_read_id io ''create thread''
          (\<lambda>v. opt_or (jpointer v [''thread'', ''id'']) (opt_or (jget v ''threadId'') (jget v ''id'')))
          ''thread response had no id: '' r, w1))"

definition e2e_send_message ::
    "'w io \<Rightarrow> e2e_config \<Rightarrow> string \<Rightarrow> string \<Rightarrow> string \<Rightarrow> string list \<Rightarrow> 'w \<Rightarrow> (string + unit) \<times> 'w" where
  "e2e_send_message io cfg sid tid content mentions w =
     (case io_http io (e2e_request cfg (e2e_puppet cfg sid @ ''/thread/message'') (Some (JObj
        [(''threadId'', JStr tid), (''content'', JStr content), (''mentions'', JArr (map JStr mentions))]))) w of
        (Inl e, w1) \<Rightarrow> (Inl (''send message: '' @ e), w1)
      | (Inr r, w1) \<Rightarrow>
          (if is_success r then Inr ()
           else Inl (e2e_failure io ''send message'' r (case hs_text r of Inl _ \<Rightarrow> [] | Inr b \<Rightarrow> b)), w1))"

definition e2e_poll_once :: "'w io \<Rightarrow> e2e_config \<Rightarrow> string \<Rightarrow> string \<Rightarrow> 'w \<Rightarrow> string option \<times> 'w" where
  "e2e_poll_once io cfg sid needle w =
     (case io_http io (e2e_request cfg (''/api/v1/local/session/'' @ ee_namespace cfg @ ''/'' @ sid @ ''/extended'') None) w of
        (Inl _, w1) \<Rightarrow> (None, w1)
      | (Inr r, w1) \<Rightarrow>
          (if \<not> is_success r then None
           else case hs_text r of Inl _ \<Rightarrow> None
           | Inr body \<Rightarrow> (case io_parse io body of Inl _ \<Rightarrow> None
             | Inr v \<Rightarrow> find_map (match_message e2e_proof_guard ''WAGER_PROOF_VERDICT'' needle) (messages_of v)), w1))"

definition e2e_wait_for_verdict :: "'w io \<Rightarrow> e2e_config \<Rightarrow> string \<Rightarrow> 'w \<Rightarrow> (string option \<times> 'w) option" where
  "e2e_wait_for_verdict io cfg sid w =
     poll_until (e2e_poll_once io cfg sid (''wagerId='' @ e2e_wager_id)) (io_now io) (io_sleep io 1500)
       (io_now io w + unat (ee_timeout_secs cfg) * 1000) w"

section \<open>The run\<close>

definition e2e_content :: "string \<Rightarrow> string" where
  "e2e_content wager_json = ''WAGER_PROOF_REQUESTED round=1 wagerId='' @ e2e_wager_id @ '' wager='' @ wager_json"

definition e2e_delegate ::
    "'w io \<Rightarrow> (wager \<Rightarrow> string + string) \<Rightarrow> e2e_config \<Rightarrow> 'w \<Rightarrow> (string + string) \<times> 'w" where
  \<comment> \<open>up to the message: the session it went to\<close>
  "e2e_delegate io ser cfg w =
     (case e2e_create_session io cfg w of
        (Inl e, w1) \<Rightarrow> (Inl e, w1)
      | (Inr sid, w1) \<Rightarrow>
     (case e2e_create_thread io cfg sid w1 of
        (Inl e, w2) \<Rightarrow> (Inl e, w2)
      | (Inr tid, w2) \<Rightarrow>
     (case ser e2e_wager of
        Inl e \<Rightarrow> (Inl (''serialize wager: '' @ e), w2)
      | Inr j \<Rightarrow>
     (case e2e_send_message io cfg sid tid (e2e_content j) [e2e_proof_guard] w2 of
        (Inl e, w3) \<Rightarrow> (Inl e, w3)
      | (Inr _, w3) \<Rightarrow> (Inr sid, w3)))))"

definition e2e_check :: "(string \<Rightarrow> wager option) \<Rightarrow> string \<Rightarrow> string \<Rightarrow> string + string" where
  "e2e_check parse sid reply =
     (if tok reply ''passed'' \<noteq> Some ''true'' then Inl (''verdict arrived but passed!=true: '' @ reply)
      else case Option.bind (json_val reply ''wager'') parse of
        None \<Rightarrow> Inl (''verdict wager= payload did not parse: '' @ reply)
      | Some w \<Rightarrow>
          if w_wager_id w \<noteq> e2e_wager_id
          then Inl (''verdict round-tripped the wrong wager ('' @ w_wager_id w @ ''): '' @ reply)
          else Inr (''real '' @ e2e_proof_guard @ '' verdict received on session '' @ sid @ '': passed=true, status=''
            @ debug_status (w_status w) @ '' '' @ ch_dash @ '' CoralOS/Docker runtime verified end-to-end''))"

definition e2e_run ::
    "'w io \<Rightarrow> (wager \<Rightarrow> string + string) \<Rightarrow> (string \<Rightarrow> wager option) \<Rightarrow> string \<Rightarrow> e2e_config \<Rightarrow> 'w
       \<Rightarrow> ((string + string) \<times> 'w) option" where
  \<comment> \<open>\<open>silent\<close>: the text for a missing verdict\<close>
  "e2e_run io ser parse silent cfg w =
     (case e2e_delegate io ser cfg w of
        (Inl e, w1) \<Rightarrow> Some (Inl e, w1)
      | (Inr sid, w1) \<Rightarrow>
          map_option (\<lambda>(reply, w2). (case reply of None \<Rightarrow> Inl silent | Some t \<Rightarrow> e2e_check parse sid t, w2))
            (e2e_wait_for_verdict io cfg sid w1))"

section \<open>The harness and the agent\<close>

lemma e2e_agents_in_sync: "e2e_agents = all_agents"
  by (simp add: e2e_agents_def all_agents_def match_intelligence_def proof_guard_agent_def settlement_agent_def
      sharp_movement_detector_def fan_pundit_agent_def user_proxy_def)

lemma e2e_words:
  "list_all word_char ''WAGER_PROOF_REQUESTED''" "list_all word_char ''WAGER_PROOF_VERDICT''" "list_all word_char ''round=1''"
  "list_all word_char ''wagerId=w-e2e-1''" "list_all word_char ''passed=true''"
  "to_ascii_uppercase ''WAGER_PROOF_REQUESTED'' = ''WAGER_PROOF_REQUESTED''"
  "parse_f64 ''1'' = Some (lit 1)" "f64_as_u64 (lit 1) = 1"
  "find_sub ''wager='' ''WAGER_PROOF_REQUESTED round=1 wagerId=w-e2e-1 '' = None"
  "find_sub ''wager='' ''WAGER_PROOF_VERDICT round=1 wagerId=w-e2e-1 passed=true '' = None"
  by code_simp+

lemma e2e_round: "show_u64 1 = ''1''" by code_simp

lemma e2e_request_read:
  assumes "container j"
  shows "wire_verb (e2e_content j) = ''WAGER_PROOF_REQUESTED''" "num (e2e_content j) ''round'' = Some (lit 1)"
    "json_val (e2e_content j) ''wager'' = Some j"
proof -
  have eq: "e2e_content j = ''WAGER_PROOF_REQUESTED'' @ CHR '' '' # ''round=1'' @ CHR '' '' # ''wagerId=w-e2e-1 wager='' @ j"
    by (simp add: e2e_content_def e2e_wager_id_def)
  show "wire_verb (e2e_content j) = ''WAGER_PROOF_REQUESTED''"
    unfolding eq using wire_verb_word [OF e2e_words(1)] e2e_words(6) by simp
  have "tok (e2e_content j) ''round'' = Some ''1''"
    unfolding eq using tok_word [OF e2e_words(1)] tok_word [OF e2e_words(3)] by (simp add: strip_prefix_def)
  then show "num (e2e_content j) ''round'' = Some (lit 1)" by (simp add: num_def e2e_words(7))
  have "at_word_start (''WAGER_PROOF_REQUESTED round=1 wagerId=w-e2e-1'' @ '' '')" by (rule at_word_start_space)
  then have "json_val (''WAGER_PROOF_REQUESTED round=1 wagerId=w-e2e-1 '' @ ''wager'' @ ''='' @ j @ []) ''wager'' = Some j"
    using assms e2e_words(9) by (intro json_val_extract) simp_all
  then show "json_val (e2e_content j) ''wager'' = Some j" by (simp add: e2e_content_def e2e_wager_id_def)
qed

definition e2e_verdict :: "string \<Rightarrow> string" where
  "e2e_verdict j = ''WAGER_PROOF_VERDICT round=1 wagerId=w-e2e-1 passed=true wager='' @ j"

lemma e2e_verdict_read:
  assumes "container j"
  shows "tok (e2e_verdict j) ''passed'' = Some ''true''" "json_val (e2e_verdict j) ''wager'' = Some j"
proof -
  have eq: "e2e_verdict j = ''WAGER_PROOF_VERDICT'' @ CHR '' '' # ''round=1'' @ CHR '' '' # ''wagerId=w-e2e-1'' @ CHR '' ''
      # ''passed=true'' @ CHR '' '' # ''wager='' @ j"
    by (simp add: e2e_verdict_def)
  show "tok (e2e_verdict j) ''passed'' = Some ''true''"
    unfolding eq using tok_word [OF e2e_words(2)] tok_word [OF e2e_words(3)] tok_word [OF e2e_words(4)] tok_word [OF e2e_words(5)]
    by (simp add: strip_prefix_def)
  have "at_word_start (''WAGER_PROOF_VERDICT round=1 wagerId=w-e2e-1 passed=true'' @ '' '')" by (rule at_word_start_space)
  then have "json_val (''WAGER_PROOF_VERDICT round=1 wagerId=w-e2e-1 passed=true '' @ ''wager'' @ ''='' @ j @ []) ''wager'' = Some j"
    using assms e2e_words(10) by (intro json_val_extract) simp_all
  then show "json_val (e2e_verdict j) ''wager'' = Some j" by (simp add: e2e_verdict_def)
qed

lemma e2e_wager_model: "check_model_prob e2e_wager = []" by code_simp
lemma e2e_wager_edge: "check_edge e2e_wager default_config = []" by code_simp
lemma e2e_wager_odds: "check_fair_odds e2e_wager default_config = []" by code_simp
lemma e2e_wager_stake: "check_stake e2e_wager = []" by code_simp
lemma e2e_wager_risk: "\<not> fle (w_stake_sol e2e_wager) (lit 0)" by code_simp
lemma e2e_wager_ref: "is_valid_proof_ref ''txoracle:e2e-deadbeef''" by code_simp
lemma e2e_wager_short: "shorten ''txoracle:e2e-deadbeef'' = Return (''txoracle:e2e'' @ ch_ellipsis @ ''beef'')" by code_simp

lemmas e2e_wager_checks = e2e_wager_model e2e_wager_edge e2e_wager_odds e2e_wager_stake e2e_wager_ref

lemma e2e_wager_passes:
  obtains v where "verify uni e2e_wager (w_proof_ref e2e_wager) default_config = Return v" "gv_passed v"
    "w_wager_id (gv_wager v) = e2e_wager_id" "w_status (gv_wager v) = ProofPassed"
proof -
  have r: "w_proof_ref e2e_wager = Some ''txoracle:e2e-deadbeef''" and "w_status e2e_wager \<noteq> NoBet"
    and i: "w_wager_id e2e_wager = e2e_wager_id" by (simp_all add: e2e_wager_def)
  moreover have "run_checks uni e2e_wager (Some ''txoracle:e2e-deadbeef'') default_config = Return []"
    by (simp add: run_checks_def check_proof_def e2e_wager_checks)
  ultimately show ?thesis using that e2e_wager_risk e2e_wager_short by (simp add: verify_def)
qed

definition e2e_mention :: "string option \<Rightarrow> string option \<Rightarrow> string \<Rightarrow> coral_mention" where
  "e2e_mention th sender j = \<lparr>cm_thread_id = th, cm_sender = sender, cm_text = e2e_content j\<rparr>"

definition e2e_bus_message :: "string \<Rightarrow> json" where
  "e2e_bus_message reply = JObj [(''sender'', JStr e2e_proof_guard), (''text'', JStr reply)]"

lemma guard_answers_harness:
  assumes "container j" and "parse j = Some e2e_wager"
    and v: "verify uni e2e_wager (w_proof_ref e2e_wager) default_config = Return v"
    "gv_passed v" "w_wager_id (gv_wager v) = e2e_wager_id"
  shows "proof_guard_handle uni parse print default_config (e2e_mention th sender j) = Return (e2e_verdict (print (gv_wager v)))"
  using assms e2e_request_read [OF assms(1)]
  by (simp add: proof_guard_handle_def e2e_mention_def e2e_words(8) [simplified] e2e_round e2e_verdict_def e2e_wager_id_def show_bool_def)

lemma harness_finds_verdict:
  "match_message e2e_proof_guard ''WAGER_PROOF_VERDICT'' (''wagerId='' @ e2e_wager_id) (e2e_bus_message (e2e_verdict j))
     = Some (e2e_verdict j)"
proof -
  have "contains_sub (''WAGER_PROOF_VERDICT round=1 '' @ (''wagerId='' @ e2e_wager_id) @ s) (''wagerId='' @ e2e_wager_id)" for s
    by (rule contains_sub_mid)
  from this [of "'' passed=true wager='' @ j"] show ?thesis
    by (simp add: match_message_def e2e_bus_message_def str_field_def e2e_verdict_def e2e_wager_id_def)
qed

text \<open>
  C39: the harness and the agent it tests agree, provided the JSON of the two wagers reads back. The
  proof guard's answer to the request of the harness is a verdict the harness recognises on the
  bus, and when its wait ends with that answer the run passes and reports \<open>ProofPassed\<close>: the fixed wager
  meets all five checks of the guard, in binary arithmetic.
\<close>
theorem harness_passes_on_guard:
  assumes "ser e2e_wager = Inr j" and "container j" and "parse j = Some e2e_wager"
    and "\<And>v. verify uni e2e_wager (w_proof_ref e2e_wager) default_config = Return v
      \<Longrightarrow> container (print (gv_wager v)) \<and> parse (print (gv_wager v)) = Some (gv_wager v)"
  shows "\<exists>reply. proof_guard_handle uni parse print default_config (e2e_mention th sender j) = Return reply
    \<and> match_message e2e_proof_guard ''WAGER_PROOF_VERDICT'' (''wagerId='' @ e2e_wager_id) (e2e_bus_message reply) = Some reply
    \<and> (e2e_delegate io ser cfg w = (Inr sid, w1) \<longrightarrow> e2e_wait_for_verdict io cfg sid w1 = Some (Some reply, w2)
       \<longrightarrow> e2e_run io ser parse silent cfg w = Some (Inr
          (''real '' @ e2e_proof_guard @ '' verdict received on session '' @ sid @ '': passed=true, status=ProofPassed ''
            @ ch_dash @ '' CoralOS/Docker runtime verified end-to-end''), w2))"
proof -
  obtain v where v: "verify uni e2e_wager (w_proof_ref e2e_wager) default_config = Return v" "gv_passed v"
    "w_wager_id (gv_wager v) = e2e_wager_id" "w_status (gv_wager v) = ProofPassed" by (rule e2e_wager_passes)
  let ?reply = "e2e_verdict (print (gv_wager v))"
  have "proof_guard_handle uni parse print default_config (e2e_mention th sender j) = Return ?reply"
    using guard_answers_harness [where print = print and parse = parse and j = j and uni = uni] assms(2,3) v(1-3) by blast
  moreover have "e2e_check parse sid ?reply = Inr (''real '' @ e2e_proof_guard @ '' verdict received on session '' @ sid
      @ '': passed=true, status=ProofPassed '' @ ch_dash @ '' CoralOS/Docker runtime verified end-to-end'')"
    using assms(4) [OF v(1)] e2e_verdict_read [of "print (gv_wager v)"] v(3,4) by (simp add: e2e_check_def debug_status_def)
  ultimately show ?thesis using harness_finds_verdict by (simp add: e2e_run_def)
qed

section \<open>A small bus\<close>

definition sample_verified :: wager where
  "sample_verified = (case verify id e2e_wager (w_proof_ref e2e_wager) default_config of Return v \<Rightarrow> gv_wager v | Panic \<Rightarrow> e2e_wager)"

definition sample_read :: "string \<Rightarrow> wager option" where
  "sample_read t = (if t = ''{}'' then Some e2e_wager else if t = ''[]'' then Some sample_verified else None)"

definition sample_bus :: "unit io" where
  \<comment> \<open>a server that answers every request with one document, which holds the verdict\<close>
  "sample_bus = \<lparr>io_http = (\<lambda>_ w. (Inr \<lparr>hs_status = 200, hs_text = Inr ''d''\<rparr>, w)),
     io_parse = (\<lambda>_. Inr (JObj [(''sessionId'', JStr ''s''), (''threadId'', JStr ''t''),
       (''threads'', JArr [JObj [(''messages'', JArr [e2e_bus_message (e2e_verdict ''[]'')])]])])),
     io_show_status = (\<lambda>_. []), io_now = (\<lambda>_. 0), io_sleep = (\<lambda>_ w. w), io_uuid = Pair [], io_now_iso = Pair []\<rparr>"

lemma sample_container: "container ''[]''"
  unfolding container_def by (intro exI [of _ "CHR ''[''"] exI [of _ "[]"] exI [of _ "CHR '']''"])
    (simp add: open_bracket_def close_bracket_def bal_Nil)

lemma sample_wait: "e2e_wait_for_verdict sample_bus cfg ''s'' () = Some (Some (e2e_verdict ''[]''), ())"
  using harness_finds_verdict [of "''[]''"] unfolding e2e_wait_for_verdict_def
  by (subst poll_until.simps)
    (simp add: e2e_poll_once_def sample_bus_def is_success_def messages_of_def map_filter_def find_map_Some)

lemma sample_delegate: "e2e_delegate sample_bus (\<lambda>_. Inr ''{}'') cfg () = (Inr ''s'', ())"
  by (simp add: e2e_delegate_def e2e_create_session_def e2e_create_thread_def e2e_send_message_def e2e_read_id_def
      sample_bus_def is_success_def)

theorem harness_passes_on_guard_witness:
  "\<exists>summary. e2e_run sample_bus (\<lambda>_. Inr ''{}'') sample_read [] \<lparr>ee_base = [], ee_token = [], ee_namespace = [], ee_timeout_secs = 180\<rparr> ()
     = Some (Inr summary, ())"
proof -
  let ?cfg = "\<lparr>ee_base = [], ee_token = [], ee_namespace = [], ee_timeout_secs = 180\<rparr>"
  have read: "sample_read ''{}'' = Some e2e_wager" by (simp add: sample_read_def)
  have print: "container ''[]'' \<and> sample_read ''[]'' = Some (gv_wager v)"
    if "verify id e2e_wager (w_proof_ref e2e_wager) default_config = Return v" for v
    using that sample_container by (simp add: sample_read_def sample_verified_def)
  obtain v where v: "verify id e2e_wager (w_proof_ref e2e_wager) default_config = Return v" "gv_passed v"
    "w_wager_id (gv_wager v) = e2e_wager_id" by (rule e2e_wager_passes)
  have reply: "proof_guard_handle id sample_read (\<lambda>_. ''[]'') default_config (e2e_mention None None ''{}'') = Return (e2e_verdict ''[]'')"
    using guard_answers_harness [where print = "\<lambda>_. ''[]''" and j = "''{}''" and v = v] container_empty read v by blast
  show ?thesis
    using harness_passes_on_guard [where ser = "\<lambda>_. Inr ''{}''" and uni = id and j = "''{}''" and parse = sample_read
        and print = "\<lambda>_. ''[]''" and io = sample_bus and cfg = ?cfg and th = None and sender = None and silent = "[]"
        and ?w1.0 = "()" and ?w2.0 = "()" and w = "()" and sid = "''s''", OF refl container_empty read print]
      sample_wait sample_delegate reply by auto
qed

end
