(* ===== verification/Sidecar_Process.thy ===== *)
theory Sidecar_Process
  imports Json_Value
begin

text \<open>
  A sidecar process asked one question: \<open>invoke_sidecar\<close> of \<open>services/proof/validation.rs\<close> and of
  \<open>services/coral/settlement.rs\<close> are the same code but for the limit. The process is the record
  \<open>child_env\<close>, whose operations may never return; the exchange then is \<open>None\<close>. The
  lemmas say when this happens: the limit covers the wait for the answer only, neither the writes
  before it nor the wait for the exit after it.
\<close>

section \<open>The binary\<close>

text \<open>
  \<open>Path::parent\<close> and \<open>Path::join\<close>, on paths that are written with single slashes and
  without \<open>.\<close> components.
\<close>

definition parent_dir :: "string \<Rightarrow> string option" where
  "parent_dir p =
     (if p = [] \<or> p = ''/'' then None
      else let r = rev (dropWhile ((\<noteq>) (CHR ''/'')) (rev p))
           in Some (if r = ''/'' then r else rev (dropWhile ((=) (CHR ''/'')) (rev r))))"

definition join_path :: "string \<Rightarrow> string \<Rightarrow> string" where
  "join_path dir name = (if dir = [] \<or> last dir = CHR ''/'' then dir @ name else dir @ ''/'' @ name)"

definition resolve_node_bin :: "string option \<Rightarrow> (string \<Rightarrow> bool) \<Rightarrow> string \<Rightarrow> string" where
  "resolve_node_bin node_bin exists_path sidecar =
     (case node_bin of
        Some p \<Rightarrow> p
      | None \<Rightarrow>
          let bundled = (\<lambda>d. join_path (join_path d ''bin'') ''node.exe'');
              dirs = (case parent_dir sidecar of None \<Rightarrow> []
                      | Some d \<Rightarrow> d # (case parent_dir d of None \<Rightarrow> [] | Some d1 \<Rightarrow> [d1]))
          in unwrap_or ''node'' (find exists_path (map bundled dirs)))"

section \<open>The exchange\<close>

datatype sidecar_io =
    SpawnFailed string | NoStdin | NoStdout | WriteFailed string | TimedOut | ReadFailed string | NoLine
  | Line string

text \<open>
  \<open>ch_spawn\<close> gives the pipes there are (input, output); \<open>ch_write\<close> is \<open>None\<close> when the process never reads
  what is written and the pipe stays full; \<open>ch_next_line\<close> gives the next line (no line at the end of the
  output) after so many milliseconds, and is \<open>None\<close> when the process stays silent; \<open>ch_elapse\<close> is the world
  after waiting so long in vain; \<open>ch_exit\<close> is \<open>None\<close> when the process never exits.
\<close>

record 'w child_env =
  ch_spawn :: "string \<Rightarrow> string \<Rightarrow> 'w \<Rightarrow> (string + bool \<times> bool) \<times> 'w"
  ch_write :: "string \<Rightarrow> 'w \<Rightarrow> ((string + unit) \<times> 'w) option"
  ch_close :: "'w \<Rightarrow> 'w"
  ch_next_line :: "'w \<Rightarrow> ((string + string option) \<times> nat \<times> 'w) option"
  ch_elapse :: "nat \<Rightarrow> 'w \<Rightarrow> 'w"
  ch_exit :: "'w \<Rightarrow> 'w option"

definition time_limited :: "nat \<Rightarrow> (nat \<Rightarrow> 'w \<Rightarrow> 'w) \<Rightarrow> ('w \<Rightarrow> ('a \<times> nat \<times> 'w) option) \<Rightarrow> 'w \<Rightarrow> ('a option \<times> 'w) option" where
  \<comment> \<open>\<open>tokio::time::timeout\<close>: always an answer, \<open>None\<close> inside it when the limit was reached\<close>
  "time_limited limit elapse fut w =
     (case fut w of
        None \<Rightarrow> Some (None, elapse limit w)
      | Some (x, ms, w1) \<Rightarrow> if ms \<le> limit then Some (Some x, w1) else Some (None, elapse limit w))"

definition write_line :: "'w child_env \<Rightarrow> string \<Rightarrow> 'w \<Rightarrow> ((string + unit) \<times> 'w) option" where
  "write_line ch line w =
     (case ch_write ch line w of
        Some (Inr _, w1) \<Rightarrow> ch_write ch [CHR 0x0A] w1
      | r \<Rightarrow> r)"

definition child_exchange ::
    "'w child_env \<Rightarrow> nat \<Rightarrow> string \<Rightarrow> string \<Rightarrow> string \<Rightarrow> 'w \<Rightarrow> (sidecar_io \<times> 'w) option" where
  "child_exchange ch limit node script line w =
     (case ch_spawn ch node script w of
        (Inl e, w1) \<Rightarrow> Some (SpawnFailed e, w1)
      | (Inr (stdin, stdout), w1) \<Rightarrow>
          if \<not> stdin then Some (NoStdin, w1)
          else if \<not> stdout then Some (NoStdout, w1)
          else case write_line ch line w1 of
            None \<Rightarrow> None
          | Some (Inl e, w2) \<Rightarrow> Some (WriteFailed e, w2)
          | Some (Inr _, w2) \<Rightarrow>
              (case time_limited limit (ch_elapse ch) (ch_next_line ch) (ch_close ch w2) of
                 None \<Rightarrow> None
               | Some (None, w3) \<Rightarrow> Some (TimedOut, w3)
               | Some (Some (Inl e), w3) \<Rightarrow> Some (ReadFailed e, w3)
               | Some (Some (Inr None), w3) \<Rightarrow> Some (NoLine, w3)
               | Some (Some (Inr (Some l)), w3) \<Rightarrow> map_option (Pair (Line l)) (ch_exit ch w3)))"

section \<open>When it does not return\<close>

definition child_hangs :: "'w child_env \<Rightarrow> nat \<Rightarrow> string \<Rightarrow> string \<Rightarrow> string \<Rightarrow> 'w \<Rightarrow> bool" where
  \<comment> \<open>a started process never takes the request, or answers it in time and then never exits\<close>
  "child_hangs ch limit node script line w \<longleftrightarrow>
     (\<exists>w1. ch_spawn ch node script w = (Inr (True, True), w1)
        \<and> (write_line ch line w1 = None
           \<or> (\<exists>w2 l ms w3. write_line ch line w1 = Some (Inr (), w2)
                \<and> ch_next_line ch (ch_close ch w2) = Some (Inr (Some l), ms, w3) \<and> ms \<le> limit \<and> ch_exit ch w3 = None)))"

lemma child_exchange_None_iff: "child_exchange ch limit node script line w = None \<longleftrightarrow> child_hangs ch limit node script line w"
proof -
  obtain s w1 where s: "ch_spawn ch node script w = (s, w1)" by (metis surj_pair)
  show ?thesis
  proof (cases "s = Inr (True, True)")
    case False
    then show ?thesis using s by (auto simp: child_exchange_def child_hangs_def split: sum.splits)
  next
    case True
    show ?thesis
    proof (cases "\<exists>w2. write_line ch line w1 = Some (Inr (), w2)")
      case False
      then show ?thesis using s True by (auto simp: child_exchange_def child_hangs_def split: option.splits sum.splits)
    next
      case True2: True
      then obtain w2 where w2: "write_line ch line w1 = Some (Inr (), w2)" by blast
      then show ?thesis using s True
        by (auto simp: child_exchange_def child_hangs_def time_limited_def split: option.splits sum.splits if_splits)
    qed
  qed
qed

text \<open>A process that stays silent is given up after the limit, whatever it does afterwards.\<close>

lemma silent_child_times_out:
  assumes "ch_spawn ch node script w = (Inr (True, True), w1)" and "write_line ch line w1 = Some (Inr (), w2)"
    and "ch_next_line ch (ch_close ch w2) = None"
  shows "child_exchange ch limit node script line w = Some (TimedOut, ch_elapse ch limit (ch_close ch w2))"
  using assms by (simp add: child_exchange_def time_limited_def)

lemma child_exchange_Line:
  assumes "child_exchange ch limit node script line w = Some (Line l, w')"
  shows "\<exists>w1 w2 ms w3. ch_spawn ch node script w = (Inr (True, True), w1) \<and> write_line ch line w1 = Some (Inr (), w2)
    \<and> ch_next_line ch (ch_close ch w2) = Some (Inr (Some l), ms, w3) \<and> ms \<le> limit \<and> ch_exit ch w3 = Some w'"
  using assms by (auto simp: child_exchange_def time_limited_def split: prod.splits sum.splits option.splits if_splits)

section \<open>A process that answers\<close>

definition answering_child :: "string \<Rightarrow> 'w child_env" where
  "answering_child l = \<lparr>ch_spawn = (\<lambda>_ _ w. (Inr (True, True), w)), ch_write = (\<lambda>_ w. Some (Inr (), w)), ch_close = id,
     ch_next_line = (\<lambda>w. Some (Inr (Some l), 10, w)), ch_elapse = (\<lambda>_ w. w), ch_exit = Some\<rparr>"

definition silent_child :: "'w child_env" where
  "silent_child = (answering_child [])\<lparr>ch_next_line := (\<lambda>_. None), ch_exit := (\<lambda>_. None)\<rparr>"

definition lingering_child :: "string \<Rightarrow> 'w child_env" where
  "lingering_child l = (answering_child l)\<lparr>ch_exit := (\<lambda>_. None)\<rparr>"

lemma answering_child_Line: "10 \<le> limit \<Longrightarrow> child_exchange (answering_child l) limit node script line w = Some (Line l, w)"
  by (simp add: child_exchange_def answering_child_def write_line_def time_limited_def)

text \<open>
  The wait for the exit has no limit: a sidecar that answers and keeps running, as one with an open
  socket does, holds its caller for ever, while the same sidecar without an answer is given up.
\<close>

lemma lingering_child_hangs:
  "10 \<le> limit \<Longrightarrow> child_exchange (lingering_child l) limit node script line w = None"
  "child_exchange silent_child limit node script line w = Some (TimedOut, w)"
  by (simp_all add: child_exchange_def lingering_child_def silent_child_def answering_child_def write_line_def time_limited_def)

end
