(* ===== verification/Validation.thy ===== *)
theory Validation
  imports Policy Txline Sidecar_Process
begin

text \<open>
  \<open>services/proof/validation.rs\<close>: the receipt of a run, from the proof attached to its event or
  fetched from TxLINE, through the read-only validation sidecar. The file system, the network and
  the sidecar process (a \<open>child_env\<close>) are the record \<open>validation_env\<close> over a world \<open>'w\<close>; so are the
  JSON codecs. A request is \<open>None\<close> when it never returns, which only the sidecar can cause: the
  client of the HTTP requests gives up after ten seconds (\<open>lib.rs\<close>).
\<close>

section \<open>The outside\<close>

record sidecar_response =
  sc_ok :: bool
  sc_status :: simulation_status
  sc_verified :: "bool option"
  sc_reason :: "string option"
  sc_method :: "string option"
  sc_program_id :: "string option"
  sc_root_pda :: "string option"
  sc_root_present :: "bool option"
  sc_root_observed_slot :: "u64 option"
  sc_proof_present :: "bool option"
  sc_epoch_day :: "u32 option"
  sc_txline_ts :: "string option"
  sc_merkle_root :: "string option"
  sc_stat_proof_hash :: "string option"
  sc_raw :: "json option"

record 'w validation_env =
  ve_post :: "string \<Rightarrow> 'w \<Rightarrow> (string + data_answer) \<times> 'w"
  ve_get :: "string \<Rightarrow> string \<Rightarrow> string \<Rightarrow> (string \<times> string) list \<Rightarrow> 'w \<Rightarrow> (string + data_answer) \<times> 'w"
  ve_exists :: "string \<Rightarrow> 'w \<Rightarrow> bool"
  ve_child :: "'w child_env"
  ve_node_bin :: "string option"
  ve_sidecar_path :: string
  ve_idl_dir :: string
  ve_render :: "json \<Rightarrow> string"
  ve_parse :: "string \<Rightarrow> string + sidecar_response"
  ve_timestamp :: "string \<Rightarrow> int option"

section \<open>Statistic keys\<close>

definition preferred_stat_keys :: "agent_run \<Rightarrow> string list" where
  "preferred_stat_keys run =
     (let ev = run_trigger run in
      if ev_stat_keys ev \<noteq> [] then ev_stat_keys ev
      else case ev_proof ev of None \<Rightarrow> [] | Some p \<Rightarrow> pr_stat_keys p)"

definition push_numeric_key :: "string \<Rightarrow> string list \<Rightarrow> string list" where
  "push_numeric_key v keys =
     (let t = trim v in if t \<noteq> [] \<and> parse_u64 t \<noteq> None then keys @ [t] else keys)"

text \<open>
  A JSON number is written back as text: a number that is not an integer has a point or an
  exponent and so is never a key.
\<close>

definition push_item :: "json \<Rightarrow> string list \<Rightarrow> string list" where
  "push_item v keys = (case v of
     JInt n \<Rightarrow> push_numeric_key (show_int n) keys | JStr s \<Rightarrow> push_numeric_key s keys | _ \<Rightarrow> keys)"

definition key_fields :: "string list" where
  "key_fields = [''statKey'', ''stat_key'', ''StatKey'', ''statKeys'', ''stat_keys'', ''StatKeys'']"

definition collect_field :: "json \<Rightarrow> string \<Rightarrow> string list \<Rightarrow> string list" where
  "collect_field raw field keys = (case jget raw field of
     Some (JInt n) \<Rightarrow> push_numeric_key (show_int n) keys
   | Some (JStr s) \<Rightarrow> fold push_numeric_key (split_on (CHR '','') s) keys
   | Some (JArr vs) \<Rightarrow> fold push_item vs keys
   | _ \<Rightarrow> keys)"

definition collect_numeric_keys :: "json option \<Rightarrow> string list \<Rightarrow> string list" where
  "collect_numeric_keys raw keys = (case raw of None \<Rightarrow> keys | Some v \<Rightarrow> fold (collect_field v) key_fields keys)"

fun insert_str :: "string \<Rightarrow> string list \<Rightarrow> string list" where
  "insert_str s [] = [s]"
| "insert_str s (t # ts) = (if str_less t s then t # insert_str s ts else s # t # ts)"

definition sort_str :: "string list \<Rightarrow> string list" where
  "sort_str ss = foldr insert_str ss []"

definition numeric_stat_keys :: "agent_run \<Rightarrow> string list" where
  "numeric_stat_keys run =
     (let ev = run_trigger run;
          k1 = fold push_numeric_key (ev_stat_keys ev @ preferred_stat_keys run) [];
          k2 = (case Option.bind (ev_proof ev) pr_stat_key of None \<Rightarrow> k1 | Some k \<Rightarrow> push_numeric_key (show_u64 k) k1)
      in remdups_adj (sort_str (collect_numeric_keys (ev_raw ev) k2)))"

section \<open>The proof payload\<close>

record proof_source =
  ps_seq :: u64
  ps_stat_keys :: "string list"
  ps_payload :: json

datatype proof_load = Ready proof_source | NotStarted string json | Unavailable string json

definition has_validation_shape :: "json \<Rightarrow> bool" where
  "has_validation_shape v =
     (let inner = unwrap_or v (jget v ''validation'') in
      jget inner ''summary'' \<noteq> None \<and> (jget inner ''statsToProve'' \<noteq> None \<or> jget inner ''statToProve'' \<noteq> None))"

definition load_note :: "string \<Rightarrow> string \<Rightarrow> (string \<times> json) list \<Rightarrow> json" where
  "load_note status reason extra =
     JObj ([(''source'', JStr ''txoracle-validation''), (''status'', JStr status), (''reason'', JStr reason)] @ extra)"

definition fetch_proof ::
  "'w validation_env \<Rightarrow> app_config \<Rightarrow> txline_event \<Rightarrow> u64 \<Rightarrow> string list \<Rightarrow> 'w \<Rightarrow> proof_load \<times> 'w" where
  "fetch_proof env cfg ev seq keys w =
     (case authenticated_get (ve_post env) (ve_get env) cfg ''api/scores/stat-validation''
          [(''fixtureId'', show_u64 (ev_fixture_id ev)), (''seq'', show_u64 seq), (''statKeys'', join_with '','' keys)] w of
        (Inr payload, w1) \<Rightarrow> (Ready \<lparr>ps_seq = seq, ps_stat_keys = keys, ps_payload = payload\<rparr>, w1)
      | (Inl (ConfigError e), w1) \<Rightarrow>
          (NotStarted (''txoracle validation not started; '' @ e)
             (load_note ''not_started'' ''missing_txline_credentials'' []), w1)
      | (Inl e, w1) \<Rightarrow>
          (Unavailable (''txoracle validation proof fetch unavailable: '' @ show_app_error e)
             (load_note ''unavailable'' (show_app_error e) []), w1))"

definition load_proof_source ::
  "'w validation_env \<Rightarrow> app_config \<Rightarrow> agent_run \<Rightarrow> 'w \<Rightarrow> proof_load \<times> 'w" where
  "load_proof_source env cfg run w =
     (let ev = run_trigger run in
      case opt_filter has_validation_shape (Option.bind (ev_proof ev) pr_raw) of
        Some proof \<Rightarrow>
          (case ev_seq ev of
             Some seq \<Rightarrow> (Ready \<lparr>ps_seq = seq, ps_stat_keys = preferred_stat_keys run, ps_payload = proof\<rparr>, w)
           | None \<Rightarrow> (NotStarted ''txoracle validation not started; attached proof lacks TxLINE sequence''
                (load_note ''not_started'' ''missing_seq'' []), w))
      | None \<Rightarrow>
          (case ev_seq ev of
             None \<Rightarrow> (NotStarted ''txoracle validation not started; TxLINE event did not include seq''
                (load_note ''not_started'' ''missing_seq'' [(''triggerEventId'', JStr (ev_id ev))]), w)
           | Some seq \<Rightarrow>
               (let keys = numeric_stat_keys run in
                if keys = [] then
                  (NotStarted ''txoracle validation not started; event has no numeric TxLINE statKeys''
                     (load_note ''not_started'' ''missing_numeric_stat_keys''
                        [(''triggerEventId'', JStr (ev_id ev)), (''statKeys'', JArr (map JStr (ev_stat_keys ev)))]), w)
                else fetch_proof env cfg ev seq keys w)))"

section \<open>The sidecar\<close>

definition sidecar_limit :: nat where "sidecar_limit = 45000"

definition ask_sidecar :: "'w validation_env \<Rightarrow> json \<Rightarrow> 'w \<Rightarrow> (sidecar_io \<times> 'w) option" where
  "ask_sidecar env request w =
     (let node = resolve_node_bin (ve_node_bin env) (\<lambda>p. ve_exists env p w) (ve_sidecar_path env)
      in child_exchange (ve_child env) sidecar_limit node (ve_sidecar_path env) (ve_render env request) w)"

definition invoke_sidecar ::
    "'w validation_env \<Rightarrow> json \<Rightarrow> 'w \<Rightarrow> ((app_error + sidecar_response) \<times> 'w) option" where
  "invoke_sidecar env request w =
     (if \<not> ve_exists env (ve_sidecar_path env) w
      then Some (Inl (ConfigError (''txoracle validation sidecar not found at '' @ ve_sidecar_path env)), w)
      else map_option (apfst (\<lambda>out.
        case out of
           SpawnFailed e \<Rightarrow> Inl (IoError e)
         | NoStdin \<Rightarrow> Inl (TaskError ''failed to open txoracle sidecar stdin'')
         | NoStdout \<Rightarrow> Inl (TaskError ''failed to open txoracle sidecar stdout'')
         | WriteFailed e \<Rightarrow> Inl (IoError e)
         | TimedOut \<Rightarrow> Inl (TaskError ''txoracle validation sidecar timed out'')
         | ReadFailed e \<Rightarrow> Inl (IoError e)
         | NoLine \<Rightarrow> Inl (TaskError ''txoracle validation sidecar exited without a response'')
         | Line l \<Rightarrow> (case ve_parse env l of Inl e \<Rightarrow> Inl (JsonError e) | Inr r \<Rightarrow> Inr r)))
        (ask_sidecar env request w))"

definition merge_sidecar_response :: "proof_receipt \<Rightarrow> json \<Rightarrow> sidecar_response \<Rightarrow> proof_receipt" where
  "merge_sidecar_response r payload s =
     (let verified = (unwrap_or False (sc_verified s) \<and> unwrap_or False (sc_proof_present s)
            \<and> unwrap_or False (sc_root_present s) \<and> sc_status s = SimPassed) in
      r\<lparr>pr_simulation_status := sc_status s, pr_verified := verified,
        pr_proof_present := unwrap_or (pr_proof_present r) (sc_proof_present s),
        pr_root_present := unwrap_or False (sc_root_present s),
        pr_root_pda := sc_root_pda s,
        pr_txline_program := opt_or (sc_program_id s) (pr_txline_program r),
        pr_root_observed_slot := sc_root_observed_slot s,
        pr_epoch_day := opt_or (sc_epoch_day s) (pr_epoch_day r),
        pr_txline_ts := opt_or (sc_txline_ts s) (pr_txline_ts r),
        pr_merkle_root := sc_merkle_root s, pr_stat_proof_hash := sc_stat_proof_hash s,
        pr_note := unwrap_or (if verified then ''txoracle validation sidecar passed''
                              else ''txoracle validation sidecar did not pass'') (sc_reason s),
        pr_raw := Some (JObj [(''source'', JStr ''txoracle-validation-sidecar''),
          (''method'', opt_json JStr (sc_method s)), (''sidecar'', opt_json id (sc_raw s)),
          (''txlineProof'', payload)])\<rparr>)"

definition txoracle_cluster :: "app_config \<Rightarrow> cluster" where
  "txoracle_cluster c =
     (if eq_ignore_ascii_case (txline_network c) ''mainnet'' \<or> eq_ignore_ascii_case (solana_cluster c) ''mainnet''
      then Mainnet else Devnet)"

definition cluster_name :: "cluster \<Rightarrow> string" where
  "cluster_name k = (case k of Devnet \<Rightarrow> ''devnet'' | Mainnet \<Rightarrow> ''mainnet'')"

definition rpc_config :: "app_config \<Rightarrow> cluster \<Rightarrow> string \<times> (string \<times> json) list" where
  "rpc_config c k =
     (unwrap_or (case k of Devnet \<Rightarrow> ''https://api.devnet.solana.com''
          | Mainnet \<Rightarrow> ''https://api.mainnet-beta.solana.com'') (rpc_endpoint c k),
      case rpc_token c k of None \<Rightarrow> [] | Some t \<Rightarrow> [(''x-token'', JStr t)])"

definition idl_path :: "'w validation_env \<Rightarrow> cluster \<Rightarrow> string" where
  "idl_path env k = ve_idl_dir env @ ''/'' @
     (case k of Devnet \<Rightarrow> ''txoracle.devnet.json'' | Mainnet \<Rightarrow> ''txoracle.mainnet.json'')"

definition sidecar_request :: "'w validation_env \<Rightarrow> app_config \<Rightarrow> agent_run \<Rightarrow> proof_source \<Rightarrow> json" where
  "sidecar_request env cfg run src =
     (let k = txoracle_cluster cfg; (url, headers) = rpc_config cfg k in JObj
       [(''cmd'', JStr ''simulateValidateStat''),
        (''payload'', JObj
          [(''cluster'', JStr (cluster_name k)), (''programId'', JStr (txline_program_id cfg)),
           (''fixtureId'', JInt (uint (ev_fixture_id (run_trigger run)))), (''seq'', JInt (uint (ps_seq src))),
           (''statKeys'', JArr (map JStr (ps_stat_keys src))),
           (''txlineTs'', opt_json JStr (ev_txline_ts (run_trigger run))),
           (''rpcUrl'', JStr url), (''rpcHeaders'', JObj headers), (''idlPath'', JStr (idl_path env k)),
           (''proof'', ps_payload src)])])"

definition with_source :: "proof_receipt \<Rightarrow> proof_source \<Rightarrow> proof_receipt" where
  "with_source r src =
     r\<lparr>pr_seq := Some (ps_seq src),
       pr_stat_key := (case ps_stat_keys src of [] \<Rightarrow> None | k # _ \<Rightarrow> parse_u64 k),
       pr_stat_keys := ps_stat_keys src, pr_proof_present := True\<rparr>"

definition bridge_receipt ::
  "'w validation_env \<Rightarrow> app_config \<Rightarrow> agent_run \<Rightarrow> 'w \<Rightarrow> (proof_receipt \<times> 'w) option" where
  "bridge_receipt env cfg run w =
     (let r = (receipt_for_run (ve_timestamp env) run)\<lparr>pr_txline_program := Some (txline_program_id cfg)\<rparr>;
          idl = idl_path env (txoracle_cluster cfg) in
      if \<not> ve_exists env idl w then Some
        (r\<lparr>pr_note := ''txoracle validation not started; official IDL missing at '' @ idl,
           pr_raw := Some (load_note ''not_started'' ''missing_idl'' [(''idlPath'', JStr idl)])\<rparr>, w)
      else case load_proof_source env cfg run w of
        (NotStarted note raw, w1) \<Rightarrow> Some (r\<lparr>pr_note := note, pr_raw := Some raw\<rparr>, w1)
      | (Unavailable note raw, w1) \<Rightarrow>
          Some (r\<lparr>pr_simulation_status := SimUnavailable, pr_note := note, pr_raw := Some raw\<rparr>, w1)
      | (Ready src, w1) \<Rightarrow>
          (let r1 = with_source r src in
           map_option (apfst (\<lambda>answer.
             case answer of
               Inr resp \<Rightarrow> merge_sidecar_response r1 (ps_payload src) resp
             | Inl e \<Rightarrow>
                 r1\<lparr>pr_simulation_status := SimUnavailable, pr_verified := False,
                    pr_note := ''txoracle validation sidecar unavailable: '' @ show_app_error e,
                    pr_raw := Some (load_note ''unavailable'' (show_app_error e) [])\<rparr>))
             (invoke_sidecar env (sidecar_request env cfg run src) w1)))"

section \<open>agent/tools.rs\<close>

definition request_proof ::
  "'w validation_env \<Rightarrow> app_config \<Rightarrow> agent_run \<Rightarrow> 'w \<Rightarrow> ((proof_receipt \<times> proof_gate_decision) \<times> 'w) option" where
  "request_proof env cfg run w = map_option (apfst (\<lambda>r. (r, gate_receipt run r))) (bridge_receipt env cfg run w)"

section \<open>A request that does not return\<close>

definition sidecar_hangs :: "'w validation_env \<Rightarrow> app_config \<Rightarrow> agent_run \<Rightarrow> 'w \<Rightarrow> bool" where
  \<comment> \<open>the request gets as far as the sidecar, and the sidecar hangs\<close>
  "sidecar_hangs env cfg run w \<longleftrightarrow>
     ve_exists env (idl_path env (txoracle_cluster cfg)) w
     \<and> (\<exists>src w1. load_proof_source env cfg run w = (Ready src, w1) \<and> ve_exists env (ve_sidecar_path env) w1
          \<and> child_hangs (ve_child env) sidecar_limit
              (resolve_node_bin (ve_node_bin env) (\<lambda>p. ve_exists env p w1) (ve_sidecar_path env)) (ve_sidecar_path env)
              (ve_render env (sidecar_request env cfg run src)) w1)"

lemma request_proof_None_iff: "request_proof env cfg run w = None \<longleftrightarrow> sidecar_hangs env cfg run w"
proof -
  have ask: "invoke_sidecar env request w1 = None \<longleftrightarrow> ve_exists env (ve_sidecar_path env) w1 \<and> ask_sidecar env request w1 = None"
    for request w1 by (simp add: invoke_sidecar_def)
  show ?thesis
    unfolding request_proof_def bridge_receipt_def sidecar_hangs_def Let_def child_exchange_None_iff [symmetric]
    by (auto simp: ask ask_sidecar_def Let_def split: prod.splits proof_load.splits)
qed

section \<open>No pass without the sidecar\<close>

definition sidecar_answered :: "'w validation_env \<Rightarrow> json \<Rightarrow> sidecar_response \<Rightarrow> bool" where
  \<comment> \<open>the sidecar, asked \<open>request\<close> at some moment, gave the answer\<close>
  "sidecar_answered env request resp \<longleftrightarrow>
     (\<exists>w w' l. ask_sidecar env request w = Some (Line l, w') \<and> ve_parse env l = Inr resp)"

lemma invoke_sidecar_Inr:
  assumes "invoke_sidecar env request w = Some (Inr resp, w')"
  shows "sidecar_answered env request resp"
proof -
  obtain out w1 where x: "ask_sidecar env request w = Some (out, w1)"
    using assms by (auto simp: invoke_sidecar_def split: if_splits)
  then have "out = Line l \<Longrightarrow> ve_parse env l = Inr resp" for l
    using assms by (auto simp: invoke_sidecar_def split: if_splits sum.splits)
  moreover obtain l where "out = Line l"
    using assms x by (cases out) (auto simp: invoke_sidecar_def split: if_splits)
  ultimately show ?thesis using x unfolding sidecar_answered_def by blast
qed

lemma gate_pass_iff:
  "pg_pass (gate_receipt run r) \<longleftrightarrow> pr_fixture_id r = ev_fixture_id (run_trigger run) \<and> pr_stat_keys r \<noteq> []
     \<and> pr_proof_present r \<and> pr_root_present r \<and> pr_simulation_status r = SimPassed"
  by (simp add: gate_receipt_def Let_def)

text \<open>How a receipt can come out of the bridge: with the verdict of a sidecar answer, or without one.\<close>

lemma bridge_receipt_cases:
  assumes "bridge_receipt env cfg run w = Some (r, w')"
  obtains (Merged) src resp r1 where "r = merge_sidecar_response r1 (ps_payload src) resp"
      and "sidecar_answered env (sidecar_request env cfg run src) resp" and "pr_proof_present r1"
  | (Failed) "pr_simulation_status r \<noteq> SimPassed"
      and "pr_verified r \<longrightarrow> pr_verified (receipt_for_run (ve_timestamp env) run)"
  | (Kept) n raw where
      "r = (receipt_for_run (ve_timestamp env) run)\<lparr>pr_txline_program := Some (txline_program_id cfg),
         pr_note := n, pr_raw := Some raw\<rparr>"
proof (cases "ve_exists env (idl_path env (txoracle_cluster cfg)) w")
  case False
  then show ?thesis using assms by (auto simp: bridge_receipt_def Let_def intro: Kept)
next
  case idl: True
  obtain l w1 where l: "load_proof_source env cfg run w = (l, w1)" by (metis surj_pair)
  show ?thesis
  proof (cases l)
    case (Ready src)
    then obtain s w2 where s: "invoke_sidecar env (sidecar_request env cfg run src) w1 = Some (s, w2)"
      using assms idl l by (auto simp: bridge_receipt_def Let_def)
    show ?thesis
    proof (cases s)
      case (Inl e)
      then show ?thesis using assms idl l Ready s
        by (intro Failed) (auto simp: bridge_receipt_def Let_def)
    next
      case (Inr resp)
      then show ?thesis using assms idl l Ready s invoke_sidecar_Inr
        by (intro Merged [of _ src resp]) (auto simp: bridge_receipt_def Let_def with_source_def)
    qed
  next
    case (NotStarted n raw)
    then show ?thesis using assms idl l by (auto simp: bridge_receipt_def Let_def intro: Kept)
  next
    case (Unavailable n raw)
    then show ?thesis using assms idl l by (intro Failed) (auto simp: bridge_receipt_def Let_def)
  qed
qed

lemma fresh_receipt:
  "ev_proof (run_trigger run) = None \<Longrightarrow>
     pr_simulation_status (receipt_for_run ts run) = SimNotStarted \<and> \<not> pr_verified (receipt_for_run ts run)"
  by (simp add: receipt_for_run_def Let_def)

lemma gate_needs_sidecar:
  assumes "ev_proof (run_trigger run) = None" and "request_proof env cfg run w = Some ((r, gate), w')"
    and "pg_pass gate \<or> pr_verified r"
  shows "\<exists>src resp. sidecar_answered env (sidecar_request env cfg run src) resp
    \<and> sc_status resp = SimPassed \<and> sc_root_present resp = Some True \<and> sc_proof_present resp \<noteq> Some False
    \<and> (pr_verified r \<longrightarrow> sc_verified resp = Some True \<and> sc_proof_present resp = Some True)"
proof -
  have b: "bridge_receipt env cfg run w = Some (r, w')" and g: "gate = gate_receipt run r"
    using assms(2) by (auto simp: request_proof_def)
  show ?thesis
  proof (rule bridge_receipt_cases [OF b])
    fix src resp r1
    assume "r = merge_sidecar_response r1 (ps_payload src) resp"
      and a: "sidecar_answered env (sidecar_request env cfg run src) resp"
    then show ?thesis using assms(3) unfolding g gate_pass_iff
      by (intro exI [of _ src] exI [of _ resp])
         (auto simp: merge_sidecar_response_def Let_def unwrap_or_def split: option.splits)
  qed (use assms(3) fresh_receipt [OF assms(1), of "ve_timestamp env"] in \<open>auto simp: g gate_pass_iff\<close>)
qed

text \<open>
  C17: For an event that carries no proof of its own, the proof gate passes only if the validation
  sidecar answered this very request with a passed simulation, an observed root and no denial of
  the proof; a receipt is marked verified only if it said verified as well. Every failure on the
  way (missing files, credentials, network, sidecar) leaves the gate closed.
\<close>

theorem no_fake_pass:
  assumes "ev_proof (run_trigger run) = None" and "request_proof env cfg run w = Some ((r, gate), w')"
    and "pg_pass gate \<or> pr_verified r"
  shows "\<exists>src resp. sidecar_answered env (sidecar_request env cfg run src) resp
    \<and> sc_status resp = SimPassed \<and> sc_root_present resp = Some True \<and> sc_proof_present resp \<noteq> Some False
    \<and> (pr_verified r \<longrightarrow> sc_verified resp = Some True \<and> sc_proof_present resp = Some True)"
  using gate_needs_sidecar [OF assms] .

text \<open>
  A proof attached to the event is believed as it stands when validation cannot start: without
  the interface file, the receipt keeps the status, the flags and the verification of the attached
  one, so the gate passes exactly when the attached receipt says so, and no sidecar is asked.
\<close>

theorem attached_proof_unvalidated:
  assumes "ev_proof (run_trigger run) = Some p" and "\<not> ve_exists env (idl_path env (txoracle_cluster cfg)) w"
  shows "\<exists>r. request_proof env cfg run w = Some ((r, gate_receipt run p), w)
    \<and> pr_verified r = pr_verified p \<and> pr_stat_proof_hash r = pr_stat_proof_hash p"
  using assms by (simp add: request_proof_def bridge_receipt_def Let_def receipt_for_run_def gate_receipt_def)

section \<open>The keys sent to TxLINE\<close>

lemma str_less_irrefl: "\<not> str_less s s"
  by (induction s) auto

lemma str_less_total: "s \<noteq> t \<Longrightarrow> \<not> str_less t s \<Longrightarrow> str_less s t"
proof (induction s t rule: str_less.induct)
  case (4 c cs d ds)
  moreover have "c = d \<or> (of_char c :: nat) < of_char d \<or> (of_char d :: nat) < of_char c"
    by (metis char_of_char linorder_neq_iff)
  ultimately show ?case by auto
qed auto

lemma str_less_trans: "str_less r s \<Longrightarrow> str_less s t \<Longrightarrow> str_less r t"
proof (induction r s arbitrary: t rule: str_less.induct)
  case (2 d ds)
  then show ?case by (cases t) auto
next
  case (4 c cs d ds)
  then show ?case by (cases t) auto
qed auto

definition str_le :: "string \<Rightarrow> string \<Rightarrow> bool" where "str_le s t \<longleftrightarrow> \<not> str_less t s"

lemma set_insert_str [simp]: "set (insert_str s ts) = insert s (set ts)"
  by (induction ts) auto

lemma str_le_trans: "str_le r s \<Longrightarrow> str_le s t \<Longrightarrow> str_le r t"
  unfolding str_le_def using str_less_total str_less_trans by metis

lemma sorted_insert_str: "sorted_wrt str_le ts \<Longrightarrow> sorted_wrt str_le (insert_str s ts)"
proof (induction ts)
  case (Cons t ts)
  show ?case
  proof (cases "str_less t s")
    case True
    then have "str_le t s" using str_less_trans str_less_irrefl by (auto simp: str_le_def)
    then show ?thesis using Cons True by simp
  next
    case False
    then have "str_le s t" by (simp add: str_le_def)
    then show ?thesis using Cons.prems False str_le_trans by auto
  qed
qed simp

lemma sort_str_sorted: "sorted_wrt str_le (sort_str ss)" and set_sort_str [simp]: "set (sort_str ss) = set ss"
  by (induction ss) (auto simp: sort_str_def sorted_insert_str)

lemma remdups_adj_strict:
  assumes "sorted_wrt str_le ss"
  shows "sorted_wrt str_less (remdups_adj ss)"
  using assms
proof (induction ss rule: remdups_adj.induct)
  case (3 x y xs)
  show ?case
  proof (cases "x = y")
    case True
    then show ?thesis using 3 by simp
  next
    case False
    then have xy: "str_less x y" using "3.prems" str_less_total [of x y] by (auto simp: str_le_def)
    have "str_less x z" if "z \<in> set (y # xs)" for z
    proof (cases "z = y")
      case z: False
      then have "str_less y z" using "3.prems" that str_less_total [of y z] by (auto simp: str_le_def)
      then show ?thesis using xy by (rule str_less_trans [rotated])
    qed (use xy in simp)
    then have "\<forall>z \<in> set (remdups_adj (y # xs)). str_less x z" by simp
    then show ?thesis using "3.IH"(2) [OF False] "3.prems" False by simp
  qed
qed simp_all

text \<open>Every step only adds decimal keys.\<close>

definition all_decimal :: "string list \<Rightarrow> bool" where
  "all_decimal keys \<longleftrightarrow> (\<forall>k \<in> set keys. k \<noteq> [] \<and> parse_u64 k \<noteq> None)"

lemma push_numeric_key_decimal: "all_decimal keys \<Longrightarrow> all_decimal (push_numeric_key v keys)"
  by (auto simp: all_decimal_def push_numeric_key_def Let_def)

lemma fold_decimal:
  assumes "\<And>x keys. all_decimal keys \<Longrightarrow> all_decimal (f x keys)"
  shows "all_decimal keys \<Longrightarrow> all_decimal (fold f xs keys)"
  by (induction xs arbitrary: keys) (auto simp: assms)

lemma collect_field_decimal: "all_decimal keys \<Longrightarrow> all_decimal (collect_field raw field keys)"
  by (auto simp: collect_field_def push_item_def intro!: push_numeric_key_decimal fold_decimal
      split: option.splits json.splits)

lemma numeric_keys_decimal: "all_decimal (numeric_stat_keys run)"
proof -
  let ?ev = "run_trigger run"
  define k1 where "k1 = fold push_numeric_key (ev_stat_keys ?ev @ preferred_stat_keys run) []"
  define k2 where "k2 = (case Option.bind (ev_proof ?ev) pr_stat_key of None \<Rightarrow> k1 | Some k \<Rightarrow> push_numeric_key (show_u64 k) k1)"
  have "all_decimal []" by (simp add: all_decimal_def)
  then have 1: "all_decimal k1" unfolding k1_def by (intro fold_decimal push_numeric_key_decimal)
  then have "all_decimal k2" unfolding k2_def by (auto intro: push_numeric_key_decimal split: option.splits)
  then have "all_decimal (collect_numeric_keys (ev_raw ?ev) k2)"
    unfolding collect_numeric_keys_def by (auto intro: fold_decimal collect_field_decimal split: option.splits)
  moreover have "numeric_stat_keys run = remdups_adj (sort_str (collect_numeric_keys (ev_raw ?ev) k2))"
    by (simp only: numeric_stat_keys_def Let_def k1_def k2_def)
  ultimately show ?thesis by (simp add: all_decimal_def)
qed

text \<open>
  C18: The statistic keys sent to TxLINE are decimal 64-bit numbers in strictly ascending text order,
  so none is sent twice, whatever the event and its raw payload contain.
\<close>

theorem stat_keys_canonical:
  "all_decimal (numeric_stat_keys run) \<and> sorted_wrt str_less (numeric_stat_keys run)"
proof -
  have "sorted_wrt str_less (remdups_adj (sort_str ks))" for ks
    by (rule remdups_adj_strict [OF sort_str_sorted])
  then show ?thesis by (simp add: numeric_keys_decimal) (simp add: numeric_stat_keys_def Let_def)
qed

section \<open>A small world\<close>

text \<open>\<open>sample_env idl\<close>: whether the interface file exists; the sidecar answers one line, and passes.\<close>

definition sample_env :: "bool \<Rightarrow> unit validation_env" where
  "sample_env idl = \<lparr>ve_post = (\<lambda>_ w. (Inl ''offline'', w)), ve_get = (\<lambda>_ _ _ _ w. (Inr \<lparr>da_status = 200, da_json = Inr (JObj [])\<rparr>, w)),
     ve_exists = (\<lambda>p _. idl \<or> p = ''sidecar.mjs''), ve_child = answering_child ''ok'', ve_node_bin = Some ''node'',
     ve_sidecar_path = ''sidecar.mjs'', ve_idl_dir = ''idl'', ve_render = (\<lambda>_. []),
     ve_parse = (\<lambda>_. Inr \<lparr>sc_ok = True, sc_status = SimPassed, sc_verified = Some True, sc_reason = None, sc_method = None,
       sc_program_id = None, sc_root_pda = None, sc_root_present = Some True, sc_root_observed_slot = None,
       sc_proof_present = Some True, sc_epoch_day = None, sc_txline_ts = None, sc_merkle_root = None,
       sc_stat_proof_hash = None, sc_raw = None\<rparr>), ve_timestamp = (\<lambda>_. None)\<rparr>"

definition stat_event :: "proof_receipt option \<Rightarrow> txline_event" where
  "stat_event p = \<lparr>ev_id = ''e1'', ev_kind = ScoreUpdate, ev_fixture_id = 1, ev_seq = Some 10, ev_txline_ts = None,
     ev_action = None, ev_confirmed = None, ev_participant = None, ev_period = None, ev_stat_keys = [''77''],
     ev_schema_family = None, ev_title = [], ev_body = [], ev_ts = [], ev_raw = None, ev_odds = None, ev_score = None,
     ev_proof = p\<rparr>"

definition stat_receipt :: proof_receipt where
  "stat_receipt = \<lparr>pr_fixture_id = 1, pr_seq = None, pr_stat_key = None, pr_stat_keys = [''77''], pr_txline_ts = None,
     pr_epoch_day = None, pr_merkle_root = None, pr_stat_proof_hash = None, pr_root_pda = None, pr_txline_program = None,
     pr_root_observed_slot = None, pr_proof_present = True, pr_root_present = True, pr_simulation_status = SimPassed,
     pr_verified = True, pr_note = [], pr_raw = None\<rparr>"

definition run_of :: "txline_event \<Rightarrow> agent_run" where
  "run_of ev = \<lparr>run_id = ''r1'', run_track = Settlement, run_trigger = ev, run_bids = [], run_winner = None,
     run_delivery = None, run_verdict = None, run_settlement = None, run_timeline = []\<rparr>"

definition offline_config :: app_config where
  "offline_config = (load_config Map.empty Map.empty [])\<lparr>txline_guest_jwt := Some ''j'', txline_api_token := Some ''t''\<rparr>"

lemma sample_ready:
  "load_proof_source (sample_env True) offline_config (run_of (stat_event None)) () =
     (Ready \<lparr>ps_seq = 10, ps_stat_keys = [''77''], ps_payload = JObj []\<rparr>, ())"
proof -
  have "word_char (CHR ''a'')" "word_char (CHR ''n'')" by code_simp+
  from trim_word_ends [OF this, of "''pi/scores/stat-validatio''"]
  have "trim ''api/scores/stat-validation'' = ''api/scores/stat-validation''" by simp
  moreover have "\<not> disallowed_path ''api/scores/stat-validation''"
    "trim_char (CHR ''/'') ''api/scores/stat-validation'' = ''api/scores/stat-validation''"
    "is_allowed_data_path ''api/scores/stat-validation''" "prefix_of ''api/'' ''api/scores/stat-validation''"
    "split_once (CHR ''?'') ''api/scores/stat-validation'' = None" by code_simp+
  ultimately have "normalize_data_path ''api/scores/stat-validation'' = Inr ''api/scores/stat-validation''"
    by (simp only: normalize_data_path_def Let_def option.case prod.case if_False if_True not_True_eq_False not_False_eq_True simp_thms)
  moreover have "numeric_stat_keys (run_of (stat_event None)) = [''77'']"
  proof -
    have "word_char (CHR ''7'')" by code_simp
    from trim_word_ends [OF this this, of "[]"] have "trim ''77'' = ''77''" by simp
    moreover have "parse_u64 ''77'' \<noteq> None" "remdups_adj (sort_str [''77'', ''77'']) = [''77'']" by code_simp+
    ultimately have "push_numeric_key ''77'' ks = ks @ [''77'']" for ks by (simp add: push_numeric_key_def)
    then show ?thesis
      using \<open>remdups_adj (sort_str [''77'', ''77'']) = [''77'']\<close>
      by (simp add: numeric_stat_keys_def Let_def run_of_def stat_event_def preferred_stat_keys_def collect_numeric_keys_def)
  qed
  moreover have "run_trigger (run_of (stat_event None)) = stat_event None" by (simp add: run_of_def)
  ultimately show ?thesis
    by (simp add: load_proof_source_def fetch_proof_def authenticated_get_def Let_def stat_event_def sample_env_def
        offline_config_def answer_json_def)
qed

theorem no_fake_pass_witness:
  "\<exists>src resp. sidecar_answered (sample_env True) (sidecar_request (sample_env True) offline_config (run_of (stat_event None)) src) resp
    \<and> sc_status resp = SimPassed \<and> sc_root_present resp = Some True"
proof -
  let ?x = "request_proof (sample_env True) offline_config (run_of (stat_event None)) ()"
  have f: "ev_fixture_id (run_trigger (run_of (stat_event None))) = 1"
    "pr_fixture_id (receipt_for_run ts (run_of (stat_event None))) = 1" for ts
    by (simp_all add: run_of_def stat_event_def receipt_for_run_def Let_def)
  have e: "ve_exists (sample_env True) p ()" for p by (simp add: sample_env_def)
  have c: "ask_sidecar (sample_env True) request () = Some (Line ''ok'', ())" for request
    by (simp add: ask_sidecar_def Let_def sample_env_def answering_child_Line sidecar_limit_def)
  have "?x \<noteq> None" "pg_pass (snd (fst (the ?x)))"
    by (simp add: request_proof_def bridge_receipt_def Let_def e sample_ready invoke_sidecar_def c)
       (simp add: request_proof_def bridge_receipt_def Let_def e sample_ready invoke_sidecar_def c gate_pass_iff,
        simp add: sample_env_def merge_sidecar_response_def Let_def with_source_def f gate_pass_iff)
  moreover from this obtain r g v where x: "?x = Some ((r, g), v)" by fastforce
  ultimately have pass: "pg_pass g \<or> pr_verified r" by simp
  have np: "ev_proof (run_trigger (run_of (stat_event None))) = None" by (simp add: run_of_def stat_event_def)
  show ?thesis using no_fake_pass [OF np x pass] by blast
qed

theorem attached_proof_unvalidated_witness:
  "\<exists>r. request_proof (sample_env False) offline_config (run_of (stat_event (Some stat_receipt))) () =
      Some ((r, gate_receipt (run_of (stat_event (Some stat_receipt))) stat_receipt), ())
    \<and> pr_verified r \<and> pg_pass (gate_receipt (run_of (stat_event (Some stat_receipt))) stat_receipt)"
proof -
  have "\<not> ve_exists (sample_env False) (idl_path (sample_env False) (txoracle_cluster offline_config)) ()"
    by (simp add: sample_env_def idl_path_def split: cluster.splits)
  moreover have "pg_pass (gate_receipt (run_of (stat_event (Some stat_receipt))) stat_receipt)" by code_simp
  moreover have "ev_proof (run_trigger (run_of (stat_event (Some stat_receipt)))) = Some stat_receipt" "pr_verified stat_receipt"
    by (simp_all add: run_of_def stat_event_def stat_receipt_def)
  ultimately show ?thesis
    using attached_proof_unvalidated [of "run_of (stat_event (Some stat_receipt))" stat_receipt "sample_env False" offline_config "()"]
    by metis
qed

end
