(* ===== verification/Transcript.thy ===== *)
theory Transcript
  imports Coral_Bus Txline
begin

text \<open>
  Trace events (\<open>txodds-types/src/trace.rs\<close>) and the replayable artefacts of a run
  (\<open>coralos/transcript.rs\<close>): one directory per run with the bus transcript, the trace and the
  proof receipt. The file system is the record \<open>files\<close>, \<open>serde_json\<close> a codec per type.
\<close>

section \<open>trace.rs\<close>

datatype trace_phase =
    PhObserve | PhDerive | PhToolCall | PhToolResult | PhLlmReasoning | PhDecision | PhAction | PhProof
  | PhPayment | PhEvaluation

record trace_event =
  tr_id :: string
  tr_run_id :: string
  tr_round :: u64
  tr_phase :: trace_phase
  tr_summary :: string
  tr_payload :: "json option"
  tr_ts :: string

section \<open>transcript.rs\<close>

datatype read_error = FileMissing | ReadError string

record 'w files =
  fi_create_dir :: "string \<Rightarrow> 'w \<Rightarrow> (string + unit) \<times> 'w"
  fi_write :: "string \<Rightarrow> string \<Rightarrow> 'w \<Rightarrow> (string + unit) \<times> 'w"
  fi_read :: "string \<Rightarrow> 'w \<Rightarrow> (read_error + string) \<times> 'w"

definition coral_transcript :: string where "coral_transcript = ''coral_transcript.jsonl''"
definition agent_trace :: string where "agent_trace = ''agent_trace.jsonl''"
definition proof_receipts :: string where "proof_receipts = ''proof_receipts.json''"

definition safe_char :: "char \<Rightarrow> bool" where
  "safe_char c \<longleftrightarrow> ascii_alnum c \<or> c = CHR ''-'' \<or> c = CHR ''_'' \<or> c = CHR ''.''"

definition safe_segment :: "string \<Rightarrow> string" where
  \<comment> \<open>one underscore per character, so continuation bytes are dropped\<close>
  "safe_segment s = map (\<lambda>c. if safe_char c then c else CHR ''_'') (filter (\<lambda>c. \<not> utf8_cont c) s)"

definition run_dir :: "string \<Rightarrow> string \<Rightarrow> string" where
  "run_dir replay_dir rid = replay_dir @ ''/runs/'' @ safe_segment rid"

definition in_dir :: "string \<Rightarrow> string \<Rightarrow> string" where
  "in_dir dir file = dir @ ''/'' @ file"

fun jsonl :: "('a \<Rightarrow> string + string) \<Rightarrow> 'a list \<Rightarrow> string + string" where
  "jsonl ser [] = Inr []"
| "jsonl ser (v # vs) =
     (case ser v of Inl e \<Rightarrow> Inl e
      | Inr s \<Rightarrow> map_sum id (\<lambda>rest. s @ [CHR 0x0A] @ rest) (jsonl ser vs))"

definition write_jsonl ::
  "'w files \<Rightarrow> ('a \<Rightarrow> string + string) \<Rightarrow> string \<Rightarrow> 'a list \<Rightarrow> 'w \<Rightarrow> (app_error + unit) \<times> 'w" where
  "write_jsonl io ser path vs w =
     (case jsonl ser vs of Inl e \<Rightarrow> (Inl (JsonError e), w)
      | Inr out \<Rightarrow> apfst (map_sum IoError id) (fi_write io path out w))"

fun parse_lines :: "(string \<Rightarrow> string + 'a) \<Rightarrow> string list \<Rightarrow> app_error + 'a list" where
  "parse_lines parse [] = Inr []"
| "parse_lines parse (l # ls) =
     (case parse l of Inl e \<Rightarrow> Inl (JsonError e) | Inr v \<Rightarrow> map_sum id ((#) v) (parse_lines parse ls))"

definition read_jsonl ::
  "'w files \<Rightarrow> (string \<Rightarrow> string + 'a) \<Rightarrow> string \<Rightarrow> 'w \<Rightarrow> (app_error + 'a list) \<times> 'w" where
  "read_jsonl io parse path w =
     (case fi_read io path w of
        (Inl FileMissing, w1) \<Rightarrow> (Inr [], w1)
      | (Inl (ReadError e), w1) \<Rightarrow> (Inl (IoError e), w1)
      | (Inr contents, w1) \<Rightarrow> (parse_lines parse (filter (\<lambda>l. trim l \<noteq> []) (str_lines contents)), w1))"

record artefact_codec =
  ac_message :: "coral_message \<Rightarrow> string + string"
  ac_trace :: "trace_event \<Rightarrow> string + string"
  ac_receipt :: "proof_receipt \<Rightarrow> string + string"
  ac_parse_message :: "string \<Rightarrow> string + coral_message"
  ac_parse_trace :: "string \<Rightarrow> string + trace_event"

definition and_then :: "(app_error + unit) \<times> 'w \<Rightarrow> ('w \<Rightarrow> (app_error + unit) \<times> 'w) \<Rightarrow> (app_error + unit) \<times> 'w" where
  "and_then r f = (case r of (Inl e, w) \<Rightarrow> (Inl e, w) | (Inr _, w) \<Rightarrow> f w)"

definition write_receipt ::
  "'w files \<Rightarrow> artefact_codec \<Rightarrow> string \<Rightarrow> proof_receipt option \<Rightarrow> 'w \<Rightarrow> (app_error + unit) \<times> 'w" where
  "write_receipt io ac dir proof w =
     (case proof of None \<Rightarrow> (Inr (), w)
      | Some p \<Rightarrow> (case ac_receipt ac p of Inl e \<Rightarrow> (Inl (JsonError e), w)
          | Inr s \<Rightarrow> apfst (map_sum IoError id) (fi_write io (in_dir dir proof_receipts) s w)))"

definition persist_run_artifacts ::
  "'w files \<Rightarrow> artefact_codec \<Rightarrow> string \<Rightarrow> string \<Rightarrow> coral_message list \<Rightarrow> trace_event list
     \<Rightarrow> proof_receipt option \<Rightarrow> 'w \<Rightarrow> (app_error + unit) \<times> 'w" where
  "persist_run_artifacts io ac replay_dir rid messages trace proof w =
     (let dir = run_dir replay_dir rid in
      and_then (apfst (map_sum IoError id) (fi_create_dir io dir w)) (\<lambda>w1.
      and_then (write_jsonl io (ac_message ac) (in_dir dir coral_transcript) messages w1) (\<lambda>w2.
      and_then (write_jsonl io (ac_trace ac) (in_dir dir agent_trace) trace w2) (\<lambda>w3.
        write_receipt io ac dir proof w3))))"

definition read_coral_messages ::
  "'w files \<Rightarrow> artefact_codec \<Rightarrow> string \<Rightarrow> string \<Rightarrow> 'w \<Rightarrow> (app_error + coral_message list) \<times> 'w" where
  "read_coral_messages io ac replay_dir rid =
     read_jsonl io (ac_parse_message ac) (in_dir (run_dir replay_dir rid) coral_transcript)"

definition read_agent_trace ::
  "'w files \<Rightarrow> artefact_codec \<Rightarrow> string \<Rightarrow> string \<Rightarrow> 'w \<Rightarrow> (app_error + trace_event list) \<times> 'w" where
  "read_agent_trace io ac replay_dir rid =
     read_jsonl io (ac_parse_trace ac) (in_dir (run_dir replay_dir rid) agent_trace)"

section \<open>Lines\<close>

text \<open>
  What the code relies on: a compact JSON object is one line in braces, and a file that was
  written is read back until another path's write, which leaves it alone. Nothing is assumed of
  the value a line parses to: \<open>serde_json\<close> need not give back the value it serialised (a null in
  an optional field is read as none, a float may be rounded, and not a number is refused).
  \<open>reread\<close> is what one value becomes, \<open>reread_all\<close> a list of them up to the first that is refused.
\<close>

definition line_codec :: "('a \<Rightarrow> string + string) \<Rightarrow> bool" where
  "line_codec ser \<longleftrightarrow> (\<forall>v s. ser v = Inr s \<longrightarrow> CHR 0x0A \<notin> set s \<and> (\<exists>m. s = CHR ''{'' # m @ [CHR ''}'']))"

definition reread :: "('a \<Rightarrow> string + string) \<Rightarrow> (string \<Rightarrow> string + 'b) \<Rightarrow> 'a \<Rightarrow> string + 'b" where
  "reread ser parse v = (case ser v of Inl e \<Rightarrow> Inl e | Inr s \<Rightarrow> parse s)"

fun reread_all :: "('a \<Rightarrow> string + 'b) \<Rightarrow> 'a list \<Rightarrow> app_error + 'b list" where
  "reread_all f [] = Inr []"
| "reread_all f (v # vs) =
     (case f v of Inl e \<Rightarrow> Inl (JsonError e) | Inr u \<Rightarrow> map_sum id ((#) u) (reread_all f vs))"

lemma reread_all_exact: "(\<And>v. v \<in> set vs \<Longrightarrow> f v = Inr v) \<Longrightarrow> reread_all f vs = Inr vs"
  by (induction vs) auto

definition faithful_files :: "'w files \<Rightarrow> bool" where
  "faithful_files io \<longleftrightarrow> (\<forall>p c w w'. fi_write io p c w = (Inr (), w') \<longrightarrow>
     fi_read io p w' = (Inr c, w')
     \<and> (\<forall>q. q \<noteq> p \<longrightarrow> (\<forall>x. fi_read io q w = (x, w) \<longrightarrow> fi_read io q w' = (x, w'))))"

lemma trim_braces: "trim (CHR ''{'' # m @ [CHR ''}'']) = CHR ''{'' # m @ [CHR ''}'']"
  by (rule trim_word_ends) code_simp+

lemma split_on_line: "c \<notin> set s \<Longrightarrow> split_on c (s @ c # t) = s # split_on c t"
  by (induction s) auto

lemma split_on_nonempty: "split_on c s \<noteq> []"
  by (induction s) (auto split: list.splits)

lemma str_lines_line:
  assumes "CHR 0x0A \<notin> set s"
  shows "str_lines (s @ CHR 0x0A # t) = strip_cr s # str_lines t"
  using split_on_line [OF assms, of t] split_on_nonempty [of "CHR 0x0A" t] by (simp add: str_lines_def Let_def)

lemma jsonl_lines:
  assumes "line_codec ser"
  shows "jsonl ser vs = Inr out \<Longrightarrow>
    parse_lines parse (filter (\<lambda>l. trim l \<noteq> []) (str_lines out)) = reread_all (reread ser parse) vs"
proof (induction vs arbitrary: out)
  case Nil
  then show ?case by (simp add: str_lines_def)
next
  case (Cons v vs)
  then obtain s rest where s: "ser v = Inr s" and rest: "jsonl ser vs = Inr rest"
      and out: "out = s @ CHR 0x0A # rest"
    by (cases "ser v"; cases "jsonl ser vs") auto
  have p: "reread ser parse v = parse s" "CHR 0x0A \<notin> set s"
    using assms s unfolding line_codec_def reread_def by auto
  obtain m where m: "s = CHR ''{'' # m @ [CHR ''}'']" using assms s unfolding line_codec_def by blast
  then have "strip_cr s = s" "trim s \<noteq> []" using trim_braces [of m] by (simp_all add: strip_cr_def)
  then show ?case using Cons.IH [OF rest] p out by (cases "parse s") (simp_all add: str_lines_line)
qed

lemma write_jsonl_read:
  assumes "faithful_files io" and "line_codec ser" and "write_jsonl io ser p vs w = (Inr (), w')"
  shows "read_jsonl io parse p w' = (reread_all (reread ser parse) vs, w')"
proof -
  obtain out where j: "jsonl ser vs = Inr out" and "fi_write io p out w = (Inr (), w')"
    using assms(3) by (cases "jsonl ser vs"; cases "fi_write io p (projr (jsonl ser vs)) w"; cases "fst (fi_write io p (projr (jsonl ser vs)) w)")
      (auto simp: write_jsonl_def)
  then have "fi_read io p w' = (Inr out, w')" using assms(1) unfolding faithful_files_def by blast
  then show ?thesis by (simp add: read_jsonl_def jsonl_lines [OF assms(2) j])
qed

lemma write_keeps:
  assumes "faithful_files io" and "fi_write io p c w = (Inr (), w')" and "q \<noteq> p"
    and "read_jsonl io parse q w = (r, w)"
  shows "read_jsonl io parse q w' = (r, w')"
proof -
  obtain x w1 where x: "fi_read io q w = (x, w1)" by (metis surj_pair)
  then have "w1 = w" using assms(4) by (auto simp: read_jsonl_def split: sum.splits read_error.splits)
  then have "fi_read io q w' = (x, w')" using assms(1,2,3) x unfolding faithful_files_def by blast
  then show ?thesis using assms(4) x by (auto simp: read_jsonl_def split: sum.splits read_error.splits)
qed

lemma write_jsonl_keeps:
  assumes "faithful_files io" and "write_jsonl io ser p vs' w = (Inr (), w')" and "q \<noteq> p"
    and "read_jsonl io parse q w = (r, w)"
  shows "read_jsonl io parse q w' = (r, w')"
proof -
  obtain out where "fi_write io p out w = (Inr (), w')"
    using assms(2) by (cases "jsonl ser vs'"; cases "fi_write io p (projr (jsonl ser vs')) w"; cases "fst (fi_write io p (projr (jsonl ser vs')) w)")
      (auto simp: write_jsonl_def)
  from write_keeps [OF assms(1) this assms(3,4)] show ?thesis .
qed

lemma and_then_Inr: "and_then r f = (Inr (), w') \<longleftrightarrow> (\<exists>w. r = (Inr (), w) \<and> f w = (Inr (), w'))"
  by (auto simp: and_then_def split: prod.splits sum.splits)

text \<open>
  C19: Replay: whatever the run, if its artefacts were written then reading them back, also after
  the other files of the run were written, gives one value per message and per trace event, in
  order and nothing else: what the JSON of that value parses to, or the error of the first that
  does not parse. So a round whose events each survive their own JSON is read back exactly. The
  conditions: a file that was written can be read and is not changed by writing another, and a
  value's JSON is one line in braces.
\<close>

theorem transcript_roundtrip:
  assumes "faithful_files io" and "line_codec (ac_message ac)" and "line_codec (ac_trace ac)"
    and "persist_run_artifacts io ac replay_dir rid messages trace receipt w = (Inr (), w')"
  shows "read_coral_messages io ac replay_dir rid w' =
      (reread_all (reread (ac_message ac) (ac_parse_message ac)) messages, w')
    \<and> read_agent_trace io ac replay_dir rid w' =
      (reread_all (reread (ac_trace ac) (ac_parse_trace ac)) trace, w')
    \<and> ((\<forall>m \<in> set messages. reread (ac_message ac) (ac_parse_message ac) m = Inr m) \<longrightarrow>
        read_coral_messages io ac replay_dir rid w' = (Inr messages, w'))
    \<and> ((\<forall>t \<in> set trace. reread (ac_trace ac) (ac_parse_trace ac) t = Inr t) \<longrightarrow>
        read_agent_trace io ac replay_dir rid w' = (Inr trace, w'))"
proof -
  let ?dir = "run_dir replay_dir rid"
  have ne: "in_dir ?dir coral_transcript \<noteq> in_dir ?dir agent_trace"
    "in_dir ?dir coral_transcript \<noteq> in_dir ?dir proof_receipts"
    "in_dir ?dir agent_trace \<noteq> in_dir ?dir proof_receipts"
    by (simp_all add: in_dir_def coral_transcript_def agent_trace_def proof_receipts_def)
  obtain w1 w2 w3 where m: "write_jsonl io (ac_message ac) (in_dir ?dir coral_transcript) messages w1 = (Inr (), w2)"
    and t: "write_jsonl io (ac_trace ac) (in_dir ?dir agent_trace) trace w2 = (Inr (), w3)"
    and p: "write_receipt io ac ?dir receipt w3 = (Inr (), w')"
    using assms(4) by (auto simp: persist_run_artifacts_def Let_def and_then_Inr)
  let ?ms = "reread_all (reread (ac_message ac) (ac_parse_message ac)) messages"
  let ?ts = "reread_all (reread (ac_trace ac) (ac_parse_trace ac)) trace"
  have m3: "read_jsonl io (ac_parse_message ac) (in_dir ?dir coral_transcript) w3 = (?ms, w3)"
    by (rule write_jsonl_keeps [OF assms(1) t ne(1) write_jsonl_read [OF assms(1,2) m]])
  have t3: "read_jsonl io (ac_parse_trace ac) (in_dir ?dir agent_trace) w3 = (?ts, w3)"
    by (rule write_jsonl_read [OF assms(1,3) t])
  have "read_coral_messages io ac replay_dir rid w' = (?ms, w') \<and> read_agent_trace io ac replay_dir rid w' = (?ts, w')"
  proof (cases receipt)
    case None
    then show ?thesis using p m3 t3 by (simp add: write_receipt_def read_coral_messages_def read_agent_trace_def)
  next
    case (Some q)
    then obtain s where "fi_write io (in_dir ?dir proof_receipts) s w3 = (Inr (), w')"
      using p by (cases "ac_receipt ac q"; cases "fi_write io (in_dir ?dir proof_receipts) (projr (ac_receipt ac q)) w3";
          cases "fst (fi_write io (in_dir ?dir proof_receipts) (projr (ac_receipt ac q)) w3)")
        (auto simp: write_receipt_def)
    from write_keeps [OF assms(1) this ne(2) m3] write_keeps [OF assms(1) this ne(3) t3]
    show ?thesis by (simp add: read_coral_messages_def read_agent_trace_def)
  qed
  then show ?thesis
    using reread_all_exact [of messages "reread (ac_message ac) (ac_parse_message ac)"]
      reread_all_exact [of trace "reread (ac_trace ac) (ac_parse_trace ac)"] by simp
qed

text \<open>A run identifier of dots passes the filter: the directory is then the parent.\<close>

lemma run_dir_escapes: "run_dir replay_dir ''..'' = replay_dir @ ''/runs/..''"
  by (simp add: run_dir_def safe_segment_def safe_char_def utf8_cont_def)

section \<open>Files in memory\<close>

definition memory_files :: "(string \<Rightarrow> string option) files" where
  "memory_files = \<lparr>fi_create_dir = (\<lambda>_ w. (Inr (), w)), fi_write = (\<lambda>p c w. (Inr (), w(p \<mapsto> c))),
     fi_read = (\<lambda>p w. (case w p of None \<Rightarrow> Inl FileMissing | Some c \<Rightarrow> Inr c, w))\<rparr>"

definition sample_trace :: trace_event where
  "sample_trace = \<lparr>tr_id = ''t'', tr_run_id = ''r'', tr_round = 1, tr_phase = PhObserve, tr_summary = [], tr_payload = None, tr_ts = []\<rparr>"

text \<open>
  A codec that behaves as \<open>serde_json\<close> does on a null payload: it is written, and read as none.
\<close>

definition null_payload :: trace_event where
  "null_payload = sample_trace\<lparr>tr_payload := Some JNull\<rparr>"

definition sample_codec :: artefact_codec where
  "sample_codec = \<lparr>ac_message = (\<lambda>_. Inl ''unsupported''),
     ac_trace = (\<lambda>t. if t = sample_trace then Inr ''{t}'' else if t = null_payload then Inr ''{null}'' else Inl ''unsupported''),
     ac_receipt = (\<lambda>_. Inl ''unsupported''), ac_parse_message = (\<lambda>_. Inl ''unsupported''),
     ac_parse_trace = (\<lambda>l. if l = ''{t}'' \<or> l = ''{null}'' then Inr sample_trace else Inl ''unexpected'')\<rparr>"

theorem transcript_roundtrip_witness:
  "\<exists>w'. persist_run_artifacts memory_files sample_codec ''replay'' ''r/1'' [] [sample_trace, null_payload] None Map.empty = (Inr (), w')
    \<and> read_agent_trace memory_files sample_codec ''replay'' ''r/1'' w' = (Inr [sample_trace, sample_trace], w')
    \<and> read_coral_messages memory_files sample_codec ''replay'' ''r/1'' w' = (Inr [], w')"
proof -
  have f: "faithful_files memory_files" by (simp add: faithful_files_def memory_files_def)
  have m: "line_codec (ac_message sample_codec)" by (simp add: line_codec_def sample_codec_def)
  have t: "line_codec (ac_trace sample_codec)"
    by (auto simp: line_codec_def sample_codec_def intro: exI [of _ "''t''"] exI [of _ "''null''"])
  have ne: "null_payload \<noteq> sample_trace" by (simp add: null_payload_def sample_trace_def)
  obtain w' where w: "persist_run_artifacts memory_files sample_codec ''replay'' ''r/1'' [] [sample_trace, null_payload] None Map.empty = (Inr (), w')"
    using ne by (simp add: persist_run_artifacts_def Let_def and_then_def memory_files_def write_jsonl_def sample_codec_def write_receipt_def)
  have "reread_all (reread (ac_trace sample_codec) (ac_parse_trace sample_codec)) [sample_trace, null_payload]
      = Inr [sample_trace, sample_trace]"
    using ne by (simp add: reread_def sample_codec_def)
  then show ?thesis using transcript_roundtrip [OF f m t w] w by simp
qed

end
