(* ===== verification/Llm.thy ===== *)
theory Llm
  imports Coral_Bus Txline
begin

text \<open>
  The narration client (\<open>services/llm/venice.rs\<close>, \<open>services/llm/schemas.rs\<close>): one chat
  completion at Venice or Groq over the desk's network, and the deterministic fallback.
\<close>

record llm_request =
  lr_system :: string
  lr_user :: string
  lr_model :: string
  lr_max_tokens :: u32
  lr_temperature :: f64

record llm_response =
  ls_provider :: string
  ls_model :: string
  ls_text :: string
  ls_used :: bool
  ls_reason :: "string option"

definition llm_fallback :: "string \<Rightarrow> string \<Rightarrow> llm_response" where
  "llm_fallback txt reason =
     \<lparr>ls_provider = ''none'', ls_model = ''deterministic'', ls_text = txt, ls_used = False, ls_reason = Some reason\<rparr>"

definition max_tokens :: "string \<Rightarrow> u32 \<Rightarrow> u32" where
  "max_tokens model requested =
     (if contains_sub (to_ascii_lowercase model) ''kimi'' then max requested 1024 else max requested 256)"

definition chat_message :: "string \<Rightarrow> string \<Rightarrow> json" where
  "chat_message role content = JObj [(''role'', JStr role), (''content'', JStr content)]"

definition chat_request :: "string \<Rightarrow> llm_request \<Rightarrow> json" where
  "chat_request model q = JObj
     [(''model'', JStr model),
      (''messages'', JArr [chat_message ''system'' (lr_system q), chat_message ''user'' (lr_user q)]),
      (''temperature'', jfloat (lr_temperature q)),
      (''max_tokens'', JInt (uint (max_tokens model (lr_max_tokens q))))]"

text \<open>\<open>serde\<close>'s reading of a struct with one field: an object, or an array of one.\<close>

definition field_of :: "string \<Rightarrow> json \<Rightarrow> json option" where
  "field_of name v = (case v of JObj _ \<Rightarrow> jget v name | JArr [x] \<Rightarrow> Some x | _ \<Rightarrow> None)"

fun all_some :: "'a option list \<Rightarrow> 'a list option" where
  "all_some [] = Some []"
| "all_some (None # xs) = None"
| "all_some (Some x # xs) = map_option ((#) x) (all_some xs)"

definition choice_content :: "json \<Rightarrow> string option" where
  "choice_content v = Option.bind (field_of ''message'' v) (\<lambda>m. Option.bind (field_of ''content'' m) as_str)"

definition chat_contents :: "json \<Rightarrow> string list option" where
  "chat_contents v = Option.bind (field_of ''choices'' v)
     (\<lambda>c. Option.bind (as_array c) (\<lambda>vs. all_some (map choice_content vs)))"

definition completion_text :: "string \<Rightarrow> string list \<Rightarrow> string" where
  "completion_text provider contents =
     unwrap_or (provider @ '' returned an empty explanation.'')
       (opt_filter (\<lambda>t. t \<noteq> []) (case contents of [] \<Rightarrow> None | c # _ \<Rightarrow> Some (trim c)))"

definition read_completion :: "'w io \<Rightarrow> string \<Rightarrow> string \<Rightarrow> http_response \<Rightarrow> app_error + llm_response" where
  "read_completion io provider model r =
     (if \<not> is_success r then Inl (TaskError (provider @ '' HTTP '' @ io_show_status io (hs_status r)))
      else case hs_text r of Inl e \<Rightarrow> Inl (HttpError e)
      | Inr body \<Rightarrow>
          (case io_parse io body of Inl e \<Rightarrow> Inl (HttpError e)
           | Inr v \<Rightarrow>
               (case chat_contents v of
                  None \<Rightarrow> Inl (HttpError ''error decoding response body'')
                | Some cs \<Rightarrow> Inr \<lparr>ls_provider = provider, ls_model = model, ls_text = completion_text provider cs,
                    ls_used = True, ls_reason = None\<rparr>)))"

definition complete_with ::
  "'w io \<Rightarrow> string option \<Rightarrow> string \<Rightarrow> string \<Rightarrow> string \<Rightarrow> string \<Rightarrow> string \<Rightarrow> llm_request
     \<Rightarrow> 'w \<Rightarrow> (app_error + llm_response) \<times> 'w" where
  "complete_with io key missing_reason missing_text url provider model q w =
     (case key of None \<Rightarrow> (Inr (llm_fallback missing_text missing_reason), w)
      | Some k \<Rightarrow>
          (case io_http io \<lparr>hq_post = True, hq_url = url, hq_token = k, hq_body = Some (chat_request model q)\<rparr> w of
             (Inl e, w1) \<Rightarrow> (Inl (HttpError e), w1)
           | (Inr r, w1) \<Rightarrow> (read_completion io provider model r, w1)))"

definition groq_model :: "string \<Rightarrow> string" where
  "groq_model m = (if m = ''default'' \<or> eq_ignore_ascii_case m ''kimi-k2-7-code'' then ''llama-3.1-8b-instant'' else m)"

definition llm_complete :: "'w io \<Rightarrow> app_config \<Rightarrow> llm_request \<Rightarrow> 'w \<Rightarrow> (app_error + llm_response) \<times> 'w" where
  "llm_complete io cfg q w =
     (let provider = to_ascii_lowercase (llm_provider cfg) in
      if provider = ''venice'' then
        complete_with io (venice_api_key cfg) ''missing_venice_api_key''
          ''Venice is not configured; deterministic explanation used.''
          ''https://api.venice.ai/api/v1/chat/completions'' ''venice'' (lr_model q) q w
      else if provider = ''groq'' then
        complete_with io (groq_api_key cfg) ''missing_groq_api_key''
          ''Groq is not configured; deterministic explanation used.''
          ''https://api.groq.com/openai/v1/chat/completions'' ''groq'' (groq_model (lr_model q)) q w
      else (Inr (llm_fallback ''LLM provider is not Venice or Groq; deterministic explanation used.''
              (''unsupported_provider:'' @ provider)), w))"

end
