(* ===== verification/Round.thy ===== *)
theory Round
  imports Delegation Validation Transcript Llm
begin

text \<open>
  \<open>agent/runtime/mod.rs\<close> with \<open>events.rs\<close>, \<open>persistence.rs\<close> and the payload of \<open>handoff.rs\<close>:
  one Match Intelligence round from a TxLINE event to the persisted run. The round is a sequence
  of stages over a state; the components it drives are those of the other theories. What lies
  outside (network, clock, ledger, files, window events, the reasoning model) is \<open>round_env\<close>.
  A lock is never poisoned: the release build aborts on a panic.
\<close>

section \<open>The outside of a round\<close>

datatype ui_event =
    UiSession coral_session
  | UiMessage coral_message
  | UiTrace trace_event
  | UiReceipt proof_receipt
  | UiValidation json
  | UiTxline txline_event
  | UiSignal coral_message
  | UiEvaluation coral_message
  | UiMarketRound string timeline_entry
  | UiNotification json

record 'w ledger_io =
  li_runs :: "'w \<Rightarrow> (app_error + agent_run list) \<times> 'w"
  li_signal :: "string \<Rightarrow> agent_signal \<Rightarrow> 'w \<Rightarrow> (app_error + unit) \<times> 'w"
  li_run :: "agent_run \<Rightarrow> 'w \<Rightarrow> (app_error + unit) \<times> 'w"
  li_observation :: "string \<Rightarrow> txline_event \<Rightarrow> 'w \<Rightarrow> (app_error + unit) \<times> 'w"
  li_receipt :: "string \<Rightarrow> proof_receipt \<Rightarrow> 'w \<Rightarrow> (app_error + unit) \<times> 'w"
  li_llm :: "string \<Rightarrow> llm_response \<Rightarrow> 'w \<Rightarrow> (app_error + unit) \<times> 'w"
  li_decision :: "string \<Rightarrow> agent_decision \<Rightarrow> 'w \<Rightarrow> (app_error + unit) \<times> 'w"

record round_encoders = encoders +
  rc_kind :: "event_kind \<Rightarrow> json"
  rc_simulation :: "simulation_status \<Rightarrow> json"
  rc_wager :: "wager \<Rightarrow> json"
  rc_trail :: "tool_trail_entry list \<Rightarrow> json"
  rc_llm :: "llm_response \<Rightarrow> json"
  rc_evaluation :: "agent_evaluation \<Rightarrow> json"
  rc_publish :: "publish_result \<Rightarrow> json"

text \<open>
  The reasoning model, if there is one: what a pass of its tool loop gives, or \<open>None\<close> when the pass
  never returns. The clients of the tools and of the model (\<open>rig-venice\<close>) have no time limit.
\<close>

type_synonym reasoner = "(string \<Rightarrow> string \<Rightarrow> u32 \<Rightarrow> (string + tool_loop_outcome) option) option"

record 'w round_env =
  re_io :: "'w io"
  re_cfg :: app_config
  re_validation :: "'w validation_env"
  re_ledger :: "'w ledger_io"
  re_files :: "'w files"
  re_artefacts :: artefact_codec
  re_wire :: wire_codec
  re_enc :: round_encoders
  re_emit :: "ui_event \<Rightarrow> 'w \<Rightarrow> 'w"
  re_reason :: "'w \<Rightarrow> reasoner \<times> 'w"
  re_replay_dir :: string

text \<open>
  The state of a round. \<open>rn_persisted\<close> is the application's remembered bus session, shared
  by all rounds.
\<close>

record 'w round_state =
  rn_context :: agent_context
  rn_session :: coral_session
  rn_run :: agent_run
  rn_messages :: "coral_message list"
  rn_trace :: "trace_event list"
  rn_round :: u64
  rn_live :: "live_session option"
  rn_persisted :: "string option"
  rn_verified :: "wager option"
  rn_trail :: "tool_trail_entry list"
  rn_world :: 'w

section \<open>events.rs\<close>

definition emit_message ::
  "'w round_env \<Rightarrow> string \<Rightarrow> string list \<Rightarrow> coral_verb \<Rightarrow> string \<Rightarrow> json option \<Rightarrow> 'w round_state \<Rightarrow> 'w round_state" where
  "emit_message env sender to verb txt payload st =
     (case new_message (re_io env) (rn_session st) (rn_round st) sender to verb txt payload (rn_world st) of
        (m, w) \<Rightarrow> st\<lparr>rn_messages := rn_messages st @ [m], rn_world := re_emit env (UiMessage m) w\<rparr>)"

definition emit_trace_at ::
  "'w round_env \<Rightarrow> u64 \<Rightarrow> trace_phase \<Rightarrow> string \<Rightarrow> json option \<Rightarrow> 'w round_state \<Rightarrow> 'w round_state" where
  "emit_trace_at env rd phase summary payload st =
     (case io_uuid (re_io env) (rn_world st) of (u, w1) \<Rightarrow>
      case io_now_iso (re_io env) w1 of (t, w2) \<Rightarrow>
        let ev = \<lparr>tr_id = ''trace-'' @ u, tr_run_id = run_id (rn_run st), tr_round = rd, tr_phase = phase,
                  tr_summary = summary, tr_payload = payload, tr_ts = t\<rparr>
        in st\<lparr>rn_trace := rn_trace st @ [ev], rn_world := re_emit env (UiTrace ev) w2\<rparr>)"

definition emit_trace ::
  "'w round_env \<Rightarrow> trace_phase \<Rightarrow> string \<Rightarrow> json option \<Rightarrow> 'w round_state \<Rightarrow> 'w round_state" where
  "emit_trace env phase summary payload st = emit_trace_at env (rn_round st) phase summary payload st"

definition mark_timeline :: "'w round_env \<Rightarrow> string \<Rightarrow> string \<Rightarrow> 'w round_state \<Rightarrow> 'w round_state" where
  "mark_timeline env label detail st =
     (case io_now_iso (re_io env) (rn_world st) of (t, w) \<Rightarrow>
        st\<lparr>rn_run := append_timeline t label detail (rn_run st), rn_world := w\<rparr>)"

definition next_round :: "'w round_state \<Rightarrow> 'w round_state" where
  "next_round st = st\<lparr>rn_round := rn_round st + 1\<rparr>"

definition emit_ui :: "'w round_env \<Rightarrow> ui_event \<Rightarrow> 'w round_state \<Rightarrow> 'w round_state" where
  "emit_ui env e st = st\<lparr>rn_world := re_emit env e (rn_world st)\<rparr>"

definition proof_event :: "string \<Rightarrow> string \<Rightarrow> agent_run \<Rightarrow> proof_receipt \<Rightarrow> txline_event" where
  "proof_event uuid now run p =
     \<lparr>ev_id = ''proof-'' @ run_id run @ ''-'' @ uuid, ev_kind = ProofReceived,
      ev_fixture_id = pr_fixture_id p, ev_seq = pr_seq p, ev_txline_ts = pr_txline_ts p,
      ev_action = Some ''ProofReceived'', ev_confirmed = Some (pr_verified p), ev_participant = None,
      ev_period = None, ev_stat_keys = pr_stat_keys p, ev_schema_family = Some ''proof'',
      ev_title = (if pr_verified p then ''TxLINE proof verified'' else ''TxLINE proof pending''),
      ev_body = pr_note p, ev_ts = now, ev_raw = pr_raw p, ev_odds = None, ev_score = None, ev_proof = Some p\<rparr>"

definition emit_proof_event :: "'w round_env \<Rightarrow> proof_receipt \<Rightarrow> 'w round_state \<Rightarrow> 'w round_state" where
  "emit_proof_event env p st =
     (case io_uuid (re_io env) (rn_world st) of (u, w1) \<Rightarrow>
      case io_now_iso (re_io env) w1 of (t, w2) \<Rightarrow>
        st\<lparr>rn_world := re_emit env (UiTxline (proof_event u t (rn_run st) p)) w2\<rparr>)"

text \<open>Consecutive steps of a stage.\<close>

definition steps :: "('s \<Rightarrow> 's) list \<Rightarrow> 's \<Rightarrow> 's" where
  "steps fs st = fold (\<lambda>f. f) fs st"

lemma steps_simps: "steps [] st = st" "steps (f # fs) st = steps fs (f st)"
  by (simp_all add: steps_def)

section \<open>handoff.rs: the payload of a ruling\<close>

definition wager_ruling_payload :: "round_encoders \<Rightarrow> authority_ruling option \<Rightarrow> tool_trail_entry list \<Rightarrow> json" where
  "wager_ruling_payload en ruling trail = JObj
     [(''wagerRuling'', opt_json (\<lambda>r. JObj [(''wager'', rc_wager en (ru_wager r)), (''reason'', JStr (ru_reason r))]) ruling),
      (''toolTrail'', rc_trail en trail)]"

definition debug_simulation :: "simulation_status \<Rightarrow> string" where
  "debug_simulation s = (case s of SimNotStarted \<Rightarrow> ''NotStarted'' | SimPassed \<Rightarrow> ''Passed''
     | SimFailed \<Rightarrow> ''Failed'' | SimUnavailable \<Rightarrow> ''Unavailable'')"

definition show_seq :: "string \<Rightarrow> u64 option \<Rightarrow> string" where
  "show_seq none seq = (case seq of None \<Rightarrow> none | Some n \<Rightarrow> show_u64 n)"

definition jnum :: "u64 \<Rightarrow> json" where "jnum n = JInt (uint n)"

section \<open>The stages\<close>

text \<open>A stage may crash on a panic or never return from a wait.\<close>

datatype 'a outcome = Finished 'a | Crashed | Stuck

fun and_next :: "'a outcome \<Rightarrow> ('a \<Rightarrow> 'b outcome) \<Rightarrow> 'b outcome" where
  "and_next (Finished x) f = f x"
| "and_next Crashed f = Crashed"
| "and_next Stuck f = Stuck"

lemma and_next_Finished: "and_next m f = Finished y \<longleftrightarrow> (\<exists>x. m = Finished x \<and> f x = Finished y)"
  by (cases m) auto

definition start_round ::
  "'w round_env \<Rightarrow> txline_event \<Rightarrow> track_mode \<Rightarrow> string option \<Rightarrow> 'w \<Rightarrow> 'w round_state" where
  "start_round env trigger track persisted w =
     (case li_runs (re_ledger env) w of (runs, w0) \<Rightarrow>
      case io_uuid (re_io env) w0 of (u, w1) \<Rightarrow>
      case io_now_iso (re_io env) w1 of (t1, w2) \<Rightarrow>
      let ctx = build_context u t1
            \<lparr>th_odds_move_trigger_pct = odds_move_trigger_pct (re_cfg env),
             th_max_devnet_spend_sol = max_devnet_spend_sol (re_cfg env)\<rparr>
            track trigger None (case runs of Inl _ \<Rightarrow> [] | Inr rs \<Rightarrow> rs) in
      case io_now_iso (re_io env) w2 of (t2, w3) \<Rightarrow>
      case io_now_iso (re_io env) w3 of (t3, w4) \<Rightarrow>
        \<lparr>rn_context = ctx,
         rn_session = start_session (cx_run_id ctx) (ev_fixture_id (cx_event ctx)) (cx_track ctx) t2,
         rn_run = empty_run t3 ctx, rn_messages = [], rn_trace = [], rn_round = 1, rn_live = None,
         rn_persisted = persisted, rn_verified = None, rn_trail = [], rn_world = w4\<rparr>)"

definition stage_session :: "'w round_env \<Rightarrow> 'w round_state \<Rightarrow> 'w round_state" where
  "stage_session env st =
     (if \<not> coralos_console_enabled (re_cfg env) then st
      else case ensure_session_with_override (re_io env) (re_cfg env) (rn_run st) (rn_persisted st) (rn_world st) of
        (Inr s, w) \<Rightarrow> st\<lparr>rn_live := Some s, rn_persisted := Some (lv_session_id s), rn_world := w\<rparr>
      | (Inl _, w) \<Rightarrow> st\<lparr>rn_persisted := None, rn_world := w\<rparr>)"

definition stage_observe :: "'w round_env \<Rightarrow> 'w round_state \<Rightarrow> 'w round_state" where
  "stage_observe env st =
     (let ev = cx_event (rn_context st) in steps
       [emit_ui env (UiSession (rn_session st)),
        emit_message env match_intelligence [user_proxy] VObserved
          (''observed '' @ debug_kind (ev_kind ev) @ '' for fixture '' @ show_u64 (ev_fixture_id ev))
          (Some (JObj [(''eventId'', JStr (ev_id ev)), (''fixtureId'', jnum (ev_fixture_id ev)),
             (''kind'', rc_kind (re_enc env) (ev_kind ev)), (''seq'', opt_json jnum (ev_seq ev))])),
        emit_trace env PhObserve ''live TxLINE event observed''
          (Some (JObj [(''eventId'', JStr (ev_id ev)), (''fixtureId'', jnum (ev_fixture_id ev))])),
        mark_timeline env ''OBSERVE'' ''live TxLINE event observed''] st)"

definition stage_derive :: "'w round_env \<Rightarrow> 'w round_state \<Rightarrow> 'w round_state" where
  "stage_derive env st =
     (let ev = cx_event (rn_context st); derived = derive_features ev;
          shown = Some (JObj [(''features'', en_features (re_enc env) derived)]) in steps
       [next_round,
        emit_message env match_intelligence [user_proxy] VNormalized
          (''normalized fixture '' @ show_u64 (ev_fixture_id ev) @ '' seq '' @ show_seq ''n/a'' (ev_seq ev)
             @ '' with '' @ show_nat (length (ev_stat_keys ev)) @ '' stat keys'')
          (Some (JObj [(''fixtureId'', jnum (ev_fixture_id ev)), (''seq'', opt_json jnum (ev_seq ev)),
             (''statKeys'', JArr (map JStr (ev_stat_keys ev))), (''schemaFamily'', opt_json JStr (ev_schema_family ev))])),
        emit_trace env PhDerive ''market features derived'' shown,
        mark_timeline env ''FEATURES'' ''market features derived'',
        next_round,
        emit_message env user_proxy [match_intelligence] VWant
          (''WANT txodds.match-intelligence fixture:'' @ show_u64 (ev_fixture_id ev) @ '' track:''
             @ show_track (cx_track (rn_context st)))
          (Some (JObj [(''runId'', JStr (run_id (rn_run st))), (''track'', JStr (show_track (cx_track (rn_context st))))])),
        next_round,
        emit_message env match_intelligence [user_proxy] VToolResult (feature_summary derived) shown,
        emit_trace env PhToolResult (feature_summary derived) shown] st)"

definition ask_proof :: "'w round_env \<Rightarrow> 'w round_state \<Rightarrow> 'w round_state" where
  "ask_proof env st =
     (let ev = cx_event (rn_context st) in steps
       [next_round,
        emit_message env match_intelligence [proof_guard_agent] VProofRequested
          (''request TxLINE txoracle proof for fixture '' @ show_u64 (ev_fixture_id ev) @ '' seq ''
             @ show_seq ''latest'' (ev_seq ev))
          (Some (JObj [(''fixtureId'', jnum (ev_fixture_id ev)), (''seq'', opt_json jnum (ev_seq ev)),
             (''statKeys'', JArr (map JStr (ev_stat_keys ev)))])),
        emit_trace env PhToolCall ''txoracle proof requested'' (Some (JObj [(''tool'', JStr ''txoracle_validation'')]))] st)"

definition attach_proof :: "proof_receipt \<Rightarrow> 'w round_state \<Rightarrow> 'w round_state" where
  "attach_proof p st =
     st\<lparr>rn_context := (rn_context st)\<lparr>cx_proof := Some p, cx_event := (cx_event (rn_context st))\<lparr>ev_proof := Some p\<rparr>\<rparr>,
        rn_run := (rn_run st)\<lparr>run_trigger := (run_trigger (rn_run st))\<lparr>ev_proof := Some p\<rparr>\<rparr>\<rparr>"

definition report_proof :: "'w round_env \<Rightarrow> proof_receipt \<Rightarrow> proof_gate_decision \<Rightarrow> 'w round_state \<Rightarrow> 'w round_state" where
  "report_proof env p gate st =
     (let en = re_enc env; both = Some (JObj [(''receipt'', en_receipt en p), (''gate'', en_gate en gate)]) in steps
       [mark_timeline env ''PROOF_GATE'' ((if pg_pass gate then ''pass'' else ''needs_review'') @ '': '' @ pg_reason gate),
        emit_message env proof_guard_agent [match_intelligence] VProofReceived (pr_note p) both,
        emit_message env proof_guard_agent [match_intelligence] VValidationSimulated
          (''txoracle simulation '' @ debug_simulation (pr_simulation_status p))
          (Some (JObj [(''status'', rc_simulation en (pr_simulation_status p)), (''verified'', JBool (pr_verified p)),
             (''gatePass'', JBool (pg_pass gate))])),
        emit_trace env PhProof (pr_note p) both,
        emit_ui env (UiReceipt p),
        emit_ui env (UiValidation (JObj [(''runId'', JStr (run_id (rn_run st))),
          (''status'', rc_simulation en (pr_simulation_status p)), (''verified'', JBool (pr_verified p)),
          (''note'', JStr (pr_note p))])),
        emit_proof_event env p] st)"

definition stage_proof ::
  "'w round_env \<Rightarrow> 'w round_state \<Rightarrow> ((proof_receipt \<times> proof_gate_decision) \<times> 'w round_state) outcome" where
  "stage_proof env st =
     (let st1 = ask_proof env st in
      case request_proof (re_validation env) (re_cfg env) (rn_run st1) (rn_world st1) of
        None \<Rightarrow> Stuck
      | Some ((p, gate), w) \<Rightarrow> Finished ((p, gate), report_proof env p gate (attach_proof p (st1\<lparr>rn_world := w\<rparr>))))"

section \<open>The explanation\<close>

definition explain_request :: "'w round_env \<Rightarrow> agent_context \<Rightarrow> market_features \<Rightarrow> llm_request" where
  "explain_request env ctx derived =
     \<lparr>lr_system = ''You explain a Rust sports-data agent decision. Use only the supplied facts. '' @
        ''Do not claim proof passed unless txoraclePassed is true. '' @
        ''Do not recommend signing, payment release, or settlement. Return two concise sentences.'',
      lr_user = en_render (re_enc env) (JObj
        [(''fixtureId'', jnum (ev_fixture_id (cx_event ctx))), (''track'', JStr (show_track (cx_track ctx))),
         (''eventKind'', JStr (debug_kind (ev_kind (cx_event ctx)))), (''title'', JStr (ev_title (cx_event ctx))),
         (''features'', en_features (re_enc env) derived)]),
      lr_model = llm_model (re_cfg env), lr_max_tokens = 300, lr_temperature = lit (2/10)\<rparr>"

definition explain_decision ::
  "'w round_env \<Rightarrow> agent_context \<Rightarrow> market_features \<Rightarrow> 'w \<Rightarrow> llm_response \<times> 'w" where
  "explain_decision env ctx derived w =
     (case llm_complete (re_io env) (re_cfg env) (explain_request env ctx derived) w of
        (Inr r, w1) \<Rightarrow> (r, w1)
      | (Inl e, w1) \<Rightarrow> (llm_fallback (''Deterministic explanation used: '' @ feature_summary derived)
                        (''llm_error:'' @ show_app_error e), w1))"

definition stage_explain :: "'w round_env \<Rightarrow> 'w round_state \<Rightarrow> llm_response \<times> 'w round_state" where
  "stage_explain env st =
     (case explain_decision env (rn_context st) (derive_features (cx_event (rn_context st))) (rn_world st) of
        (r, w) \<Rightarrow> (r, steps
          [next_round,
           emit_message env match_intelligence [user_proxy] VAgentThought (ls_text r)
             (Some (JObj [(''llm'', JObj [(''provider'', JStr (ls_provider r)), (''model'', JStr (ls_model r)),
                (''used'', JBool (ls_used r)), (''reason'', opt_json JStr (ls_reason r)),
                (''traceEnabled'', JBool (llm_trace (re_cfg env)))]), (''affectedFunds'', JBool False)])),
           emit_trace env PhLlmReasoning
             (if ls_used r then ''Venice explanation generated'' else ''deterministic explanation used'')
             (Some (JObj [(''llm'', rc_llm (re_enc env) r)]))] (st\<lparr>rn_world := w\<rparr>)))"

section \<open>The wager debate\<close>

text \<open>
  The one question a pass is asked, if it is asked at all: prompt, final tool and number of rounds.
\<close>

definition wager_question :: "txline_event \<Rightarrow> (string \<times> string \<times> u32) option" where
  "wager_question ev =
     (let odds = extract_odds ev in
      case (os_home odds, os_draw odds, os_away odds) of
        (Some home, Some draw, Some away) \<Rightarrow>
          Some (wager_prompt (ev_fixture_id ev) home draw away, submit_wager_assessment, 6)
      | _ \<Rightarrow> None)"

definition pundit_question :: "authority_ruling \<Rightarrow> (string \<times> string \<times> u32) option" where
  "pundit_question ruling =
     (if w_status (ru_wager ruling) = NoBet then None
      else Some (pundit_prompt (ru_wager ruling), submit_pundit_verdict, 3))"

definition pass_hangs :: "reasoner \<Rightarrow> (string \<times> string \<times> u32) option \<Rightarrow> bool" where
  "pass_hangs reasoner question =
     (case (reasoner, question) of (Some f, Some (prompt, final, rounds)) \<Rightarrow> f prompt final rounds = None | _ \<Rightarrow> False)"

definition replies_of :: "reasoner \<Rightarrow> (string \<Rightarrow> string \<Rightarrow> u32 \<Rightarrow> string + tool_loop_outcome) option" where
  "replies_of reasoner = map_option (\<lambda>f prompt final rounds. unwrap_or (Inl []) (f prompt final rounds)) reasoner"

lemma asks_only_its_question:
  "(\<And>a b c. wager_question ev = Some (a, b, c) \<Longrightarrow> f a b c = g a b c) \<Longrightarrow>
     propose_wager (Some f) uuid now ev proof_ref pol = propose_wager (Some g) uuid now ev proof_ref pol"
  "(\<And>a b c. pundit_question ruling = Some (a, b, c) \<Longrightarrow> f a b c = g a b c) \<Longrightarrow>
     react_to_wager (Some f) ruling pol = react_to_wager (Some g) ruling pol"
  by (auto simp: propose_wager_def wager_question_def react_to_wager_def pundit_question_def Let_def split: option.splits)

definition debate_payload :: "wager \<Rightarrow> round_encoders \<Rightarrow> json option" where
  "debate_payload wg en = Some (JObj [(''wager'', rc_wager en wg)])"

definition stage_guard :: "'w round_env \<Rightarrow> wager \<Rightarrow> 'w round_state \<Rightarrow> 'w round_state outcome" where
  "stage_guard env wg st =
     (let st1 = steps
        [next_round,
         emit_message env match_intelligence [proof_guard_agent] VToolCall
           (''DELEGATE wager '' @ w_wager_id wg @ '' to proof-guard-agent for consistency verification'')
           (Some (JObj [(''wagerId'', JStr (w_wager_id wg))]))] st in
      case delegate_guard (re_io env) (re_cfg env) (re_wire env) (rn_run st1) wg (rn_trail st1) (rn_live st1) (rn_world st1) of
        None \<Rightarrow> Stuck
      | Some ((out, live), w) \<Rightarrow> Finished ((steps
          [next_round,
           emit_message env proof_guard_agent [match_intelligence, user_proxy] VToolResult (go_reason out)
             (debate_payload (go_wager out) (re_enc env)),
           emit_trace env PhProof (go_reason out) (debate_payload (go_wager out) (re_enc env)),
           mark_timeline env ''WAGER_PROOF_GUARD'' (debug_status (w_status (go_wager out)) @ '': '' @ go_reason out)]
          (st1\<lparr>rn_live := live, rn_world := w\<rparr>))\<lparr>rn_verified := Some (go_wager out)\<rparr>))"

definition stage_pundit ::
  "'w round_env \<Rightarrow> authority_ruling \<Rightarrow> 'w round_state \<Rightarrow> 'w round_state outcome" where
  "stage_pundit env ruling st =
     (case re_reason env (rn_world st) of (reasoner, w1) \<Rightarrow>
      if pass_hangs reasoner (pundit_question ruling) then Stuck else
      case react_to_wager (replies_of reasoner) ruling (from_max_spend (max_devnet_spend_sol (re_cfg env))) of
        Panic \<Rightarrow> Crashed
      | Return po \<Rightarrow>
          (let st1 = steps
             ([next_round,
               emit_message env Coral_Bus.fan_pundit_agent [match_intelligence, user_proxy] VToolResult (po_narrative po)
                 (Some (wager_ruling_payload (re_enc env) (po_updated po) (po_tool_trail po))),
               emit_trace env PhToolResult (po_narrative po) None] @
              (case po_updated po of None \<Rightarrow> []
               | Some u \<Rightarrow> [mark_timeline env ''PUNDIT'' (debug_status (w_status (ru_wager u)) @ '': '' @ ru_reason u)]))
             (st\<lparr>rn_trail := rn_trail st @ po_tool_trail po, rn_world := w1\<rparr>)
           in stage_guard env (ru_wager (unwrap_or ruling (po_updated po))) st1))"

definition stage_wager ::
  "'w round_env \<Rightarrow> proof_receipt \<Rightarrow> proof_gate_decision \<Rightarrow> 'w round_state \<Rightarrow> 'w round_state outcome" where
  "stage_wager env p gate st =
     (case re_reason env (rn_world st) of (reasoner, w1) \<Rightarrow>
      case io_uuid (re_io env) w1 of (u, w2) \<Rightarrow>
      case io_now_iso (re_io env) w2 of (t, w3) \<Rightarrow>
      if pass_hangs reasoner (wager_question (cx_event (rn_context st))) then Stuck else
      case propose_wager (replies_of reasoner) u t (cx_event (rn_context st)) (wager_proof_ref gate p)
             (from_max_spend (max_devnet_spend_sol (re_cfg env))) of
        Panic \<Rightarrow> Crashed
      | Return wp \<Rightarrow>
          (let shown = Some (wager_ruling_payload (re_enc env) (wp_ruling wp) (wp_tool_trail wp));
               st1 = steps
             [next_round,
              emit_message env match_intelligence [user_proxy] VToolResult (wp_narrative wp) shown,
              emit_trace env PhToolResult (wp_narrative wp) shown]
             (st\<lparr>rn_trail := wp_tool_trail wp, rn_world := w3\<rparr>)
           in case wp_ruling wp of None \<Rightarrow> Finished st1
              | Some ruling \<Rightarrow> stage_pundit env ruling
                  (mark_timeline env ''WAGER'' (debug_status (w_status (ru_wager ruling)) @ '': '' @ ru_reason ruling) st1)))"

section \<open>The handoff\<close>

text \<open>Status and reason of the specialist, and the state after its message.\<close>

definition handoff_settlement ::
  "'w round_env \<Rightarrow> string \<Rightarrow> 'w round_state \<Rightarrow> ((string \<times> string) \<times> 'w round_state) outcome" where
  "handoff_settlement env specialist st =
     (case rn_verified st of
        None \<Rightarrow> Finished ((''skipped'', ''no verified wager to settle this round''),
          emit_message env match_intelligence [user_proxy] VToolResult ''no verified wager to settle this round'' None st)
      | Some wg \<Rightarrow>
          (case delegate_settlement (re_io env) (re_cfg env) (re_wire env) (rn_run st) wg (rn_trail st) (rn_live st) (rn_world st) of
             None \<Rightarrow> Stuck
           | Some ((out, live), w) \<Rightarrow> Finished ((so_status out, so_reason out),
               emit_message env specialist [match_intelligence, user_proxy] VToolResult (so_reason out)
                 (Some (JObj [(''status'', JStr (so_status out)), (''txSig'', opt_json JStr (so_tx_sig out))]))
                 (st\<lparr>rn_live := live, rn_world := w\<rparr>))))"

definition handoff_trade ::
  "'w round_env \<Rightarrow> string \<Rightarrow> agent_signal \<Rightarrow> agent_decision \<Rightarrow> 'w round_state
     \<Rightarrow> ((string \<times> string) \<times> 'w round_state) outcome" where
  "handoff_trade env specialist sg dec st =
     (case delegate_trade (re_io env) (re_cfg env) (re_wire env) (rn_run st) sg dec (rn_live st) (rn_world st) of
        None \<Rightarrow> Stuck
      | Some ((out, live), w) \<Rightarrow> Finished ((to_status out, to_reason out),
          emit_message env specialist [match_intelligence, user_proxy] VToolResult (to_reason out)
            (Some (JObj [(''status'', JStr (to_status out)), (''positionId'', opt_json JStr (to_position_id out)),
               (''sizeSol'', jfloat (to_size_sol out))]))
            (st\<lparr>rn_live := live, rn_world := w\<rparr>)))"

definition handoff_fan ::
  "'w round_env \<Rightarrow> string \<Rightarrow> 'w round_state \<Rightarrow> ((string \<times> string) \<times> 'w round_state) outcome" where
  "handoff_fan env specialist st =
     (case rn_verified st of
        None \<Rightarrow> Finished ((''skipped'', ''no verified wager for fan-pundit-agent to react to''),
          emit_message env match_intelligence [user_proxy] VToolResult
            ''no verified wager for fan-pundit-agent to react to'' None st)
      | Some wg \<Rightarrow>
          (case delegate_pundit (re_io env) (re_cfg env) (re_wire env) (rn_run st) wg (rn_trail st) (rn_live st) (rn_world st) of
             None \<Rightarrow> Stuck
           | Some ((out, live), w) \<Rightarrow> Finished ((po_stance out, Delegation.po_reason out),
               emit_message env specialist [match_intelligence, user_proxy] VToolResult (Delegation.po_reason out)
                 (Some (JObj [(''stance'', JStr (po_stance out)), (''wager'', rc_wager (re_enc env) (po_wager out))]))
                 (st\<lparr>rn_live := live, rn_world := w\<rparr>))))"

definition handoff_text :: "agent_decision \<Rightarrow> string \<Rightarrow> proof_gate_decision \<Rightarrow> string" where
  "handoff_text dec specialist gate =
     ''DELEGATE '' @ debug_action (ad_action dec) @ '' decision to '' @ specialist @ '' | confidence=''
     @ fmt_fixed 2 (ad_confidence dec) @ '' proofGate='' @ show_bool (pg_pass gate)"

definition stage_handoff ::
  "'w round_env \<Rightarrow> proof_gate_decision \<Rightarrow> agent_signal \<Rightarrow> agent_decision \<Rightarrow> 'w round_state \<Rightarrow> 'w round_state outcome" where
  "stage_handoff env gate sg dec st =
     (let track = cx_track (rn_context st); specialist = specialist_for_track track; en = re_enc env;
          st1 = steps
            [next_round,
             emit_message env match_intelligence [specialist] VToolCall (handoff_text dec specialist gate)
               (Some (JObj [(''specialist'', JStr specialist), (''track'', JStr (show_track track)),
                  (''signal'', en_signal en sg), (''decision'', en_decision en dec), (''proofGate'', en_gate en gate)]))] st
      in and_next (case track of
           Settlement \<Rightarrow> handoff_settlement env specialist st1
         | Trading \<Rightarrow> handoff_trade env specialist sg dec st1
         | Fan \<Rightarrow> handoff_fan env specialist st1)
         (\<lambda>((status, reason), st2). Finished (steps
            [emit_trace env PhAction (''specialist '' @ specialist @ '' real verdict: '' @ status)
               (Some (JObj [(''specialist'', JStr specialist), (''status'', JStr status)])),
             mark_timeline env ''HANDOFF'' (match_intelligence @ '' '' @ ch_arrow @ '' '' @ specialist @ '': ''
               @ status @ '' '' @ ch_dash @ '' '' @ reason)] st2)))"

section \<open>Decision and evaluation\<close>

definition last_message :: "'w round_env \<Rightarrow> (coral_message \<Rightarrow> ui_event) \<Rightarrow> 'w round_state \<Rightarrow> 'w round_state" where
  "last_message env mk st = emit_ui env (mk (last (rn_messages st))) st"

definition announce_signal :: "'w round_env \<Rightarrow> agent_signal \<Rightarrow> 'w round_state \<Rightarrow> 'w round_state" where
  "announce_signal env sg st =
     (case li_signal (re_ledger env) (run_id (rn_run st)) sg (rn_world st) of (_, w) \<Rightarrow> steps
        [next_round,
         emit_message env match_intelligence [user_proxy] VSignal (signal_summary sg)
           (Some (JObj [(''signal'', en_signal (re_enc env) sg)])),
         last_message env UiSignal] (st\<lparr>rn_world := w\<rparr>))"

definition apply_decision ::
  "'w round_env \<Rightarrow> proof_receipt \<Rightarrow> proof_gate_decision \<Rightarrow> agent_signal \<Rightarrow> agent_decision \<Rightarrow> 'w round_state \<Rightarrow> 'w round_state" where
  "apply_decision env p gate sg dec st =
     st\<lparr>rn_run := apply_decision_to_run (encoders.truncate (re_enc env)) (rn_context st)
          (derive_features (cx_event (rn_context st))) p gate sg dec (rn_run st)\<rparr>"

definition report_decision ::
  "'w round_env \<Rightarrow> proof_gate_decision \<Rightarrow> agent_signal \<Rightarrow> agent_decision \<Rightarrow> 'w round_state \<Rightarrow> 'w round_state" where
  "report_decision env gate sg dec st =
     (let en = re_enc env; d = Some (JObj [(''decision'', en_decision en dec)]) in steps
       [mark_timeline env ''DECISION'' (debug_signal_type (sg_signal_type sg) @ '' -> '' @ debug_action (ad_action dec)),
        emit_trace env PhDecision (ad_explanation dec)
          (Some (JObj [(''signal'', en_signal en sg), (''decision'', en_decision en dec), (''proofGate'', en_gate en gate)])),
        emit_trace env PhAction (action_summary dec) d,
        emit_message env match_intelligence [user_proxy] VToolResult (action_summary dec) d] st)"

definition no_signal :: "'w round_env \<Rightarrow> 'w round_state \<Rightarrow> 'w round_state" where
  "no_signal env st = mark_timeline env ''DECISION'' ''no actionable signal emitted''
     (st\<lparr>rn_run := (rn_run st)\<lparr>run_verdict := Some \<lparr>vd_status = VNeedsReview,
        vd_reason = ''event stayed below autonomous signal threshold'', vd_checked = [CkTxlineInput, CkPolicy]\<rparr>\<rparr>\<rparr>)"

definition stage_decide ::
  "'w round_env \<Rightarrow> proof_receipt \<Rightarrow> proof_gate_decision \<Rightarrow> llm_response \<Rightarrow> 'w round_state
     \<Rightarrow> (agent_decision option \<times> 'w round_state) outcome" where
  "stage_decide env p gate llm st =
     (let ctx = rn_context st; derived = derive_features (cx_event ctx) in
      case io_uuid (re_io env) (rn_world st) of (u, w1) \<Rightarrow>
      case io_now_iso (re_io env) w1 of (t, w2) \<Rightarrow>
      case build_signal u t ctx derived of
        None \<Rightarrow> Finished (None, no_signal env st)
      | Some sg \<Rightarrow>
          (let st1 = announce_signal env sg (st\<lparr>rn_world := w2\<rparr>) in
           case io_uuid (re_io env) (rn_world st1) of (u2, w3) \<Rightarrow>
           case io_now_iso (re_io env) w3 of (t2, w4) \<Rightarrow>
             let dec = choose_action u2 t2 ctx sg derived (Some gate) (ls_text llm) in
             and_next (stage_handoff env gate sg dec
                 (report_decision env gate sg dec (apply_decision env p gate sg dec (st1\<lparr>rn_world := w4\<rparr>))))
               (\<lambda>st2. Finished (Some dec, st2))))"

definition stage_evaluate :: "'w round_env \<Rightarrow> agent_decision option \<Rightarrow> 'w round_state \<Rightarrow> 'w round_state" where
  "stage_evaluate env dec st =
     (let queued = Option.bind dec (\<lambda>d. evaluate_decision (run_id (rn_run st)) d []);
          shown = Some (JObj [(''status'', JStr ''queued''), (''windowSecs'', JInt 900),
            (''currentEvaluation'', opt_json (rc_evaluation (re_enc env)) queued)]) in steps
       [next_round,
        emit_message env match_intelligence [user_proxy] VEvaluated
          ''evaluation queued until later live TxLINE updates arrive'' shown,
        last_message env UiEvaluation,
        emit_trace env PhEvaluation ''evaluation queued'' shown] st)"

section \<open>Publishing and persistence\<close>

definition stage_publish :: "'w round_env \<Rightarrow> 'w round_state \<Rightarrow> 'w round_state" where
  "stage_publish env st =
     (case publish_run (re_io env) (re_cfg env) (rn_run st) (rn_messages st) (rn_live st) (rn_world st) of
        (console, w) \<Rightarrow> steps
          [mark_timeline env ''CORALOS_CONSOLE'' (pb_note console),
           emit_trace_at env (rn_round st + 1) PhToolResult (pb_note console)
             (Some (JObj [(''coralConsole'', rc_publish (re_enc env) console)]))] (st\<lparr>rn_world := w\<rparr>))"

definition persist_run ::
  "'w ledger_io \<Rightarrow> agent_run \<Rightarrow> txline_event \<Rightarrow> proof_receipt \<Rightarrow> agent_decision option \<Rightarrow> llm_response
     \<Rightarrow> 'w \<Rightarrow> (app_error + unit) \<times> 'w" where
  "persist_run li run ev p dec llm w =
     and_then (li_run li run w) (\<lambda>w1.
     and_then (li_observation li (run_id run) ev w1) (\<lambda>w2.
     and_then (li_receipt li (run_id run) p w2) (\<lambda>w3.
     and_then (li_llm li (run_id run) llm w3) (\<lambda>w4.
       case dec of None \<Rightarrow> (Inr (), w4) | Some d \<Rightarrow> li_decision li (run_id run) d w4))))"

definition stage_finish :: "'w round_env \<Rightarrow> proof_receipt \<Rightarrow> 'w round_state \<Rightarrow> 'w round_state" where
  "stage_finish env p st =
     (let rid = run_id (rn_run st) in
      case persist_run_artifacts (re_files env) (re_artefacts env) (re_replay_dir env) rid (rn_messages st)
             (rn_trace st) (Some p) (rn_world st) of (_, w1) \<Rightarrow>
      let w2 = fold (\<lambda>item. re_emit env (UiMarketRound rid item)) (run_timeline (rn_run st)) w1 in
      case io_now_iso (re_io env) w2 of (t, w3) \<Rightarrow>
        st\<lparr>rn_world := re_emit env (UiNotification (JObj
          [(''title'', JStr ''Match Intelligence Agent complete''),
           (''body'', JStr (rid @ '' produced '' @ show_track (run_track (rn_run st)))), (''ts'', JStr t)])) w3\<rparr>)"

section \<open>The round\<close>

definition round_opening :: "'w round_env \<Rightarrow> 'w round_state \<Rightarrow> 'w round_state" where
  "round_opening env st = stage_derive env (stage_observe env (stage_session env st))"

definition round_closing ::
  "'w round_env \<Rightarrow> proof_receipt \<Rightarrow> llm_response \<Rightarrow> agent_decision option \<Rightarrow> 'w round_state
     \<Rightarrow> (app_error + agent_run) \<times> 'w round_state" where
  "round_closing env p llm dec st =
     (let st1 = stage_publish env (stage_evaluate env dec st) in
      case persist_run (re_ledger env) (rn_run st1) (cx_event (rn_context st1)) p dec llm (rn_world st1) of
        (Inl e, w) \<Rightarrow> (Inl e, st1\<lparr>rn_world := w\<rparr>)
      | (Inr _, w) \<Rightarrow> (Inr (rn_run st1), stage_finish env p (st1\<lparr>rn_world := w\<rparr>)))"

definition run_match_intelligence_round ::
  "'w round_env \<Rightarrow> txline_event \<Rightarrow> track_mode \<Rightarrow> string option \<Rightarrow> 'w
     \<Rightarrow> ((app_error + agent_run) \<times> 'w round_state) outcome" where
  "run_match_intelligence_round env trigger track persisted w =
     and_next (stage_proof env (round_opening env (start_round env trigger track persisted w))) (\<lambda>((p, gate), st1).
       case stage_explain env st1 of (llm, st2) \<Rightarrow>
         and_next (stage_wager env p gate st2) (\<lambda>st3.
         and_next (stage_decide env p gate llm st3) (\<lambda>(dec, st4).
           Finished (round_closing env p llm dec st4))))"

section \<open>What the stages preserve\<close>

text \<open>
  An invariant of the round: it survives every primitive step, a new round number included while
  the numbers are small; \<open>K\<close> bounds them. It may depend on the decision of the proof gate.
\<close>

locale round_invariant =
  fixes env :: "'w round_env" and gate :: proof_gate_decision and P :: "nat \<Rightarrow> 'w round_state \<Rightarrow> bool"
  assumes weaken: "P K st \<Longrightarrow> K \<le> L \<Longrightarrow> P L st"
    and next_ok: "P K st \<Longrightarrow> K < 1000 \<Longrightarrow> P (Suc K) (next_round st)"
    and message_ok: "P K st \<Longrightarrow> sender \<in> set all_agents \<Longrightarrow> P K (emit_message env sender to verb txt payload st)"
    and trace_ok: "P K st \<Longrightarrow> P K (emit_trace_at env rd phase summary payload st)"
    and mark_ok: "P K st \<Longrightarrow> P K (mark_timeline env label detail st)"
    and world_ok: "P K st \<Longrightarrow> P K (st\<lparr>rn_world := w\<rparr>)"
    and live_ok: "P K st \<Longrightarrow> P K (st\<lparr>rn_live := live\<rparr>)"
    and persisted_ok: "P K st \<Longrightarrow> P K (st\<lparr>rn_persisted := sid\<rparr>)"
    and verified_ok: "P K st \<Longrightarrow> P K (st\<lparr>rn_verified := wg\<rparr>)"
    and trail_ok: "P K st \<Longrightarrow> P K (st\<lparr>rn_trail := trail\<rparr>)"
    and attach_ok: "P K st \<Longrightarrow> P K (attach_proof p st)"
    and decide_ok: "P K st \<Longrightarrow> P K (apply_decision env p gate sg dec st)"
    and review_ok: "P K st \<Longrightarrow> vd_status v = VNeedsReview \<Longrightarrow> P K (st\<lparr>rn_run := (rn_run st)\<lparr>run_verdict := Some v\<rparr>\<rparr>)"
begin

lemma ui_ok: "P K st \<Longrightarrow> P K (emit_ui env e st)"
  unfolding emit_ui_def by (rule world_ok)

lemma emit_trace_ok: "P K st \<Longrightarrow> P K (emit_trace env phase summary payload st)"
  unfolding emit_trace_def by (rule trace_ok)

lemma last_message_ok: "P K st \<Longrightarrow> P K (last_message env mk st)"
  unfolding last_message_def by (rule ui_ok)

lemma proof_event_ok: "P K st \<Longrightarrow> P K (emit_proof_event env p st)"
  unfolding emit_proof_event_def by (auto split: prod.splits intro: world_ok)

lemmas step_rules = next_ok message_ok emit_trace_ok trace_ok mark_ok ui_ok last_message_ok proof_event_ok
  world_ok live_ok persisted_ok verified_ok trail_ok attach_ok decide_ok review_ok

lemma names: "match_intelligence \<in> set all_agents" "user_proxy \<in> set all_agents" "proof_guard_agent \<in> set all_agents"
  "Coral_Bus.fan_pundit_agent \<in> set all_agents" "specialist_for_track t \<in> set all_agents"
  by (cases t; simp add: all_agents_def specialist_for_track_def)+

lemma session_ok: "P K st \<Longrightarrow> P K (stage_session env st)"
  unfolding stage_session_def by (auto split: prod.splits sum.splits intro!: step_rules)

lemma observe_ok: "P K st \<Longrightarrow> P K (stage_observe env st)"
  unfolding stage_observe_def Let_def unfolding steps_simps by (intro step_rules names)

lemma derive_ok: "P K st \<Longrightarrow> K < 500 \<Longrightarrow> P (Suc (Suc (Suc K))) (stage_derive env st)"
  unfolding stage_derive_def Let_def steps_simps by (intro step_rules names; simp)

lemma opening_ok: "P K st \<Longrightarrow> K < 500 \<Longrightarrow> P (Suc (Suc (Suc K))) (round_opening env st)"
  unfolding round_opening_def by (intro derive_ok observe_ok session_ok)

lemma proof_ok:
  assumes "P K st" and "K < 500" and "stage_proof env st = Finished ((p, g), st')"
  shows "P (Suc K) st'"
proof -
  have ask: "P (Suc K) (ask_proof env st)"
    unfolding ask_proof_def Let_def using assms(1,2) unfolding steps_simps by (intro step_rules names; simp)
  have report: "P L s \<Longrightarrow> P L (report_proof env q g' s)" for L s q g'
    unfolding report_proof_def Let_def unfolding steps_simps by (intro step_rules names)
  show ?thesis
    using assms(3) ask unfolding stage_proof_def Let_def by (auto split: option.splits prod.splits intro!: report attach_ok world_ok)
qed

lemma explain_ok:
  assumes "P K st" and "K < 500" and "stage_explain env st = (r, st')"
  shows "P (Suc K) st'"
  using assms unfolding stage_explain_def by (auto simp: steps_simps split: prod.splits intro!: step_rules names)

lemma guard_ok:
  assumes "P K st" and "K < 500" and "stage_guard env wg st = Finished st'"
  shows "P (Suc (Suc K)) st'"
  using assms unfolding stage_guard_def Let_def
  by (auto simp: steps_simps split: option.splits prod.splits intro!: step_rules names)

lemma pundit_ok:
  assumes "P K st" and "K < 400" and "stage_pundit env ruling st = Finished st'"
  shows "P (Suc (Suc (Suc K))) st'"
proof -
  obtain reasoner w1 where r: "re_reason env (rn_world st) = (reasoner, w1)" by (metis surj_pair)
  have live: "\<not> pass_hangs reasoner (pundit_question ruling)"
    using assms(3) r unfolding stage_pundit_def by (auto split: if_splits)
  obtain po where po: "react_to_wager (replies_of reasoner) ruling (from_max_spend (max_devnet_spend_sol (re_cfg env))) = Return po"
    using assms(3) r unfolding stage_pundit_def by (auto split: exec.splits if_splits)
  let ?st = "st\<lparr>rn_trail := rn_trail st @ po_tool_trail po, rn_world := w1\<rparr>"
  have "P (Suc K) (steps
             ([next_round,
               emit_message env Coral_Bus.fan_pundit_agent [match_intelligence, user_proxy] VToolResult (po_narrative po)
                 (Some (wager_ruling_payload (re_enc env) (po_updated po) (po_tool_trail po))),
               emit_trace env PhToolResult (po_narrative po) None] @
              (case po_updated po of None \<Rightarrow> []
               | Some u \<Rightarrow> [mark_timeline env ''PUNDIT'' (debug_status (w_status (ru_wager u)) @ '': '' @ ru_reason u)])) ?st)"
    using assms(1,2) by (cases "po_updated po"; simp add: steps_simps; intro step_rules names; simp)
  then show ?thesis using guard_ok assms(2,3) r live po unfolding stage_pundit_def Let_def by fastforce
qed

lemma wager_ok:
  assumes "P K st" and "K < 300" and "stage_wager env p g st = Finished st'"
  shows "P (K + 4) st'"
proof -
  obtain reasoner w1 where r: "re_reason env (rn_world st) = (reasoner, w1)" by (metis surj_pair)
  obtain u w2 where u: "io_uuid (re_io env) w1 = (u, w2)" by (metis surj_pair)
  obtain t w3 where t: "io_now_iso (re_io env) w2 = (t, w3)" by (metis surj_pair)
  have live: "\<not> pass_hangs reasoner (wager_question (cx_event (rn_context st)))"
    using assms(3) r u t unfolding stage_wager_def by (auto split: if_splits)
  obtain wp where wp: "propose_wager (replies_of reasoner) u t (cx_event (rn_context st)) (wager_proof_ref g p)
      (from_max_spend (max_devnet_spend_sol (re_cfg env))) = Return wp"
    using assms(3) r u t unfolding stage_wager_def by (auto split: exec.splits if_splits)
  have 1: "P (Suc K) (steps
             [next_round,
              emit_message env match_intelligence [user_proxy] VToolResult (wp_narrative wp) shown,
              emit_trace env PhToolResult (wp_narrative wp) shown]
             (st\<lparr>rn_trail := wp_tool_trail wp, rn_world := w3\<rparr>))" for shown
    using assms(1,2) unfolding steps_simps by (intro step_rules names; simp)
  show ?thesis
  proof (cases "wp_ruling wp")
    case None
    then show ?thesis using assms(3) r u t live wp weaken [OF 1, of "K + 4"] unfolding stage_wager_def Let_def by auto
  next
    case (Some ruling)
    then show ?thesis using assms(2,3) r u t live wp pundit_ok [OF mark_ok [OF 1]] unfolding stage_wager_def Let_def
      by (simp add: eval_nat_numeral)
  qed
qed

lemma handoff_ok:
  assumes "P K st" and "K < 300" and "stage_handoff env g sg dec st = Finished st'"
  shows "P (Suc K) st'"
proof -
  let ?st = "steps
            [next_round,
             emit_message env match_intelligence [specialist_for_track (cx_track (rn_context st))] VToolCall
               (handoff_text dec (specialist_for_track (cx_track (rn_context st))) g)
               (Some (JObj [(''specialist'', JStr (specialist_for_track (cx_track (rn_context st)))),
                  (''track'', JStr (show_track (cx_track (rn_context st)))),
                  (''signal'', en_signal (re_enc env) sg), (''decision'', en_decision (re_enc env) dec),
                  (''proofGate'', en_gate (re_enc env) g)]))] st"
  have 1: "P (Suc K) ?st" using assms(1,2) unfolding steps_simps by (intro step_rules names; simp)
  have h: "P L s \<Longrightarrow> handoff_settlement env (specialist_for_track t) s = Finished (r, s') \<Longrightarrow> P L s'"
    "P L s \<Longrightarrow> handoff_trade env (specialist_for_track t) sg dec s = Finished (r, s') \<Longrightarrow> P L s'"
    "P L s \<Longrightarrow> handoff_fan env (specialist_for_track t) s = Finished (r, s') \<Longrightarrow> P L s'" for L s t r s'
    by (auto simp: handoff_settlement_def handoff_trade_def handoff_fan_def split: option.splits prod.splits
        intro!: step_rules names)
  obtain status reason s2 where s2: "(case cx_track (rn_context st) of
           Settlement \<Rightarrow> handoff_settlement env (specialist_for_track (cx_track (rn_context st))) ?st
         | Trading \<Rightarrow> handoff_trade env (specialist_for_track (cx_track (rn_context st))) sg dec ?st
         | Fan \<Rightarrow> handoff_fan env (specialist_for_track (cx_track (rn_context st))) ?st) = Finished ((status, reason), s2)"
    using assms(3) unfolding stage_handoff_def Let_def
    by (cases "cx_track (rn_context st)") (auto elim!: and_next.elims)
  then have "P (Suc K) s2" using h [OF 1] by (cases "cx_track (rn_context st)") auto
  then show ?thesis using assms(3) s2 unfolding stage_handoff_def Let_def
    by (simp add: steps_simps del: track_mode.case) (auto intro!: step_rules)
qed

lemma announce_ok: "P K st \<Longrightarrow> K < 300 \<Longrightarrow> P (Suc K) (announce_signal env sg st)"
  unfolding announce_signal_def by (auto simp: steps_simps split: prod.splits intro!: step_rules names)

lemma report_decision_ok: "P K st \<Longrightarrow> P K (report_decision env g sg dec st)"
  unfolding report_decision_def Let_def steps_simps by (intro step_rules names)

lemma decide_stage_ok:
  assumes "P K st" and "K < 250" and "stage_decide env p gate llm st = Finished (dec, st')"
  shows "P (K + 2) st'"
proof -
  obtain u w1 where u: "io_uuid (re_io env) (rn_world st) = (u, w1)" by (metis surj_pair)
  obtain t w2 where t: "io_now_iso (re_io env) w1 = (t, w2)" by (metis surj_pair)
  show ?thesis
  proof (cases "build_signal u t (rn_context st) (derive_features (cx_event (rn_context st)))")
    case None
    have "P K (no_signal env st)" unfolding no_signal_def using assms(1) by (intro mark_ok review_ok) simp_all
    then show ?thesis using assms(3) u t None weaken [of K _ "K + 2"] by (auto simp: stage_decide_def Let_def)
  next
    case (Some sg)
    let ?s1 = "announce_signal env sg (st\<lparr>rn_world := w2\<rparr>)"
    obtain u2 w3 where u2: "io_uuid (re_io env) (rn_world ?s1) = (u2, w3)" by (metis surj_pair)
    obtain t2 w4 where t2: "io_now_iso (re_io env) w3 = (t2, w4)" by (metis surj_pair)
    let ?dec = "choose_action u2 t2 (rn_context st) sg (derive_features (cx_event (rn_context st))) (Some gate) (ls_text llm)"
    let ?s2 = "report_decision env gate sg ?dec (apply_decision env p gate sg ?dec (?s1\<lparr>rn_world := w4\<rparr>))"
    have s2: "P (Suc K) ?s2" using assms(1,2) by (intro report_decision_ok decide_ok world_ok announce_ok) simp_all
    obtain s3 where s3: "stage_handoff env gate sg ?dec ?s2 = Finished s3" "st' = s3"
      using assms(3) u t Some u2 t2 by (auto simp: stage_decide_def Let_def elim!: and_next.elims)
    show ?thesis using handoff_ok [OF s2 _ s3(1)] s3(2) assms(2) by simp
  qed
qed

lemma closing_ok:
  assumes "P K st" and "K < 500" and "round_closing env p llm dec st = (r, st')"
  shows "P (Suc K) st'"
proof -
  have 1: "P (Suc K) (stage_evaluate env dec st)"
    unfolding stage_evaluate_def Let_def steps_simps using assms(1,2) by (intro step_rules names; simp)
  have 2: "P L s \<Longrightarrow> P L (stage_publish env s)" for L s
    unfolding stage_publish_def by (auto simp: steps_simps split: prod.splits intro!: step_rules names)
  have 3: "P L s \<Longrightarrow> P L (stage_finish env p s)" for L s
    unfolding stage_finish_def by (auto simp: Let_def split: prod.splits intro!: world_ok)
  show ?thesis using assms(3) 1 unfolding round_closing_def Let_def
    by (auto split: prod.splits sum.splits intro!: 2 3 world_ok)
qed

text \<open>A round that starts in the invariant ends in it, with at most fourteen numbers used.\<close>

lemma round_ok:
  assumes start: "P 1 (start_round env trigger track persisted w)"
    and gated: "stage_proof env (round_opening env (start_round env trigger track persisted w)) = Finished ((p, gate), st1)"
    and run: "run_match_intelligence_round env trigger track persisted w = Finished (r, st)"
  shows "P 13 st"
proof -
  obtain llm st2 where e: "stage_explain env st1 = (llm, st2)" by (metis surj_pair)
  obtain st3 where w3: "stage_wager env p gate st2 = Finished st3"
    using run e unfolding run_match_intelligence_round_def gated by (auto elim!: and_next.elims)
  obtain dec st4 where d: "stage_decide env p gate llm st3 = Finished (dec, st4)"
    and c: "round_closing env p llm dec st4 = (r, st)"
    using run e w3 unfolding run_match_intelligence_round_def gated by (auto elim!: and_next.elims)
  have "P 5 st1" using proof_ok [OF opening_ok [OF start] _ gated] by (simp add: eval_nat_numeral)
  then have "P 6 st2" using explain_ok [OF _ _ e, of 5] by (simp add: eval_nat_numeral)
  then have "P 10 st3" using wager_ok [OF _ _ w3, of 6] by simp
  then have "P 12 st4" using decide_stage_ok [OF _ _ d, of 10] by simp
  then show ?thesis using closing_ok [OF _ _ c, of 12] by simp
qed

end

end
