(* ===== verification/Round_Facts.thy ===== *)
theory Round_Facts
  imports Round
begin

text \<open>
  What holds of every Match Intelligence round: when it comes to an end, that its transcript is well formed,
  and that it moves no funds and passes no verdict the proof gate did not pass.
\<close>

section \<open>The fields the primitive steps leave alone\<close>

lemma message_fields [frame_simps]:
  "rn_run (emit_message env sender to verb txt payload st) = rn_run st"
  "rn_context (emit_message env sender to verb txt payload st) = rn_context st"
  "rn_session (emit_message env sender to verb txt payload st) = rn_session st"
  "rn_round (emit_message env sender to verb txt payload st) = rn_round st"
  "rn_trace (emit_message env sender to verb txt payload st) = rn_trace st"
  by (simp_all add: emit_message_def split: prod.splits)

lemma trace_fields [frame_simps]:
  "rn_run (emit_trace_at env rd phase summary payload st) = rn_run st"
  "rn_context (emit_trace_at env rd phase summary payload st) = rn_context st"
  "rn_session (emit_trace_at env rd phase summary payload st) = rn_session st"
  "rn_round (emit_trace_at env rd phase summary payload st) = rn_round st"
  "rn_messages (emit_trace_at env rd phase summary payload st) = rn_messages st"
  by (simp_all add: emit_trace_at_def Let_def split: prod.splits)

lemma mark_fields [frame_simps]:
  "rn_context (mark_timeline env label detail st) = rn_context st"
  "rn_session (mark_timeline env label detail st) = rn_session st"
  "rn_round (mark_timeline env label detail st) = rn_round st"
  "rn_messages (mark_timeline env label detail st) = rn_messages st"
  "rn_trace (mark_timeline env label detail st) = rn_trace st"
  by (simp_all add: mark_timeline_def split: prod.splits)

lemma append_timeline_fields [frame_simps]:
  "run_id (append_timeline t label detail run) = run_id run"
  "run_track (append_timeline t label detail run) = run_track run"
  "run_trigger (append_timeline t label detail run) = run_trigger run"
  "run_verdict (append_timeline t label detail run) = run_verdict run"
  "run_settlement (append_timeline t label detail run) = run_settlement run"
  by (simp_all add: append_timeline_def)

lemma mark_run [frame_simps]:
  "run_id (rn_run (mark_timeline env label detail st)) = run_id (rn_run st)"
  "run_track (rn_run (mark_timeline env label detail st)) = run_track (rn_run st)"
  "run_trigger (rn_run (mark_timeline env label detail st)) = run_trigger (rn_run st)"
  "run_verdict (rn_run (mark_timeline env label detail st)) = run_verdict (rn_run st)"
  "run_settlement (rn_run (mark_timeline env label detail st)) = run_settlement (rn_run st)"
  by (simp_all add: mark_timeline_def frame_simps split: prod.splits)

section \<open>The transcript\<close>

definition message_ok :: "coral_session \<Rightarrow> nat \<Rightarrow> coral_message \<Rightarrow> bool" where
  "message_ok s now m \<longleftrightarrow> 1 \<le> unat (msg_round m) \<and> unat (msg_round m) \<le> now
     \<and> msg_session_id m = cs_id s \<and> msg_thread_id m = cs_thread_id s \<and> msg_from m \<in> set all_agents"

definition transcript_ok :: "nat \<Rightarrow> 'w round_state \<Rightarrow> bool" where
  \<comment> \<open>rounds ascend from 1 to at most \<open>K\<close>, all in the session of the run, by known senders\<close>
  "transcript_ok K st \<longleftrightarrow>
     1 \<le> unat (rn_round st) \<and> unat (rn_round st) \<le> K
     \<and> sorted (map (\<lambda>m. unat (msg_round m)) (rn_messages st))
     \<and> list_all (message_ok (rn_session st) (unat (rn_round st))) (rn_messages st)
     \<and> list_all (\<lambda>t. tr_run_id t = run_id (rn_run st)) (rn_trace st)
     \<and> run_id (rn_run st) = cx_run_id (rn_context st) \<and> cs_id (rn_session st) = ''coral-'' @ run_id (rn_run st)"

lemma transcript_frame:
  assumes "transcript_ok K st" and "rn_round st' = rn_round st" and "rn_messages st' = rn_messages st"
    and "rn_session st' = rn_session st" and "rn_trace st' = rn_trace st"
    and "run_id (rn_run st') = run_id (rn_run st)" and "cx_run_id (rn_context st') = cx_run_id (rn_context st)"
  shows "transcript_ok K st'"
  using assms(1) unfolding transcript_ok_def assms(2-) .

lemma transcript_message:
  assumes "transcript_ok K st" and "sender \<in> set all_agents"
  shows "transcript_ok K (emit_message env sender to verb txt payload st)"
proof -
  obtain m w where m: "new_message (re_io env) (rn_session st) (rn_round st) sender to verb txt payload (rn_world st) = (m, w)"
    by (metis surj_pair)
  then have "msg_round m = rn_round st" "msg_session_id m = cs_id (rn_session st)"
    "msg_thread_id m = cs_thread_id (rn_session st)" "msg_from m = sender"
    by (auto simp: new_message_def split: prod.splits)
  then show ?thesis
    using assms m by (auto simp: transcript_ok_def emit_message_def sorted_append message_ok_def list_all_iff)
qed

lemma transcript_trace:
  assumes "transcript_ok K st" shows "transcript_ok K (emit_trace_at env rd phase summary payload st)"
  using assms by (auto simp: transcript_ok_def emit_trace_at_def Let_def split: prod.splits)

lemma transcript_next:
  assumes "transcript_ok K st" and "K < 1000"
  shows "transcript_ok (Suc K) (next_round st)"
proof -
  have "unat (rn_round st + 1) = Suc (unat (rn_round st))"
  proof -
    have "rn_round st \<le> 1000" using assms by (simp add: transcript_ok_def word_le_nat_alt)
    then have "rn_round st + 1 \<noteq> 0" by (rule succ_nonzero) simp
    then show ?thesis using unatSuc [of "rn_round st"] by (simp add: add.commute)
  qed
  then show ?thesis using assms(1)
    by (auto simp: transcript_ok_def next_round_def message_ok_def list_all_iff)
qed

interpretation transcript: round_invariant env gate transcript_ok for env :: "'w round_env" and gate
proof unfold_locales
  fix K L :: nat and st :: "'w round_state"
  assume "transcript_ok K st"
  then show "K \<le> L \<Longrightarrow> transcript_ok L st" by (auto simp: transcript_ok_def)
qed (auto intro: transcript_message transcript_trace transcript_next transcript_frame
      simp: frame_simps attach_proof_def apply_decision_def apply_decision_to_run_def Let_def)

lemma transcript_start: "transcript_ok 1 (start_round env trigger track persisted w)"
  by (simp add: transcript_ok_def start_round_def Let_def start_session_def empty_run_def build_context_def split: prod.splits)

lemma finished_proof:
  assumes "run_match_intelligence_round env trigger track persisted w = Finished (r, st)"
  obtains p gate st1 where
    "stage_proof env (round_opening env (start_round env trigger track persisted w)) = Finished ((p, gate), st1)"
  using assms that by (auto simp: run_match_intelligence_round_def and_next_Finished)

text \<open>
  C22: Whatever the network, the model, the agents and the ledger do, the transcript of a finished
  round is well formed: its messages carry round numbers that ascend from 1 and never exceed 13,
  all in the session named after the run and its main thread, each sent by an agent of the
  topology, and every trace event belongs to the run.
\<close>

theorem round_transcript_well_formed:
  assumes "run_match_intelligence_round env trigger track persisted w = Finished (r, st)"
  shows "transcript_ok 13 st"
proof -
  obtain p gate st1 where "stage_proof env (round_opening env (start_round env trigger track persisted w)) = Finished ((p, gate), st1)"
    using finished_proof [OF assms] .
  from transcript.round_ok [OF transcript_start this assms] show ?thesis .
qed

section \<open>Funds and the verdict\<close>

definition untouched :: "settlement_receipt \<Rightarrow> bool" where
  "untouched s \<longleftrightarrow> sr_status s = StNotStarted \<and> sr_escrow_pda s = None \<and> sr_deposit_tx s = None
     \<and> sr_release_tx s = None \<and> sr_payment_signature s = None"

definition gated_ok :: "txline_event \<Rightarrow> track_mode \<Rightarrow> proof_gate_decision \<Rightarrow> nat \<Rightarrow> 'w round_state \<Rightarrow> bool" where
  "gated_ok trigger track gate K st \<longleftrightarrow>
     run_track (rn_run st) = track \<and> cx_track (rn_context st) = track
     \<and> (run_trigger (rn_run st))\<lparr>ev_proof := None\<rparr> = trigger\<lparr>ev_proof := None\<rparr>
     \<and> (\<exists>s. run_settlement (rn_run st) = Some s \<and> untouched s)
     \<and> (\<forall>v. run_verdict (rn_run st) = Some v \<longrightarrow> vd_status v = VNeedsReview
          \<or> vd_status v = VPass \<and> pg_pass gate \<and> track = Settlement)"

lemma gated_frame:
  assumes "gated_ok trigger track gate K st" and "run_track (rn_run st') = run_track (rn_run st)"
    and "cx_track (rn_context st') = cx_track (rn_context st)" and "run_trigger (rn_run st') = run_trigger (rn_run st)"
    and "run_verdict (rn_run st') = run_verdict (rn_run st)" and "run_settlement (rn_run st') = run_settlement (rn_run st)"
  shows "gated_ok trigger track gate L st'"
  using assms(1) unfolding gated_ok_def assms(2-) .

lemma gated_attach: "gated_ok trigger track gate K st \<Longrightarrow> gated_ok trigger track gate K (attach_proof p st)"
  by (simp add: gated_ok_def attach_proof_def)

lemma gated_decide:
  assumes "gated_ok trigger track gate K st"
  shows "gated_ok trigger track gate K (apply_decision env p gate sg dec st)"
  using assms by (auto simp: gated_ok_def apply_decision_def apply_decision_to_run_def Let_def untouched_def verdict_from_gate_def)

lemma gated_review:
  assumes "gated_ok trigger track gate K st" and "vd_status v = VNeedsReview"
  shows "gated_ok trigger track gate K (st\<lparr>rn_run := (rn_run st)\<lparr>run_verdict := Some v\<rparr>\<rparr>)"
  using assms by (simp add: gated_ok_def)

interpretation gated: round_invariant env gate "gated_ok trigger track gate"
  for env :: "'w round_env" and gate trigger track
  by unfold_locales
     ((rule gated_attach gated_decide gated_review; assumption) | (erule gated_frame; simp add: frame_simps next_round_def))+

lemma gated_start: "gated_ok trigger track gate K (start_round env trigger track persisted w)"
  by (auto simp: gated_ok_def start_round_def Let_def empty_run_def build_context_def untouched_def empty_settlement_def
      split: prod.splits)

lemma opening_run:
  "run_trigger (rn_run (ask_proof env (round_opening env st))) = run_trigger (rn_run st)"
  by (simp add: round_opening_def stage_derive_def stage_observe_def stage_session_def ask_proof_def Let_def steps_simps
      frame_simps next_round_def emit_ui_def emit_trace_def split: prod.splits sum.splits)

lemma start_trigger: "run_trigger (rn_run (start_round env trigger track persisted w)) = trigger"
  by (simp add: start_round_def Let_def empty_run_def build_context_def split: prod.splits)

lemma closing_run: "round_closing env p llm dec st = (Inr run, st') \<Longrightarrow> rn_run st' = run"
  by (auto simp: round_closing_def stage_finish_def Let_def split: prod.splits sum.splits)

lemma round_returns_state:
  assumes "run_match_intelligence_round env trigger track persisted w = Finished (Inr run, st)"
  shows "rn_run st = run"
proof -
  obtain p gate st1 where 1: "stage_proof env (round_opening env (start_round env trigger track persisted w)) = Finished ((p, gate), st1)"
    using finished_proof [OF assms] .
  obtain llm st2 where 2: "stage_explain env st1 = (llm, st2)" by (metis surj_pair)
  show ?thesis using assms unfolding run_match_intelligence_round_def
    by (auto simp: 1 2 and_next_Finished dest: closing_run)
qed

text \<open>
  C20: A round moves no funds and cannot pass itself: the run it returns has an untouched settlement
  (not started, no escrow, no transaction), and if its verdict is a pass then the track is
  settlement and, for an event that brought no proof along, the validation sidecar answered the
  request for this very event with a passed simulation and an observed root, whatever the
  language model said and the other agents replied.
\<close>

theorem round_moves_no_funds:
  assumes "run_match_intelligence_round env trigger track persisted w = Finished (Inr run, st)"
  shows "(\<exists>s. run_settlement run = Some s \<and> untouched s)
    \<and> (\<forall>v. run_verdict run = Some v \<longrightarrow> vd_status v \<noteq> VNeedsReview \<longrightarrow> vd_status v = VPass \<and> track = Settlement
        \<and> (ev_proof trigger = None \<longrightarrow> (\<exists>asked src resp. run_trigger asked = trigger
            \<and> sidecar_answered (re_validation env) (sidecar_request (re_validation env) (re_cfg env) asked src) resp
            \<and> sc_status resp = SimPassed \<and> sc_root_present resp = Some True)))"
proof -
  let ?start = "start_round env trigger track persisted w"
  let ?asked = "rn_run (ask_proof env (round_opening env ?start))"
  obtain p gate st1 where 1: "stage_proof env (round_opening env ?start) = Finished ((p, gate), st1)"
    using finished_proof [OF assms] .
  from gated.round_ok [OF gated_start 1 assms] have g: "gated_ok trigger track gate 13 st" .
  have t: "run_trigger ?asked = trigger" by (simp add: opening_run start_trigger)
  obtain w1 where q: "request_proof (re_validation env) (re_cfg env) ?asked (rn_world (ask_proof env (round_opening env ?start))) = Some ((p, gate), w1)"
    using 1 by (auto simp: stage_proof_def Let_def split: option.splits prod.splits)
  have "\<exists>asked src resp. run_trigger asked = trigger
      \<and> sidecar_answered (re_validation env) (sidecar_request (re_validation env) (re_cfg env) asked src) resp
      \<and> sc_status resp = SimPassed \<and> sc_root_present resp = Some True" if "ev_proof trigger = None" "pg_pass gate"
    using gate_needs_sidecar [OF _ q] that t by metis
  then show ?thesis using g round_returns_state [OF assms] unfolding gated_ok_def by blast
qed

section \<open>Every round ends\<close>

lemma propose_from_outcome_total:
  assumes "fle (lit 0) (ap_cap pol)"
  shows "\<exists>wp. propose_from_outcome uuid now fixture odds proof_ref pol out = Return wp"
proof -
  have "\<exists>u. exec_map f (adjudicate wg d pol) = Return u" for f :: "authority_ruling \<Rightarrow> wager_proposal" and wg d
    using adjudicate_total [OF assms, of wg d] by (auto simp: exec_simps)
  then show ?thesis unfolding propose_from_outcome_def Let_def no_proposal_def
    by (auto split: option.splits prod.splits if_splits)
qed

lemma propose_wager_total:
  assumes "fle (lit 0) (ap_cap pol)"
  shows "\<exists>wp. propose_wager run uuid now ev proof_ref pol = Return wp"
  using propose_from_outcome_total [OF assms] unfolding propose_wager_def Let_def no_proposal_def
  by (auto split: option.splits sum.splits)

lemma capped: "fle (lit 0) (ap_cap (from_max_spend c))"
  using fmax_0(4) [of c] by (simp add: from_max_spend_def)

lemma guard_finishes:
  assumes "clock_advances (re_io env)" shows "\<exists>st'. stage_guard env wg st = Finished st'"
  using guard_link.returns [OF assms] by (auto simp: stage_guard_def Let_def split: option.splits simp del: not_None_eq)

definition reasoning_hangs :: "'w round_env \<Rightarrow> bool" where
  \<comment> \<open>some pass of the reasoning model never returns\<close>
  "reasoning_hangs env \<longleftrightarrow> (\<exists>w f w1 prompt final rounds. re_reason env w = (Some f, w1) \<and> f prompt final rounds = None)"

lemma pass_returns: "\<not> reasoning_hangs env \<Longrightarrow> re_reason env w = (reasoner, w1) \<Longrightarrow> \<not> pass_hangs reasoner q"
  unfolding reasoning_hangs_def pass_hangs_def by (auto split: option.splits) metis

lemma pundit_stage_cases:
  assumes "clock_advances (re_io env)"
  shows "(\<exists>st'. stage_pundit env ruling st = Finished st') \<or> stage_pundit env ruling st = Stuck \<and> reasoning_hangs env"
proof -
  obtain reasoner w1 where r: "re_reason env (rn_world st) = (reasoner, w1)" by (metis surj_pair)
  obtain po where "react_to_wager (replies_of reasoner) ruling (from_max_spend (max_devnet_spend_sol (re_cfg env))) = Return po"
    using react_to_wager_total [OF capped] by blast
  then show ?thesis using r guard_finishes [OF assms] pass_returns [OF _ r] by (auto simp: stage_pundit_def Let_def)
qed

lemma wager_stage_cases:
  assumes "clock_advances (re_io env)"
  shows "(\<exists>st'. stage_wager env p gate st = Finished st') \<or> stage_wager env p gate st = Stuck \<and> reasoning_hangs env"
proof -
  obtain reasoner w1 where r: "re_reason env (rn_world st) = (reasoner, w1)" by (metis surj_pair)
  obtain u w2 where u: "io_uuid (re_io env) w1 = (u, w2)" by (metis surj_pair)
  obtain t w3 where t: "io_now_iso (re_io env) w2 = (t, w3)" by (metis surj_pair)
  obtain wp where wp: "propose_wager (replies_of reasoner) u t (cx_event (rn_context st)) (wager_proof_ref gate p)
      (from_max_spend (max_devnet_spend_sol (re_cfg env))) = Return wp"
    using propose_wager_total [OF capped] by blast
  show ?thesis
  proof (cases "pass_hangs reasoner (wager_question (cx_event (rn_context st)))")
    case True
    then show ?thesis using r u t pass_returns [OF _ r] by (auto simp: stage_wager_def Let_def)
  next
    case False
    then show ?thesis using r u t wp pundit_stage_cases [OF assms]
      by (cases "wp_ruling wp") (simp_all add: stage_wager_def Let_def)
  qed
qed

lemma handoff_finishes:
  assumes "clock_advances (re_io env)" shows "\<exists>st'. stage_handoff env gate sg dec st = Finished st'"
proof -
  have "\<exists>x. handoff_settlement env agent s = Finished x" for agent s
    using settlement_link.returns [OF assms]
    by (auto simp: handoff_settlement_def split: option.splits simp del: not_None_eq)
  moreover have "\<exists>x. handoff_trade env agent sg dec s = Finished x" for agent s
    using trade_link.returns [OF assms] by (auto simp: handoff_trade_def split: option.splits simp del: not_None_eq)
  moreover have "\<exists>x. handoff_fan env agent s = Finished x" for agent s
    using pundit_link.returns [OF assms] by (auto simp: handoff_fan_def split: option.splits simp del: not_None_eq)
  ultimately show ?thesis
    unfolding stage_handoff_def Let_def and_next_Finished
    by (cases "cx_track (rn_context st)") (simp_all add: split_beta)
qed

lemma decide_finishes:
  assumes "clock_advances (re_io env)" shows "\<exists>x. stage_decide env p gate llm st = Finished x"
  using handoff_finishes [OF assms]
  by (auto simp: stage_decide_def Let_def and_next_Finished split: prod.splits option.splits)

definition proof_hangs :: "'w round_env \<Rightarrow> txline_event \<Rightarrow> track_mode \<Rightarrow> string option \<Rightarrow> 'w \<Rightarrow> bool" where
  \<comment> \<open>the proof request of the round that starts here never returns\<close>
  "proof_hangs env trigger track persisted w \<longleftrightarrow>
     (let st = ask_proof env (round_opening env (start_round env trigger track persisted w))
      in sidecar_hangs (re_validation env) (re_cfg env) (rn_run st) (rn_world st))"

lemma proof_stage_cases:
  "(\<exists>p gate st1. stage_proof env (round_opening env (start_round env trigger track persisted w)) = Finished ((p, gate), st1))
     \<and> \<not> proof_hangs env trigger track persisted w
   \<or> stage_proof env (round_opening env (start_round env trigger track persisted w)) = Stuck
     \<and> proof_hangs env trigger track persisted w"
  unfolding proof_hangs_def Let_def request_proof_None_iff [symmetric]
  by (auto simp: stage_proof_def Let_def split: option.split)

lemma round_cases:
  assumes "clock_advances (re_io env)"
  shows "(\<exists>p llm dec st. run_match_intelligence_round env trigger track persisted w = Finished (round_closing env p llm dec st))
       \<and> \<not> proof_hangs env trigger track persisted w
    \<or> run_match_intelligence_round env trigger track persisted w = Stuck
       \<and> (proof_hangs env trigger track persisted w \<or> reasoning_hangs env)"
  using proof_stage_cases [of env trigger track persisted w]
proof
  assume "(\<exists>p gate st1. stage_proof env (round_opening env (start_round env trigger track persisted w)) = Finished ((p, gate), st1))
     \<and> \<not> proof_hangs env trigger track persisted w"
  then obtain p gate st1 where 1: "stage_proof env (round_opening env (start_round env trigger track persisted w))
      = Finished ((p, gate), st1)" and n: "\<not> proof_hangs env trigger track persisted w" by blast
  obtain llm st2 where 2: "stage_explain env st1 = (llm, st2)" by (metis surj_pair)
  show ?thesis using wager_stage_cases [OF assms, of p gate st2]
  proof
    assume "\<exists>st3. stage_wager env p gate st2 = Finished st3"
    then obtain st3 where 3: "stage_wager env p gate st2 = Finished st3" by blast
    obtain dec st4 where "stage_decide env p gate llm st3 = Finished (dec, st4)"
      using decide_finishes [OF assms] by (metis surj_pair)
    then show ?thesis using n by (auto simp: run_match_intelligence_round_def 1 2 3)
  qed (simp add: run_match_intelligence_round_def 1 2)
qed (simp add: run_match_intelligence_round_def)

text \<open>
  C21: How a round ends. On a clock that advances no wait for an agent lasts for ever and no stage
  panics, whatever the network answers, the model replies and the spend limit is configured to (not
  even a limit that is negative or not a number); an HTTP request always returns, as the shared
  client gives up after ten seconds. What can hold the round for ever is a reasoning pass that does
  not return, and the validation sidecar in two ways only: it never takes the request, or it answers
  within 45 seconds and then does not exit. In these two cases the round is stuck; a sidecar that
  fails to start, is silent or ends without an answer does not hold it. Otherwise the round finishes,
  with the run or an error of the ledger.
\<close>

theorem round_comes_to_an_end:
  assumes "clock_advances (re_io env)"
  shows "case run_match_intelligence_round env trigger track persisted w of
      Finished _ \<Rightarrow> \<not> proof_hangs env trigger track persisted w
    | Crashed \<Rightarrow> False
    | Stuck \<Rightarrow> proof_hangs env trigger track persisted w \<or> reasoning_hangs env"
  using round_cases [OF assms, of trigger track persisted w] by (auto split: outcome.split)

section \<open>A small world\<close>

definition silent_ledger :: "nat ledger_io" where
  "silent_ledger = \<lparr>li_runs = (\<lambda>w. (Inr [], w)), li_signal = (\<lambda>_ _ w. (Inr (), w)), li_run = (\<lambda>_ w. (Inr (), w)),
     li_observation = (\<lambda>_ _ w. (Inr (), w)), li_receipt = (\<lambda>_ _ w. (Inr (), w)), li_llm = (\<lambda>_ _ w. (Inr (), w)),
     li_decision = (\<lambda>_ _ w. (Inr (), w))\<rparr>"

definition plain_encoders :: round_encoders where
  "plain_encoders = \<lparr>en_signal = (\<lambda>_. JNull), en_decision = (\<lambda>_. JNull), en_features = (\<lambda>_. JNull), en_gate = (\<lambda>_. JNull),
     en_receipt = (\<lambda>_. JNull), en_render = (\<lambda>_. ''{}''), en_sha256_hex = (\<lambda>_. ''00''), rc_kind = (\<lambda>_. JNull),
     rc_simulation = (\<lambda>_. JNull), rc_wager = (\<lambda>_. JNull), rc_trail = (\<lambda>_. JNull), rc_llm = (\<lambda>_. JNull),
     rc_evaluation = (\<lambda>_. JNull), rc_publish = (\<lambda>_. JNull)\<rparr>"

definition small_env :: "nat round_env" where
  "small_env = \<lparr>re_io = sample_io 0, re_cfg = sample_config,
     re_validation = \<lparr>ve_post = (\<lambda>_ w. (Inl ''offline'', w)), ve_get = (\<lambda>_ _ _ _ w. (Inl ''offline'', w)),
       ve_exists = (\<lambda>_ _. False), ve_child = silent_child, ve_node_bin = None, ve_sidecar_path = [], ve_idl_dir = [],
       ve_render = (\<lambda>_. []), ve_parse = (\<lambda>_. Inl ''bad''), ve_timestamp = (\<lambda>_. None)\<rparr>,
     re_ledger = silent_ledger,
     re_files = \<lparr>fi_create_dir = (\<lambda>_ w. (Inl ''read-only'', w)), fi_write = (\<lambda>_ _ w. (Inl ''read-only'', w)),
       fi_read = (\<lambda>_ w. (Inl FileMissing, w))\<rparr>,
     re_artefacts = sample_codec,
     re_wire = \<lparr>wc_wager = (\<lambda>_. Inr ''{}''), wc_trail = (\<lambda>_. Inr ''[]''), wc_signal = (\<lambda>_. Inr ''{}''),
       wc_decision = (\<lambda>_. Inr ''{}''), wc_parse_wager = (\<lambda>_. None)\<rparr>,
     re_enc = plain_encoders, re_emit = (\<lambda>_ w. w), re_reason = (\<lambda>w. (None, w)), re_replay_dir = ''replay''\<rparr>"

lemma small_clock: "clock_advances (re_io small_env)"
  by (simp add: small_env_def sample_io_clock)

lemma small_reasoning: "\<not> reasoning_hangs small_env"
  by (simp add: reasoning_hangs_def small_env_def)

lemma small_round:
  obtains run st where "run_match_intelligence_round small_env (stat_event None) Settlement None 0 = Finished (Inr run, st)"
proof -
  have "\<not> sidecar_hangs (re_validation small_env) cfg run w" for cfg run w
    by (simp add: sidecar_hangs_def small_env_def)
  then obtain p llm dec st where r: "run_match_intelligence_round small_env (stat_event None) Settlement None 0 =
      Finished (round_closing small_env p llm dec st)"
    using round_cases [OF small_clock, of "stat_event None" Settlement None 0] small_reasoning
    by (auto simp: proof_hangs_def Let_def)
  have "persist_run (re_ledger small_env) run ev q dec llm w = (Inr (), w)" for run ev q w
    by (simp add: small_env_def silent_ledger_def persist_run_def and_then_def split: option.splits)
  then show ?thesis using that r by (auto simp: round_closing_def Let_def)
qed

text \<open>
  The same world with a validation sidecar that is installed: silent, it is given up and the round
  finishes; with one that answers and lingers the round is stuck.
\<close>

definition sidecar_env :: "nat child_env \<Rightarrow> nat round_env" where
  "sidecar_env ch = small_env\<lparr>re_validation := (re_validation small_env)\<lparr>ve_exists := (\<lambda>_ _. True), ve_child := ch\<rparr>\<rparr>"

definition proven_event :: txline_event where
  "proven_event = stat_event (Some (stat_receipt\<lparr>pr_raw := Some (JObj [(''summary'', JNull), (''statToProve'', JNull)])\<rparr>))"

lemma sidecar_clock: "clock_advances (re_io (sidecar_env ch))"
  using small_clock by (simp add: sidecar_env_def)

lemma sidecar_reasoning: "\<not> reasoning_hangs (sidecar_env ch)"
  by (simp add: reasoning_hangs_def sidecar_env_def small_env_def)

lemma sidecar_reached:
  assumes "run_trigger run = proven_event"
  shows "\<exists>src. load_proof_source (re_validation (sidecar_env ch)) cfg run w = (Ready src, w)"
  using assms by (simp add: load_proof_source_def proven_event_def stat_event_def stat_receipt_def has_validation_shape_def
      opt_filter_def unwrap_or_def Let_def)

lemma proof_hangs_sidecar_env:
  "proof_hangs (sidecar_env ch) proven_event Settlement None 0 \<longleftrightarrow>
     (let st = ask_proof (sidecar_env ch) (round_opening (sidecar_env ch) (start_round (sidecar_env ch) proven_event Settlement None 0));
          ve = re_validation (sidecar_env ch)
      in \<exists>src. load_proof_source ve (re_cfg (sidecar_env ch)) (rn_run st) (rn_world st) = (Ready src, rn_world st)
           \<and> child_exchange ch sidecar_limit (resolve_node_bin None (\<lambda>_. True) []) []
               (ve_render ve (sidecar_request ve (re_cfg (sidecar_env ch)) (rn_run st) src)) (rn_world st) = None)"
proof -
  let ?st = "ask_proof (sidecar_env ch) (round_opening (sidecar_env ch) (start_round (sidecar_env ch) proven_event Settlement None 0))"
  have "run_trigger (rn_run ?st) = proven_event" by (simp add: opening_run start_trigger)
  from sidecar_reached [OF this, of ch "re_cfg (sidecar_env ch)" "rn_world ?st"] show ?thesis
    unfolding proof_hangs_def sidecar_hangs_def Let_def child_exchange_None_iff [symmetric]
    by (auto simp: sidecar_env_def small_env_def)
qed

theorem round_comes_to_an_end_witness:
  "(\<exists>r. run_match_intelligence_round (sidecar_env silent_child) proven_event Settlement None 0 = Finished r)
   \<and> run_match_intelligence_round (sidecar_env (lingering_child ''ok'')) proven_event Settlement None 0 = Stuck"
proof -
  have silent: "\<not> proof_hangs (sidecar_env silent_child) proven_event Settlement None 0"
    unfolding proof_hangs_sidecar_env by (simp add: lingering_child_hangs)
  have "run_trigger (rn_run (ask_proof (sidecar_env ch) (round_opening (sidecar_env ch)
      (start_round (sidecar_env ch) proven_event Settlement None 0)))) = proven_event" for ch
    by (simp add: opening_run start_trigger)
  from sidecar_reached [OF this] have lingering: "proof_hangs (sidecar_env (lingering_child ''ok'')) proven_event Settlement None 0"
    unfolding proof_hangs_sidecar_env by (simp add: lingering_child_hangs sidecar_limit_def Let_def)
  show ?thesis
    using round_comes_to_an_end [OF sidecar_clock, of silent_child proven_event Settlement None 0] silent
      round_comes_to_an_end [OF sidecar_clock, of "lingering_child ''ok''" proven_event Settlement None 0] lingering
      sidecar_reasoning
    by (auto split: outcome.splits)
qed

theorem round_transcript_well_formed_witness:
  "\<exists>r st. run_match_intelligence_round small_env (stat_event None) Settlement None 0 = Finished (r, st) \<and> transcript_ok 13 st"
proof -
  obtain run st where r: "run_match_intelligence_round small_env (stat_event None) Settlement None 0 = Finished (Inr run, st)"
    by (rule small_round)
  show ?thesis using r round_transcript_well_formed [OF r] by blast
qed

theorem round_moves_no_funds_witness:
  "\<exists>run st. run_match_intelligence_round small_env (stat_event None) Settlement None 0 = Finished (Inr run, st)
    \<and> (\<exists>s. run_settlement run = Some s \<and> untouched s)"
proof -
  obtain run st where r: "run_match_intelligence_round small_env (stat_event None) Settlement None 0 = Finished (Inr run, st)"
    by (rule small_round)
  show ?thesis using r conjunct1 [OF round_moves_no_funds [OF r]] by blast
qed

end
