(* ===== verification/Solana.thy ===== *)
theory Solana
  imports Txline
begin

text \<open>
  Access to the Solana cluster (\<open>services/chain/rpc.rs\<close>) and the payment intents of
  \<open>services/solana_pay.rs\<close>. Posting to an RPC endpoint and the clock are an argument over
  the world \<open>'w\<close>; percent encoding and the generator of reference keys are crates and
  arguments too. The lemmas show that no request leaves the desk for a method that is
  not on the allow list, or without an endpoint and its token.
\<close>

section \<open>chain/rpc.rs\<close>

record 'w rpc_io =
  rpc_post :: "string \<Rightarrow> string \<Rightarrow> json \<Rightarrow> 'w \<Rightarrow> (string + data_answer) \<times> 'w"
  rpc_elapsed :: "'w \<Rightarrow> 'w \<Rightarrow> nat"
  rpc_now_iso :: "'w \<Rightarrow> string"

definition allowed_rpc_methods :: "string list" where
  "allowed_rpc_methods = [''getSlot'', ''getVersion'', ''getBalance'', ''getLatestBlockhash'',
     ''getSignaturesForAddress'', ''getAccountInfo'', ''getTransaction'']"

definition validate_rpc_method :: "string \<Rightarrow> app_error + unit" where
  "validate_rpc_method method =
     (if method \<in> set allowed_rpc_methods then Inr ()
      else Inl (InvalidInput (''RPC method '' @ method @ '' is not allowed'')))"

definition debug_cluster :: "cluster \<Rightarrow> string" where
  "debug_cluster k = (case k of Devnet \<Rightarrow> ''Devnet'' | Mainnet \<Rightarrow> ''Mainnet'')"

definition rpc_params :: "json \<Rightarrow> json" where
  "rpc_params params = (case params of JArr vs \<Rightarrow> JArr vs | JNull \<Rightarrow> JArr [] | other \<Rightarrow> JArr [other])"

definition rpc_request :: "string \<Rightarrow> json \<Rightarrow> json" where
  "rpc_request method params =
     JObj [(''id'', JInt 1), (''jsonrpc'', JStr ''2.0''), (''method'', JStr method), (''params'', rpc_params params)]"

definition rpc_answer :: "json \<Rightarrow> app_error + json" where
  "rpc_answer body =
     (case jget body ''error'' of
        Some e \<Rightarrow> Inl (RpcError (unwrap_or (- 1) (Option.bind (jget e ''code'') as_i64))
                        (unwrap_or ''unknown Solana RPC error'' (Option.bind (jget e ''message'') as_str)))
      | None \<Rightarrow> Inr (unwrap_or JNull (jget body ''result'')))"

definition solana_rpc ::
    "'w rpc_io \<Rightarrow> app_config \<Rightarrow> cluster \<Rightarrow> string \<Rightarrow> json \<Rightarrow> 'w \<Rightarrow> (app_error + json) \<times> 'w" where
  "solana_rpc io cfg k method params w =
     (case validate_rpc_method method of Inl e \<Rightarrow> (Inl e, w)
      | Inr _ \<Rightarrow>
     (case rpc_endpoint cfg k of None \<Rightarrow> (Inl (ConfigError (debug_cluster k @ '' RPC endpoint missing'')), w)
      | Some endpoint \<Rightarrow>
     (case rpc_token cfg k of None \<Rightarrow> (Inl (ConfigError (debug_cluster k @ '' RPC x-token missing'')), w)
      | Some token \<Rightarrow>
     (case rpc_post io endpoint token (rpc_request method params) w of
        (Inl e, w1) \<Rightarrow> (Inl (HttpError e), w1)
      | (Inr a, w1) \<Rightarrow>
          ((case answer_json a of Inl e \<Rightarrow> Inl e | Inr body \<Rightarrow> rpc_answer body), w1)))))"

record chain_health =
  ch_cluster :: cluster
  ch_slot :: u64
  ch_solana_core :: string
  ch_latency_ms :: nat
  ch_ts :: string

record chain_observation =
  co_kind :: string
  co_signature :: "string option"
  co_slot :: "u64 option"
  co_blockhash :: "string option"
  co_account :: "string option"
  co_program_id :: "string option"
  co_note :: string

definition chain_status :: "'w rpc_io \<Rightarrow> app_config \<Rightarrow> cluster \<Rightarrow> 'w \<Rightarrow> (app_error + chain_health) \<times> 'w" where
  "chain_status io cfg k w =
     (case solana_rpc io cfg k ''getSlot'' (JArr []) w of
        (Inl e, w1) \<Rightarrow> (Inl e, w1)
      | (Inr slot, w1) \<Rightarrow>
     (case solana_rpc io cfg k ''getVersion'' (JArr []) w1 of
        (Inl e, w2) \<Rightarrow> (Inl e, w2)
      | (Inr version, w2) \<Rightarrow>
          (Inr \<lparr>ch_cluster = k, ch_slot = unwrap_or 0 (as_u64 slot),
                ch_solana_core = unwrap_or ''unknown'' (Option.bind (jget version ''solana-core'') as_str),
                ch_latency_ms = rpc_elapsed io w w1, ch_ts = rpc_now_iso io w2\<rparr>, w2)))"

definition latest_signature :: "json \<Rightarrow> string option" where
  "latest_signature v =
     (case as_array v of
        Some (item # _) \<Rightarrow> Option.bind (jget item ''signature'') as_str
      | _ \<Rightarrow> None)"

definition account_signature ::
    "'w rpc_io \<Rightarrow> app_config \<Rightarrow> string option \<Rightarrow> 'w \<Rightarrow> string option \<times> 'w" where
  "account_signature io cfg account w =
     (case account of None \<Rightarrow> (None, w)
      | Some a \<Rightarrow>
          (case solana_rpc io cfg Devnet ''getSignaturesForAddress''
                  (JArr [JStr a, JObj [(''limit'', JInt 1)]]) w of
             (Inl _, w1) \<Rightarrow> (None, w1)
           | (Inr v, w1) \<Rightarrow> (latest_signature v, w1)))"

definition observe_settlement ::
    "'w rpc_io \<Rightarrow> app_config \<Rightarrow> string \<Rightarrow> string option \<Rightarrow> 'w \<Rightarrow> (app_error + chain_observation) \<times> 'w" where
  "observe_settlement io cfg reference escrow w =
     (case solana_rpc io cfg Devnet ''getSlot'' (JArr []) w of
        (Inl e, w1) \<Rightarrow> (Inl e, w1)
      | (Inr slot_json, w1) \<Rightarrow>
     (case solana_rpc io cfg Devnet ''getLatestBlockhash'' (JArr []) w1 of
        (Inl e, w2) \<Rightarrow> (Inl e, w2)
      | (Inr info, w2) \<Rightarrow>
     (let slot = as_u64 slot_json in
      case account_signature io cfg escrow w2 of (signature, w3) \<Rightarrow>
        (Inr \<lparr>co_kind = ''account_update'', co_signature = signature, co_slot = slot,
              co_blockhash = Option.bind (jpointer info [''value'', ''blockhash'']) as_str,
              co_account = escrow, co_program_id = None,
              co_note = ''Devnet observed '' @ reference @ '' at slot ''
                @ (case slot of None \<Rightarrow> ''unknown'' | Some s \<Rightarrow> show_u64 s)\<rparr>, w3))))"

definition yellowstone_status :: "app_config \<Rightarrow> app_error + string" where
  "yellowstone_status cfg =
     (if grpc_endpoint cfg \<noteq> None \<and> grpc_x_token cfg \<noteq> None
      then Inr ''configured; Rust-managed Yellowstone gRPC sidecar streams slots, accounts, and transactions''
      else Inl (ConfigError ''GRPC_ENDPOINT and GRPC_X_TOKEN are required for Yellowstone streams''))"

section \<open>solana_pay.rs\<close>

datatype pay_status = PayPending | PayConfirmed | PayFailed | PayExpired

record pay_intent =
  sp_reference :: string
  sp_run_id :: string
  sp_recipient :: string
  sp_amount_sol :: f64
  sp_spl_token :: "string option"
  sp_label :: "string option"
  sp_memo :: "string option"
  sp_status :: pay_status
  sp_created_at :: string

definition status_text :: "pay_intent \<Rightarrow> string" where
  "status_text i = (case sp_status i of PayPending \<Rightarrow> ''pending'' | PayConfirmed \<Rightarrow> ''confirmed''
     | PayFailed \<Rightarrow> ''failed'' | PayExpired \<Rightarrow> ''expired'')"

definition payment_url :: "(string \<Rightarrow> string) \<Rightarrow> pay_intent \<Rightarrow> string" where
  \<comment> \<open>\<open>encode\<close> is the percent encoding of the \<open>urlencoding\<close> crate\<close>
  "payment_url encode i =
     ''solana:'' @ sp_recipient i @ ''?amount='' @ fmt_display (sp_amount_sol i) @ ''&reference='' @ sp_reference i
     @ (case sp_spl_token i of None \<Rightarrow> [] | Some t \<Rightarrow> ''&spl-token='' @ encode t)
     @ (case sp_label i of None \<Rightarrow> [] | Some t \<Rightarrow> ''&label='' @ encode t)
     @ (case sp_memo i of None \<Rightarrow> [] | Some t \<Rightarrow> ''&memo='' @ encode t)"

definition generate_reference :: "('w \<Rightarrow> (string + string) \<times> 'w) \<Rightarrow> (string \<Rightarrow> string) \<Rightarrow> 'w \<Rightarrow> (string + string) \<times> 'w" where
  \<comment> \<open>\<open>entropy\<close> draws 32 bytes, \<open>base58\<close> writes them\<close>
  "generate_reference entropy base58 w =
     (case entropy w of (Inl e, w1) \<Rightarrow> (Inl e, w1) | (Inr bytes, w1) \<Rightarrow> (Inr (base58 bytes), w1))"

section \<open>What leaves the desk\<close>

text \<open>The same transport, with a log of the posts: endpoint, token and request.\<close>

definition logged_rpc :: "'w rpc_io \<Rightarrow> ('w \<times> (string \<times> string \<times> json) list) rpc_io" where
  "logged_rpc io =
     \<lparr>rpc_post = (\<lambda>u t q (w, l). case rpc_post io u t q w of (r, w') \<Rightarrow> (r, w', l @ [(u, t, q)])),
      rpc_elapsed = (\<lambda>a b. rpc_elapsed io (fst a) (fst b)), rpc_now_iso = (\<lambda>s. rpc_now_iso io (fst s))\<rparr>"

definition rpc_posts_allowed :: "app_config \<Rightarrow> cluster set \<Rightarrow> (string \<times> string \<times> json) list \<Rightarrow> bool" where
  "rpc_posts_allowed cfg ks l \<longleftrightarrow>
     (\<forall>(u, t, q) \<in> set l. (\<exists>k \<in> ks. rpc_endpoint cfg k = Some u \<and> rpc_token cfg k = Some t)
        \<and> (\<exists>m \<in> set allowed_rpc_methods. jget q ''method'' = Some (JStr m)))"

lemma solana_rpc_posts:
  assumes "solana_rpc (logged_rpc io) cfg k method params (w, l) = (r, w', l')"
  shows "l' = l \<or> (\<exists>u t. l' = l @ [(u, t, rpc_request method params)] \<and> rpc_endpoint cfg k = Some u
           \<and> rpc_token cfg k = Some t \<and> method \<in> set allowed_rpc_methods)"
  using assms
  by (auto simp: solana_rpc_def logged_rpc_def validate_rpc_method_def split: if_splits option.splits sum.splits prod.splits)

lemma solana_rpc_allowed:
  assumes "solana_rpc (logged_rpc io) cfg k method params (w, l) = (r, w', l')" and "rpc_posts_allowed cfg ks l" and "k \<in> ks"
  shows "rpc_posts_allowed cfg ks l'"
  using solana_rpc_posts [OF assms(1)] assms(2,3)
  by (auto simp: rpc_posts_allowed_def rpc_request_def)

lemma solana_rpc_refused:
  "method \<notin> set allowed_rpc_methods \<Longrightarrow>
     solana_rpc io cfg k method params w = (Inl (InvalidInput (''RPC method '' @ method @ '' is not allowed'')), w)"
  by (simp add: solana_rpc_def validate_rpc_method_def)

lemma account_signature_allowed:
  assumes "account_signature (logged_rpc io) cfg a (w, l) = (r, w', l')" and "rpc_posts_allowed cfg ks l" and "Devnet \<in> ks"
  shows "rpc_posts_allowed cfg ks l'"
  using assms by (auto simp: account_signature_def dest: solana_rpc_allowed split: option.splits sum.splits prod.splits)

lemma chain_status_allowed:
  assumes "chain_status (logged_rpc io) cfg k (w, l) = (r, w', l')" and "rpc_posts_allowed cfg ks l" and "k \<in> ks"
  shows "rpc_posts_allowed cfg ks l'"
  using assms by (auto simp: chain_status_def dest: solana_rpc_allowed split: sum.splits prod.splits)

lemma observe_settlement_allowed:
  assumes "observe_settlement (logged_rpc io) cfg ref a (w, l) = (r, w', l')" and "rpc_posts_allowed cfg ks l" and "Devnet \<in> ks"
  shows "rpc_posts_allowed cfg ks l'"
  using assms
  by (auto simp: observe_settlement_def Let_def dest: solana_rpc_allowed account_signature_allowed split: sum.splits prod.splits)

text \<open>
  C26: the desk posts to Solana only what the allow list permits. From any method name and any
  parameters, a generic call posts at most once, to the endpoint configured for that cluster and
  with its token, and only for a listed method; otherwise nothing is sent and the call answers an
  error. The status check stays on its cluster, the observation of a settlement on devnet.
\<close>
theorem rpc_stays_on_allow_list:
  "(case solana_rpc (logged_rpc io) cfg k method params (w, []) of (r, w', l) \<Rightarrow>
      length l \<le> 1 \<and> rpc_posts_allowed cfg {k} l
      \<and> (method \<in> set allowed_rpc_methods \<or> (l = [] \<and> w' = w \<and> r = Inl (InvalidInput (''RPC method '' @ method @ '' is not allowed'')))))
   \<and> (case chain_status (logged_rpc io) cfg k (w, []) of (_, _, l) \<Rightarrow> rpc_posts_allowed cfg {k} l)
   \<and> (case observe_settlement (logged_rpc io) cfg ref a (w, []) of (_, _, l) \<Rightarrow> rpc_posts_allowed cfg {Devnet} l)"
proof -
  have e: "rpc_posts_allowed cfg ks []" for ks by (simp add: rpc_posts_allowed_def)
  obtain r w' l where s: "solana_rpc (logged_rpc io) cfg k method params (w, []) = (r, w', l)"
    by (metis prod.exhaust)
  have "length l \<le> 1" using solana_rpc_posts [OF s] by auto
  moreover have "rpc_posts_allowed cfg {k} l" using solana_rpc_allowed [OF s e] by simp
  moreover have "l = [] \<and> w' = w \<and> r = Inl (InvalidInput (''RPC method '' @ method @ '' is not allowed''))"
    if "method \<notin> set allowed_rpc_methods"
    using s solana_rpc_refused [OF that, of "logged_rpc io" cfg k params "(w, [])"] by simp
  moreover have "case chain_status (logged_rpc io) cfg k (w, []) of (_, _, l) \<Rightarrow> rpc_posts_allowed cfg {k} l"
    using chain_status_allowed [of io cfg k w "[]", OF _ e] by (auto split: prod.splits)
  moreover have "case observe_settlement (logged_rpc io) cfg ref a (w, []) of (_, _, l) \<Rightarrow> rpc_posts_allowed cfg {Devnet} l"
    using observe_settlement_allowed [of io cfg ref a w "[]", OF _ e] by (auto split: prod.splits)
  ultimately show ?thesis using s by auto
qed

end
