(* ===== verification/Ledger.thy ===== *)
theory Ledger
  imports Arena Llm Solana
begin

text \<open>
  The SQLite ledger (\<open>services/ledger/store.rs\<close>) and the rows of \<open>domain/arena.rs\<close>. A table
  is the list of its rows in insertion order; \<open>INSERT .. ON CONFLICT DO UPDATE\<close> is
  \<open>upsert\<close>, a \<open>SELECT\<close> filters, orders and cuts. What SQLite leaves open or computes by
  itself is the record \<open>sqlite\<close>, an argument: the order among equal keys, the sums and
  means of real columns, and the row a query without an order returns; \<open>sqlite_ok\<close> states
  the documented part (an ordered query returns every row once, in order). The JSON codec
  is an argument as well. Errors of statements are \<open>SqlError\<close>: an unsigned number
  beyond \<open>i64\<close> cannot be bound, and a double that is not a number becomes \<open>NULL\<close>, which a
  \<open>NOT NULL\<close> column refuses. The stores of runs and of payment intents also take the fault
  of their statement (a busy or full database), if it has one: then the table stays as it is.
\<close>

section \<open>Rows\<close>

record run_row =
  rr_run_id :: string
  rr_track :: string
  rr_trigger_json :: string
  rr_run_json :: string
  rr_created_at :: string

record pay_row =
  py_reference :: string
  py_run_id :: string
  py_intent_json :: string
  py_status :: string
  py_created_at :: string
  py_updated_at :: string

record observation_row =
  ob_id :: string
  ob_run_id :: string
  ob_fixture_id :: i64
  ob_event_id :: string
  ob_event_kind :: string
  ob_event_json :: string
  ob_created_at :: string

record agent_signal_row =
  as_id :: string
  as_run_id :: string
  as_fixture_id :: i64
  as_signal_json :: string
  as_created_at :: string

record decision_row =
  de_id :: string
  de_run_id :: string
  de_signal_id :: string
  de_action :: string
  de_decision_json :: string
  de_created_at :: string

record receipt_row =
  re_id :: string
  re_run_id :: string
  re_fixture_id :: i64
  re_seq :: "i64 option"
  re_status :: string
  re_verified :: bool
  re_receipt_json :: string
  re_created_at :: string

record llm_row =
  ll_id :: string
  ll_run_id :: string
  ll_provider :: string
  ll_model :: string
  ll_used :: bool
  ll_response_json :: string
  ll_created_at :: string

record position_row =
  po_position_id :: string
  po_agent_id :: string
  po_strategy :: string
  po_fixture_id :: i64
  po_market_key :: string
  po_selection :: string
  po_odds_at_entry :: f64
  po_odds_move_pct :: f64
  po_direction :: string
  po_confidence :: f64
  po_recorded_at :: string
  po_tx_signature :: "string option"
  po_outcome_won :: "bool option"
  po_outcome_pnl :: "f64 option"
  po_outcome_settled_at :: "string option"

record settlement_row =
  se_idempotency_key :: string
  se_fixture_id :: i64
  se_agent_id :: string
  se_strategy :: string
  se_market_key :: string
  se_selection :: string
  se_direction :: string
  se_odds_at_entry :: f64
  se_result :: string
  se_pnl_units :: f64
  se_settled_at :: string

record signal_row =
  si_signal_id :: string
  si_idempotency_key :: string
  si_fixture_id :: i64
  si_fixture_name :: string
  si_market_key :: string
  si_selection :: string
  si_odds_now :: f64
  si_odds_prev :: f64
  si_move_pct :: f64
  si_direction :: string
  si_confidence :: f64
  si_detected_at :: string
  si_narrative :: "string option"
  si_correct_so_far :: bool

record tool_call_row =
  tc_id :: string
  tc_run_id :: string
  tc_tool_name :: string
  tc_arguments_json :: string
  tc_result_json :: "string option"
  tc_status :: string
  tc_created_at :: string

record backtest_row =
  bt_position_id :: string
  bt_fixture_id :: i64
  bt_fixture_home :: string
  bt_fixture_away :: string
  bt_agent_id :: string
  bt_strategy :: string
  bt_market_key :: string
  bt_selection :: string
  bt_direction :: string
  bt_odds_at_entry :: f64
  bt_odds_move_pct :: f64
  bt_confidence :: f64
  bt_result :: string
  bt_pnl_units :: f64
  bt_final_score :: string
  bt_recorded_at :: string
  bt_settled_at :: string

text \<open>What the queries over several rows answer.\<close>

record arena_score_row =
  ar_follow_wins :: nat
  ar_follow_losses :: nat
  ar_fade_wins :: nat
  ar_fade_losses :: nat
  ar_follow_pnl :: f64
  ar_fade_pnl :: f64
  ar_leader :: string

record leaderboard_row =
  le_agent_id :: string
  le_strategy :: string
  le_taken :: nat
  le_won :: nat
  le_total_pnl :: f64
  le_win_rate :: f64
  le_avg_confidence :: f64

record session_row =
  ss_session_id :: string
  ss_fixture_id :: i64
  ss_fixture_name :: string
  ss_positions :: "position_row list"
  ss_status :: string
  ss_started_at :: string
  ss_ended_at :: "string option"

record ledger =
  db_runs :: "run_row list"
  db_payments :: "pay_row list"
  db_observations :: "observation_row list"
  db_agent_signals :: "agent_signal_row list"
  db_decisions :: "decision_row list"
  db_receipts :: "receipt_row list"
  db_llm_calls :: "llm_row list"
  db_positions :: "position_row list"
  db_settlements :: "settlement_row list"
  db_signals :: "signal_row list"
  db_tool_calls :: "tool_call_row list"
  db_backtest :: "backtest_row list"

definition empty_ledger :: ledger where
  "empty_ledger = \<lparr>db_runs = [], db_payments = [], db_observations = [], db_agent_signals = [],
     db_decisions = [], db_receipts = [], db_llm_calls = [], db_positions = [], db_settlements = [],
     db_signals = [], db_tool_calls = [], db_backtest = []\<rparr>"

section \<open>SQL\<close>

record sqlite =
  sq_order :: "bool \<Rightarrow> string list \<Rightarrow> nat list"
  sq_order_real :: "f64 list \<Rightarrow> nat list"
  sq_sum :: "f64 list \<Rightarrow> f64 option"
  sq_avg :: "f64 list \<Rightarrow> f64 option"
  sq_any :: "nat \<Rightarrow> nat"

text \<open>
  \<open>sq_order desc keys\<close> lists the positions of the keys in the order of the query;
  \<open>sq_sum\<close> and \<open>sq_avg\<close> are \<open>None\<close> for \<open>NULL\<close>, the value over no rows.
\<close>

definition key_le :: "string \<Rightarrow> string \<Rightarrow> bool" where
  "key_le a b \<longleftrightarrow> a = b \<or> str_less a b"

definition permutes :: "nat list \<Rightarrow> nat \<Rightarrow> bool" where
  "permutes ps n \<longleftrightarrow> distinct ps \<and> set ps = {..<n}"

definition sqlite_ok :: "sqlite \<Rightarrow> bool" where
  "sqlite_ok q \<longleftrightarrow>
     (\<forall>d ks. permutes (sq_order q d ks) (length ks)
        \<and> sorted_wrt (\<lambda>a b. if d then key_le b a else key_le a b) (map ((!) ks) (sq_order q d ks)))
     \<and> (\<forall>rs. permutes (sq_order_real q rs) (length rs))"

definition order_by :: "sqlite \<Rightarrow> bool \<Rightarrow> ('r \<Rightarrow> string) \<Rightarrow> 'r list \<Rightarrow> 'r list" where
  "order_by q desc key rows = map ((!) rows) (sq_order q desc (map key rows))"

definition limit_rows :: "int \<Rightarrow> 'r list \<Rightarrow> 'r list" where
  \<comment> \<open>a negative limit is no limit\<close>
  "limit_rows n rows = (if n < 0 then rows else take (nat n) rows)"

definition upsert :: "('r \<Rightarrow> string) \<Rightarrow> ('r \<Rightarrow> 'r) \<Rightarrow> 'r \<Rightarrow> 'r list \<Rightarrow> 'r list" where
  "upsert key update new rows =
     (if list_ex (\<lambda>r. key r = key new) rows
      then map (\<lambda>r. if key r = key new then update r else r) rows
      else rows @ [new])"

definition bind_u64 :: "u64 \<Rightarrow> app_error + i64" where
  "bind_u64 n = (if uint n < 2 ^ 63 then Inr (uint n) else Inl (SqlError ''out of range integral type conversion attempted''))"

fun bind_opt_u64 :: "u64 option \<Rightarrow> app_error + i64 option" where
  "bind_opt_u64 None = Inr None"
| "bind_opt_u64 (Some n) = map_sum id Some (bind_u64 n)"

fun res_then :: "'e + 'a \<Rightarrow> ('a \<Rightarrow> 'e + 'b) \<Rightarrow> 'e + 'b" where
  "res_then (Inl e) f = Inl e"
| "res_then (Inr x) f = f x"

fun collect_rows :: "('e + 'a) list \<Rightarrow> 'e + 'a list" where
  "collect_rows [] = Inr []"
| "collect_rows (x # xs) = res_then x (\<lambda>y. res_then (collect_rows xs) (\<lambda>ys. Inr (y # ys)))"

record ledger_codec =
  cd_event :: "txline_event \<Rightarrow> app_error + string"
  cd_run :: "agent_run \<Rightarrow> app_error + string"
  cd_read_run :: "string \<Rightarrow> app_error + agent_run"
  cd_intent :: "pay_intent \<Rightarrow> app_error + string"
  cd_read_intent :: "string \<Rightarrow> app_error + pay_intent"
  cd_signal :: "agent_signal \<Rightarrow> app_error + string"
  cd_decision :: "agent_decision \<Rightarrow> app_error + string"
  cd_receipt :: "proof_receipt \<Rightarrow> app_error + string"
  cd_llm :: "llm_response \<Rightarrow> app_error + string"

section \<open>Runs and payment intents\<close>

definition exec_stmt :: "string option \<Rightarrow> ledger \<Rightarrow> ledger \<Rightarrow> (app_error + unit) \<times> ledger" where
  "exec_stmt fault db db' = (case fault of None \<Rightarrow> (Inr (), db') | Some e \<Rightarrow> (Inl (SqlError e), db))"

definition upsert_run ::
    "ledger_codec \<Rightarrow> string option \<Rightarrow> string \<Rightarrow> agent_run \<Rightarrow> ledger \<Rightarrow> (app_error + unit) \<times> ledger" where
  \<comment> \<open>\<open>fault\<close> is the error of the statement, if any, \<open>now\<close> the time of the call\<close>
  "upsert_run cd fault now run db =
     (case res_then (cd_event cd (run_trigger run)) (\<lambda>t. res_then (cd_run cd run) (\<lambda>j. Inr (t, j))) of
        Inl e \<Rightarrow> (Inl e, db)
      | Inr (trigger_json, run_json) \<Rightarrow>
          let created_at = (case run_timeline run of [] \<Rightarrow> now | entry # _ \<Rightarrow> tl_at entry);
              row = \<lparr>rr_run_id = run_id run, rr_track = show_track (run_track run),
                     rr_trigger_json = trigger_json, rr_run_json = run_json, rr_created_at = created_at\<rparr>
          in exec_stmt fault db (db\<lparr>db_runs := upsert rr_run_id
                (\<lambda>r. r\<lparr>rr_track := rr_track row, rr_trigger_json := trigger_json, rr_run_json := run_json\<rparr>)
                row (db_runs db)\<rparr>))"

definition list_runs :: "sqlite \<Rightarrow> ledger_codec \<Rightarrow> ledger \<Rightarrow> app_error + agent_run list" where
  "list_runs q cd db =
     collect_rows (map (\<lambda>r. cd_read_run cd (rr_run_json r))
       (limit_rows 100 (order_by q True rr_created_at (db_runs db))))"

definition get_run :: "ledger_codec \<Rightarrow> string \<Rightarrow> ledger \<Rightarrow> app_error + agent_run" where
  "get_run cd rid db =
     (case find (\<lambda>r. rr_run_id r = rid) (db_runs db) of
        None \<Rightarrow> Inl (NotFound rid) | Some r \<Rightarrow> cd_read_run cd (rr_run_json r))"

definition upsert_payment_intent ::
    "ledger_codec \<Rightarrow> string option \<Rightarrow> string \<Rightarrow> pay_intent \<Rightarrow> ledger \<Rightarrow> (app_error + unit) \<times> ledger" where
  "upsert_payment_intent cd fault now i db =
     (case cd_intent cd i of
        Inl e \<Rightarrow> (Inl e, db)
      | Inr j \<Rightarrow>
          let row = \<lparr>py_reference = sp_reference i, py_run_id = sp_run_id i, py_intent_json = j,
                     py_status = status_text i, py_created_at = sp_created_at i, py_updated_at = now\<rparr>
          in exec_stmt fault db (db\<lparr>db_payments := upsert py_reference
                (\<lambda>r. r\<lparr>py_intent_json := j, py_status := status_text i, py_updated_at := now\<rparr>)
                row (db_payments db)\<rparr>))"

definition list_payment_intents ::
    "sqlite \<Rightarrow> ledger_codec \<Rightarrow> string option \<Rightarrow> ledger \<Rightarrow> app_error + pay_intent list" where
  "list_payment_intents q cd rid db =
     collect_rows (map (\<lambda>r. cd_read_intent cd (py_intent_json r))
       (order_by q True py_created_at
         (case rid of None \<Rightarrow> db_payments db | Some i \<Rightarrow> filter (\<lambda>r. py_run_id r = i) (db_payments db))))"

definition get_payment_intent_by_reference :: "ledger_codec \<Rightarrow> string \<Rightarrow> ledger \<Rightarrow> app_error + pay_intent" where
  "get_payment_intent_by_reference cd ref db =
     (case find (\<lambda>r. py_reference r = ref) (db_payments db) of
        None \<Rightarrow> Inl (NotFound ref) | Some r \<Rightarrow> cd_read_intent cd (py_intent_json r))"

section \<open>What a round records\<close>

definition insert_agent_observation ::
    "ledger_codec \<Rightarrow> string \<Rightarrow> txline_event \<Rightarrow> ledger \<Rightarrow> (app_error + unit) \<times> ledger" where
  "insert_agent_observation cd rid ev db =
     (case res_then (cd_event cd ev) (\<lambda>j. res_then (bind_u64 (ev_fixture_id ev)) (\<lambda>f. Inr (j, f))) of
        Inl e \<Rightarrow> (Inl e, db)
      | Inr (j, f) \<Rightarrow>
          let row = \<lparr>ob_id = rid @ '':'' @ ev_id ev, ob_run_id = rid, ob_fixture_id = f, ob_event_id = ev_id ev,
                     ob_event_kind = debug_kind (ev_kind ev), ob_event_json = j, ob_created_at = ev_ts ev\<rparr>
          in (Inr (), db\<lparr>db_observations := upsert ob_id (\<lambda>r. r\<lparr>ob_event_json := j\<rparr>) row (db_observations db)\<rparr>))"

definition insert_agent_signal ::
    "ledger_codec \<Rightarrow> string \<Rightarrow> agent_signal \<Rightarrow> ledger \<Rightarrow> (app_error + unit) \<times> ledger" where
  "insert_agent_signal cd rid s db =
     (case res_then (cd_signal cd s) (\<lambda>j. res_then (bind_u64 (sg_fixture_id s)) (\<lambda>f. Inr (j, f))) of
        Inl e \<Rightarrow> (Inl e, db)
      | Inr (j, f) \<Rightarrow>
          let row = \<lparr>as_id = sg_id s, as_run_id = rid, as_fixture_id = f, as_signal_json = j,
                     as_created_at = sg_created_at s\<rparr>
          in (Inr (), db\<lparr>db_agent_signals := upsert as_id (\<lambda>r. r\<lparr>as_signal_json := j\<rparr>) row (db_agent_signals db)\<rparr>))"

definition insert_agent_decision ::
    "ledger_codec \<Rightarrow> string \<Rightarrow> agent_decision \<Rightarrow> ledger \<Rightarrow> (app_error + unit) \<times> ledger" where
  "insert_agent_decision cd rid d db =
     (case cd_decision cd d of
        Inl e \<Rightarrow> (Inl e, db)
      | Inr j \<Rightarrow>
          let row = \<lparr>de_id = ad_id d, de_run_id = rid, de_signal_id = ad_signal_id d,
                     de_action = debug_action (ad_action d), de_decision_json = j, de_created_at = ad_created_at d\<rparr>
          in (Inr (), db\<lparr>db_decisions := upsert de_id (\<lambda>r. r\<lparr>de_decision_json := j\<rparr>) row (db_decisions db)\<rparr>))"

definition debug_simulation :: "simulation_status \<Rightarrow> string" where
  "debug_simulation s = (case s of SimNotStarted \<Rightarrow> ''NotStarted'' | SimPassed \<Rightarrow> ''Passed''
     | SimFailed \<Rightarrow> ''Failed'' | SimUnavailable \<Rightarrow> ''Unavailable'')"

definition insert_proof_receipt ::
    "ledger_codec \<Rightarrow> string \<Rightarrow> string \<Rightarrow> proof_receipt \<Rightarrow> ledger \<Rightarrow> (app_error + unit) \<times> ledger" where
  "insert_proof_receipt cd now rid p db =
     (case res_then (cd_receipt cd p) (\<lambda>j. res_then (bind_u64 (pr_fixture_id p))
             (\<lambda>f. res_then (bind_opt_u64 (pr_seq p)) (\<lambda>s. Inr (j, f, s)))) of
        Inl e \<Rightarrow> (Inl e, db)
      | Inr (j, f, s) \<Rightarrow>
          let row = \<lparr>re_id = rid @ '':'' @ show_u64 (pr_fixture_id p) @ '':''
                       @ (case pr_seq p of None \<Rightarrow> ''none'' | Some n \<Rightarrow> show_u64 n),
                     re_run_id = rid, re_fixture_id = f, re_seq = s,
                     re_status = debug_simulation (pr_simulation_status p), re_verified = pr_verified p,
                     re_receipt_json = j, re_created_at = now\<rparr>
          in (Inr (), db\<lparr>db_receipts := upsert re_id (\<lambda>r. r\<lparr>re_receipt_json := j\<rparr>) row (db_receipts db)\<rparr>))"

definition insert_llm_call ::
    "ledger_codec \<Rightarrow> string \<Rightarrow> string \<Rightarrow> string \<Rightarrow> llm_response \<Rightarrow> ledger \<Rightarrow> (app_error + unit) \<times> ledger" where
  \<comment> \<open>a second row with the same identifier violates the primary key\<close>
  "insert_llm_call cd now uuid rid r db =
     (case cd_llm cd r of
        Inl e \<Rightarrow> (Inl e, db)
      | Inr j \<Rightarrow>
          let row = \<lparr>ll_id = rid @ '':'' @ uuid, ll_run_id = rid, ll_provider = ls_provider r,
                     ll_model = ls_model r, ll_used = ls_used r, ll_response_json = j, ll_created_at = now\<rparr>
          in if list_ex (\<lambda>x. ll_id x = ll_id row) (db_llm_calls db)
             then (Inl (SqlError ''UNIQUE constraint failed: agent_llm_calls.id''), db)
             else (Inr (), db\<lparr>db_llm_calls := db_llm_calls db @ [row]\<rparr>))"

section \<open>Arena queries\<close>

definition list_arena_positions :: "sqlite \<Rightarrow> string option \<Rightarrow> int \<Rightarrow> ledger \<Rightarrow> position_row list" where
  "list_arena_positions q agent limit db =
     limit_rows limit (order_by q True po_recorded_at
       (case agent of None \<Rightarrow> db_positions db | Some a \<Rightarrow> filter (\<lambda>r. po_agent_id r = a) (db_positions db)))"

definition list_settlement_records ::
    "sqlite \<Rightarrow> string option \<Rightarrow> i64 option \<Rightarrow> int \<Rightarrow> ledger \<Rightarrow> settlement_row list" where
  "list_settlement_records q agent fixture limit db =
     limit_rows limit (order_by q True se_settled_at
       (filter (\<lambda>r. (case agent of None \<Rightarrow> True | Some a \<Rightarrow> se_agent_id r = a)
                  \<and> (case fixture of None \<Rightarrow> True | Some f \<Rightarrow> se_fixture_id r = f)) (db_settlements db)))"

definition list_signal_records :: "sqlite \<Rightarrow> i64 option \<Rightarrow> int \<Rightarrow> ledger \<Rightarrow> signal_row list" where
  "list_signal_records q fixture limit db =
     limit_rows limit (order_by q True si_detected_at
       (case fixture of None \<Rightarrow> db_signals db | Some f \<Rightarrow> filter (\<lambda>r. si_fixture_id r = f) (db_signals db)))"

definition list_tool_call_records :: "sqlite \<Rightarrow> string option \<Rightarrow> int \<Rightarrow> ledger \<Rightarrow> tool_call_row list" where
  \<comment> \<open>oldest first for one run, newest first without a filter\<close>
  "list_tool_call_records q run limit db =
     (case run of
        Some r \<Rightarrow> limit_rows limit (order_by q False tc_created_at (filter (\<lambda>c. tc_run_id c = r) (db_tool_calls db)))
      | None \<Rightarrow> limit_rows limit (order_by q True tc_created_at (db_tool_calls db)))"

definition is_follow :: "string \<Rightarrow> bool" where
  "is_follow s \<longleftrightarrow> s = ''FollowSharp'' \<or> s = ''follow_sharp''"

definition is_fade :: "string \<Rightarrow> bool" where
  "is_fade s \<longleftrightarrow> s = ''FadeSharp'' \<or> s = ''fade_sharp''"

definition arena_leader :: "f64 \<Rightarrow> f64 \<Rightarrow> string" where
  "arena_leader follow fade =
     (case partial_cmp follow fade of
        Some Greater \<Rightarrow> ''FOLLOW (match-intelligence)''
      | Some Less \<Rightarrow> ''FADE (contrarian)''
      | _ \<Rightarrow> ''TIE'')"

definition get_arena_score :: "sqlite \<Rightarrow> ledger \<Rightarrow> arena_score_row" where
  "get_arena_score q db =
     (let rows = db_settlements db;
          tally = (\<lambda>strat result. length (filter (\<lambda>r. strat (se_strategy r) \<and> se_result r = result) rows));
          pnl = (\<lambda>strat. sq_sum q (map (\<lambda>r. if strat (se_strategy r) then se_pnl_units r else lit 0) rows));
          (fw, fl, dw, dl, fp, dp) =
            (if rows = [] then (0, 0, 0, 0, lit 0, lit 0)
             else case (pnl is_follow, pnl is_fade) of
                 (Some f, Some d) \<Rightarrow> (tally is_follow ''win'', tally is_follow ''loss'',
                                       tally is_fade ''win'', tally is_fade ''loss'', f, d)
               | _ \<Rightarrow> (0, 0, 0, 0, lit 0, lit 0))
      in \<lparr>ar_follow_wins = fw, ar_follow_losses = fl, ar_fade_wins = dw, ar_fade_losses = dl,
          ar_follow_pnl = fp, ar_fade_pnl = dp, ar_leader = arena_leader fp dp\<rparr>)"

definition null_column :: "app_error + 'a" where
  \<comment> \<open>reading \<open>NULL\<close> into a type that is not optional\<close>
  "null_column = Inl (SqlError ''Invalid column type Null'')"

definition leaderboard_of :: "sqlite \<Rightarrow> settlement_row list \<Rightarrow> string \<times> string \<Rightarrow> app_error + leaderboard_row" where
  "leaderboard_of q rows = (\<lambda>(agent, strat).
     let mine = filter (\<lambda>r. se_agent_id r = agent \<and> se_strategy r = strat) rows;
         won_rows = filter (\<lambda>r. se_result r = ''win'') mine;
         taken = length mine; won = length won_rows
     in case sq_sum q (map se_pnl_units mine) of
          None \<Rightarrow> null_column
        | Some total_pnl \<Rightarrow>
            Inr \<lparr>le_agent_id = agent, le_strategy = strat, le_taken = taken, le_won = won,
                 le_total_pnl = total_pnl,
                 le_win_rate = (if 0 < taken then fdiv (of_int_f64 (int won)) (of_int_f64 (int taken)) else lit 0),
                 le_avg_confidence = unwrap_or (lit 0) (sq_avg q (map se_odds_at_entry won_rows))\<rparr>)"

definition list_agent_leaderboard :: "sqlite \<Rightarrow> ledger \<Rightarrow> app_error + leaderboard_row list" where
  "list_agent_leaderboard q db =
     (let rows = db_settlements db;
          groups = remdups (map (\<lambda>r. (se_agent_id r, se_strategy r)) rows);
          total = (\<lambda>(a, s). unwrap_or NaN (sq_sum q (map se_pnl_units
                     (filter (\<lambda>r. se_agent_id r = a \<and> se_strategy r = s) rows))))
      in collect_rows (map (leaderboard_of q rows) (map ((!) groups) (sq_order_real q (map total groups)))))"

section \<open>Arena sessions\<close>

fun least_str :: "string list \<Rightarrow> string" where
  "least_str [] = []"
| "least_str (x # xs) = foldl (\<lambda>a b. if str_less b a then b else a) x xs"

fun greatest_str :: "string list \<Rightarrow> string option" where
  "greatest_str [] = None"
| "greatest_str (x # xs) = Some (foldl (\<lambda>a b. if str_less b a then a else b) x xs)"

definition session_status :: "position_row list \<Rightarrow> string" where
  "session_status positions =
     (let whole = length positions;
          settled = length (filter (\<lambda>p. po_outcome_won p \<noteq> None) positions)
      in if whole = 0 \<or> settled = 0 then ''active''
         else if settled < whole then ''pending_settlement'' else ''settled'')"

definition session_name :: "sqlite \<Rightarrow> ledger \<Rightarrow> i64 \<Rightarrow> string" where
  "session_name q db fixture =
     (let named = filter (\<lambda>r. si_fixture_id r = fixture) (db_signals db)
      in if named = [] then ''Fixture '' @ show_int fixture
         else si_fixture_name (named ! (sq_any q (length named) mod length named)))"

definition session_of :: "sqlite \<Rightarrow> ledger \<Rightarrow> i64 \<Rightarrow> session_row" where
  "session_of q db fixture =
     (let positions = filter (\<lambda>p. po_fixture_id p = fixture) (list_arena_positions q None 1000 db)
      in \<lparr>ss_session_id = ''session:'' @ show_int fixture, ss_fixture_id = fixture,
          ss_fixture_name = session_name q db fixture, ss_positions = positions,
          ss_status = session_status positions,
          ss_started_at = least_str (map po_recorded_at (filter (\<lambda>p. po_fixture_id p = fixture) (db_positions db))),
          ss_ended_at = greatest_str (List.map_filter po_outcome_settled_at positions)\<rparr>)"

definition list_arena_sessions :: "sqlite \<Rightarrow> int \<Rightarrow> ledger \<Rightarrow> session_row list" where
  "list_arena_sessions q limit db =
     (let fixtures = remdups (map po_fixture_id (db_positions db));
          last_at = (\<lambda>f. unwrap_or [] (greatest_str (map po_recorded_at
                       (filter (\<lambda>p. po_fixture_id p = f) (db_positions db)))))
      in map (session_of q db) (limit_rows limit (order_by q True last_at fixtures)))"

section \<open>Simulated settlements\<close>

definition backtest_row_of :: "i64 \<Rightarrow> string \<Rightarrow> string \<Rightarrow> arena_position \<Rightarrow> position_outcome \<Rightarrow> backtest_row" where
  "backtest_row_of fixture home away p oc =
     \<lparr>bt_position_id = ap_position_id p, bt_fixture_id = fixture, bt_fixture_home = home, bt_fixture_away = away,
      bt_agent_id = ap_agent_id p, bt_strategy = debug_strategy (ap_strategy p), bt_market_key = ap_market_key p,
      bt_selection = ap_selection p, bt_direction = debug_direction (ap_direction p),
      bt_odds_at_entry = ap_odds_at_entry p, bt_odds_move_pct = ap_odds_move_pct p, bt_confidence = ap_confidence p,
      bt_result = (if oc_selection_won oc then ''win'' else ''loss''), bt_pnl_units = oc_pnl_points oc,
      bt_final_score = oc_final_score oc, bt_recorded_at = ap_recorded_at p, bt_settled_at = oc_settled_at oc\<rparr>"

definition insert_backtest_row :: "backtest_row \<Rightarrow> backtest_row list \<Rightarrow> app_error + backtest_row list" where
  "insert_backtest_row row rows =
     (if is_nan (bt_odds_at_entry row) \<or> is_nan (bt_odds_move_pct row) \<or> is_nan (bt_confidence row) \<or> is_nan (bt_pnl_units row)
      then Inl (SqlError ''NOT NULL constraint failed: backtest_settlements'')
      else if list_ex (\<lambda>r. bt_position_id r = bt_position_id row) rows
      then Inl (SqlError ''UNIQUE constraint failed: backtest_settlements.position_id'')
      else Inr (rows @ [row]))"

fun insert_positions ::
    "i64 \<Rightarrow> string \<Rightarrow> string \<Rightarrow> arena_position list \<Rightarrow> backtest_row list \<Rightarrow> app_error + backtest_row list" where
  "insert_positions fixture home away [] rows = Inr rows"
| "insert_positions fixture home away (p # ps) rows =
     (case ap_outcome p of
        None \<Rightarrow> insert_positions fixture home away ps rows
      | Some oc \<Rightarrow> res_then (insert_backtest_row (backtest_row_of fixture home away p oc) rows)
                     (insert_positions fixture home away ps))"

definition replace_backtest_settlements ::
    "i64 \<Rightarrow> string \<Rightarrow> string \<Rightarrow> arena_position list \<Rightarrow> ledger \<Rightarrow> (app_error + unit) \<times> ledger" where
  \<comment> \<open>one transaction: an error rolls back\<close>
  "replace_backtest_settlements fixture home away positions db =
     (case insert_positions fixture home away positions
             (filter (\<lambda>r. bt_fixture_id r \<noteq> fixture) (db_backtest db)) of
        Inl e \<Rightarrow> (Inl e, db)
      | Inr rows \<Rightarrow> (Inr (), db\<lparr>db_backtest := rows\<rparr>))"

definition list_backtest_settlements :: "sqlite \<Rightarrow> i64 option \<Rightarrow> ledger \<Rightarrow> backtest_row list" where
  "list_backtest_settlements q fixture db =
     order_by q False bt_recorded_at
       (case fixture of None \<Rightarrow> db_backtest db | Some f \<Rightarrow> filter (\<lambda>r. bt_fixture_id r = f) (db_backtest db))"

end
