(* ===== verification/Ledger_Facts.thy ===== *)
theory Ledger_Facts
  imports Ledger
begin

text \<open>
  Facts about the ledger: updates of a table and of its keys, ordered queries, the
  transaction that replaces a fixture's simulated history. The properties state that
  the table of runs and that of payment intents are finite maps of what is read back,
  statements that fail included, and that the replacement is atomic.
\<close>

section \<open>Tables\<close>

lemma upsert_keys:
  assumes "\<And>r. key (update r) = key r"
  shows "map key (upsert key update new rows) =
    (if key new \<in> set (map key rows) then map key rows else map key rows @ [key new])"
  using assms by (auto simp: upsert_def list_ex_iff intro: rev_image_eqI)

lemma upsert_distinct:
  assumes "\<And>r. key (update r) = key r" and "distinct (map key rows)"
  shows "distinct (map key (upsert key update new rows))"
  using assms(2) by (simp only: upsert_keys [of key, OF assms(1)]) auto

lemma find_map_update:
  assumes "\<And>r. key (update r) = key r"
  shows "find (\<lambda>r. key r = k) (map (\<lambda>r. if key r = l then update r else r) rows) =
    map_option (\<lambda>r. if k = l then update r else r) (find (\<lambda>r. key r = k) rows)"
  by (induction rows) (auto simp: assms)

lemma find_append: "find p (xs @ ys) = (case find p xs of None \<Rightarrow> find p ys | Some x \<Rightarrow> Some x)"
  by (induction xs) auto

lemma find_upsert:
  assumes "\<And>r. key (update r) = key r"
  shows "find (\<lambda>r. key r = k) (upsert key update new rows) =
    (if k = key new
     then Some (case find (\<lambda>r. key r = key new) rows of None \<Rightarrow> new | Some r \<Rightarrow> update r)
     else find (\<lambda>r. key r = k) rows)"
proof (cases "list_ex (\<lambda>r. key r = key new) rows")
  case True
  then have "find (\<lambda>r. key r = key new) rows \<noteq> None" by (auto simp: list_ex_iff find_None_iff)
  then obtain x where "find (\<lambda>r. key r = key new) rows = Some x" by auto
  then show ?thesis
    using True by (cases "find (\<lambda>r. key r = k) rows") (auto simp: upsert_def find_map_update [of key, OF assms])
next
  case False
  then have "find (\<lambda>r. key r = key new) rows = None" by (auto simp: list_ex_iff find_None_iff)
  then show ?thesis
    using False by (auto simp: upsert_def find_append split: option.splits)
qed

definition ledger_wf :: "ledger \<Rightarrow> bool" where
  \<comment> \<open>primary keys\<close>
  "ledger_wf db \<longleftrightarrow> distinct (map rr_run_id (db_runs db)) \<and> distinct (map py_reference (db_payments db))
     \<and> distinct (map ob_id (db_observations db)) \<and> distinct (map as_id (db_agent_signals db))
     \<and> distinct (map de_id (db_decisions db)) \<and> distinct (map re_id (db_receipts db))
     \<and> distinct (map ll_id (db_llm_calls db)) \<and> distinct (map bt_position_id (db_backtest db))"

lemma insert_backtest_row_Inr:
  "insert_backtest_row row rows = Inr rows' \<Longrightarrow>
     rows' = rows @ [row] \<and> bt_position_id row \<notin> set (map bt_position_id rows)"
  by (auto simp: insert_backtest_row_def list_ex_iff split: if_splits)

definition settled_rows :: "i64 \<Rightarrow> string \<Rightarrow> string \<Rightarrow> arena_position list \<Rightarrow> backtest_row list" where
  "settled_rows fixture home away positions =
     List.map_filter (\<lambda>p. map_option (backtest_row_of fixture home away p) (ap_outcome p)) positions"

lemma res_then_Inr: "res_then x f = Inr y \<longleftrightarrow> (\<exists>z. x = Inr z \<and> f z = Inr y)"
  by (cases x) auto

lemma settled_rows_simps [simp]:
  "settled_rows fixture home away [] = []"
  "settled_rows fixture home away (p # ps) =
     (case ap_outcome p of None \<Rightarrow> settled_rows fixture home away ps
      | Some oc \<Rightarrow> backtest_row_of fixture home away p oc # settled_rows fixture home away ps)"
  by (auto simp: settled_rows_def List.map_filter_simps split: option.splits)

lemma insert_positions_Inr:
  "insert_positions fixture home away ps rows = Inr rows' \<Longrightarrow> rows' = rows @ settled_rows fixture home away ps"
proof (induction ps arbitrary: rows)
  case (Cons p ps)
  show ?case
  proof (cases "ap_outcome p")
    case (Some oc)
    then obtain z where "insert_backtest_row (backtest_row_of fixture home away p oc) rows = Inr z"
      "insert_positions fixture home away ps z = Inr rows'"
      using Cons.prems by (auto simp: res_then_Inr)
    then show ?thesis using Cons.IH [of z] Some insert_backtest_row_Inr by fastforce
  qed (use Cons in simp)
qed simp

lemma insert_positions_distinct:
  "insert_positions fixture home away ps rows = Inr rows' \<Longrightarrow> distinct (map bt_position_id rows) \<Longrightarrow>
     distinct (map bt_position_id rows')"
proof (induction ps arbitrary: rows)
  case (Cons p ps)
  show ?case
  proof (cases "ap_outcome p")
    case (Some oc)
    then obtain z where z: "insert_backtest_row (backtest_row_of fixture home away p oc) rows = Inr z"
      "insert_positions fixture home away ps z = Inr rows'"
      using Cons.prems by (auto simp: res_then_Inr)
    then have "distinct (map bt_position_id z)" using insert_backtest_row_Inr [OF z(1)] Cons.prems(2) by simp
    then show ?thesis using Cons.IH [OF z(2)] by simp
  qed (use Cons in simp)
qed simp

lemma settled_rows_fixture: "r \<in> set (settled_rows fixture home away ps) \<Longrightarrow> bt_fixture_id r = fixture"
  by (auto simp: settled_rows_def map_filter_def backtest_row_of_def)

lemma replace_backtest_cases:
  assumes "replace_backtest_settlements fixture home away ps db = (r, db')"
  shows "(\<exists>e. r = Inl e \<and> db' = db) \<or>
    (r = Inr () \<and> db' = db\<lparr>db_backtest := filter (\<lambda>x. bt_fixture_id x \<noteq> fixture) (db_backtest db)
                            @ settled_rows fixture home away ps\<rparr>)"
  using assms insert_positions_Inr
  by (fastforce simp: replace_backtest_settlements_def split: sum.splits)

lemma wf_tables:
  assumes "ledger_wf db"
  shows "distinct (map rr_run_id t1) \<Longrightarrow> ledger_wf (db\<lparr>db_runs := t1\<rparr>)"
    and "distinct (map py_reference t2) \<Longrightarrow> ledger_wf (db\<lparr>db_payments := t2\<rparr>)"
    and "distinct (map ob_id t3) \<Longrightarrow> ledger_wf (db\<lparr>db_observations := t3\<rparr>)"
    and "distinct (map as_id t4) \<Longrightarrow> ledger_wf (db\<lparr>db_agent_signals := t4\<rparr>)"
    and "distinct (map de_id t5) \<Longrightarrow> ledger_wf (db\<lparr>db_decisions := t5\<rparr>)"
    and "distinct (map re_id t6) \<Longrightarrow> ledger_wf (db\<lparr>db_receipts := t6\<rparr>)"
    and "distinct (map ll_id t7) \<Longrightarrow> ledger_wf (db\<lparr>db_llm_calls := t7\<rparr>)"
    and "distinct (map bt_position_id t8) \<Longrightarrow> ledger_wf (db\<lparr>db_backtest := t8\<rparr>)"
  using assms by (simp_all add: ledger_wf_def)

lemma writes_keep_wf:
  assumes "ledger_wf db"
  shows "ledger_wf (snd (upsert_run cd fault now run db))"
    and "ledger_wf (snd (upsert_payment_intent cd fault now i db))"
    and "ledger_wf (snd (insert_agent_observation cd rid ev db))"
    and "ledger_wf (snd (insert_agent_signal cd rid s db))"
    and "ledger_wf (snd (insert_agent_decision cd rid d db))"
    and "ledger_wf (snd (insert_proof_receipt cd now rid p db))"
proof -
  have d: "distinct (map rr_run_id (db_runs db))" "distinct (map py_reference (db_payments db))"
    "distinct (map ob_id (db_observations db))" "distinct (map as_id (db_agent_signals db))"
    "distinct (map de_id (db_decisions db))" "distinct (map re_id (db_receipts db))"
    using assms by (simp_all add: ledger_wf_def)
  show "ledger_wf (snd (upsert_run cd fault now run db))"
    using assms d by (auto simp: upsert_run_def exec_stmt_def Let_def intro!: wf_tables upsert_distinct split: sum.split option.split)
  show "ledger_wf (snd (upsert_payment_intent cd fault now i db))"
    using assms d by (auto simp: upsert_payment_intent_def exec_stmt_def Let_def intro!: wf_tables upsert_distinct split: sum.split option.split)
  show "ledger_wf (snd (insert_agent_observation cd rid ev db))"
    using assms d by (auto simp: insert_agent_observation_def Let_def intro!: wf_tables upsert_distinct split: sum.split)
  show "ledger_wf (snd (insert_agent_signal cd rid s db))"
    using assms d by (auto simp: insert_agent_signal_def Let_def intro!: wf_tables upsert_distinct split: sum.split)
  show "ledger_wf (snd (insert_agent_decision cd rid d db))"
    using assms d by (auto simp: insert_agent_decision_def Let_def intro!: wf_tables upsert_distinct split: sum.split)
  show "ledger_wf (snd (insert_proof_receipt cd now rid p db))"
    using assms d by (auto simp: insert_proof_receipt_def Let_def intro!: wf_tables upsert_distinct split: sum.split)
qed

lemma llm_keeps_wf: "ledger_wf db \<Longrightarrow> ledger_wf (snd (insert_llm_call cd now uuid rid l db))"
  by (auto simp: insert_llm_call_def ledger_wf_def Let_def list_ex_iff split: sum.splits if_splits)

lemma distinct_filter_keys: "distinct (map f xs) \<Longrightarrow> distinct (map f (filter p xs))"
  by (induction xs) auto

lemma replace_keeps_wf:
  assumes "ledger_wf db" shows "ledger_wf (snd (replace_backtest_settlements fixture home away ps db))"
proof (cases "insert_positions fixture home away ps (filter (\<lambda>r. bt_fixture_id r \<noteq> fixture) (db_backtest db))")
  case (Inl e)
  then show ?thesis using assms by (simp add: replace_backtest_settlements_def)
next
  case (Inr rows)
  have "distinct (map bt_position_id rows)"
    using insert_positions_distinct [OF Inr] assms by (simp add: ledger_wf_def distinct_filter_keys)
  then show ?thesis using assms Inr by (simp add: replace_backtest_settlements_def ledger_wf_def)
qed

section \<open>Ordered queries\<close>

lemma sqlite_ok_order:
  assumes "sqlite_ok q"
  shows "permutes (sq_order q d ks) (length ks)"
    and "sorted_wrt (\<lambda>a b. if d then key_le b a else key_le a b) (map ((!) ks) (sq_order q d ks))"
  using assms unfolding sqlite_ok_def by blast+

lemma order_by_permutation:
  assumes "sqlite_ok q"
  shows "length (order_by q d key rows) = length rows" and "set (order_by q d key rows) = set rows"
    and "sorted_wrt (\<lambda>a b. if d then key_le (key b) (key a) else key_le (key a) (key b)) (order_by q d key rows)"
proof -
  let ?ps = "sq_order q d (map key rows)"
  have p: "permutes ?ps (length rows)"
    "sorted_wrt (\<lambda>a b. if d then key_le b a else key_le a b) (map ((!) (map key rows)) ?ps)"
    using sqlite_ok_order [OF assms, of d "map key rows"] by simp_all
  then have d: "distinct ?ps" "set ?ps = {..<length rows}" by (auto simp: permutes_def)
  have "card (set ?ps) = length rows" using d(2) by simp
  then show "length (order_by q d key rows) = length rows"
    using distinct_card [OF d(1)] by (simp add: order_by_def)
  show "set (order_by q d key rows) = set rows"
    by (simp add: order_by_def d(2)) (auto simp: image_iff in_set_conv_nth)
  have m: "map ((!) (map key rows)) ?ps = map key (order_by q d key rows)"
    using d(2) by (auto simp: order_by_def)
  show "sorted_wrt (\<lambda>a b. if d then key_le (key b) (key a) else key_le (key a) (key b)) (order_by q d key rows)"
    using p(2) unfolding m by (simp add: sorted_wrt_map)
qed

lemma collect_rows_Inr:
  "collect_rows (map f xs) = Inr ys \<longleftrightarrow> length ys = length xs \<and> (\<forall>i < length xs. f (xs ! i) = Inr (ys ! i))"
proof (induction xs arbitrary: ys)
  case (Cons x xs)
  show ?case
    by (cases ys) (auto simp: res_then_Inr Cons.IH All_less_Suc2)
qed auto

lemma sorted_take_drop: "sorted_wrt R xs \<Longrightarrow> x \<in> set (take n xs) \<Longrightarrow> y \<in> set (drop n xs) \<Longrightarrow> R x y"
  by (metis append_take_drop_id sorted_wrt_append)

text \<open>The history shows the newest hundred runs, newest first.\<close>

lemma history_newest:
  assumes "sqlite_ok q" and "list_runs q cd db = Inr runs"
  obtains rows older where "set (db_runs db) = set rows \<union> set older"
    and "length rows = min 100 (length (db_runs db))"
    and "map (\<lambda>r. cd_read_run cd (rr_run_json r)) rows = map Inr runs"
    and "sorted_wrt (\<lambda>a b. key_le (rr_created_at b) (rr_created_at a)) rows"
    and "\<forall>r \<in> set rows. \<forall>s \<in> set older. key_le (rr_created_at s) (rr_created_at r)"
proof -
  let ?all = "order_by q True rr_created_at (db_runs db)"
  note o = order_by_permutation [OF assms(1), of True rr_created_at "db_runs db"]
  have srt: "sorted_wrt (\<lambda>a b. key_le (rr_created_at b) (rr_created_at a)) ?all" using o(3) by simp
  have rows: "length runs = length (take 100 ?all)
      \<and> (\<forall>i < length (take 100 ?all). cd_read_run cd (rr_run_json (take 100 ?all ! i)) = Inr (runs ! i))"
    using assms(2) collect_rows_Inr [of "\<lambda>r. cd_read_run cd (rr_run_json r)" "take 100 ?all" runs]
    by (simp add: list_runs_def limit_rows_def)
  show thesis
  proof (rule that [of "take 100 ?all" "drop 100 ?all"])
    show "set (db_runs db) = set (take 100 ?all) \<union> set (drop 100 ?all)"
      using o(2) by (metis append_take_drop_id set_append)
    show "length (take 100 ?all) = min 100 (length (db_runs db))" using o(1) by simp
    show "map (\<lambda>r. cd_read_run cd (rr_run_json r)) (take 100 ?all) = map Inr runs"
      using rows by (intro nth_equalityI) simp_all
    show "sorted_wrt (\<lambda>a b. key_le (rr_created_at b) (rr_created_at a)) (take 100 ?all)"
      using srt by (metis append_take_drop_id sorted_wrt_append)
    show "\<forall>r \<in> set (take 100 ?all). \<forall>s \<in> set (drop 100 ?all). key_le (rr_created_at s) (rr_created_at r)"
      using sorted_take_drop [OF srt] by blast
  qed
qed

text \<open>
  A session only sees the newest thousand positions of all fixtures: a settled fixture whose
  positions are older is shown as active, without positions and without an end.
\<close>

lemma session_outside_window:
  assumes "\<forall>p \<in> set (list_arena_positions q None 1000 db). po_fixture_id p \<noteq> f"
  shows "ss_positions (session_of q db f) = []" and "ss_status (session_of q db f) = ''active''"
    and "ss_ended_at (session_of q db f) = None"
proof -
  have "filter (\<lambda>p. po_fixture_id p = f) (list_arena_positions q None 1000 db) = []"
    using assms by (simp add: filter_empty_conv)
  then show "ss_positions (session_of q db f) = []" "ss_status (session_of q db f) = ''active''"
    "ss_ended_at (session_of q db f) = None"
    by (simp_all add: session_of_def Let_def session_status_def List.map_filter_simps)
qed

section \<open>A table as a finite map\<close>

text \<open>
  What the commands rely on: an operation that stores a value, or refuses it and changes nothing,
  and one that looks a value up by its key. The lemma is about any sequence of calls.
\<close>

definition store_all :: "('i \<Rightarrow> 'd \<Rightarrow> (app_error + unit) \<times> 'd) \<Rightarrow> 'i list \<Rightarrow> 'd \<Rightarrow> 'd" where
  "store_all put xs d = fold (\<lambda>x d. snd (put x d)) xs d"

locale keyed_table =
  fixes put :: "'i \<Rightarrow> 'd \<Rightarrow> (app_error + unit) \<times> 'd"
    and get :: "'k \<Rightarrow> 'd \<Rightarrow> 'v" and key :: "'i \<Rightarrow> 'k" and accepts :: "'i \<Rightarrow> bool" and view :: "'i \<Rightarrow> 'v"
  assumes answer: "isl (fst (put x d)) \<longleftrightarrow> \<not> accepts x"
    and refused: "\<not> accepts x \<Longrightarrow> snd (put x d) = d"
    and lookup: "accepts x \<Longrightarrow> get k (snd (put x d)) = (if k = key x then view x else get k d)"
begin

lemma store_all_get:
  "get k (store_all put xs d) =
     (case find (\<lambda>x. accepts x \<and> key x = k) (rev xs) of None \<Rightarrow> get k d | Some x \<Rightarrow> view x)"
proof (induction xs rule: rev_induct)
  case (snoc x xs)
  show ?case
  proof (cases "accepts x")
    case True
    then show ?thesis using snoc by (auto simp: store_all_def lookup)
  next
    case False
    then show ?thesis using snoc by (simp add: store_all_def refused)
  qed
qed (simp add: store_all_def)

end

text \<open>A table of a larger state: every write keeps an invariant and what lies outside the table.\<close>

locale framed_table = keyed_table put get key accepts view
  for put :: "'i \<Rightarrow> 'd \<Rightarrow> (app_error + unit) \<times> 'd" and get :: "'k \<Rightarrow> 'd \<Rightarrow> 'v" and key accepts view +
  fixes ok :: "'d \<Rightarrow> bool" and outside :: "'d \<Rightarrow> 'o"
  assumes keeps: "ok d \<Longrightarrow> ok (snd (put x d))" and outside: "outside (snd (put x d)) = outside d"
begin

lemma store_all_keeps: "ok d \<Longrightarrow> ok (store_all put xs d) \<and> outside (store_all put xs d) = outside d"
  by (induction xs rule: rev_induct) (simp_all add: store_all_def keeps outside)

end

lemma store_all_invariant:
  "(\<And>x d. I d \<Longrightarrow> I (snd (put x d))) \<Longrightarrow> I d \<Longrightarrow> I (store_all put xs d)"
  by (induction xs rule: rev_induct) (simp_all add: store_all_def)

definition run_stored :: "ledger_codec \<Rightarrow> string option \<Rightarrow> agent_run \<Rightarrow> bool" where
  "run_stored cd fault run \<longleftrightarrow> \<not> isl (cd_event cd (run_trigger run)) \<and> \<not> isl (cd_run cd run) \<and> fault = None"

definition intent_stored :: "ledger_codec \<Rightarrow> string option \<Rightarrow> pay_intent \<Rightarrow> bool" where
  "intent_stored cd fault i \<longleftrightarrow> \<not> isl (cd_intent cd i) \<and> fault = None"

lemma upsert_run_refused:
  "\<not> run_stored cd fault run \<Longrightarrow>
     isl (fst (upsert_run cd fault now run db)) \<and> snd (upsert_run cd fault now run db) = db"
  by (cases "cd_event cd (run_trigger run)"; cases "cd_run cd run")
    (auto simp: run_stored_def upsert_run_def exec_stmt_def Let_def)

lemma upsert_run_done:
  assumes "run_stored cd fault run"
  shows "fst (upsert_run cd fault now run db) = Inr ()"
    and "get_run cd rid (snd (upsert_run cd fault now run db)) =
      (if rid = run_id run then res_then (cd_run cd run) (cd_read_run cd) else get_run cd rid db)"
    and "snd (upsert_run cd fault now run db) = db\<lparr>db_runs := db_runs (snd (upsert_run cd fault now run db))\<rparr>"
  using assms
  by (cases "cd_event cd (run_trigger run)"; cases "cd_run cd run";
      simp add: run_stored_def upsert_run_def exec_stmt_def get_run_def Let_def find_upsert [of rr_run_id] split: option.split)+

lemma upsert_intent_done:
  assumes "intent_stored cd fault i"
  shows "fst (upsert_payment_intent cd fault now i db) = Inr ()"
    and "get_payment_intent_by_reference cd ref (snd (upsert_payment_intent cd fault now i db)) =
      (if ref = sp_reference i then res_then (cd_intent cd i) (cd_read_intent cd) else get_payment_intent_by_reference cd ref db)"
    and "snd (upsert_payment_intent cd fault now i db) =
      db\<lparr>db_payments := db_payments (snd (upsert_payment_intent cd fault now i db))\<rparr>"
  using assms
  by (cases "cd_intent cd i"; simp add: intent_stored_def upsert_payment_intent_def exec_stmt_def
      get_payment_intent_by_reference_def Let_def find_upsert [of py_reference] split: option.split)+

lemma upsert_intent_refused:
  "\<not> intent_stored cd fault i \<Longrightarrow>
     isl (fst (upsert_payment_intent cd fault now i db)) \<and> snd (upsert_payment_intent cd fault now i db) = db"
  by (cases "cd_intent cd i") (auto simp: intent_stored_def upsert_payment_intent_def exec_stmt_def Let_def)

interpretation runs: framed_table "\<lambda>(fault, now, run). upsert_run cd fault now run" "get_run cd"
  "\<lambda>(fault, now, run). run_id run" "\<lambda>(fault, now, run). run_stored cd fault run"
  "\<lambda>(fault, now, run). res_then (cd_run cd run) (cd_read_run cd)" ledger_wf "\<lambda>db. db\<lparr>db_runs := []\<rparr>"
  for cd
proof (unfold_locales, goal_cases)
  case (1 x d)
  then show ?case
    by (cases x; cases "run_stored cd (fst x) (snd (snd x))") (simp_all add: upsert_run_refused upsert_run_done(1))
next
  case (2 x d)
  then show ?case by (cases x) (simp add: upsert_run_refused)
next
  case (3 x k d)
  then show ?case by (cases x) (simp add: upsert_run_done(2))
next
  case (4 d x)
  then show ?case by (cases x) (simp add: writes_keep_wf)
next
  case (5 x d)
  then show ?case
    by (cases x; cases "run_stored cd (fst x) (snd (snd x))")
      (simp_all add: upsert_run_refused, subst upsert_run_done(3), simp_all)
qed

interpretation intents: framed_table "\<lambda>(fault, now, i). upsert_payment_intent cd fault now i"
  "get_payment_intent_by_reference cd" "\<lambda>(fault, now, i). sp_reference i" "\<lambda>(fault, now, i). intent_stored cd fault i"
  "\<lambda>(fault, now, i). res_then (cd_intent cd i) (cd_read_intent cd)" ledger_wf "\<lambda>db. db\<lparr>db_payments := []\<rparr>"
  for cd
proof (unfold_locales, goal_cases)
  case (1 x d)
  then show ?case
    by (cases x; cases "intent_stored cd (fst x) (snd (snd x))") (simp_all add: upsert_intent_refused upsert_intent_done(1))
next
  case (2 x d)
  then show ?case by (cases x) (simp add: upsert_intent_refused)
next
  case (3 x k d)
  then show ?case by (cases x) (simp add: upsert_intent_done(2))
next
  case (4 d x)
  then show ?case by (cases x) (simp add: writes_keep_wf)
next
  case (5 x d)
  then show ?case
    by (cases x; cases "intent_stored cd (fst x) (snd (snd x))")
      (simp_all add: upsert_intent_refused, subst upsert_intent_done(3), simp_all)
qed

text \<open>What an update of a row leaves alone.\<close>

definition run_created :: "string \<Rightarrow> ledger \<Rightarrow> string option" where
  "run_created rid db = map_option rr_created_at (find (\<lambda>r. rr_run_id r = rid) (db_runs db))"

definition intent_opened :: "string \<Rightarrow> ledger \<Rightarrow> (string \<times> string) option" where
  "intent_opened ref db =
     map_option (\<lambda>r. (py_run_id r, py_created_at r)) (find (\<lambda>r. py_reference r = ref) (db_payments db))"

lemma run_created_kept:
  assumes "run_created rid db = Some t"
  shows "run_created rid (store_all (\<lambda>(fault, now, run). upsert_run cd fault now run) xs db) = Some t"
proof (rule store_all_invariant [where I = "\<lambda>db. run_created rid db = Some t", OF _ assms])
  fix x :: "string option \<times> string \<times> agent_run" and d
  obtain fault now run where x: "x = (fault, now, run)" by (cases x) auto
  assume "run_created rid d = Some t"
  then have "run_created rid (snd (upsert_run cd fault now run d)) = Some t"
    by (cases "cd_event cd (run_trigger run)"; cases "cd_run cd run"; cases fault)
      (auto simp: run_created_def upsert_run_def exec_stmt_def Let_def find_upsert [of rr_run_id])
  then show "run_created rid (snd ((\<lambda>(fault, now, run). upsert_run cd fault now run) x d)) = Some t"
    unfolding x by simp
qed

lemma intent_opened_kept:
  assumes "intent_opened ref db = Some t"
  shows "intent_opened ref (store_all (\<lambda>(fault, now, i). upsert_payment_intent cd fault now i) xs db) = Some t"
proof (rule store_all_invariant [where I = "\<lambda>db. intent_opened ref db = Some t", OF _ assms])
  fix x :: "string option \<times> string \<times> pay_intent" and d
  obtain fault now i where x: "x = (fault, now, i)" by (cases x) auto
  assume "intent_opened ref d = Some t"
  then have "intent_opened ref (snd (upsert_payment_intent cd fault now i d)) = Some t"
    by (cases "cd_intent cd i"; cases fault)
      (auto simp: intent_opened_def upsert_payment_intent_def exec_stmt_def Let_def find_upsert [of py_reference])
  then show "intent_opened ref (snd ((\<lambda>(fault, now, i). upsert_payment_intent cd fault now i) x d)) = Some t"
    unfolding x by simp
qed

lemma run_found:
  "get_run cd rid (store_all (\<lambda>(fault, now, run). upsert_run cd fault now run) stored db) =
    (case find (\<lambda>(fault, now, run). run_stored cd fault run \<and> run_id run = rid) (rev stored) of
       None \<Rightarrow> get_run cd rid db | Some (fault, now, run) \<Rightarrow> res_then (cd_run cd run) (cd_read_run cd))"
proof -
  have eq: "(\<lambda>x. (case x of (fault, now, run) \<Rightarrow> run_stored cd fault run) \<and> (case x of (fault, now, run) \<Rightarrow> run_id run) = rid) =
      (\<lambda>(fault, now, run). run_stored cd fault run \<and> run_id run = rid)"
    by (simp add: fun_eq_iff)
  show ?thesis unfolding runs.store_all_get eq by (simp add: case_prod_unfold)
qed

lemma intent_found:
  "get_payment_intent_by_reference cd ref (store_all (\<lambda>(fault, now, i). upsert_payment_intent cd fault now i) paid db) =
    (case find (\<lambda>(fault, now, i). intent_stored cd fault i \<and> sp_reference i = ref) (rev paid) of
       None \<Rightarrow> get_payment_intent_by_reference cd ref db
     | Some (fault, now, i) \<Rightarrow> res_then (cd_intent cd i) (cd_read_intent cd))"
proof -
  have eq: "(\<lambda>x. (case x of (fault, now, i) \<Rightarrow> intent_stored cd fault i) \<and> (case x of (fault, now, i) \<Rightarrow> sp_reference i) = ref) =
      (\<lambda>(fault, now, i). intent_stored cd fault i \<and> sp_reference i = ref)"
    by (simp add: fun_eq_iff)
  show ?thesis unfolding intents.store_all_get eq by (simp add: case_prod_unfold)
qed

section \<open>Properties\<close>

text \<open>
  C27: the tables of runs and of payment intents are finite maps. After any sequence of stores a run is
  looked up as what the JSON of the last one of its identifier reads back as (a value or an error: nothing
  is assumed of the codec), last among those whose JSON could be written and whose statement was executed;
  where there is none, the ledger answers as before. A store that fails, in the codec or in SQLite, says so
  and changes nothing, every store keeps the primary keys unique and the other tables as they are, and a
  row that exists keeps its time of creation. The same holds of the intents under their reference, which
  keep their run as well.
\<close>
theorem ledger_refines_maps:
  assumes "ledger_wf db"
  shows "(let db' = store_all (\<lambda>(fault, now, run). upsert_run cd fault now run) stored db
          in ledger_wf db' \<and> db'\<lparr>db_runs := []\<rparr> = db\<lparr>db_runs := []\<rparr>
           \<and> get_run cd rid db' =
               (case find (\<lambda>(fault, now, run). run_stored cd fault run \<and> run_id run = rid) (rev stored) of
                  None \<Rightarrow> get_run cd rid db
                | Some (fault, now, run) \<Rightarrow> res_then (cd_run cd run) (cd_read_run cd))
           \<and> (\<forall>t. run_created rid db = Some t \<longrightarrow> run_created rid db' = Some t))
       \<and> (let db' = store_all (\<lambda>(fault, now, i). upsert_payment_intent cd fault now i) paid db
          in ledger_wf db' \<and> db'\<lparr>db_payments := []\<rparr> = db\<lparr>db_payments := []\<rparr>
           \<and> get_payment_intent_by_reference cd ref db' =
               (case find (\<lambda>(fault, now, i). intent_stored cd fault i \<and> sp_reference i = ref) (rev paid) of
                  None \<Rightarrow> get_payment_intent_by_reference cd ref db
                | Some (fault, now, i) \<Rightarrow> res_then (cd_intent cd i) (cd_read_intent cd))
           \<and> (\<forall>t. intent_opened ref db = Some t \<longrightarrow> intent_opened ref db' = Some t))
       \<and> (case upsert_run cd fault now run db of
            (r, db') \<Rightarrow> if run_stored cd fault run then r = Inr () else isl r \<and> db' = db)
       \<and> (case upsert_payment_intent cd fault now i db of
            (r, db') \<Rightarrow> if intent_stored cd fault i then r = Inr () else isl r \<and> db' = db)"
proof (intro conjI)
  show "case upsert_run cd fault now run db of
      (r, db') \<Rightarrow> if run_stored cd fault run then r = Inr () else isl r \<and> db' = db"
    using upsert_run_done(1) [of cd fault run now db] upsert_run_refused [of cd fault run now db]
    by (auto split: prod.splits)
  show "case upsert_payment_intent cd fault now i db of
      (r, db') \<Rightarrow> if intent_stored cd fault i then r = Inr () else isl r \<and> db' = db"
    using upsert_intent_done(1) [of cd fault i now db] upsert_intent_refused [of cd fault i now db]
    by (auto split: prod.splits)
qed (simp_all only: Let_def runs.store_all_keeps [OF assms(1)] run_found
      intents.store_all_keeps [OF assms(1)] intent_found simp_thms,
    (intro allI impI run_created_kept intent_opened_kept; assumption)+)

text \<open>
  C28: replacing the simulated history of a fixture is all or nothing. On an error the ledger is as it
  was; otherwise the rows of the fixture are exactly those of the settled positions, in their order,
  the rows of every other fixture and every other table stay, the keys are unique, and doing it again
  changes nothing.
\<close>
theorem backtest_replace_atomic:
  assumes "ledger_wf db"
  shows "case replace_backtest_settlements fixture home away ps db of
           (Inl e, db') \<Rightarrow> db' = db
         | (Inr _, db') \<Rightarrow> ledger_wf db'
             \<and> filter (\<lambda>r. bt_fixture_id r = fixture) (db_backtest db') =
                 List.map_filter (\<lambda>p. map_option (backtest_row_of fixture home away p) (ap_outcome p)) ps
             \<and> filter (\<lambda>r. bt_fixture_id r \<noteq> fixture) (db_backtest db') =
                 filter (\<lambda>r. bt_fixture_id r \<noteq> fixture) (db_backtest db)
             \<and> db' = db\<lparr>db_backtest := db_backtest db'\<rparr>
             \<and> replace_backtest_settlements fixture home away ps db' = (Inr (), db')"
proof (cases "insert_positions fixture home away ps (filter (\<lambda>r. bt_fixture_id r \<noteq> fixture) (db_backtest db))")
  case (Inl e)
  then show ?thesis by (simp add: replace_backtest_settlements_def)
next
  case (Inr rows)
  let ?others = "filter (\<lambda>r. bt_fixture_id r \<noteq> fixture) (db_backtest db)"
  let ?db = "db\<lparr>db_backtest := rows\<rparr>"
  have r: "replace_backtest_settlements fixture home away ps db = (Inr (), ?db)"
    using Inr by (simp add: replace_backtest_settlements_def)
  have rows: "rows = ?others @ settled_rows fixture home away ps" by (rule insert_positions_Inr [OF Inr])
  have f: "filter (\<lambda>r. bt_fixture_id r = fixture) rows = settled_rows fixture home away ps"
    "filter (\<lambda>r. bt_fixture_id r \<noteq> fixture) rows = ?others"
    using settled_rows_fixture unfolding rows by (auto simp: filter_empty_conv filter_id_conv)
  have "ledger_wf ?db" using replace_keeps_wf [OF assms, of fixture home away ps] r by simp
  then show ?thesis using r f Inr by (simp add: replace_backtest_settlements_def settled_rows_def)
qed


section \<open>Witnesses\<close>

definition blank_event :: txline_event where
  "blank_event = \<lparr>ev_id = ''e'', ev_kind = ScoreUpdate, ev_fixture_id = 7, ev_seq = None, ev_txline_ts = None,
     ev_action = None, ev_confirmed = None, ev_participant = None, ev_period = None, ev_stat_keys = [],
     ev_schema_family = None, ev_title = [], ev_body = [], ev_ts = [], ev_raw = None, ev_odds = None,
     ev_score = None, ev_proof = None\<rparr>"

definition blank_run :: agent_run where
  "blank_run = \<lparr>run_id = ''r1'', run_track = Settlement, run_trigger = blank_event, run_bids = [],
     run_winner = None, run_delivery = None, run_verdict = None, run_settlement = None, run_timeline = []\<rparr>"

definition blank_intent :: pay_intent where
  "blank_intent = \<lparr>sp_reference = ''ref'', sp_run_id = ''r1'', sp_recipient = ''wallet'', sp_amount_sol = lit 1,
     sp_spl_token = None, sp_label = None, sp_memo = None, sp_status = PayPending, sp_created_at = ''t''\<rparr>"

text \<open>
  A codec for one run and one intent. It writes another run too, whose text does not read back,
  as \<open>serde_json\<close> does with a run that holds a number that is not a number.
\<close>

definition one_run_codec :: ledger_codec where
  "one_run_codec = \<lparr>cd_event = (\<lambda>_. Inr ''event''),
      cd_run = (\<lambda>r. if r = blank_run then Inr ''run'' else Inr ''null''),
      cd_read_run = (\<lambda>j. if j = ''run'' then Inr blank_run else Inl (JsonError ''invalid type: null'')),
      cd_intent = (\<lambda>p. if p = blank_intent then Inr ''pay'' else Inl (JsonError ''unknown'')),
      cd_read_intent = (\<lambda>j. if j = ''pay'' then Inr blank_intent else Inl (JsonError ''unknown'')),
      cd_signal = (\<lambda>_. Inl (JsonError ''unknown'')), cd_decision = (\<lambda>_. Inl (JsonError ''unknown'')), cd_receipt = (\<lambda>_. Inl (JsonError ''unknown'')), cd_llm = (\<lambda>_. Inl (JsonError ''unknown''))\<rparr>"

lemma empty_ledger_wf: "ledger_wf empty_ledger"
  by (simp add: ledger_wf_def empty_ledger_def)

text \<open>A store that finds the database busy leaves the run before it; one whose text is unreadable hides it.\<close>

theorem ledger_refines_maps_witness:
  "get_run one_run_codec ''r1'' (store_all (\<lambda>(fault, now, run). upsert_run one_run_codec fault now run)
      [(None, ''1'', blank_run), (Some ''database is locked'', ''2'', blank_run\<lparr>run_track := Fan\<rparr>)] empty_ledger) = Inr blank_run
   \<and> get_run one_run_codec ''r1'' (store_all (\<lambda>(fault, now, run). upsert_run one_run_codec fault now run)
      [(None, ''1'', blank_run), (None, ''2'', blank_run\<lparr>run_track := Fan\<rparr>)] empty_ledger) = Inl (JsonError ''invalid type: null'')
   \<and> get_payment_intent_by_reference one_run_codec ''ref''
       (store_all (\<lambda>(fault, now, i). upsert_payment_intent one_run_codec fault now i) [(None, ''1'', blank_intent)] empty_ledger)
      = Inr blank_intent"
proof -
  have i: "run_id blank_run = ''r1''" "sp_reference blank_intent = ''ref''" "blank_run\<lparr>run_track := Fan\<rparr> \<noteq> blank_run"
    by (simp_all add: blank_run_def blank_intent_def)
  note map = ledger_refines_maps [OF empty_ledger_wf, of one_run_codec _ "''r1''" "[(None, ''1'', blank_intent)]" "''ref''", unfolded Let_def]
  show ?thesis
    using map [of "[(None, ''1'', blank_run), (Some ''database is locked'', ''2'', blank_run\<lparr>run_track := Fan\<rparr>)]"]
      map [of "[(None, ''1'', blank_run), (None, ''2'', blank_run\<lparr>run_track := Fan\<rparr>)]"] i
    by (simp add: run_stored_def intent_stored_def one_run_codec_def)
qed

definition blank_position :: "string \<Rightarrow> position_outcome option \<Rightarrow> arena_position" where
  "blank_position i oc = \<lparr>ap_position_id = i, ap_agent_id = ''a'', ap_strategy = FollowSharp, ap_fixture_id = 7,
     ap_market_key = ''1x2'', ap_selection = ''home'', ap_odds_at_entry = lit 2, ap_odds_move_pct = lit 5,
     ap_direction = With, ap_confidence = lit 1, ap_recorded_at = ''t'', ap_tx_signature = None, ap_outcome = oc\<rparr>"

definition won_outcome :: position_outcome where
  "won_outcome = \<lparr>oc_selection_won = True, oc_final_score = ''1-0'', oc_pnl_points = lit 1,
     oc_settled_at = ''t'', oc_settlement_tx = None\<rparr>"

theorem backtest_replace_atomic_witness:
  "let (r, db) = replace_backtest_settlements 7 ''H'' ''A''
                   [blank_position ''p1'' (Some won_outcome), blank_position ''p2'' None] empty_ledger
   in r = Inr () \<and> length (filter (\<lambda>x. bt_fixture_id x = 7) (db_backtest db)) = 1
      \<and> replace_backtest_settlements 7 ''H'' ''A''
          [blank_position ''p1'' (Some won_outcome), blank_position ''p2'' None] db = (Inr (), db)"
proof -
  let ?ps = "[blank_position ''p1'' (Some won_outcome), blank_position ''p2'' None]"
  have n: "\<not> is_nan (lit q)" for q by (simp add: lit_def of_q_def Let_def)
  have "fst (replace_backtest_settlements 7 ''H'' ''A'' ?ps empty_ledger) = Inr ()"
    using n by (simp add: replace_backtest_settlements_def empty_ledger_def blank_position_def won_outcome_def
        insert_backtest_row_def backtest_row_of_def)
  then show ?thesis
    using backtest_replace_atomic [OF empty_ledger_wf, of 7 "''H''" "''A''" ?ps]
    by (simp add: blank_position_def List.map_filter_simps split: prod.splits sum.splits)
qed

end
