(* ===== verification/Fundamentals.thy ===== *)
theory Fundamentals
  imports Json_Value Wager_Math
begin

text \<open>
  The match fundamentals model (\<open>agent-core/src/fundamentals.rs\<close>): recent form,
  expected goals, ranks, injuries and the head-to-head record of a fixture become a
  1X2 distribution by a softmax with a draw prior.

  \<open>exp\<close>, \<open>ln\<close> and \<open>tanh\<close> come from the platform's mathematics library, whose last bits
  Rust leaves open: they are the record \<open>libm\<close>, an argument of the model, and \<open>libm_ok\<close>
  states what is relied on (exact values at zero, ranges, not-a-number passed on). The
  lemmas show that the result is a distribution (every entry between 0 and 1, the sum
  within \<open>2^-50\<close> of 1) for bounded inputs, and that removing the bookmaker's margin from
  quoted odds gives probabilities of the same quality.
\<close>

section \<open>Configuration, statistics, distribution\<close>

record libm =
  lm_exp :: "f64 \<Rightarrow> f64"
  lm_ln :: "f64 \<Rightarrow> f64"
  lm_tanh :: "f64 \<Rightarrow> f64"

record fundamentals_config =
  fc_temperature :: f64
  fc_draw_prior :: f64
  fc_home_advantage :: f64
  fc_form_weight :: f64
  fc_xg_weight :: f64
  fc_rank_weight :: f64
  fc_injury_weight :: f64
  fc_h2h_weight :: f64

definition fundamentals_default :: fundamentals_config where
  "fundamentals_default = \<lparr>fc_temperature = lit 1, fc_draw_prior = lit (26/100),
     fc_home_advantage = lit (35/100), fc_form_weight = lit (30/100), fc_xg_weight = lit (45/100),
     fc_rank_weight = lit (20/100), fc_injury_weight = lit (15/100), fc_h2h_weight = lit (15/100)\<rparr>"

record side_stats =
  sd_form :: f64
  sd_xg :: f64
  sd_rank :: "f64 option"
  sd_injuries :: f64

definition neutral_side :: side_stats where
  "neutral_side = \<lparr>sd_form = lit 0, sd_xg = lit 0, sd_rank = None, sd_injuries = lit 0\<rparr>"

record match_stats =
  mt_home :: side_stats
  mt_away :: side_stats
  mt_h2h :: f64

definition neutral_match :: match_stats where
  "neutral_match = \<lparr>mt_home = neutral_side, mt_away = neutral_side, mt_h2h = lit 0\<rparr>"

record distribution =
  ds_home :: f64
  ds_draw :: f64
  ds_away :: f64

fun dist_prob :: "distribution \<Rightarrow> selection \<Rightarrow> f64" where
  "dist_prob d Home = ds_home d"
| "dist_prob d Draw = ds_draw d"
| "dist_prob d Away = ds_away d"

definition best_selection :: "distribution \<Rightarrow> selection" where
  "best_selection d =
     (if fle (ds_draw d) (ds_home d) \<and> fle (ds_away d) (ds_home d) then Home
      else if fle (ds_draw d) (ds_away d) then Away
      else Draw)"

definition dist_map :: "distribution \<Rightarrow> (string \<times> f64) list" where
  "dist_map d = btree_insert ''away'' (ds_away d)
     (btree_insert ''draw'' (ds_draw d) (btree_insert ''home'' (ds_home d) []))"

section \<open>The model\<close>

definition side_score :: "libm \<Rightarrow> side_stats \<Rightarrow> side_stats \<Rightarrow> fundamentals_config \<Rightarrow> f64" where
  "side_score m side opp cfg =
     (let s0 = fadd (lit 0) (fmul (fc_form_weight cfg) (fsub (sd_form side) (sd_form opp)));
          s1 = fadd s0 (fmul (fc_xg_weight cfg) (fsub (sd_xg side) (sd_xg opp)));
          s2 = (case (sd_rank side, sd_rank opp) of
                  (Some sr, Some orr) \<Rightarrow>
                    fadd s1 (fmul (fc_rank_weight cfg) (lm_tanh m (fdiv (fsub orr sr) (lit 5))))
                | _ \<Rightarrow> s1)
      in fadd s2 (fmul (fc_injury_weight cfg) (fsub (sd_injuries opp) (sd_injuries side))))"

definition softmax :: "libm \<Rightarrow> f64 \<Rightarrow> f64 \<Rightarrow> f64 \<Rightarrow> distribution" where
  \<comment> \<open>the logits of home, draw and away\<close>
  "softmax m h d a =
     (let top = fmax (fmax h d) a;
          eh = lm_exp m (fsub h top); ed = lm_exp m (fsub d top); ea = lm_exp m (fsub a top);
          total = fadd (fadd eh ed) ea
      in if fle total (lit 0)
         then \<lparr>ds_home = fdiv (lit 1) (lit 3), ds_draw = fdiv (lit 1) (lit 3), ds_away = fdiv (lit 1) (lit 3)\<rparr>
         else \<lparr>ds_home = fdiv eh total, ds_draw = fdiv ed total, ds_away = fdiv ea total\<rparr>)"

definition home_logit :: "libm \<Rightarrow> match_stats \<Rightarrow> fundamentals_config \<Rightarrow> f64" where
  "home_logit m st cfg =
     fadd (fadd (side_score m (mt_home st) (mt_away st) cfg) (fc_home_advantage cfg))
       (fmul (fc_h2h_weight cfg) (mt_h2h st))"

definition away_logit :: "libm \<Rightarrow> match_stats \<Rightarrow> fundamentals_config \<Rightarrow> f64" where
  "away_logit m st cfg =
     fsub (side_score m (mt_away st) (mt_home st) cfg) (fmul (fc_h2h_weight cfg) (mt_h2h st))"

definition draw_logit :: "libm \<Rightarrow> fundamentals_config \<Rightarrow> f64 \<Rightarrow> f64 \<Rightarrow> f64" where
  "draw_logit m cfg home_score away_score =
     (let prior = fmax (fc_draw_prior cfg) (lit (1 / 10 ^ 6))
      in fsub (lm_ln m (fdiv prior (fmax (fsub (lit 1) prior) (lit (1 / 10 ^ 6)))))
           (fmul (lit (1/2)) (fabs (fsub home_score away_score))))"

definition model_distribution :: "libm \<Rightarrow> match_stats \<Rightarrow> fundamentals_config \<Rightarrow> distribution" where
  "model_distribution m st cfg =
     (let home_score = home_logit m st cfg; away_score = away_logit m st cfg;
          draw = draw_logit m cfg home_score away_score;
          temp = (if flt (lit (1 / 10 ^ 6)) (fc_temperature cfg) then fc_temperature cfg else lit 1)
      in softmax m (fdiv home_score temp) (fdiv draw temp) (fdiv away_score temp))"

section \<open>Statistics out of a JSON signal\<close>

definition to_f64 :: "json \<Rightarrow> f64 option" where
  "to_f64 v = opt_or (as_f64 v)
     (opt_or (map_option of_int_f64 (as_i64 v)) (Option.bind (as_str v) parse_f64))"

fun capitalised :: "string \<Rightarrow> string" where
  "capitalised [] = []"
| "capitalised (c # cs) = upper_char c # cs"

definition pick :: "(string \<times> json) list option \<Rightarrow> json \<Rightarrow> string \<Rightarrow> string list \<Rightarrow> f64 option" where
  "pick obj base prefix names =
     opt_or (case obj of None \<Rightarrow> None
             | Some kvs \<Rightarrow> find_map (\<lambda>n. Option.bind (map_of kvs n) to_f64) names)
       (find_map (\<lambda>n. Option.bind (jget base (prefix @ capitalised n)) to_f64) names)"

definition fill_side ::
    "(string \<times> json) list option \<Rightarrow> json \<Rightarrow> string \<Rightarrow> side_stats \<Rightarrow> side_stats" where
  "fill_side obj base prefix side =
     \<lparr>sd_form = unwrap_or (sd_form side) (pick obj base prefix [''form'', ''ppg'', ''rating'']),
      sd_xg = unwrap_or (sd_xg side) (pick obj base prefix [''xg'', ''xgDiff'', ''netXg'', ''xGDiff'']),
      sd_rank = opt_or (pick obj base prefix [''rank'', ''position'', ''standing'']) (sd_rank side),
      sd_injuries = unwrap_or (sd_injuries side) (pick obj base prefix [''injuries'', ''absentees'', ''keyOut''])\<rparr>"

definition h2h_count :: "(string \<times> json) list \<Rightarrow> string \<Rightarrow> string \<Rightarrow> f64" where
  "h2h_count kvs k1 k2 =
     unwrap_or (lit 0) (Option.bind (opt_or (map_of kvs k1) (map_of kvs k2)) to_f64)"

definition parse_h2h :: "json option \<Rightarrow> f64 exec" where
  "parse_h2h v =
     (case v of None \<Rightarrow> Return (lit 0)
      | Some v \<Rightarrow>
          (case as_f64 v of Some n \<Rightarrow> fclamp n (lit (- 1)) (lit 1)
           | None \<Rightarrow>
             (case as_i64 v of Some n \<Rightarrow> fclamp (of_int_f64 n) (lit (- 1)) (lit 1)
              | None \<Rightarrow>
                (case as_object v of None \<Rightarrow> Return (lit 0)
                 | Some kvs \<Rightarrow>
                     (let home_w = h2h_count kvs ''home'' ''homeWins'';
                          away_w = h2h_count kvs ''away'' ''awayWins'';
                          total = fadd home_w away_w
                      in if fle total (lit 0) then Return (lit 0)
                         else fclamp (fdiv (fsub home_w away_w) total) (lit (- 1)) (lit 1))))))"

definition extract_stats :: "json \<Rightarrow> match_stats exec" where
  "extract_stats signal =
     (let base = unwrap_or signal (opt_or (jget signal ''stats'') (jget signal ''intelligence''));
          home_obj = Option.bind (jget base ''home'') as_object;
          away_obj = Option.bind (jget base ''away'') as_object
      in exec_map
           (\<lambda>h2h. \<lparr>mt_home = fill_side home_obj base ''home'' neutral_side,
                   mt_away = fill_side away_obj base ''away'' neutral_side, mt_h2h = h2h\<rparr>)
           (parse_h2h (opt_or (jget base ''h2h'') (jget base ''headToHead''))))"

definition drivers_summary :: "match_stats \<Rightarrow> string" where
  "drivers_summary st =
     (let favours = (\<lambda>x. if flt (lit 0) x then ''home'' else ''away'');
          xg_diff = fsub (sd_xg (mt_home st)) (sd_xg (mt_away st));
          form_diff = fsub (sd_form (mt_home st)) (sd_form (mt_away st));
          inj = fsub (sd_injuries (mt_away st)) (sd_injuries (mt_home st));
          bits =
            (if fle (lit (15/100)) (fabs xg_diff)
             then [''xG '' @ favours xg_diff @ ''+'' @ fmt_fixed 2 (fabs xg_diff)] else [])
          @ (if fle (lit (1/10)) (fabs form_diff) then [''form '' @ favours form_diff] else [])
          @ (case (sd_rank (mt_home st), sd_rank (mt_away st)) of
               (Some hr, Some ar) \<Rightarrow>
                 if flt hr ar then [''home higher-ranked'']
                 else if flt ar hr then [''away higher-ranked''] else []
             | _ \<Rightarrow> [])
          @ (if fle (lit 1) (fabs inj)
             then [(if flt (lit 0) inj then ''away'' else ''home'') @ '' injuries''] else [])
          @ (if fle (lit (2/10)) (fabs (mt_h2h st)) then [''h2h '' @ favours (mt_h2h st)] else [])
      in if bits = [] then ''balanced fundamentals'' else join_with '', '' bits)"

section \<open>Removing the margin\<close>

definition fair_probabilities :: "(selection \<times> f64) list \<Rightarrow> (selection \<times> f64) list" where
  \<comment> \<open>the ordered map from selections to quoted odds\<close>
  "fair_probabilities odds =
     (let implied = List.map_filter (\<lambda>(s, d). map_option (Pair s) (implied_probability d)) odds;
          total = fsum (map snd implied)
      in if fle total (lit 0) then [] else map (\<lambda>(s, p). (s, fdiv p total)) implied)"

section \<open>Bounded doubles\<close>

definition small :: "nat \<Rightarrow> f64 \<Rightarrow> bool" where
  "small n x \<longleftrightarrow> is_finite x \<and> \<bar>fval x\<bar> \<le> of_nat n"

lemma rnd_within:
  assumes "\<bar>q\<bar> \<le> of_nat n" and "n \<le> 2 ^ 53"
  shows "\<bar>rnd q\<bar> \<le> of_nat n"
proof -
  have n: "rnd (of_nat n) = of_nat n"
    using assms(2) rnd_of_int [of "int n"] by (simp flip: of_nat_power add: of_int_of_nat_eq)
  have "rnd q \<le> of_nat n" using assms(1) by (intro rnd_le_rnd n) linarith
  moreover have "- of_nat n \<le> rnd q"
    using assms(1) n by (intro rnd_ge_rnd) (linarith, simp)
  ultimately show ?thesis by linarith
qed

lemma nat_53: "n \<le> 2 ^ 53 \<Longrightarrow> (of_nat n :: rat) \<le> 2 ^ 53"
  by (metis of_nat_le_iff of_nat_numeral of_nat_power)

lemma small_fadd:
  assumes "small m x" and "small n y" and "m + n \<le> k" and "k \<le> 2 ^ 53"
  shows "small k (fadd x y)"
proof -
  have "of_nat m + of_nat n \<le> (of_nat k :: rat)" using assms(3) by (metis of_nat_add of_nat_le_iff)
  then have q: "\<bar>fval x + fval y\<bar> \<le> of_nat k"
    using assms(1,2) abs_triangle_ineq [of "fval x" "fval y"] unfolding small_def by linarith
  then show ?thesis
    using fadd_finite [of x y] rnd_within [OF q assms(4)] nat_53 [OF assms(4)] assms(1,2)
    by (auto simp: small_def)
qed

lemma small_fsub:
  assumes "small m x" and "small n y" and "m + n \<le> k" and "k \<le> 2 ^ 53"
  shows "small k (fsub x y)"
  using small_fadd [of m x n "fminus y" k] assms by (simp add: fsub_def small_def)

lemma small_fmul:
  assumes "small m x" and "small n y" and "m * n \<le> k" and "k \<le> 2 ^ 53"
  shows "small k (fmul x y)"
proof -
  have "\<bar>fval x * fval y\<bar> \<le> of_nat m * of_nat n"
    using assms(1,2) by (auto simp: small_def abs_mult intro: mult_mono)
  moreover have "of_nat m * of_nat n \<le> (of_nat k :: rat)" using assms(3) by (metis of_nat_mult of_nat_le_iff)
  ultimately have q: "\<bar>fval x * fval y\<bar> \<le> of_nat k" by linarith
  then show ?thesis
    using fmul_finite [of x y] rnd_within [OF q assms(4)] nat_53 [OF assms(4)] assms(1,2)
    by (auto simp: small_def)
qed

lemma small_fdiv:
  assumes "small m x" and "is_finite y" and "1 \<le> \<bar>fval y\<bar>" and "m \<le> 2 ^ 53"
  shows "small m (fdiv x y)"
proof -
  have "\<bar>fval x\<bar> \<le> \<bar>fval x\<bar> * \<bar>fval y\<bar>"
    using mult_left_mono [OF assms(3), of "\<bar>fval x\<bar>"] by simp
  then have "\<bar>fval x / fval y\<bar> \<le> \<bar>fval x\<bar>" using assms(3) by (auto simp: divide_le_eq)
  then have q: "\<bar>fval x / fval y\<bar> \<le> of_nat m" using assms(1) by (auto simp: small_def)
  then show ?thesis
    using fdiv_finite [of x y] rnd_within [OF q assms(4)] nat_53 [OF assms(4)] assms(1-3)
    by (auto simp: small_def)
qed

lemma small_lit: "\<bar>q\<bar> \<le> of_nat n \<Longrightarrow> n \<le> 2 ^ 53 \<Longrightarrow> small n (lit q)"
  using lit_finite [of q] rnd_within [of q n] nat_53 [of n] by (auto simp: small_def)

lemma small_fabs: "small n x \<Longrightarrow> small n (fabs x)"
  by (simp add: small_def)

lemma small_mono: "small m x \<Longrightarrow> m \<le> n \<Longrightarrow> small n x"
  by (auto simp: small_def intro: order_trans)

section \<open>The softmax is a distribution\<close>

definition exp_ok :: "(f64 \<Rightarrow> f64) \<Rightarrow> bool" where
  "exp_ok e \<longleftrightarrow> e (Fin 0) = Fin 1 \<and> e NegZero = Fin 1
     \<and> (\<forall>x. is_f64 (e x))
     \<and> (\<forall>x. fle x (Fin 0) \<longrightarrow> is_finite (e x) \<and> 0 \<le> fval (e x) \<and> fval (e x) \<le> 1)"

definition libm_ok :: "libm \<Rightarrow> bool" where
  "libm_ok m \<longleftrightarrow> exp_ok (lm_exp m)
     \<and> (\<forall>x. is_finite x \<and> 0 < fval x \<longrightarrow> small 745 (lm_ln m x))
     \<and> (\<forall>x. \<not> is_nan x \<longrightarrow> small 1 (lm_tanh m x))"

definition unit_interval :: "f64 \<Rightarrow> bool" where
  "unit_interval x \<longleftrightarrow> is_finite x \<and> 0 \<le> fval x \<and> fval x \<le> 1"

lemma rnd_unit_err:
  assumes "0 \<le> q" and "q \<le> 1"
  shows "\<bar>rnd q - q\<bar> \<le> pow2 (- 53)"
proof (cases "pow2 (- 1022) \<le> q")
  case True
  then have "\<bar>rnd q - q\<bar> \<le> q * pow2 (- 53)" using rnd_rel_err [of q] assms by simp
  also have "\<dots> \<le> 1 * pow2 (- 53)" using assms by (intro mult_right_mono) auto
  finally show ?thesis by simp
next
  case False
  have "rnd q \<le> pow2 (- 1022)" using False by (intro rnd_le_rnd rnd_pow2) auto
  moreover have "0 \<le> rnd q" using assms by (simp add: rnd_nonneg)
  moreover have "pow2 (- 1022) \<le> pow2 (- 53)" by simp
  ultimately show ?thesis using False assms by linarith
qed

lemma fdiv_unit:
  assumes "is_finite x" and "is_finite t" and "0 \<le> fval x" and "fval x \<le> fval t" and "0 < fval t"
  shows "unit_interval (fdiv x t)" and "\<bar>fval (fdiv x t) - fval x / fval t\<bar> \<le> pow2 (- 53)"
proof -
  have q: "0 \<le> fval x / fval t" "fval x / fval t \<le> 1" using assms by (auto simp: divide_le_eq_1)
  then have "\<bar>fval x / fval t\<bar> \<le> 2 ^ 53" by simp
  then have v: "is_finite (fdiv x t)" "fval (fdiv x t) = rnd (fval x / fval t)"
    using fdiv_finite [of x t] assms by auto
  show "unit_interval (fdiv x t)"
    using v rnd_nonneg [OF q(1)] rnd_le_rnd [OF q(2) rnd_1] by (simp add: unit_interval_def)
  show "\<bar>fval (fdiv x t) - fval x / fval t\<bar> \<le> pow2 (- 53)" using v rnd_unit_err [OF q] by simp
qed

lemma fadd_small_err:
  assumes "is_finite x" and "is_finite y" and "0 \<le> fval x" and "0 \<le> fval y" and "fval x + fval y \<le> 4"
  shows "is_finite (fadd x y)" and "\<bar>fval (fadd x y) - (fval x + fval y)\<bar> \<le> pow2 (- 51)"
    and "0 \<le> fval (fadd x y)" and "is_f64 x \<Longrightarrow> fval x \<le> fval (fadd x y)"
    and "is_f64 y \<Longrightarrow> fval y \<le> fval (fadd x y)"
proof -
  let ?q = "fval x + fval y"
  have "\<bar>?q\<bar> \<le> 2 ^ 53" using assms by simp
  then have v: "is_finite (fadd x y)" "fval (fadd x y) = rnd ?q" using fadd_finite [of x y] assms by auto
  show "is_finite (fadd x y)" by (rule v(1))
  show "0 \<le> fval (fadd x y)" using v assms by (simp add: rnd_nonneg)
  show "is_f64 x \<Longrightarrow> fval x \<le> fval (fadd x y)"
    unfolding v(2) by (rule rnd_ge_rnd) (use assms is_f64_fval [of x] in auto)
  show "is_f64 y \<Longrightarrow> fval y \<le> fval (fadd x y)"
    unfolding v(2) by (rule rnd_ge_rnd) (use assms is_f64_fval [of y] in auto)
  show "\<bar>fval (fadd x y) - ?q\<bar> \<le> pow2 (- 51)"
  proof (cases "pow2 (- 1022) \<le> ?q")
    case True
    then have "\<bar>rnd ?q - ?q\<bar> \<le> ?q * pow2 (- 53)" using rnd_rel_err [of ?q] assms by simp
    also have "\<dots> \<le> 4 * pow2 (- 53)" using assms by (intro mult_right_mono) auto
    also have "\<dots> = pow2 (- 51)" by (simp add: pow2_def)
    finally show ?thesis using v by simp
  next
    case False
    have "rnd ?q \<le> pow2 (- 1022)" using False by (intro rnd_le_rnd rnd_pow2) auto
    moreover have "pow2 (- 1022) \<le> pow2 (- 51)" by simp
    ultimately show ?thesis using v False assms rnd_nonneg [of ?q] by linarith
  qed
qed


lemma fmax_finite:
  assumes "is_finite x" and "is_finite y"
  shows "is_finite (fmax x y)" and "fval (fmax x y) = max (fval x) (fval y)"
    and "fmax x y = x \<or> fmax x y = y"
  using assms by (auto simp: fmax_def flt_finite)

lemma softmax_shift:
  assumes "exp_ok e" and "small n x" and "small n t" and "fval x \<le> fval t" and "2 * n \<le> 2 ^ 53"
  shows "unit_interval (e (fsub x t))" and "x = t \<Longrightarrow> fval (e (fsub x t)) = 1"
proof -
  have "small (2 * n) (fsub x t)" by (rule small_fsub [OF assms(2,3) _ assms(5)]) simp
  moreover have "fval (fsub x t) = rnd (fval x - fval t)"
    using assms fsub_finite(2) [of x t] nat_53 [of "2 * n"] by (auto simp: small_def)
  moreover have "rnd (fval x - fval t) \<le> 0" using assms(4) rnd_mono [of "fval x - fval t" 0] by simp
  ultimately have "fle (fsub x t) (Fin 0)" by (simp add: fle_finite small_def)
  then show "unit_interval (e (fsub x t))" using assms(1) by (auto simp: exp_ok_def unit_interval_def)
  show "x = t \<Longrightarrow> fval (e (fsub x t)) = 1"
    using assms(1,2) fsub_self [of x] by (auto simp: exp_ok_def small_def)
qed

definition is_distribution :: "distribution \<Rightarrow> bool" where
  "is_distribution d \<longleftrightarrow>
     unit_interval (ds_home d) \<and> unit_interval (ds_draw d) \<and> unit_interval (ds_away d)
     \<and> \<bar>fval (ds_home d) + fval (ds_draw d) + fval (ds_away d) - 1\<bar> \<le> pow2 (- 49)"

lemma shares_sum:
  fixes x y z t u v w :: rat
  assumes "1 \<le> t" and "\<bar>t - (x + y + z)\<bar> \<le> 2 * c"
    and "\<bar>u - x / t\<bar> \<le> d" and "\<bar>v - y / t\<bar> \<le> d" and "\<bar>w - z / t\<bar> \<le> d"
  shows "\<bar>u + v + w - 1\<bar> \<le> 2 * c + 3 * d"
proof -
  have "x / t + y / t + z / t - 1 = ((x + y + z) - t) / t" using assms(1) by (simp add: field_simps)
  then have "\<bar>x / t + y / t + z / t - 1\<bar> = \<bar>t - (x + y + z)\<bar> / t"
    using assms(1) by (simp add: abs_divide abs_minus_commute)
  also have "\<dots> \<le> \<bar>t - (x + y + z)\<bar>"
    using assms(1) mult_left_mono [of 1 t "\<bar>t - (x + y + z)\<bar>"] by (simp add: divide_le_eq)
  finally show ?thesis using assms by linarith
qed

lemma shares_distribution:
  assumes "unit_interval x" and "unit_interval y" and "unit_interval z"
    and "is_f64 x" and "is_f64 y" and "is_f64 z"
    and "fval x = 1 \<or> fval y = 1 \<or> fval z = 1"
  defines "t \<equiv> fadd (fadd x y) z"
  shows "is_distribution \<lparr>ds_home = fdiv x t, ds_draw = fdiv y t, ds_away = fdiv z t\<rparr>"
    and "\<not> fle t (lit 0)"
proof -
  have xy: "is_finite x" "is_finite y" "0 \<le> fval x" "0 \<le> fval y" "fval x + fval y \<le> 4"
    using assms by (auto simp: unit_interval_def)
  note s = fadd_small_err [OF xy]
  have b: "pow2 (- 51) \<le> 1" by (simp add: pow2_def)
  have sz: "is_finite z" "0 \<le> fval z" "fval (fadd x y) + fval z \<le> 4"
    using s(2) b assms(1-3) by (auto simp: unit_interval_def)
  note t = fadd_small_err [OF s(1) sz(1) s(3) sz(2,3)]
  have f: "is_f64 (fadd x y)" using assms by simp
  have le: "fval x \<le> fval t" "fval y \<le> fval t" "fval z \<le> fval t"
    using s(4,5) t(4) [OF f] t(5) assms(4-6) by (auto simp: t_def)
  have one: "1 \<le> fval t" using le assms(7) by auto
  have fin: "is_finite t" using t(1) by (simp add: t_def)
  then show "\<not> fle t (lit 0)" using one by (simp add: fle_finite)
  have err: "\<bar>fval t - (fval x + fval y + fval z)\<bar> \<le> 2 * pow2 (- 51)"
    using s(2) t(2) by (simp add: t_def)
  have d: "unit_interval (fdiv v t)" "\<bar>fval (fdiv v t) - fval v / fval t\<bar> \<le> pow2 (- 53)"
    if "v \<in> {x, y, z}" for v
    using fdiv_unit [of v t] that fin le one assms(1-3) by (auto simp: unit_interval_def)
  have "2 * pow2 (- 51) + 3 * pow2 (- 53) \<le> pow2 (- 49)" by (simp add: pow2_def)
  then show "is_distribution \<lparr>ds_home = fdiv x t, ds_draw = fdiv y t, ds_away = fdiv z t\<rparr>"
    using shares_sum [OF one err d(2) [of x] d(2) [of y] d(2) [of z]] d(1) by (simp add: is_distribution_def)
qed

lemma softmax_distribution:
  assumes "exp_ok (lm_exp m)" and "small n h" and "small n d" and "small n a" and "2 * n \<le> 2 ^ 53"
  shows "is_distribution (softmax m h d a)"
proof -
  let ?t = "fmax (fmax h d) a"
  have fin: "is_finite h" "is_finite d" "is_finite a" using assms by (auto simp: small_def)
  note hd = fmax_finite [OF fin(1,2)]
  note t = fmax_finite [OF hd(1) fin(3)]
  have st: "small n ?t" using t(3) hd(3) assms(2-4) by auto
  have le: "fval h \<le> fval ?t" "fval d \<le> fval ?t" "fval a \<le> fval ?t" using t(2) hd(2) by auto
  have u: "unit_interval (lm_exp m (fsub v ?t))" if "v \<in> {h, d, a}" for v
    using softmax_shift(1) [OF assms(1) _ st _ assms(5)] that le assms(2-4) by auto
  have one: "fval (lm_exp m (fsub v ?t)) = 1" if "v \<in> {h, d, a}" "v = ?t" for v
    using softmax_shift(2) [OF assms(1) _ st _ assms(5)] that le assms(2-4) by auto
  have f: "is_f64 (lm_exp m v)" for v using assms(1) by (simp add: exp_ok_def)
  have "h = ?t \<or> d = ?t \<or> a = ?t" using t(3) hd(3) by metis
  then have "fval (lm_exp m (fsub h ?t)) = 1 \<or> fval (lm_exp m (fsub d ?t)) = 1
      \<or> fval (lm_exp m (fsub a ?t)) = 1"
    using one by blast
  then show ?thesis
    using shares_distribution [OF u u u f f f] by (simp add: softmax_def Let_def)
qed

section \<open>The model gives a distribution\<close>

definition tuned :: "fundamentals_config \<Rightarrow> bool" where
  \<comment> \<open>weights of at most 1, a prior that is a probability, a temperature of at least 1\<close>
  "tuned cfg \<longleftrightarrow> small 1 (fc_home_advantage cfg) \<and> small 1 (fc_form_weight cfg) \<and> small 1 (fc_xg_weight cfg)
     \<and> small 1 (fc_rank_weight cfg) \<and> small 1 (fc_injury_weight cfg) \<and> small 1 (fc_h2h_weight cfg)
     \<and> unit_interval (fc_draw_prior cfg)
     \<and> is_finite (fc_temperature cfg) \<and> 1 \<le> fval (fc_temperature cfg)"

definition side_within :: "nat \<Rightarrow> side_stats \<Rightarrow> bool" where
  "side_within n s \<longleftrightarrow> small n (sd_form s) \<and> small n (sd_xg s) \<and> small n (sd_injuries s)
     \<and> (case sd_rank s of None \<Rightarrow> True | Some r \<Rightarrow> small n r)"

definition match_within :: "nat \<Rightarrow> match_stats \<Rightarrow> bool" where
  "match_within n st \<longleftrightarrow> side_within n (mt_home st) \<and> side_within n (mt_away st) \<and> small n (mt_h2h st)"

lemma small_not_nan: "small n x \<Longrightarrow> \<not> is_nan x"
  by (cases x) (auto simp: small_def)

lemma small_weighted:
  assumes "small 1 w" and "small n x" and "small n y" and "n \<le> 2 ^ 50"
  shows "small (2 * n) (fmul w (fsub x y))"
  by (rule small_fmul [OF assms(1) small_fsub [OF assms(2,3), of "2 * n"]]) (use assms(4) in simp_all)

lemma small_side_score:
  assumes "libm_ok m" and "tuned cfg" and "side_within n s" and "side_within n p" and "n \<le> 2 ^ 40"
  shows "small (6 * n + 1) (side_score m s p cfg)"
proof -
  have w: "small 1 (fc_form_weight cfg)" "small 1 (fc_xg_weight cfg)" "small 1 (fc_rank_weight cfg)"
    "small 1 (fc_injury_weight cfg)" using assms(2) by (auto simp: tuned_def)
  have f: "small n (sd_form s)" "small n (sd_form p)" "small n (sd_xg s)" "small n (sd_xg p)"
    "small n (sd_injuries s)" "small n (sd_injuries p)" using assms(3,4) by (auto simp: side_within_def)
  have n: "n \<le> 2 ^ 50" using assms(5) by simp
  define s0 where "s0 = fadd (lit 0) (fmul (fc_form_weight cfg) (fsub (sd_form s) (sd_form p)))"
  define s1 where "s1 = fadd s0 (fmul (fc_xg_weight cfg) (fsub (sd_xg s) (sd_xg p)))"
  define s2 where "s2 = (case (sd_rank s, sd_rank p) of
      (Some r, Some q) \<Rightarrow> fadd s1 (fmul (fc_rank_weight cfg) (lm_tanh m (fdiv (fsub q r) (lit 5)))) | _ \<Rightarrow> s1)"
  have s0: "small (2 * n) s0" unfolding s0_def
    by (rule small_fadd [OF small_lit [of 0 0] small_weighted [OF w(1) f(1,2) n]]) (use n in simp_all)
  have s1: "small (4 * n) s1" unfolding s1_def
    by (rule small_fadd [OF s0 small_weighted [OF w(2) f(3,4) n]]) (use n in simp_all)
  have rank: "small (4 * n + 1) (fadd s1 (fmul (fc_rank_weight cfg) (lm_tanh m (fdiv (fsub r q) (lit 5)))))"
    if "small n r" "small n q" for r q
  proof -
    have "small (2 * n) (fdiv (fsub r q) (lit 5))"
      by (rule small_fdiv [OF small_fsub [OF that]])
         (use lit_finite [of 5] rnd_of_int [of 5] n in simp_all)
    then have t: "small 1 (lm_tanh m (fdiv (fsub r q) (lit 5)))"
      using assms(1) small_not_nan unfolding libm_ok_def by blast
    show ?thesis by (rule small_fadd [OF s1 small_fmul [OF w(3) t, of 1]]) (use n in simp_all)
  qed
  have s2: "small (4 * n + 1) s2"
    using rank small_mono [OF s1] assms(3,4)
    by (auto simp: s2_def side_within_def split: option.splits)
  have "small (6 * n + 1) (fadd s2 (fmul (fc_injury_weight cfg) (fsub (sd_injuries p) (sd_injuries s))))"
    by (rule small_fadd [OF s2 small_weighted [OF w(4) f(6,5) n]]) (use n in simp_all)
  then show ?thesis by (simp only: side_score_def Let_def s0_def s1_def s2_def)
qed

lemma micro_bounds: "is_finite (lit (1 / 10 ^ 6))" "pow2 (- 20) \<le> fval (lit (1 / 10 ^ 6))" "fval (lit (1 / 10 ^ 6)) \<le> 1"
proof -
  have v: "is_finite (lit (1 / 10 ^ 6))" "fval (lit (1 / 10 ^ 6)) = rnd (1 / 10 ^ 6)"
    using lit_finite [of "1 / 10 ^ 6"] by auto
  show "is_finite (lit (1 / 10 ^ 6))" by (rule v(1))
  show "pow2 (- 20) \<le> fval (lit (1 / 10 ^ 6))" unfolding v(2)
    by (rule rnd_ge_rnd) (simp add: pow2_def, rule rnd_pow2, simp)
  show "fval (lit (1 / 10 ^ 6)) \<le> 1" unfolding v(2) by (rule rnd_le_rnd) auto
qed

lemma small_draw_logit:
  assumes "libm_ok m" and "unit_interval (fc_draw_prior cfg)" and "small k h" and "small k a" and "k \<le> 2 ^ 50"
  shows "small (745 + 2 * k) (draw_logit m cfg h a)"
proof -
  let ?p = "fmax (fc_draw_prior cfg) (lit (1 / 10 ^ 6))"
  let ?r = "fmax (fsub (lit 1) ?p) (lit (1 / 10 ^ 6))"
  have p: "is_finite ?p" "pow2 (- 20) \<le> fval ?p" "fval ?p \<le> 1"
    using fmax_finite [of "fc_draw_prior cfg" "lit (1 / 10 ^ 6)"] micro_bounds assms(2)
    by (auto simp: unit_interval_def le_max_iff_disj)
  have p0: "0 < fval ?p" using p(2) pow2_pos [of "- 20"] by linarith
  have q: "is_finite (fsub (lit 1) ?p)" "fval (fsub (lit 1) ?p) \<le> 1"
    using fsub_finite [of "lit 1" ?p] p p0 rnd_le_rnd [of "1 - fval ?p" 1] by auto
  have r: "is_finite ?r" "pow2 (- 20) \<le> fval ?r" "fval ?r \<le> 1"
    using fmax_finite [OF q(1) micro_bounds(1)] micro_bounds q(2) by (auto simp: le_max_iff_disj)
  have r0: "0 < fval ?r" using r(2) pow2_pos [of "- 20"] by linarith
  have "fval ?p / fval ?r \<le> 1 / pow2 (- 20)" using p r r0 p0 by (intro frac_le) auto
  then have "\<bar>fval ?p / fval ?r\<bar> \<le> 2 ^ 53" using p0 r0 by (simp add: pow2_def)
  then have v: "is_finite (fdiv ?p ?r)" "fval (fdiv ?p ?r) = rnd (fval ?p / fval ?r)"
    using fdiv_finite [of ?p ?r] p(1) r(1) r0 by auto
  have "pow2 (- 20) * fval ?r \<le> pow2 (- 20) * 1" using r(3) by (intro mult_left_mono) simp_all
  then have "pow2 (- 20) * fval ?r \<le> fval ?p" using p(2) by linarith
  then have "pow2 (- 20) \<le> fval ?p / fval ?r" using r0 by (simp add: le_divide_eq)
  then have "pow2 (- 1074) \<le> fval ?p / fval ?r" using pow2_le_iff [of "- 1074" "- 20"] by linarith
  then have "0 < fval (fdiv ?p ?r)" using v(2) rnd_pos by simp
  then have ln: "small 745 (lm_ln m (fdiv ?p ?r))" using assms(1) v(1) by (auto simp: libm_ok_def)
  have gap: "small (2 * k) (fmul (lit (1/2)) (fabs (fsub h a)))"
    by (rule small_fmul [OF small_lit [of _ 1] small_fabs [OF small_fsub [OF assms(3,4), of "2 * k"]]])
       (use assms(5) in simp_all)
  show ?thesis unfolding draw_logit_def Let_def
    by (rule small_fsub [OF ln gap]) (use assms(5) in simp_all)
qed

lemma model_distribution_bounded:
  assumes "libm_ok m" and "tuned cfg" and "match_within n st" and "n \<le> 2 ^ 40"
  shows "is_distribution (model_distribution m st cfg)"
proof -
  let ?h = "home_logit m st cfg" and ?a = "away_logit m st cfg"
  have s: "side_within n (mt_home st)" "side_within n (mt_away st)" "small n (mt_h2h st)"
    using assms(3) by (auto simp: match_within_def)
  have w: "small 1 (fc_home_advantage cfg)" "small 1 (fc_h2h_weight cfg)" "unit_interval (fc_draw_prior cfg)"
    "is_finite (fc_temperature cfg)" "1 \<le> fval (fc_temperature cfg)" using assms(2) by (auto simp: tuned_def)
  have h2h: "small n (fmul (fc_h2h_weight cfg) (mt_h2h st))"
    by (rule small_fmul [OF w(2) s(3)]) (use assms(4) in simp_all)
  have hs: "small (6 * n + 2) (fadd (side_score m (mt_home st) (mt_away st) cfg) (fc_home_advantage cfg))"
    by (rule small_fadd [OF small_side_score [OF assms(1,2) s(1,2) assms(4)] w(1)]) (use assms(4) in simp_all)
  have h: "small (7 * n + 2) ?h" unfolding home_logit_def
    by (rule small_fadd [OF hs h2h]) (use assms(4) in simp_all)
  have a: "small (7 * n + 2) ?a" unfolding away_logit_def
    by (rule small_fsub [OF small_side_score [OF assms(1,2) s(2,1) assms(4)] h2h]) (use assms(4) in simp_all)
  let ?B = "14 * n + 749"
  have d: "small ?B (draw_logit m cfg ?h ?a)"
    using small_draw_logit [OF assms(1) w(3) h a] assms(4) by (simp add: algebra_simps)
  define t where "t = (if flt (lit (1 / 10 ^ 6)) (fc_temperature cfg) then fc_temperature cfg else lit 1)"
  have "is_finite t" "1 \<le> fval t" using w(4,5) by (auto simp: t_def)
  then have q: "small ?B (fdiv x t)" if "small ?B x" for x using small_fdiv [OF that] assms(4) by simp
  have "is_distribution (softmax m (fdiv ?h t) (fdiv (draw_logit m cfg ?h ?a) t) (fdiv ?a t))"
  proof (rule softmax_distribution [OF _ q q q])
    show "exp_ok (lm_exp m)" using assms(1) by (simp add: libm_ok_def)
    show "small ?B ?h" "small ?B ?a" by (rule small_mono [OF h], simp) (rule small_mono [OF a], simp)
    show "2 * ?B \<le> 2 ^ 53" using assms(4) by simp
  qed (rule d)
  then show ?thesis by (simp add: model_distribution_def Let_def t_def)
qed

lemma fundamentals_default_tuned: "tuned fundamentals_default"
proof -
  have "unit_interval (lit (26/100))"
    using lit_finite [of "26/100"] rnd_nonneg [of "26/100"] rnd_le_rnd [of "26/100" 1] by (simp add: unit_interval_def)
  then show ?thesis by (simp add: tuned_def fundamentals_default_def small_lit)
qed

section \<open>Fair probabilities\<close>

lemma pow2_values:
  "pow2 (- 49) = 1 / 562949953421312" "pow2 (- 50) = 1 / 1125899906842624"
  "pow2 (- 51) = 1 / 2251799813685248" "pow2 (- 53) = 1 / 9007199254740992"
  by (simp_all add: pow2_def)

lemma two_roundings:
  fixes a t x y z :: rat
  assumes "\<bar>a - (x + y)\<bar> \<le> (x + y) * pow2 (- 53)" and "\<bar>t - (a + z)\<bar> \<le> (a + z) * pow2 (- 53)"
    and "0 \<le> x" and "0 \<le> y" and "0 \<le> z"
  shows "\<bar>t - (x + y + z)\<bar> \<le> (x + y + z) * pow2 (- 51)"
proof -
  let ?u = "pow2 (- 53)"
  have u: "?u \<le> 1" "pow2 (- 51) = 4 * ?u" by (simp_all add: pow2_def)
  have xy: "0 \<le> (x + y) * ?u" using assms(3,4) by (simp add: mult_nonneg_nonneg)
  have "(x + y) * ?u \<le> (x + y) * 1" using assms(3,4) u(1) by (intro mult_left_mono) auto
  then have "a \<le> 2 * (x + y)" using abs_le_D1 [OF assms(1)] by simp
  then have "(a + z) * ?u \<le> (2 * (x + y) + z) * ?u" by (intro mult_right_mono) simp_all
  moreover have "0 \<le> z * ?u" using assms(5) by simp
  ultimately show ?thesis
    using abs_le_D1 [OF assms(1)] abs_le_D2 [OF assms(1)] abs_le_D1 [OF assms(2)] abs_le_D2 [OF assms(2)] xy
    unfolding u(2) abs_le_iff by (simp add: algebra_simps)
qed

lemma rnd_subnormal:
  assumes "rnd x = x" and "\<bar>x\<bar> < pow2 (- 1022)"
  shows "\<exists>m. x = of_int m * pow2 (- 1074)"
proof (cases "x = 0")
  case True
  then show ?thesis by (intro exI [of _ 0]) simp
next
  case False
  then have "ilog2 \<bar>x\<bar> < - 1022" using assms(2) by (intro ilog2_less) auto
  then have "ulp_exp x = - 1074" by (simp add: ulp_exp_def)
  then show ?thesis using assms(1) False unfolding rnd_def by metis
qed

lemma fadd_rel_err:
  assumes "is_finite x" and "is_finite y" and "is_f64 x" and "is_f64 y" and "0 \<le> fval x" and "0 \<le> fval y"
    and "fval x + fval y \<le> 4"
  shows "\<bar>fval (fadd x y) - (fval x + fval y)\<bar> \<le> (fval x + fval y) * pow2 (- 53)"
proof -
  let ?q = "fval x + fval y"
  have "\<bar>?q\<bar> \<le> 2 ^ 53" using assms by simp
  then have v: "fval (fadd x y) = rnd ?q" using fadd_finite [of x y] assms by auto
  show ?thesis
  proof (cases "pow2 (- 1022) \<le> ?q")
    case True
    then show ?thesis using v rnd_rel_err [of ?q] assms by simp
  next
    case False
    have rep: "rnd (fval x) = fval x" "rnd (fval y) = fval y"
      using is_f64_fval [OF assms(3)] is_f64_fval [OF assms(4)] by auto
    obtain a b where ab: "fval x = of_int a * pow2 (- 1074)" "fval y = of_int b * pow2 (- 1074)"
      using rnd_subnormal [OF rep(1)] rnd_subnormal [OF rep(2)] False assms by auto
    then have q: "?q = of_int (a + b) * pow2 (- 1074)" by (simp add: distrib_right)
    have "of_int (a + b) * pow2 (- 1074) < of_int (2 ^ 52) * pow2 (- 1074)"
      using False q by (simp add: pow2_def)
    then have "a + b < 2 ^ 52" by (simp only: mult_less_cancel_right_pos pow2_pos of_int_less_iff)
    moreover have "0 \<le> of_int (a + b) * pow2 (- 1074)" using q assms(5,6) by linarith
    then have "0 \<le> a + b" by (simp add: zero_le_mult_iff)
    ultimately have "rnd ?q = ?q" by (intro rnd_grid [OF q]) auto
    then show ?thesis using v assms by simp
  qed
qed

lemma fadd_NegZero: "is_f64 x \<Longrightarrow> fadd NegZero x = x"
  by (cases x) (auto simp: fadd_def of_q_def Let_def)

definition total_of :: "f64 list \<Rightarrow> f64 \<Rightarrow> bool" where
  "total_of xs t \<longleftrightarrow> is_finite t \<and> (\<forall>x \<in> set xs. fval x \<le> fval t)
     \<and> \<bar>fval t - sum_list (map fval xs)\<bar> \<le> sum_list (map fval xs) * pow2 (- 51)"

lemma fsum_total:
  assumes "\<forall>x \<in> set xs. unit_interval x \<and> is_f64 x" and "length xs \<le> 3" and "xs \<noteq> []"
  shows "total_of xs (fsum xs)"
proof -
  from assms(2,3) consider x where "xs = [x]" | x y where "xs = [x, y]" | x y z where "xs = [x, y, z]"
    by (cases xs; cases "tl xs"; cases "tl (tl xs)") auto
  then show ?thesis
  proof cases
    case 1
    then show ?thesis using assms(1) by (simp add: total_of_def fsum_def fadd_NegZero unit_interval_def)
  next
    case 2
    then have x: "is_finite x" "is_finite y" "0 \<le> fval x" "0 \<le> fval y" "fval x + fval y \<le> 4" "is_f64 x" "is_f64 y"
      using assms(1) by (auto simp: unit_interval_def)
    have "(fval x + fval y) * pow2 (- 53) \<le> (fval x + fval y) * pow2 (- 51)"
      using x by (intro mult_left_mono) auto
    then show ?thesis
      using 2 x fadd_small_err [OF x(1-5)] fadd_rel_err [OF x(1,2) x(6,7) x(3-5)]
      by (simp add: total_of_def fsum_def fadd_NegZero)
  next
    case 3
    then have x: "is_finite x" "is_finite y" "0 \<le> fval x" "0 \<le> fval y" "fval x + fval y \<le> 4" "is_f64 x" "is_f64 y"
      and z: "is_finite z" "0 \<le> fval z" "fval z \<le> 1" "is_f64 z" "fval x + fval y \<le> 2"
      using assms(1) by (auto simp: unit_interval_def)
    note s = fadd_small_err [OF x(1-5)] fadd_rel_err [OF x(1,2) x(6,7) x(3-5)]
    have "pow2 (- 51) \<le> 1" by (simp add: pow2_def)
    then have b: "fval (fadd x y) + fval z \<le> 4" using s(2) z by linarith
    have f: "is_f64 (fadd x y)" using x by simp
    note t = fadd_small_err [OF s(1) z(1) s(3) z(2) b] fadd_rel_err [OF s(1) z(1) f z(4) s(3) z(2) b]
    have "\<bar>fval (fadd (fadd x y) z) - (fval x + fval y + fval z)\<bar> \<le> (fval x + fval y + fval z) * pow2 (- 51)"
      using two_roundings [OF s(6) t(6)] x(3,4) z(2) by simp
    then show ?thesis
      using 3 x z s(4,5) t(1) t(4) [OF f] t(5)
      by (auto simp: total_of_def fsum_def fadd_NegZero add.assoc)
  qed
qed

lemma sum_diff_le:
  assumes "\<forall>x \<in> set xs. \<bar>f x - g x\<bar> \<le> (c :: rat)"
  shows "\<bar>sum_list (map f xs) - sum_list (map g xs)\<bar> \<le> of_nat (length xs) * c"
  using assms by (induction xs) (auto simp: distrib_right abs_le_iff)

lemma sum_over_total: "sum_list (map (\<lambda>x. f x / t) xs) = sum_list (map f xs) / (t :: rat)"
  by (induction xs) (simp_all add: add_divide_distrib)

lemma shares_of_total:
  assumes "total_of xs t" and "0 < fval t" and "\<forall>x \<in> set xs. unit_interval x" and "length xs \<le> 3"
  shows "\<forall>x \<in> set xs. unit_interval (fdiv x t)"
    and "\<bar>sum_list (map (\<lambda>x. fval (fdiv x t)) xs) - 1\<bar> \<le> pow2 (- 49)"
proof -
  have t: "is_finite t" "\<forall>x \<in> set xs. fval x \<le> fval t"
    "\<bar>fval t - sum_list (map fval xs)\<bar> \<le> sum_list (map fval xs) * pow2 (- 51)"
    using assms(1) by (auto simp: total_of_def)
  have d: "unit_interval (fdiv x t) \<and> \<bar>fval (fdiv x t) - fval x / fval t\<bar> \<le> pow2 (- 53)"
    if "x \<in> set xs" for x
    using fdiv_unit [of x t] that assms(2,3) t by (auto simp: unit_interval_def)
  then show "\<forall>x \<in> set xs. unit_interval (fdiv x t)" by simp
  let ?S = "sum_list (map fval xs)"
  have e1: "\<bar>sum_list (map (\<lambda>x. fval (fdiv x t)) xs) - ?S / fval t\<bar> \<le> of_nat (length xs) * pow2 (- 53)"
    using sum_diff_le [of xs "\<lambda>x. fval (fdiv x t)" "\<lambda>x. fval x / fval t"] d by (simp add: sum_over_total)
  also have "\<dots> \<le> 3 * pow2 (- 53)" using assms(4) by (intro mult_right_mono) auto
  finally have e2: "\<bar>sum_list (map (\<lambda>x. fval (fdiv x t)) xs) - ?S / fval t\<bar> \<le> 3 * pow2 (- 53)" .
  have "?S \<le> 2 * fval t" using t(3) assms(2) unfolding pow2_values by linarith
  then have "\<bar>fval t - ?S\<bar> \<le> fval t * pow2 (- 50)" using t(3) unfolding pow2_values by linarith
  moreover have "?S / fval t - 1 = (?S - fval t) / fval t" using assms(2) by (simp add: diff_divide_distrib)
  ultimately have "\<bar>?S / fval t - 1\<bar> \<le> pow2 (- 50)"
    using assms(2) by (simp add: abs_divide divide_le_eq abs_minus_commute mult.commute)
  then show "\<bar>sum_list (map (\<lambda>x. fval (fdiv x t)) xs) - 1\<bar> \<le> pow2 (- 49)"
    using e2 unfolding pow2_values by linarith
qed


definition quoted :: "(selection \<times> f64) list \<Rightarrow> selection list" where
  \<comment> \<open>the selections with a usable price\<close>
  "quoted odds = map fst (filter (\<lambda>(s, d). is_finite d \<and> 1 < fval d) odds)"

lemma implied_list:
  "map fst (List.map_filter (\<lambda>(s, d). map_option (Pair s) (implied_probability d)) odds) = quoted odds"
  by (induction odds)
     (auto simp: quoted_def implied_probability_iff implied_probability_None
           split: option.splits prod.splits simp: List.map_filter_simps)

lemma implied_unit:
  assumes "\<forall>(s, d) \<in> set odds. is_f64 d"
    and "(s, p) \<in> set (List.map_filter (\<lambda>(s, d). map_option (Pair s) (implied_probability d)) odds)"
  shows "unit_interval p \<and> is_f64 p \<and> 0 < fval p"
proof -
  obtain d where d: "(s, d) \<in> set odds" "implied_probability d = Some p"
    using assms(2) by (auto simp: map_filter_def)
  then have "is_f64 d" using assms(1) by auto
  then show ?thesis
    using implied_probability_bounds [OF d(2)] d(2)
    by (auto simp: unit_interval_def implied_probability_iff)
qed

lemma selections_le_3: "distinct (ss :: selection list) \<Longrightarrow> length ss \<le> 3"
proof -
  assume "distinct ss"
  moreover have "set ss \<subseteq> {Home, Draw, Away}" using selection.exhaust by blast
  ultimately show ?thesis using card_mono [of "{Home, Draw, Away}" "set ss"] distinct_card [of ss] by simp
qed

lemma fair_spec:
  assumes "distinct (map fst odds)" and "\<forall>(s, d) \<in> set odds. is_f64 d"
  shows "map fst (fair_probabilities odds) = quoted odds"
    and "\<forall>p \<in> snd ` set (fair_probabilities odds). unit_interval p"
    and "quoted odds \<noteq> [] \<Longrightarrow> \<bar>sum_list (map (fval \<circ> snd) (fair_probabilities odds)) - 1\<bar> \<le> pow2 (- 49)"
proof -
  let ?ps = "List.map_filter (\<lambda>(s, d). map_option (Pair s) (implied_probability d)) odds"
  let ?xs = "map snd ?ps"
  let ?t = "fsum ?xs"
  note fst_ps = implied_list [of odds]
  have u: "unit_interval x \<and> is_f64 x \<and> 0 < fval x" if "x \<in> set ?xs" for x
    using implied_unit [OF assms(2)] that by auto
  have "distinct (quoted odds)" using assms(1) distinct_filter by (auto simp: quoted_def intro: distinct_map_filter)
  then have len: "length ?xs \<le> 3" using selections_le_3 fst_ps by (metis length_map)
  have pos: "0 < fval ?t \<and> total_of ?xs ?t" if "?ps \<noteq> []"
  proof -
    have t: "total_of ?xs ?t" using fsum_total [of ?xs] u len that by auto
    have "?xs \<noteq> []" using that by simp
    then obtain x where "x \<in> set ?xs" by (meson list.set_sel(1))
    then show ?thesis using t u by (auto simp: total_of_def intro: less_le_trans)
  qed
  have fair: "fair_probabilities odds = map (\<lambda>(s, p). (s, fdiv p ?t)) ?ps"
  proof (cases "?ps = []")
    case False
    then have "\<not> fle ?t (lit 0)" using pos by (auto simp: total_of_def fle_finite)
    then show ?thesis by (simp add: fair_probabilities_def Let_def)
  qed (simp add: fair_probabilities_def Let_def)
  show "map fst (fair_probabilities odds) = quoted odds"
    unfolding fair fst_ps [symmetric] by (simp add: case_prod_beta comp_def)
  have sh: "\<forall>x \<in> set ?xs. unit_interval (fdiv x ?t)"
      "\<bar>sum_list (map (\<lambda>x. fval (fdiv x ?t)) ?xs) - 1\<bar> \<le> pow2 (- 49)" if "?ps \<noteq> []"
    using shares_of_total [of ?xs ?t] pos [OF that] u len by auto
  show "\<forall>p \<in> snd ` set (fair_probabilities odds). unit_interval p"
    unfolding fair using sh(1) by (cases "?ps = []") (auto simp: case_prod_beta)
  assume "quoted odds \<noteq> []"
  then have "?ps \<noteq> []" using fst_ps by auto
  from sh(2) [OF this] show "\<bar>sum_list (map (fval \<circ> snd) (fair_probabilities odds)) - 1\<bar> \<le> pow2 (- 49)"
    unfolding fair by (simp add: case_prod_beta comp_def)
qed

section \<open>Properties\<close>

lemma best_is_greatest:
  assumes "is_distribution d" shows "fle (dist_prob d s) (dist_prob d (best_selection d))"
  using assms by (cases s) (auto simp: is_distribution_def unit_interval_def best_selection_def fle_finite)

text \<open>
  C23: for statistics of at most \<open>2^40\<close> in magnitude and tuned weights, the model answers a
  probability distribution: three finite numbers between 0 and 1 whose sum is 1 up to
  \<open>2^-49\<close>, and \<open>best_selection\<close> picks one that no other exceeds.
\<close>
theorem model_is_a_distribution:
  assumes "libm_ok m" and "tuned cfg" and "match_within (2 ^ 40) st"
  shows "let d = model_distribution m st cfg in
           (\<forall>s. is_finite (dist_prob d s) \<and> 0 \<le> fval (dist_prob d s) \<and> fval (dist_prob d s) \<le> 1
              \<and> fle (dist_prob d s) (dist_prob d (best_selection d)))
           \<and> \<bar>fval (ds_home d) + fval (ds_draw d) + fval (ds_away d) - 1\<bar> \<le> pow2 (- 49)"
proof -
  let ?d = "model_distribution m st cfg"
  have d: "is_distribution ?d" using model_distribution_bounded [OF assms] by simp
  have "unit_interval (dist_prob ?d s)" for s using d by (cases s) (auto simp: is_distribution_def)
  then show ?thesis
    using best_is_greatest [OF d] d by (auto simp: Let_def is_distribution_def unit_interval_def)
qed

text \<open>
  C24: removing the margin keeps exactly the selections with a usable price, in their order,
  gives each a number between 0 and 1, and their sum is 1 up to \<open>2^-49\<close>; nothing comes back
  when no price is usable.
\<close>
theorem fair_probabilities_normalise:
  assumes "distinct (map fst odds)" and "\<forall>(s, d) \<in> set odds. is_f64 d"
  shows "let fair = fair_probabilities odds in
           map fst fair = map fst (filter (\<lambda>(s, d). is_finite d \<and> 1 < fval d) odds)
           \<and> (\<forall>p \<in> snd ` set fair. is_finite p \<and> 0 \<le> fval p \<and> fval p \<le> 1)
           \<and> (fair = [] \<or> \<bar>sum_list (map (fval \<circ> snd) fair) - 1\<bar> \<le> pow2 (- 49))"
proof -
  note f = fair_spec [OF assms]
  have "\<bar>sum_list (map (fval \<circ> snd) (fair_probabilities odds)) - 1\<bar> \<le> pow2 (- 49)"
    if "fair_probabilities odds \<noteq> []" using f(3) f(1) that by (metis map_is_Nil_conv)
  then show ?thesis using f(1,2) by (auto simp: Let_def quoted_def unit_interval_def)
qed

section \<open>Witnesses\<close>

text \<open>A mathematics library of rational approximations that keeps the laws.\<close>

definition approx_exp :: "f64 \<Rightarrow> f64" where
  "approx_exp x = (case x of NaN \<Rightarrow> NaN | Infty s \<Rightarrow> if s then Fin 0 else Infty False
     | _ \<Rightarrow> let q = fval x in
           of_q False (if q \<le> 0 then 1 / (1 - q + q * q / 2) else 1 + q + q * q / 2))"

definition approx_ln :: "f64 \<Rightarrow> f64" where
  "approx_ln x = (if is_finite x \<and> 0 < fval x
     then of_q False (2 * (fval x - 1) / (fval x + 1)) else NaN)"

definition approx_tanh :: "f64 \<Rightarrow> f64" where
  "approx_tanh x = (case x of NaN \<Rightarrow> NaN | Infty s \<Rightarrow> if s then Fin (- 1) else Fin 1
     | _ \<Rightarrow> of_q False (fval x / (1 + \<bar>fval x\<bar>)))"

definition approx_libm :: libm where
  "approx_libm = \<lparr>lm_exp = approx_exp, lm_ln = approx_ln, lm_tanh = approx_tanh\<rparr>"

lemma small_of_q: "\<bar>q\<bar> \<le> of_nat n \<Longrightarrow> n \<le> 2 ^ 53 \<Longrightarrow> small n (of_q s q)"
  using of_q_bounded [of q s] rnd_within [of q n] nat_53 [of n] by (auto simp: small_def)

lemma approx_exp_ok: "exp_ok approx_exp"
proof -
  have low: "0 \<le> 1 / (1 - q + q * q / 2) \<and> 1 / (1 - q + q * q / 2) \<le> 1" if "q \<le> 0" for q :: rat
  proof -
    have "0 \<le> q * q" by simp
    then have "1 \<le> 1 - q + q * q / 2" using that by linarith
    then show ?thesis by (simp add: divide_le_eq_1)
  qed
  have fin: "is_finite (of_q False q) \<and> 0 \<le> fval (of_q False q) \<and> fval (of_q False q) \<le> 1"
    if "0 \<le> q" "q \<le> 1" for q
    using of_q_bounded [of q False] that rnd_nonneg [of q] rnd_le_rnd [OF that(2) rnd_1] by auto
  have "is_finite (approx_exp x) \<and> 0 \<le> fval (approx_exp x) \<and> fval (approx_exp x) \<le> 1"
    if "fle x (Fin 0)" for x
    using that low [of "fval x"] fin [of "1 / (1 - fval x + fval x * fval x / 2)"] fin [of 1]
    by (cases x) (auto simp: approx_exp_def fle_def Let_def)
  moreover have "is_f64 (approx_exp x)" for x
    by (cases x) (simp_all add: approx_exp_def Let_def)
  moreover have "of_q False 1 = Fin 1" using lit_01(2) by (simp add: lit_def)
  ultimately show ?thesis by (simp add: exp_ok_def approx_exp_def Let_def)
qed

lemma approx_libm_ok: "libm_ok approx_libm"
proof -
  have "\<bar>2 * (q - 1) / (q + 1)\<bar> \<le> 745" if "0 < q" for q :: rat
    using that by (simp add: abs_le_iff divide_le_eq)
  then have "small 745 (approx_ln x)" if "is_finite x \<and> 0 < fval x" for x
    using that small_of_q [of "2 * (fval x - 1) / (fval x + 1)" 745] by (simp add: approx_ln_def)
  moreover have "\<bar>q / (1 + \<bar>q\<bar>)\<bar> \<le> 1" for q :: rat
    by (simp add: abs_divide divide_le_eq)
  then have "small 1 (approx_tanh x)" if "\<not> is_nan x" for x
    using that small_of_q [of "fval x / (1 + \<bar>fval x\<bar>)" 1]
    by (cases x) (simp_all add: approx_tanh_def small_def)
  ultimately show ?thesis using approx_exp_ok by (simp add: libm_ok_def approx_libm_def)
qed

theorem model_is_a_distribution_witness:
  "let d = model_distribution approx_libm neutral_match fundamentals_default in
     (\<forall>s. is_finite (dist_prob d s) \<and> 0 \<le> fval (dist_prob d s) \<and> fval (dist_prob d s) \<le> 1
        \<and> fle (dist_prob d s) (dist_prob d (best_selection d)))
     \<and> \<bar>fval (ds_home d) + fval (ds_draw d) + fval (ds_away d) - 1\<bar> \<le> pow2 (- 49)"
proof -
  have "match_within (2 ^ 40) neutral_match"
    by (simp add: match_within_def side_within_def neutral_match_def neutral_side_def small_def)
  then show ?thesis by (rule model_is_a_distribution [OF approx_libm_ok fundamentals_default_tuned])
qed

theorem fair_probabilities_normalise_witness:
  "let fair = fair_probabilities [(Home, lit 2), (Draw, lit 1), (Away, lit 4)] in
     map fst fair = [Home, Away]
     \<and> (\<forall>p \<in> snd ` set fair. is_finite p \<and> 0 \<le> fval p \<and> fval p \<le> 1)
     \<and> \<bar>sum_list (map (fval \<circ> snd) fair) - 1\<bar> \<le> pow2 (- 49)"
proof -
  have l: "is_finite (lit q) \<and> fval (lit q) = q" if "q \<in> {2, 4}" for q
    using that lit_finite [of q] rnd_of_int [of 2] rnd_of_int [of 4] by auto
  let ?odds = "[(Home, lit 2), (Draw, lit 1), (Away, lit 4)]"
  have k: "map fst (filter (\<lambda>(s, d). is_finite d \<and> 1 < fval d) ?odds) = [Home, Away]"
    using l [of 2] l [of 4] by simp
  show ?thesis
    using fair_probabilities_normalise [of ?odds] unfolding k by (auto simp: Let_def)
qed

end
