(* ===== verification/Rig_Tools.thy ===== *)
theory Rig_Tools
  imports Fundamentals Coral_Bus
begin

text \<open>
  The tools an LLM agent may call (\<open>rig-venice/src/tools.rs\<close>): the sharp-movement test,
  the fundamentals model and the fair-probability calculation, which are pure, and the
  read-only HTTP tools over TxLINE and the desk's diagnostics API. The transport, the JSON
  parser and the printer are the record \<open>tool_io\<close>, an argument; the generated argument
  schemas are the crate's business. The lemmas compare the two computing tools with the
  library's own model (\<open>Fundamentals\<close>) and bound the movement's confidence.
\<close>

section \<open>Errors and HTTP\<close>

text \<open>\<open>ToolCallError\<close> wraps its message; its \<open>Display\<close> adds a prefix.\<close>

type_synonym tool_call_error = string

definition show_tool_call_error :: "tool_call_error \<Rightarrow> string" where
  "show_tool_call_error e = ''tool error: '' @ e"

record tool_request =
  tq_url :: string
  tq_token :: string
  tq_query :: "(string \<times> string) list"
  tq_timeout :: nat

record 'w tool_io =
  tl_send :: "tool_request \<Rightarrow> 'w \<Rightarrow> (string + http_response) \<times> 'w"
  tl_json :: "string \<Rightarrow> string + json"
  tl_text :: "json \<Rightarrow> string + string"
  tl_show_status :: "nat \<Rightarrow> string"

definition body_or_empty :: "http_response \<Rightarrow> string" where
  "body_or_empty r = (case hs_text r of Inl _ \<Rightarrow> [] | Inr b \<Rightarrow> b)"

definition body_json :: "'w tool_io \<Rightarrow> http_response \<Rightarrow> tool_call_error + json" where
  "body_json io r =
     (case (case hs_text r of Inl e \<Rightarrow> Inl e | Inr b \<Rightarrow> tl_json io b) of
        Inl e \<Rightarrow> Inl (''JSON parse failed: '' @ e) | Inr v \<Rightarrow> Inr v)"

definition bounded_json :: "'w tool_io \<Rightarrow> string \<Rightarrow> json \<Rightarrow> tool_call_error + json" where
  \<comment> \<open>the size check before an answer reaches the model\<close>
  "bounded_json io what v =
     (case tl_text io v of
        Inl e \<Rightarrow> Inl (''re-serialise failed: '' @ e)
      | Inr s \<Rightarrow> if 32768 < length s then Inl (what @ '' response exceeded 32 KiB safety limit'') else Inr v)"

definition fetch_odds_snapshot ::
    "'w tool_io \<Rightarrow> string \<Rightarrow> string \<Rightarrow> u64 \<Rightarrow> 'w \<Rightarrow> (tool_call_error + json) \<times> 'w" where
  "fetch_odds_snapshot io api_base api_key fixture_id w =
     (case tl_send io \<lparr>tq_url = api_base @ ''/fixtures/'' @ show_u64 fixture_id @ ''/odds'',
                       tq_token = api_key, tq_query = [], tq_timeout = 10\<rparr> w of
        (Inl e, w') \<Rightarrow> (Inl (''HTTP request failed: '' @ e), w')
      | (Inr r, w') \<Rightarrow>
          ((if \<not> is_success r
            then Inl (''TxLINE returned HTTP '' @ tl_show_status io (hs_status r) @ '': '' @ body_or_empty r)
            else (case body_json io r of Inl e \<Rightarrow> Inl e | Inr v \<Rightarrow> bounded_json io ''TxLINE'' v)), w'))"

definition fetch_active_fixtures ::
    "'w tool_io \<Rightarrow> string \<Rightarrow> string \<Rightarrow> bool \<Rightarrow> 'w \<Rightarrow> (tool_call_error + json) \<times> 'w" where
  "fetch_active_fixtures io api_base api_key live_only w =
     (case tl_send io \<lparr>tq_url = api_base @ ''/fixtures'', tq_token = api_key,
                       tq_query = (if live_only then [(''status'', ''live'')] else []), tq_timeout = 10\<rparr> w of
        (Inl e, w') \<Rightarrow> (Inl (''HTTP request failed: '' @ e), w')
      | (Inr r, w') \<Rightarrow>
          ((if \<not> is_success r
            then Inl (''TxLINE returned HTTP '' @ tl_show_status io (hs_status r) @ '': '' @ body_or_empty r)
            else body_json io r), w'))"

definition desk_diagnostics_unconfigured :: tool_call_error where
  "desk_diagnostics_unconfigured =
     ''desk diagnostics API not configured (DESK_API_BASE unset) '' @ ch_dash @ '' this tool is unavailable''"

definition get_desk_json ::
    "'w tool_io \<Rightarrow> string \<Rightarrow> string \<Rightarrow> string \<Rightarrow> (string \<times> string) list \<Rightarrow> 'w \<Rightarrow>
       (tool_call_error + json) \<times> 'w" where
  "get_desk_json io api_base token path query w =
     (if api_base = [] then (Inl desk_diagnostics_unconfigured, w)
      else (case tl_send io \<lparr>tq_url = api_base @ path, tq_token = token, tq_query = query, tq_timeout = 10\<rparr> w of
              (Inl e, w') \<Rightarrow> (Inl (''HTTP request failed: '' @ e), w')
            | (Inr r, w') \<Rightarrow>
                ((if \<not> is_success r
                  then Inl (''desk diagnostics returned HTTP '' @ tl_show_status io (hs_status r) @ '': '' @ body_or_empty r)
                  else (case body_json io r of Inl e \<Rightarrow> Inl e | Inr v \<Rightarrow> bounded_json io ''desk diagnostics'' v)), w')))"

definition row_limit :: "u32 option \<Rightarrow> string" where
  "row_limit limit = show_nat (unat (min (unwrap_or 20 limit) 200))"

fun query_opt :: "string \<Rightarrow> string option \<Rightarrow> (string \<times> string) list" where
  "query_opt k None = []"
| "query_opt k (Some v) = [(k, v)]"

definition get_agent_leaderboard :: "'w tool_io \<Rightarrow> string \<Rightarrow> string \<Rightarrow> 'w \<Rightarrow> (tool_call_error + json) \<times> 'w" where
  "get_agent_leaderboard io api_base token = get_desk_json io api_base token ''/api/leaderboard'' []"

definition get_recent_signals ::
    "'w tool_io \<Rightarrow> string \<Rightarrow> string \<Rightarrow> u64 option \<Rightarrow> u32 option \<Rightarrow> 'w \<Rightarrow> (tool_call_error + json) \<times> 'w" where
  "get_recent_signals io api_base token fixture_id limit =
     get_desk_json io api_base token ''/api/signals''
       ((''limit'', row_limit limit) # query_opt ''fixture_id'' (map_option show_u64 fixture_id))"

definition get_recent_settlements ::
    "'w tool_io \<Rightarrow> string \<Rightarrow> string \<Rightarrow> string option \<Rightarrow> u64 option \<Rightarrow> u32 option \<Rightarrow> 'w \<Rightarrow>
       (tool_call_error + json) \<times> 'w" where
  "get_recent_settlements io api_base token agent_id fixture_id limit =
     get_desk_json io api_base token ''/api/settlements''
       ((''limit'', row_limit limit) # query_opt ''agent_id'' agent_id
         @ query_opt ''fixture_id'' (map_option show_u64 fixture_id))"

definition get_tool_call_history ::
    "'w tool_io \<Rightarrow> string \<Rightarrow> string \<Rightarrow> string option \<Rightarrow> u32 option \<Rightarrow> 'w \<Rightarrow> (tool_call_error + json) \<times> 'w" where
  "get_tool_call_history io api_base token run limit =
     get_desk_json io api_base token ''/api/tool-calls''
       ((''limit'', row_limit limit) # query_opt ''run_id'' run)"

section \<open>Sharp movement\<close>

record movement_result =
  mr_pct_change :: f64
  mr_is_sharp_move :: bool
  mr_direction :: string
  mr_confidence :: f64

definition movement_json :: "movement_result \<Rightarrow> json" where
  "movement_json r = JObj [(''confidence'', jfloat (mr_confidence r)), (''direction'', JStr (mr_direction r)),
     (''is_sharp_move'', JBool (mr_is_sharp_move r)), (''pct_change'', jfloat (mr_pct_change r))]"

definition default_threshold_pct :: f64 where
  "default_threshold_pct = lit 4"

definition movement_confidence :: "f64 \<Rightarrow> f64 \<Rightarrow> f64 exec" where
  "movement_confidence threshold pct_change =
     (if fle threshold pct_change
      then exec_map (\<lambda>c. fadd (fmul c (lit (1/2))) (lit (1/2)))
             (fclamp (fdiv (fsub pct_change threshold) threshold) (lit 0) (lit 1))
      else Return (fmul (fdiv pct_change threshold) (lit (1/2))))"

definition sharp_movement :: "f64 \<Rightarrow> f64 \<Rightarrow> f64 \<Rightarrow> (tool_call_error + movement_result) exec" where
  "sharp_movement threshold current previous =
     (if fle previous (lit 0) \<or> fle current (lit 0) then Return (Inl ''odds must be positive decimals'')
      else let pct_change = fabs (fmul (fdiv (fsub current previous) previous) (lit 100))
           in exec_map
                (\<lambda>confidence. Inr \<lparr>mr_pct_change = pct_change, mr_is_sharp_move = fle threshold pct_change,
                    mr_direction = (if flt current previous then ''shortening'' else ''drifting''),
                    mr_confidence = confidence\<rparr>)
                (movement_confidence threshold pct_change))"

definition compute_sharp_movement :: "f64 \<Rightarrow> f64 \<Rightarrow> f64 \<Rightarrow> (tool_call_error + json) exec" where
  "compute_sharp_movement threshold current previous =
     exec_map (map_sum id movement_json) (sharp_movement threshold current previous)"

section \<open>The fundamentals tool\<close>

text \<open>The tool's arguments have the fields of \<open>side_stats\<close> and \<open>match_stats\<close>.\<close>

type_synonym model_probability_input = match_stats

record model_tool =
  mp_form_weight :: f64
  mp_xg_weight :: f64
  mp_rank_weight :: f64
  mp_injury_weight :: f64
  mp_h2h_weight :: f64
  mp_home_advantage :: f64
  mp_draw_prior :: f64
  mp_temperature :: f64

definition model_tool_default :: model_tool where
  "model_tool_default = \<lparr>mp_form_weight = lit (30/100), mp_xg_weight = lit (45/100),
     mp_rank_weight = lit (20/100), mp_injury_weight = lit (15/100), mp_h2h_weight = lit (15/100),
     mp_home_advantage = lit (35/100), mp_draw_prior = lit (26/100), mp_temperature = lit 1\<rparr>"

definition tool_side_score :: "libm \<Rightarrow> model_tool \<Rightarrow> side_stats \<Rightarrow> side_stats \<Rightarrow> f64" where
  "tool_side_score m t side opp =
     (let s1 = fadd (fmul (mp_form_weight t) (fsub (sd_form side) (sd_form opp)))
                 (fmul (mp_xg_weight t) (fsub (sd_xg side) (sd_xg opp)));
          s2 = (case (sd_rank side, sd_rank opp) of
                  (Some side_rank, Some opp_rank) \<Rightarrow>
                    fadd s1 (fmul (mp_rank_weight t) (lm_tanh m (fdiv (fsub opp_rank side_rank) (lit 5))))
                | _ \<Rightarrow> s1)
      in fadd s2 (fmul (mp_injury_weight t) (fsub (sd_injuries opp) (sd_injuries side))))"

definition probabilities_json :: "distribution \<Rightarrow> json" where
  "probabilities_json d =
     JObj [(''away'', jfloat (ds_away d)), (''draw'', jfloat (ds_draw d)), (''home'', jfloat (ds_home d))]"

definition thirds :: distribution where
  "thirds = \<lparr>ds_home = fdiv (lit 1) (lit 3), ds_draw = fdiv (lit 1) (lit 3), ds_away = fdiv (lit 1) (lit 3)\<rparr>"

definition tool_softmax :: "libm \<Rightarrow> f64 list \<Rightarrow> distribution" where
  "tool_softmax m scaled =
     (let top = foldl fmax (Infty True) scaled;
          exps = map (\<lambda>v. lm_exp m (fsub v top)) scaled;
          total = fsum exps
      in if flt (lit 0) total
         then \<lparr>ds_home = fdiv (exps ! 0) total, ds_draw = fdiv (exps ! 1) total, ds_away = fdiv (exps ! 2) total\<rparr>
         else thirds)"

definition compute_model_probability ::
    "libm \<Rightarrow> model_tool \<Rightarrow> model_probability_input \<Rightarrow> (tool_call_error + json) exec" where
  "compute_model_probability m t args =
     (let home_score = fadd (fadd (tool_side_score m t (mt_home args) (mt_away args)) (mp_home_advantage t))
                         (fmul (mp_h2h_weight t) (mt_h2h args));
          away_score = fsub (tool_side_score m t (mt_away args) (mt_home args))
                         (fmul (mp_h2h_weight t) (mt_h2h args))
      in exec_map
           (\<lambda>draw_prior.
              let draw = fsub (lm_ln m (fdiv draw_prior (fsub (lit 1) draw_prior)))
                           (fmul (lit (1/2)) (fabs (fsub home_score away_score)));
                  temp = (if flt (lit (1 / 10 ^ 6)) (mp_temperature t) then mp_temperature t else lit 1)
              in Inr (probabilities_json
                   (tool_softmax m [fdiv home_score temp, fdiv draw temp, fdiv away_score temp])))
           (fclamp (mp_draw_prior t) (lit (1 / 10 ^ 6)) (fsub (lit 1) (lit (1 / 10 ^ 6)))))"

section \<open>The fair-probability tool\<close>

record fair_input =
  fi_home :: "f64 option"
  fi_draw :: "f64 option"
  fi_away :: "f64 option"

record fair_output =
  fo_home :: "f64 option"
  fo_draw :: "f64 option"
  fo_away :: "f64 option"

definition fair_json :: "fair_output \<Rightarrow> json" where
  \<comment> \<open>absent fields are skipped\<close>
  "fair_json out =
     (let field = (\<lambda>k v. case v of None \<Rightarrow> [] | Some x \<Rightarrow> [(k, jfloat x)])
      in JObj (field ''away'' (fo_away out) @ field ''draw'' (fo_draw out) @ field ''home'' (fo_home out)))"

definition set_fair :: "f64 \<Rightarrow> fair_output \<Rightarrow> nat \<times> f64 \<Rightarrow> fair_output" where
  "set_fair whole out = (\<lambda>(i, p).
     let normalised = fdiv p whole
     in if i = 0 then out\<lparr>fo_home := Some normalised\<rparr>
        else if i = 1 then out\<lparr>fo_draw := Some normalised\<rparr>
        else out\<lparr>fo_away := Some normalised\<rparr>)"

definition fair_fields :: "fair_input \<Rightarrow> fair_output" where
  "fair_fields args =
     (let entries = [(0, fi_home args), (1, fi_draw args), (2, fi_away args)];
          implied = List.map_filter (\<lambda>(i, odds). map_option (Pair i) (Option.bind odds implied_probability)) entries;
          total = fsum (map snd implied);
          none = \<lparr>fo_home = None, fo_draw = None, fo_away = None\<rparr>
      in if fle total (lit 0) then none else foldl (set_fair total) none implied)"

definition compute_fair_probability :: "fair_input \<Rightarrow> tool_call_error + json" where
  "compute_fair_probability args = Inr (fair_json (fair_fields args))"

section \<open>Doubles up to the sign of zero\<close>

definition same :: "f64 \<Rightarrow> f64 \<Rightarrow> bool" where
  "same x y \<longleftrightarrow> x = y \<or> (is_finite x \<and> is_finite y \<and> fval x = 0 \<and> fval y = 0)"

lemma same_refl [simp]: "same x x"
  by (simp add: same_def)

lemma same_cases:
  assumes "same x y"
  shows "fval x = fval y" "is_finite x = is_finite y" "is_nan x = is_nan y" "\<not> is_finite x \<Longrightarrow> x = y"
  using assms by (auto simp: same_def)

lemma zero_cases: "is_finite x \<Longrightarrow> fval x = 0 \<Longrightarrow> x = Fin 0 \<or> x = NegZero"
  by (cases x) auto

lemma same_of_q: "same (of_q s q) (of_q s' q)"
  by (auto simp: same_def of_q_def Let_def)

lemma same_fadd: assumes "same a b" and "same x y" shows "same (fadd a x) (fadd b y)"
proof (cases "is_finite a \<and> is_finite x")
  case True
  then show ?thesis
    using same_cases(1,2) [OF assms(1)] same_cases(1,2) [OF assms(2)] by (simp add: fadd_def same_of_q)
next
  case False
  then consider "\<not> is_finite a" "b = a" | "\<not> is_finite x" "y = x"
    using same_cases(4) [OF assms(1)] same_cases(4) [OF assms(2)] by auto
  then show ?thesis
    using same_cases(2,3) [OF assms(1)] same_cases(2,3) [OF assms(2)]
      same_cases(4) [OF assms(1)] same_cases(4) [OF assms(2)]
    by cases (auto simp: fadd_def)
qed

lemma same_fminus: "same x y \<Longrightarrow> same (fminus x) (fminus y)"
  by (auto simp: same_def)

lemma same_fsub: "same a b \<Longrightarrow> same x y \<Longrightarrow> same (fsub a x) (fsub b y)"
  unfolding fsub_def by (intro same_fadd same_fminus)

lemma same_fdiv: assumes "same a b" and "is_finite t" and "fval t \<noteq> 0" shows "same (fdiv a t) (fdiv b t)"
proof (cases "is_finite a")
  case True
  then show ?thesis using same_cases(1,2) [OF assms(1)] assms(2,3) by (simp add: fdiv_def same_of_q)
next
  case False
  then have "b = a" using same_cases(4) [OF assms(1)] by simp
  then show ?thesis by simp
qed

lemma same_fabs: "same x y \<Longrightarrow> fabs x = fabs y"
  by (auto simp: same_def dest!: zero_cases)

lemma same_fle: "same a b \<Longrightarrow> same x y \<Longrightarrow> fle a x = fle b y"
  by (auto simp: same_def fle_def)

lemma same_fmax: assumes "same a b" and "same x y" shows "same (fmax a x) (fmax b y)"
  using assms same_fle [OF assms] same_fle [OF assms(2,1)] same_cases(3) [OF assms(1)] same_cases(3) [OF assms(2)]
  by (simp add: fmax_def flt_def)

lemma same_zero_fadd: "is_f64 x \<Longrightarrow> same (fadd (lit 0) x) x"
  by (cases x) (auto simp: fadd_def of_q_def Let_def same_def)

lemma exp_same: "exp_ok e \<Longrightarrow> same x y \<Longrightarrow> e x = e y"
  by (auto simp: same_def exp_ok_def dest!: zero_cases)

section \<open>The two ports of the model agree\<close>

lemma fmax_neg_infinity: "\<not> is_nan x \<Longrightarrow> fmax (Infty True) x = x"
  by (cases x) (auto simp: fmax_def flt_def fle_def)

definition has_nan :: "f64 list \<Rightarrow> bool" where
  "has_nan xs \<longleftrightarrow> (\<exists>x \<in> set xs. is_nan x)"

lemma fadd_nan: "is_nan a \<or> is_nan b \<Longrightarrow> fadd a b = NaN"
  by (simp add: fadd_def)

lemma is_nan_iff: "is_nan x \<longleftrightarrow> x = NaN"
  by (cases x) auto

lemma fsub_nan: "fsub NaN x = NaN"
  by (simp add: fsub_def fadd_def)

lemma shift_le:
  assumes "fle x t" and "\<not> is_nan (fsub x t)"
  shows "fle (fsub x t) (Fin 0)"
proof (cases "is_finite x \<and> is_finite t")
  case True
  have "rnd (fval x - fval t) \<le> 0" using assms(1) True rnd_mono [of "fval x - fval t" 0] by (simp add: fle_finite)
  then show ?thesis
    using True by (auto simp: fsub_def fadd_def of_q_def Let_def fle_def)
next
  case False
  then show ?thesis
    using assms by (cases x; cases t) (auto simp: fsub_def fadd_def fle_def split: if_splits)
qed

lemma fmax_ge: "\<not> is_nan x \<Longrightarrow> \<not> is_nan y \<Longrightarrow> fle x (fmax x y) \<and> fle y (fmax x y) \<and> \<not> is_nan (fmax x y)"
  using fle_total [of x y] fle_refl [of x] fle_refl [of y] by (auto simp: fmax_def flt_def)

text \<open>The sum is a number exactly when each of the three shifted logits is one.\<close>

lemma softmax_total:
  assumes "exp_ok e" and "e NaN = NaN" and "\<not> is_nan h" and "\<not> is_nan d" and "\<not> is_nan a"
  defines "t \<equiv> fmax (fmax h d) a"
  defines "s \<equiv> fadd (fadd (e (fsub h t)) (e (fsub d t))) (e (fsub a t))"
  shows "s = NaN \<or> (\<forall>x \<in> {h, d, a}. unit_interval (e (fsub x t))) \<and> is_finite s"
proof (cases "s = NaN")
  case False
  have le: "fle x t" if "x \<in> {h, d, a}" for x
    using that fmax_ge [OF assms(3,4)] fmax_ge [of "fmax h d" a] assms(5) fle_trans by (auto simp: t_def)
  have "\<not> is_nan (e (fsub x t))" if "x \<in> {h, d, a}" for x
    using that False by (auto simp: s_def fadd_nan)
  then have "\<not> is_nan (fsub x t)" if "x \<in> {h, d, a}" for x using that assms(2) is_nan_iff by force
  then have u: "unit_interval (e (fsub x t))" if "x \<in> {h, d, a}" for x
    using shift_le [OF le] that assms(1) by (auto simp: exp_ok_def unit_interval_def)
  have hd: "is_finite (e (fsub h t))" "is_finite (e (fsub d t))" "0 \<le> fval (e (fsub h t))" "0 \<le> fval (e (fsub d t))"
    "fval (e (fsub h t)) + fval (e (fsub d t)) \<le> 4" using u [of h] u [of d] by (auto simp: unit_interval_def)
  note r = fadd_small_err [OF hd]
  have "pow2 (- 51) \<le> 1" by (simp add: pow2_def)
  then have "fval (fadd (e (fsub h t)) (e (fsub d t))) + fval (e (fsub a t)) \<le> 4"
    using r(2) u [of h] u [of d] u [of a] by (auto simp: unit_interval_def)
  then have "is_finite s"
    unfolding s_def using fadd_small_err(1) [OF r(1) _ r(3)] u [of a] by (auto simp: unit_interval_def)
  then show ?thesis using u by blast
qed simp


lemma of_q_not_nan [simp]: "\<not> is_nan (of_q s q)"
  by (simp add: of_q_def Let_def)

definition or_thirds :: "distribution \<Rightarrow> distribution" where
  "or_thirds d = (if is_nan (ds_home d) then thirds else d)"

lemma fsum3: "is_f64 x \<Longrightarrow> fsum [x, y, z] = fadd (fadd x y) z"
  by (simp add: fsum_def fadd_NegZero)

lemma fle_NaN [simp]: "\<not> fle NaN x" "\<not> fle x NaN" "\<not> flt NaN x" "\<not> flt x NaN" "fdiv x NaN = NaN"
  by (auto simp: fle_def flt_def fdiv_def)

lemma softmax_agree:
  assumes e: "exp_ok (lm_exp m)" "lm_exp m NaN = NaN"
    and "same h h'" and "same d d'" and "same a a'"
  shows "tool_softmax m [h', d', a'] = or_thirds (softmax m h d a)"
proof (cases "is_nan h \<or> is_nan d \<or> is_nan a")
  case True
  then have "h' = NaN \<or> d' = NaN \<or> a' = NaN" "h = NaN \<or> d = NaN \<or> a = NaN"
    using assms(3-5) same_cases(3) is_nan_iff by metis+
  then show ?thesis
    using e(2) by (auto simp: tool_softmax_def softmax_def or_thirds_def Let_def fsum_def fadd_nan fsub_nan)
next
  case False
  let ?e = "lm_exp m" and ?t = "fmax (fmax h d) a" and ?t' = "fmax (fmax h' d') a'"
  have f: "is_f64 (?e x)" for x using e(1) by (simp add: exp_ok_def)
  have t: "same ?t ?t'" using assms(3-5) by (intro same_fmax)
  have nn: "\<not> is_nan h'" using False same_cases(3) [OF assms(3)] by simp
  have ee: "?e (fsub h' ?t') = ?e (fsub h ?t)" "?e (fsub d' ?t') = ?e (fsub d ?t)" "?e (fsub a' ?t') = ?e (fsub a ?t)"
    using exp_same [OF e(1) same_fsub [OF assms(3) t]] exp_same [OF e(1) same_fsub [OF assms(4) t]]
      exp_same [OF e(1) same_fsub [OF assms(5) t]] by simp_all
  let ?s = "fadd (fadd (?e (fsub h ?t)) (?e (fsub d ?t))) (?e (fsub a ?t))"
  let ?d = "\<lparr>ds_home = fdiv (?e (fsub h ?t)) ?s, ds_draw = fdiv (?e (fsub d ?t)) ?s, ds_away = fdiv (?e (fsub a ?t)) ?s\<rparr>"
  have tool: "tool_softmax m [h', d', a'] = (if flt (lit 0) ?s then ?d else thirds)"
    using fmax_neg_infinity [OF nn] by (simp add: tool_softmax_def Let_def ee fsum3 [OF f])
  have lib: "softmax m h d a = (if fle ?s (lit 0) then thirds else ?d)"
    by (simp add: softmax_def Let_def thirds_def)
  from softmax_total [OF e, of h d a] False consider "?s = NaN"
    | "unit_interval (?e (fsub h ?t))" "is_finite ?s" by auto
  then show ?thesis
  proof cases
    case 1
    then show ?thesis unfolding tool lib by (simp add: or_thirds_def)
  next
    case 2
    then have "\<not> is_nan (ds_home ?d)" if "\<not> fle ?s (lit 0)"
      using that by (auto simp: fdiv_def unit_interval_def fle_finite)
    then show ?thesis
      unfolding tool lib using 2(2) by (auto simp: or_thirds_def flt_finite fle_finite)
  qed
qed

lemma side_scores_same:
  "same (side_score m s p fundamentals_default) (tool_side_score m model_tool_default s p)"
proof -
  let ?P = "fmul (lit (30/100)) (fsub (sd_form s) (sd_form p))"
  let ?Q = "fmul (lit (45/100)) (fsub (sd_xg s) (sd_xg p))"
  have "same (fadd (fadd (lit 0) ?P) ?Q) (fadd ?P ?Q)"
    by (intro same_fadd same_zero_fadd) simp_all
  then show ?thesis
    unfolding side_score_def tool_side_score_def Let_def fundamentals_default_def model_tool_default_def
    by (auto intro!: same_fadd split: option.splits)
qed

lemma prior_values:
  "fclamp (lit (26/100)) (lit (1 / 10 ^ 6)) (fsub (lit 1) (lit (1 / 10 ^ 6))) = Return (lit (26/100))"
  "fmax (lit (26/100)) (lit (1 / 10 ^ 6)) = lit (26/100)"
  "fmax (fsub (lit 1) (lit (26/100))) (lit (1 / 10 ^ 6)) = fsub (lit 1) (lit (26/100))"
  "flt (lit (1 / 10 ^ 6)) (lit 1)"
  by code_simp+

lemma default_fields:
  "fc_temperature fundamentals_default = lit 1" "mp_temperature model_tool_default = lit 1"
  "mp_draw_prior model_tool_default = lit (26/100)" "mp_home_advantage model_tool_default = lit (35/100)"
  "mp_h2h_weight model_tool_default = lit (15/100)"
  by (simp_all add: fundamentals_default_def model_tool_default_def)

lemma compute_model_agrees:
  assumes e: "exp_ok (lm_exp m)" "lm_exp m NaN = NaN"
  shows "compute_model_probability m model_tool_default st =
           Return (Inr (probabilities_json (or_thirds (model_distribution m st fundamentals_default))))"
proof -
  let ?h = "home_logit m st fundamentals_default" and ?a = "away_logit m st fundamentals_default"
  let ?h' = "fadd (fadd (tool_side_score m model_tool_default (mt_home st) (mt_away st)) (lit (35/100)))
               (fmul (lit (15/100)) (mt_h2h st))"
  let ?a' = "fsub (tool_side_score m model_tool_default (mt_away st) (mt_home st)) (fmul (lit (15/100)) (mt_h2h st))"
  have h: "same ?h ?h'" and a: "same ?a ?a'"
    by (auto simp: home_logit_def away_logit_def fundamentals_default_def [symmetric]
          intro!: same_fadd same_fsub side_scores_same)
       (simp_all add: fundamentals_default_def)
  let ?D = "draw_logit m fundamentals_default ?h ?a"
  let ?D' = "fsub (lm_ln m (fdiv (lit (26/100)) (fsub (lit 1) (lit (26/100)))))
      (fmul (lit (1/2)) (fabs (fsub ?h' ?a')))"
  have D: "?D = ?D'"
    using same_fabs [OF same_fsub [OF h a]] prior_values
    by (simp add: draw_logit_def fundamentals_default_def Let_def)
  have one: "same (fdiv x (lit 1)) (fdiv y (lit 1))" if "same x y" for x y
    using that by (intro same_fdiv) simp_all
  have lib: "model_distribution m st fundamentals_default =
      softmax m (fdiv ?h (lit 1)) (fdiv ?D' (lit 1)) (fdiv ?a (lit 1))"
    by (simp only: model_distribution_def Let_def default_fields prior_values(4) if_True D)
  show ?thesis
    unfolding lib softmax_agree [OF e one [OF h] same_refl one [OF a], symmetric]
    by (simp only: compute_model_probability_def Let_def default_fields prior_values(1,4) if_True exec_map.simps)
qed


section \<open>The fair-probability tool and the library agree\<close>

definition quotes :: "fair_input \<Rightarrow> (selection \<times> f64) list" where
  "quotes args = List.map_filter (\<lambda>(s, odds). map_option (Pair s) odds)
     [(Home, fi_home args), (Draw, fi_draw args), (Away, fi_away args)]"

lemma fair_fields_agree:
  "fair_fields args = \<lparr>fo_home = map_of (fair_probabilities (quotes args)) Home,
     fo_draw = map_of (fair_probabilities (quotes args)) Draw,
     fo_away = map_of (fair_probabilities (quotes args)) Away\<rparr>"
proof -
  have opt: "(\<exists>x p. v = Some x \<and> implied_probability x = Some p) \<or>
      (\<exists>x. v = Some x \<and> implied_probability x = None) \<or> v = None" for v
    by (cases v; cases "implied_probability (the v)") auto
  show ?thesis
    using opt [of "fi_home args"] opt [of "fi_draw args"] opt [of "fi_away args"]
    by (elim disjE exE conjE)
       (simp_all add: fair_fields_def fair_probabilities_def quotes_def set_fair_def Let_def List.map_filter_simps)
qed

section \<open>The movement test\<close>

lemma rep_below_4:
  assumes "rnd p = p" and "2 \<le> p" and "p < 4"
  shows "p \<le> 4 - pow2 (- 51)"
proof -
  have "p \<le> pow2 2 - pow2 (2 - 53)" using assms by (intro rep_below_pow2) (simp_all add: pow2_def)
  then show ?thesis by (simp add: pow2_def)
qed

lemma lit_4_half: "lit 4 = Fin 4" "lit (1/2) = Fin (1/2)"
proof -
  have "rnd (1/2) = 1/2" using rnd_pow2 [of "- 1"] by (simp add: pow2_def)
  then show "lit 4 = Fin 4" "lit (1/2) = Fin (1/2)"
    using lit_Fin [of 4] lit_Fin [of "1/2"] rnd_of_int [of 4] by simp_all
qed

lemma half_exact: "is_finite x \<Longrightarrow> fval x \<in> {0..1} \<Longrightarrow> is_finite (fmul x (Fin (1/2))) \<and> 0 \<le> fval (fmul x (Fin (1/2)))
    \<and> fval (fmul x (Fin (1/2))) \<le> 1/2"
proof -
  assume x: "is_finite x" "fval x \<in> {0..1}"
  have half: "rnd (1/2) = 1/2" using rnd_pow2 [of "- 1"] by (simp add: pow2_def)
  have "\<bar>fval x * (1/2)\<bar> \<le> 2 ^ 53" using x by simp
  then show ?thesis
    using fmul_finite [of x "Fin (1/2)"] x rnd_nonneg [of "fval x / 2"] rnd_le_rnd [of "fval x / 2" "1/2"] half by auto
qed

lemma sharp_confidence:
  assumes "\<not> is_nan p" and "fle (lit 4) p"
  obtains c where "movement_confidence (lit 4) p = Return c" and "unit_interval c" and "1/2 \<le> fval c"
proof -
  let ?x = "fdiv (fsub p (Fin 4)) (Fin 4)"
  have nn: "\<not> is_nan ?x"
    using assms(1) by (cases p) (auto simp: fsub_def fadd_def fdiv_def)
  obtain y where y: "fclamp ?x (lit 0) (lit 1) = Return y" by (simp add: fclamp_def fle_finite)
  have r: "fle (lit 0) y \<and> fle y (lit 1)" using fclamp_range [OF y nn] .
  then have "is_finite y \<and> fval y \<in> {0..1}"
    by (cases y) (auto simp: fle_def)
  then have h: "is_finite (fmul y (Fin (1/2)))" "0 \<le> fval (fmul y (Fin (1/2)))" "fval (fmul y (Fin (1/2))) \<le> 1/2"
    using half_exact by auto
  let ?c = "fadd (fmul y (Fin (1/2))) (Fin (1/2))"
  let ?q = "fval (fmul y (Fin (1/2))) + 1/2"
  have half: "rnd (1/2) = 1/2" using rnd_pow2 [of "- 1"] by (simp add: pow2_def)
  have q: "\<bar>?q\<bar> \<le> 2 ^ 53" using h(2,3) by simp
  have v: "is_finite ?c \<and> fval ?c = rnd ?q" using fadd_finite [of "fmul y (Fin (1/2))" "Fin (1/2)"] h q by auto
  have "rnd ?q \<le> 1" using h(3) by (intro rnd_le_rnd) simp_all
  moreover have "1/2 \<le> rnd ?q" using h(2) half by (intro rnd_ge_rnd) simp_all
  ultimately show thesis
    using that [of ?c] v y assms(2) by (simp add: movement_confidence_def unit_interval_def lit_4_half)
qed

lemma mild_confidence:
  assumes "is_f64 p" and "is_finite p" and "0 \<le> fval p" and "fval p < 4"
  obtains c where "movement_confidence (lit 4) p = Return c" and "unit_interval c" and "fval c < 1/2"
proof -
  let ?x = "fdiv p (Fin 4)"
  have rep: "rnd (fval p) = fval p" using is_f64_fval [OF assms(1)] by simp
  have le: "fval p / 4 \<le> 1 - pow2 (- 53)"
  proof (cases "2 \<le> fval p")
    case True
    then show ?thesis using rep_below_4 [OF rep True assms(4)] by (simp add: pow2_def)
  next
    case False
    have "pow2 (- 53) \<le> 1/2" by (simp add: pow2_def)
    then show ?thesis using False by linarith
  qed
  have "\<bar>fval p / 4\<bar> \<le> 2 ^ 53" using assms(3,4) by simp
  then have x: "is_finite ?x" "fval ?x = rnd (fval p / 4)" using fdiv_finite [of p "Fin 4"] assms(2) by auto
  have xb: "0 \<le> fval ?x" "fval ?x \<le> 1 - pow2 (- 53)"
    using x assms(3) rnd_le_rnd [OF le rnd_below_1] by (simp_all add: rnd_nonneg)
  let ?c = "fmul ?x (Fin (1/2))"
  have "fval ?x \<le> 1" using xb(2) pow2_pos [of "- 53"] by linarith
  then have "\<bar>fval ?x * (1/2)\<bar> \<le> 2 ^ 53" using xb by simp
  then have c: "is_finite ?c" "fval ?c = rnd (fval ?x / 2)" using fmul_finite [of ?x "Fin (1/2)"] x(1) by auto
  have g: "rnd ((1 - pow2 (- 53)) / 2) = (1 - pow2 (- 53)) / 2"
    by (rule rnd_grid [where m = "2 ^ 53 - 1" and e = "- 54"]) (simp_all add: pow2_def)
  have "rnd (fval ?x / 2) \<le> (1 - pow2 (- 53)) / 2" using xb by (intro rnd_le_rnd g) simp
  moreover have "(1 - pow2 (- 53)) / 2 < 1/2" by simp
  ultimately have "fval ?c < 1/2" using c(2) by linarith
  moreover have "0 \<le> fval ?c" using c xb by (simp add: rnd_nonneg)
  ultimately show thesis
    using that [of ?c] c assms(2,4) by (simp add: movement_confidence_def unit_interval_def lit_4_half fle_finite)
qed

lemma fabs_cases: "is_nan x \<or> fabs x = Infty False \<or> (is_finite (fabs x) \<and> 0 \<le> fval (fabs x))"
  by (cases x) auto

lemma pct_change_number:
  assumes "is_finite c" and "is_finite p" and "0 < fval p"
  shows "\<not> is_nan (fmul (fdiv (fsub c p) p) (lit 100))"
proof -
  have l: "is_finite (lit 100)" "fval (lit 100) = 100" using lit_finite [of 100] rnd_of_int [of 100] by auto
  have "\<not> is_nan (fdiv (fsub c p) p)"
    using assms by (auto simp: fdiv_def fsub_def fadd_def)
  then show ?thesis using l by (auto simp: fmul_def)
qed

lemma sharp_movement_spec:
  assumes "is_f64 c" and "is_f64 p" and "is_finite c" and "is_finite p" and "0 < fval c" and "0 < fval p"
  shows "\<exists>r. sharp_movement default_threshold_pct c p = Return (Inr r)
           \<and> unit_interval (mr_confidence r)
           \<and> mr_is_sharp_move r = (1/2 \<le> fval (mr_confidence r))
           \<and> mr_is_sharp_move r = fle (lit 4) (mr_pct_change r)
           \<and> mr_direction r = (if fval c < fval p then ''shortening'' else ''drifting'')"
proof -
  let ?x = "fabs (fmul (fdiv (fsub c p) p) (lit 100))"
  have nn: "\<not> is_nan ?x" using pct_change_number [OF assms(3,4,6)] by (cases "fmul (fdiv (fsub c p) p) (lit 100)") auto
  have "is_f64 (fmul (fdiv (fsub c p) p) (lit 100))" by simp
  then have f: "is_f64 ?x" by (cases "fmul (fdiv (fsub c p) p) (lit 100)") (auto simp: abs_if)
  have "\<exists>k. movement_confidence (lit 4) ?x = Return k \<and> unit_interval k \<and> fle (lit 4) ?x = (1/2 \<le> fval k)"
  proof (cases "fle (lit 4) ?x")
    case True
    then show ?thesis by (rule sharp_confidence [OF nn]) (use True in auto)
  next
    case False
    then have "is_finite ?x" "0 \<le> fval ?x" "fval ?x < 4"
      using fabs_cases [of "fmul (fdiv (fsub c p) p) (lit 100)"] pct_change_number [OF assms(3,4,6)]
      by (auto simp: lit_4_half fle_def)
    then show ?thesis by (rule mild_confidence [OF f]) (use False in auto)
  qed
  then obtain k where k: "movement_confidence (lit 4) ?x = Return k" "unit_interval k"
    "fle (lit 4) ?x = (1/2 \<le> fval k)" by blast
  then show ?thesis
    using assms(3-6) by (simp add: sharp_movement_def default_threshold_pct_def Let_def fle_finite flt_finite)
qed

section \<open>Properties\<close>

text \<open>
  C25: the two computing tools give the agents what the library computes. With its defaults
  \<open>compute_model_probability\<close> answers the library's distribution, number for number, except
  that it answers thirds where the library's result is not a number; the fair-probability
  tool answers the entries of the library's normalised map.
\<close>
theorem tools_agree_with_library:
  assumes "exp_ok (lm_exp m)" and "lm_exp m NaN = NaN"
  shows "compute_model_probability m model_tool_default st =
           Return (Inr (probabilities_json
             (let d = model_distribution m st fundamentals_default
              in if is_nan (ds_home d) then thirds else d)))
         \<and> compute_fair_probability args = Inr (fair_json
             (let fair = fair_probabilities (quotes args)
              in \<lparr>fo_home = map_of fair Home, fo_draw = map_of fair Draw, fo_away = map_of fair Away\<rparr>))"
  using compute_model_agrees [OF assms, of st]
  by (simp add: or_thirds_def Let_def compute_fair_probability_def fair_fields_agree)

text \<open>
  For two positive prices the movement test always answers; its confidence lies between 0
  and 1, reaches one half exactly for the moves it calls sharp, which are those of at least
  four percent, and the direction is that of the price. A price of zero or less is refused.
\<close>
theorem sharp_movement_graded:
  assumes "is_f64 c" and "is_f64 p" and "is_finite c" and "is_finite p"
  shows "if 0 < fval c \<and> 0 < fval p
         then \<exists>r. compute_sharp_movement default_threshold_pct c p = Return (Inr (movement_json r))
                \<and> is_finite (mr_confidence r) \<and> 0 \<le> fval (mr_confidence r) \<and> fval (mr_confidence r) \<le> 1
                \<and> mr_is_sharp_move r = (1/2 \<le> fval (mr_confidence r))
                \<and> mr_is_sharp_move r = fle (lit 4) (mr_pct_change r)
                \<and> mr_direction r = (if fval c < fval p then ''shortening'' else ''drifting'')
         else compute_sharp_movement default_threshold_pct c p = Return (Inl ''odds must be positive decimals'')"
proof (cases "0 < fval c \<and> 0 < fval p")
  case True
  with sharp_movement_spec [OF assms] obtain r where
    "sharp_movement default_threshold_pct c p = Return (Inr r)" "unit_interval (mr_confidence r)"
    "mr_is_sharp_move r = (1/2 \<le> fval (mr_confidence r))" "mr_is_sharp_move r = fle (lit 4) (mr_pct_change r)"
    "mr_direction r = (if fval c < fval p then ''shortening'' else ''drifting'')" by blast
  then show ?thesis
    using True by (auto simp: compute_sharp_movement_def unit_interval_def intro!: exI [of _ r])
next
  case False
  then show ?thesis
    using assms(3,4) by (auto simp: compute_sharp_movement_def sharp_movement_def fle_finite)
qed

section \<open>Witnesses\<close>

theorem tools_agree_with_library_witness:
  "compute_model_probability approx_libm model_tool_default neutral_match =
     Return (Inr (probabilities_json
       (let d = model_distribution approx_libm neutral_match fundamentals_default
        in if is_nan (ds_home d) then thirds else d)))
   \<and> compute_fair_probability \<lparr>fi_home = Some (lit 2), fi_draw = None, fi_away = Some (lit 2)\<rparr> = Inr (fair_json
       (let fair = fair_probabilities [(Home, lit 2), (Away, lit 2)]
        in \<lparr>fo_home = map_of fair Home, fo_draw = map_of fair Draw, fo_away = map_of fair Away\<rparr>))"
proof -
  have nan: "lm_exp approx_libm NaN = NaN" by (simp add: approx_libm_def approx_exp_def)
  have ok: "exp_ok (lm_exp approx_libm)" using approx_exp_ok by (simp add: approx_libm_def)
  have q: "quotes \<lparr>fi_home = Some (lit 2), fi_draw = None, fi_away = Some (lit 2)\<rparr> = [(Home, lit 2), (Away, lit 2)]"
    by (simp add: quotes_def List.map_filter_simps)
  from tools_agree_with_library [OF ok nan, of neutral_match
      "\<lparr>fi_home = Some (lit 2), fi_draw = None, fi_away = Some (lit 2)\<rparr>"]
  show ?thesis unfolding q .
qed

theorem sharp_movement_graded_witness:
  "\<exists>r. compute_sharp_movement default_threshold_pct (lit 4) (lit 2) = Return (Inr (movement_json r))
     \<and> is_finite (mr_confidence r) \<and> 0 \<le> fval (mr_confidence r) \<and> fval (mr_confidence r) \<le> 1
     \<and> mr_is_sharp_move r = (1/2 \<le> fval (mr_confidence r))
     \<and> mr_is_sharp_move r = fle (lit 4) (mr_pct_change r)
     \<and> mr_direction r = ''drifting''"
proof -
  have l: "lit 2 = Fin 2" using lit_Fin [of 2] rnd_of_int [of 2] by simp
  have r: "rnd 4 = 4" "rnd 2 = 2" using rnd_of_int [of 4] rnd_of_int [of 2] by simp_all
  have h: "(4 :: rat) < huge" "(2 :: rat) < huge" by (simp_all add: huge_def)
  show ?thesis
    using sharp_movement_graded [of "lit 4" "lit 2"] r h by (simp add: lit_4_half l)
qed

end
