(* ===== verification/Backtest.thy ===== *)
theory Backtest
  imports Ledger_Facts Rig_Tools
begin

text \<open>
  The backtest engine (\<open>services/backtest.rs\<close>) and its commands: the odds history of a
  completed fixture is fetched hour by hour around the kick-off, sharp moves are found with
  the agents' own tool (\<open>Rig_Tools\<close>), and a following and a fading position are settled
  for each against the final score. Network, clock and identifiers are the world \<open>'w\<close>;
  the conversion of a timestamp to text and the printer of JSON are arguments. Times are
  \<open>i64\<close> milliseconds that wrap.
\<close>

section \<open>Data\<close>

record strategy_tally =
  ta_agent_id :: string
  ta_taken :: u32
  ta_won :: u32
  ta_total_pnl :: f64
  ta_win_rate :: f64

record backtest_summary =
  bs_fixture_id :: u64
  bs_home :: string
  bs_away :: string
  bs_final_score :: string
  bs_ticks :: nat
  bs_signals :: nat
  bs_follow :: strategy_tally
  bs_fade :: strategy_tally
  bs_positions :: "arena_position list"
  bs_narrative :: "string option"

record odds_tick =
  tk_ts :: i64
  tk_outcome :: string
  tk_decimal :: f64

record 'w backtest_env =
  be_post :: "string \<Rightarrow> 'w \<Rightarrow> (string + data_answer) \<times> 'w"
  be_get :: "string \<Rightarrow> string \<Rightarrow> string \<Rightarrow> (string \<times> string) list \<Rightarrow> 'w \<Rightarrow> (string + data_answer) \<times> 'w"
  be_io :: "'w io"
  be_time :: "i64 \<Rightarrow> string option"
  be_print :: "json \<Rightarrow> string"
  be_prose_model :: string

section \<open>Fetching and parsing\<close>

definition outcome_name :: "string \<Rightarrow> string option" where
  "outcome_name raw =
     (let n = to_ascii_lowercase raw
      in if n = ''part1'' \<or> n = ''home'' \<or> n = ''1'' then Some ''home''
         else if n = ''draw'' \<or> n = ''x'' then Some ''draw''
         else if n = ''part2'' \<or> n = ''away'' \<or> n = ''2'' then Some ''away''
         else None)"

definition tick_of :: "i64 \<Rightarrow> json \<times> json \<Rightarrow> odds_tick option" where
  "tick_of ts = (\<lambda>(name_val, price_val).
     Option.bind (Option.bind (as_str name_val) outcome_name) (\<lambda>outcome.
     Option.bind (as_f64 price_val) (\<lambda>raw_price.
       let decimal = (if fle (lit 100) raw_price then fdiv raw_price (lit 1000) else raw_price)
       in if fle decimal (lit 1) then None
          else Some \<lparr>tk_ts = ts, tk_outcome = outcome, tk_decimal = decimal\<rparr>)))"

definition market_row_ticks :: "u64 \<Rightarrow> json \<Rightarrow> odds_tick list" where
  "market_row_ticks fixture row =
     (if Option.bind (jget row ''FixtureId'') as_u64 \<noteq> Some fixture then []
      else if (case Option.bind (jget row ''MarketPeriod'') as_str of None \<Rightarrow> False | Some p \<Rightarrow> p \<noteq> ''ft'') then []
      else case (Option.bind (jget row ''PriceNames'') as_array, Option.bind (jget row ''Prices'') as_array,
                 Option.bind (jget row ''Ts'') as_i64) of
             (Some names, Some prices, Some ts) \<Rightarrow>
               if length names \<noteq> 3 \<or> length prices \<noteq> 3 then [] else List.map_filter (tick_of ts) (zip names prices)
           | _ \<Rightarrow> [])"

definition parse_market_rows :: "json \<Rightarrow> u64 \<Rightarrow> odds_tick list" where
  "parse_market_rows raw fixture =
     (case as_array raw of None \<Rightarrow> [] | Some rows \<Rightarrow> concat (map (market_row_ticks fixture) rows))"

definition parse_nested_score :: "json \<Rightarrow> (i64 \<times> i64) option" where
  "parse_nested_score action =
     Option.bind (jget action ''Score'') (\<lambda>score.
     Option.bind (Option.bind (jpointer score [''Participant1'', ''Total'', ''Goals'']) as_i64) (\<lambda>p1.
     Option.bind (Option.bind (jpointer score [''Participant2'', ''Total'', ''Goals'']) as_i64) (\<lambda>p2.
       Some (if unwrap_or True (Option.bind (jget action ''Participant1IsHome'') as_bool) then (p1, p2) else (p2, p1)))))"

definition latest_score_in_window :: "json \<Rightarrow> u64 \<Rightarrow> (i64 \<times> i64) option" where
  "latest_score_in_window raw fixture =
     Option.bind (as_array raw) (\<lambda>rows.
       find_map parse_nested_score
         (filter (\<lambda>row. Option.bind (jget row ''FixtureId'') as_u64 = Some fixture) (rev rows)))"

definition wrap_i64 :: "int \<Rightarrow> i64" where
  "wrap_i64 n = sint (word_of_int n :: 64 word)"

definition day_ms :: int where "day_ms = 86400000"
definition hour_ms :: int where "hour_ms = 3600000"

definition window_path :: "string \<Rightarrow> i64 \<Rightarrow> int \<Rightarrow> string" where
  "window_path kind kickoff hour_offset =
     (let window = wrap_i64 (kickoff + hour_offset * hour_ms)
      in ''api/'' @ kind @ ''/updates/'' @ show_int (window div day_ms) @ ''/''
         @ show_int (window mod day_ms div hour_ms) @ ''/1'')"

definition fetch_rows ::
    "'w backtest_env \<Rightarrow> app_config \<Rightarrow> string \<Rightarrow> 'w \<Rightarrow> (app_error + json) \<times> 'w" where
  "fetch_rows env cfg path w = authenticated_get (be_post env) (be_get env) cfg path [] w"

fun fetch_windows ::
    "'w backtest_env \<Rightarrow> app_config \<Rightarrow> u64 \<Rightarrow> i64 \<Rightarrow> int list \<Rightarrow> odds_tick list \<times> (i64 \<times> i64) option \<Rightarrow> 'w \<Rightarrow>
       (app_error + odds_tick list \<times> (i64 \<times> i64) option) \<times> 'w" where
  "fetch_windows env cfg fixture kickoff [] acc w = (Inr acc, w)"
| "fetch_windows env cfg fixture kickoff (h # hs) (ticks, score) w =
     (case fetch_rows env cfg (window_path ''odds'' kickoff h) w of
        (Inl e, w1) \<Rightarrow> (Inl e, w1)
      | (Inr odds_raw, w1) \<Rightarrow>
     (case fetch_rows env cfg (window_path ''scores'' kickoff h) w1 of
        (Inl e, w2) \<Rightarrow> (Inl e, w2)
      | (Inr scores_raw, w2) \<Rightarrow>
          fetch_windows env cfg fixture kickoff hs
            (ticks @ parse_market_rows odds_raw fixture,
             opt_or (latest_score_in_window scores_raw fixture) score) w2))"

definition fetch_ticks_and_final_score ::
    "'w backtest_env \<Rightarrow> app_config \<Rightarrow> u64 \<Rightarrow> i64 \<Rightarrow> 'w \<Rightarrow> (app_error + odds_tick list \<times> (i64 \<times> i64) option) \<times> 'w" where
  "fetch_ticks_and_final_score env cfg fixture kickoff w =
     (case fetch_windows env cfg fixture kickoff [- 1 .. 4] ([], None) w of
        (Inl e, w1) \<Rightarrow> (Inl e, w1)
      | (Inr (ticks, score), w1) \<Rightarrow> (Inr (sort_key tk_ts ticks, score), w1))"

section \<open>Settling\<close>

definition follow_agent :: string where "follow_agent = ''match-intelligence-backtest''"
definition fade_agent :: string where "fade_agent = ''contrarian-backtest''"

text \<open>What the two positions of a signal share.\<close>

record move_facts =
  mf_fixture :: u64
  mf_selection :: string
  mf_odds :: f64
  mf_move_pct :: f64
  mf_confidence :: f64
  mf_recorded_at :: string
  mf_winner :: string
  mf_final_score :: string

definition simulate_position ::
    "'w io \<Rightarrow> string \<Rightarrow> strategy \<Rightarrow> direction \<Rightarrow> move_facts \<Rightarrow> 'w \<Rightarrow> arena_position \<times> 'w" where
  "simulate_position io agent strat dir f w =
     (let selection_won = eq_ignore_ascii_case (mf_winner f) (mf_selection f);
          won = (case dir of With \<Rightarrow> selection_won | Against \<Rightarrow> \<not> selection_won);
          pnl = (if won then fsub (mf_odds f) (lit 1) else lit (- 1))
      in case io_uuid io w of (uuid, w1) \<Rightarrow>
         case io_now_iso io w1 of (now, w2) \<Rightarrow>
           (\<lparr>ap_position_id = uuid, ap_agent_id = agent, ap_strategy = strat, ap_fixture_id = mf_fixture f,
             ap_market_key = ''1x2'', ap_selection = mf_selection f, ap_odds_at_entry = mf_odds f,
             ap_odds_move_pct = mf_move_pct f, ap_direction = dir, ap_confidence = mf_confidence f,
             ap_recorded_at = mf_recorded_at f, ap_tx_signature = None,
             ap_outcome = Some \<lparr>oc_selection_won = won, oc_final_score = mf_final_score f, oc_pnl_points = pnl,
               oc_settled_at = now, oc_settlement_tx = None\<rparr>\<rparr>, w2))"

definition ts_to_iso :: "'w backtest_env \<Rightarrow> i64 \<Rightarrow> 'w \<Rightarrow> string \<times> 'w" where
  "ts_to_iso env ts w = (case be_time env ts of Some s \<Rightarrow> (s, w) | None \<Rightarrow> io_now_iso (be_io env) w)"

record 'w replay_state =
  bk_last_seen :: "string \<Rightarrow> f64 option"
  bk_positions :: "arena_position list"
  bk_signals :: nat
  bk_world :: 'w

definition take_pair :: "'w backtest_env \<Rightarrow> (string \<Rightarrow> move_facts) \<Rightarrow> odds_tick \<Rightarrow> f64 \<Rightarrow> 'w replay_state \<Rightarrow> 'w replay_state" where
  \<comment> \<open>\<open>facts\<close> lacks only the time of the record\<close>
  "take_pair env facts tk previous st =
     (let shortened = flt (tk_decimal tk) previous;
          (follow_dir, fade_dir) = (if shortened then (With, Against) else (Against, With))
      in case ts_to_iso env (tk_ts tk) (bk_world st) of (stamp, w) \<Rightarrow>
         case simulate_position (be_io env) follow_agent FollowSharp follow_dir (facts stamp) w of (p, w1) \<Rightarrow>
         case simulate_position (be_io env) fade_agent FadeSharp fade_dir (facts stamp) w1 of (q, w2) \<Rightarrow>
           st\<lparr>bk_positions := bk_positions st @ [p, q], bk_signals := bk_signals st + 1, bk_world := w2\<rparr>)"

definition replay_tick ::
    "'w backtest_env \<Rightarrow> f64 \<Rightarrow> u64 \<Rightarrow> string \<Rightarrow> string \<Rightarrow> odds_tick \<Rightarrow> 'w replay_state \<Rightarrow> (app_error + 'w replay_state) exec" where
  "replay_tick env threshold fixture winner final_score tk st =
     (let st1 = st\<lparr>bk_last_seen := (bk_last_seen st)(tk_outcome tk \<mapsto> tk_decimal tk)\<rparr>
      in case bk_last_seen st (tk_outcome tk) of
           None \<Rightarrow> Return (Inr st1)
         | Some previous \<Rightarrow>
             if flt (fabs (fsub (tk_decimal tk) previous)) f_epsilon then Return (Inr st1)
             else exec_map
               (\<lambda>r. case r of
                  Inl e \<Rightarrow> Inl (TaskError (''compute_sharp_movement failed: '' @ show_tool_call_error e))
                | Inr movement \<Rightarrow>
                    if \<not> unwrap_or False (Option.bind (jget movement ''is_sharp_move'') as_bool) then Inr st1
                    else Inr (take_pair env
                      (\<lambda>stamp. \<lparr>mf_fixture = fixture, mf_selection = tk_outcome tk, mf_odds = tk_decimal tk,
                             mf_move_pct = unwrap_or (lit 0) (Option.bind (jget movement ''pct_change'') as_f64),
                             mf_confidence = unwrap_or (lit (1/2)) (Option.bind (jget movement ''confidence'') as_f64),
                             mf_recorded_at = stamp, mf_winner = winner, mf_final_score = final_score\<rparr>)
                      tk previous st1))
               (compute_sharp_movement threshold (tk_decimal tk) previous))"

fun replay_ticks ::
    "'w backtest_env \<Rightarrow> f64 \<Rightarrow> u64 \<Rightarrow> string \<Rightarrow> string \<Rightarrow> odds_tick list \<Rightarrow> 'w replay_state \<Rightarrow> (app_error + 'w replay_state) exec" where
  "replay_ticks env threshold fixture winner final_score [] st = Return (Inr st)"
| "replay_ticks env threshold fixture winner final_score (t # ts) st =
     exec_bind (replay_tick env threshold fixture winner final_score t st)
       (\<lambda>r. case r of Inl e \<Rightarrow> Return (Inl e)
            | Inr st1 \<Rightarrow> replay_ticks env threshold fixture winner final_score ts st1)"

definition tally :: "string \<Rightarrow> strategy \<Rightarrow> arena_position list \<Rightarrow> strategy_tally" where
  "tally agent strat positions =
     (let e = from_positions agent strat positions
      in \<lparr>ta_agent_id = lb_agent_id e, ta_taken = lb_taken e, ta_won = lb_won e,
          ta_total_pnl = lb_total_pnl e, ta_win_rate = lb_win_rate e\<rparr>)"

definition tally_json :: "strategy_tally \<Rightarrow> json" where
  "tally_json t = JObj [(''agentId'', JStr (ta_agent_id t)), (''positionsTaken'', JInt (uint (ta_taken t))),
     (''positionsWon'', JInt (uint (ta_won t))), (''totalPnlPoints'', jfloat (ta_total_pnl t)),
     (''winRate'', jfloat (ta_win_rate t))]"

definition narration_request :: "'w backtest_env \<Rightarrow> backtest_summary \<Rightarrow> llm_request" where
  "narration_request env s =
     \<lparr>lr_system = join_with '' '' [''You explain an already-settled sports-betting backtest result.'',
        ''Every number below is final, computed by code from real historical odds and the real final score.'',
        ''Use only the supplied facts; never invent a statistic and never recommend a future bet.'',
        ''Write two to three concise sentences comparing Follow Sharp against Fade Sharp on this fixture.''],
      lr_user = be_print env (JObj [(''fade'', tally_json (bs_fade s)), (''finalScore'', JStr (bs_final_score s)),
        (''fixture'', JStr (bs_home s @ '' vs '' @ bs_away s)), (''follow'', tally_json (bs_follow s)),
        (''oddsTicksProcessed'', JInt (int (bs_ticks s))), (''signalsDetected'', JInt (int (bs_signals s)))]),
      lr_model = be_prose_model env, lr_max_tokens = 250, lr_temperature = lit (6/10)\<rparr>"

definition narrate_backtest :: "'w backtest_env \<Rightarrow> app_config \<Rightarrow> backtest_summary \<Rightarrow> 'w \<Rightarrow> string option \<times> 'w" where
  "narrate_backtest env cfg s w =
     (if bs_signals s = 0 then (None, w)
      else case llm_complete (be_io env) cfg (narration_request env s) w of
             (Inr r, w1) \<Rightarrow> (if ls_used r then Some (ls_text r) else None, w1)
           | (Inl e, w1) \<Rightarrow> (None, w1))"

definition winner_of :: "i64 \<Rightarrow> i64 \<Rightarrow> string" where
  "winner_of home away = (if away < home then ''home'' else if home < away then ''away'' else ''draw'')"

definition replay_fixture ::
    "'w backtest_env \<Rightarrow> app_config \<Rightarrow> u64 \<Rightarrow> string \<Rightarrow> string \<Rightarrow> i64 \<Rightarrow> 'w \<Rightarrow> ((app_error + backtest_summary) \<times> 'w) exec" where
  "replay_fixture env cfg fixture home away kickoff w =
     (case fetch_ticks_and_final_score env cfg fixture kickoff w of
        (Inl e, w1) \<Rightarrow> Return (Inl e, w1)
      | (Inr (ticks, None), w1) \<Rightarrow>
          Return (Inl (InvalidInput (''fixture '' @ show_u64 fixture @ '' has no final score yet '' @ ch_dash
            @ '' backtest needs a completed match'')), w1)
      | (Inr (ticks, Some (h, a)), w1) \<Rightarrow>
          let final_score = show_int h @ ''-'' @ show_int a in
          exec_map
            (\<lambda>r. case r of
               Inl e \<Rightarrow> (Inl e, w1)
             | Inr st \<Rightarrow>
                 let s = \<lparr>bs_fixture_id = fixture, bs_home = home, bs_away = away, bs_final_score = final_score,
                          bs_ticks = length ticks, bs_signals = bk_signals st,
                          bs_follow = tally follow_agent FollowSharp (bk_positions st),
                          bs_fade = tally fade_agent FadeSharp (bk_positions st),
                          bs_positions = bk_positions st, bs_narrative = None\<rparr>
                 in case narrate_backtest env cfg s (bk_world st) of
                      (n, w2) \<Rightarrow> (Inr (s\<lparr>bs_narrative := n\<rparr>), w2))
            (replay_ticks env (odds_move_trigger_pct cfg) fixture (winner_of h a) final_score ticks
               \<lparr>bk_last_seen = Map.empty, bk_positions = [], bk_signals = 0, bk_world = w1\<rparr>))"

section \<open>commands/backtest.rs\<close>

definition run_backtest ::
    "'w backtest_env \<Rightarrow> app_config \<Rightarrow> bool \<Rightarrow> u64 \<Rightarrow> string \<Rightarrow> string \<Rightarrow> i64 \<Rightarrow> ledger \<times> 'w \<Rightarrow>
       ((app_error + backtest_summary) \<times> ledger \<times> 'w) exec" where
  \<comment> \<open>\<open>poisoned\<close>: the ledger's lock\<close>
  "run_backtest env cfg poisoned fixture home away kickoff = (\<lambda>(db, w).
     exec_map
       (\<lambda>r. case r of
          (Inl e, w1) \<Rightarrow> (Inl e, db, w1)
        | (Inr s, w1) \<Rightarrow>
            if poisoned then (Inl LockPoisoned, db, w1)
            else if \<not> uint fixture < 2 ^ 63 then (Inl (InvalidInput ''fixture_id too large''), db, w1)
            else case replace_backtest_settlements (uint fixture) home away (bs_positions s) db of
                   (Inl e, db1) \<Rightarrow> (Inl e, db1, w1)
                 | (Inr _, db1) \<Rightarrow> (Inr s, db1, w1))
       (replay_fixture env cfg fixture home away kickoff w))"

end
