(* ===== verification/Backtest_Facts.thy ===== *)
theory Backtest_Facts
  imports Backtest
begin

text \<open>
  Facts about the backtest: the positions of a replay are mirrored pairs, one per signal
  (an invariant kept by every tick), the tallies count them, and every request of the
  engine is on the allow list as it is written, for any kick-off time.
\<close>

section \<open>Mirrored pairs\<close>

definition mirrored :: "u64 \<Rightarrow> string \<Rightarrow> string \<Rightarrow> arena_position \<times> arena_position \<Rightarrow> bool" where
  "mirrored fixture winner final_score = (\<lambda>(p, q).
     ap_agent_id p = follow_agent \<and> ap_agent_id q = fade_agent
     \<and> ap_strategy p = FollowSharp \<and> ap_strategy q = FadeSharp
     \<and> ap_fixture_id p = fixture \<and> ap_fixture_id q = fixture
     \<and> ap_selection p = ap_selection q \<and> ap_odds_at_entry p = ap_odds_at_entry q
     \<and> ap_odds_move_pct p = ap_odds_move_pct q \<and> ap_confidence p = ap_confidence q
     \<and> ap_recorded_at p = ap_recorded_at q \<and> ap_direction p \<noteq> ap_direction q
     \<and> is_won p \<noteq> is_won q
     \<and> is_won p = ((ap_direction p = With) = eq_ignore_ascii_case winner (ap_selection p))
     \<and> (\<forall>r \<in> {p, q}. \<exists>oc. ap_outcome r = Some oc \<and> oc_final_score oc = final_score
          \<and> oc_pnl_points oc = (if is_won r then fsub (ap_odds_at_entry r) (lit 1) else lit (- 1))))"

definition both :: "arena_position \<times> arena_position \<Rightarrow> arena_position list" where
  "both = (\<lambda>(p, q). [p, q])"

lemma simulate_pair:
  assumes "simulate_position io follow_agent FollowSharp d f w = (p, w1)"
    and "simulate_position io fade_agent FadeSharp e f w1 = (q, w2)" and "d \<noteq> e"
  shows "mirrored (mf_fixture f) (mf_winner f) (mf_final_score f) (p, q)"
  using assms
  by (cases d; cases e)
     (auto simp: simulate_position_def mirrored_def is_won_def Let_def split: prod.splits)

definition pairs_inv :: "u64 \<Rightarrow> string \<Rightarrow> string \<Rightarrow> 'w replay_state \<Rightarrow> bool" where
  "pairs_inv fixture winner final_score st \<longleftrightarrow>
     (\<exists>ps. bk_positions st = concat (map both ps) \<and> length ps = bk_signals st
        \<and> list_all (mirrored fixture winner final_score) ps)"

lemma take_pair_inv:
  assumes "pairs_inv fixture winner fs st"
    and "\<And>s. mf_fixture (facts s) = fixture \<and> mf_winner (facts s) = winner \<and> mf_final_score (facts s) = fs"
  shows "pairs_inv fixture winner fs (take_pair env facts t prev st)"
proof -
  obtain ps where ps: "bk_positions st = concat (map both ps)" "length ps = bk_signals st"
    "list_all (mirrored fixture winner fs) ps" using assms(1) by (auto simp: pairs_inv_def)
  obtain stamp w where w: "ts_to_iso env (tk_ts t) (bk_world st) = (stamp, w)" by (metis prod.exhaust)
  obtain d e where de: "(if flt (tk_decimal t) prev then (With, Against) else (Against, With)) = (d, e)"
    by (metis prod.exhaust)
  then have ne: "d \<noteq> e" by (auto split: if_splits)
  obtain p w1 where p: "simulate_position (be_io env) follow_agent FollowSharp d (facts stamp) w = (p, w1)"
    by (metis prod.exhaust)
  obtain q w2 where q: "simulate_position (be_io env) fade_agent FadeSharp e (facts stamp) w1 = (q, w2)"
    by (metis prod.exhaust)
  have "take_pair env facts t prev st =
      st\<lparr>bk_positions := bk_positions st @ [p, q], bk_signals := bk_signals st + 1, bk_world := w2\<rparr>"
    using w de p q by (simp add: take_pair_def Let_def)
  moreover have "mirrored fixture winner fs (p, q)" using simulate_pair [OF p q ne] assms(2) by metis
  ultimately show ?thesis
    unfolding pairs_inv_def using ps by (intro exI [of _ "ps @ [(p, q)]"]) (simp add: both_def)
qed

lemma replay_tick_inv:
  assumes "replay_tick env th fixture winner fs t st = Return (Inr st')" and "pairs_inv fixture winner fs st"
  shows "pairs_inv fixture winner fs st'"
proof -
  let ?s = "st\<lparr>bk_last_seen := (bk_last_seen st)(tk_outcome t \<mapsto> tk_decimal t)\<rparr>"
  have s: "pairs_inv fixture winner fs ?s" using assms(2) by (simp add: pairs_inv_def)
  have "st' = ?s \<or> (\<exists>facts prev. st' = take_pair env facts t prev ?s
      \<and> (\<forall>u. mf_fixture (facts u) = fixture \<and> mf_winner (facts u) = winner \<and> mf_final_score (facts u) = fs))"
  proof (cases "bk_last_seen st (tk_outcome t)")
    case None
    then show ?thesis using assms(1) by (simp add: replay_tick_def)
  next
    case (Some prev)
    show ?thesis
    proof (cases "compute_sharp_movement th (tk_decimal t) prev")
      case Panic
      then show ?thesis using assms(1) Some by (auto simp: replay_tick_def Let_def split: if_splits)
    next
      case (Return r)
      then show ?thesis
        using assms(1) Some
        by (cases r) (fastforce simp: replay_tick_def Let_def split: if_splits)+
    qed
  qed
  then show ?thesis using s take_pair_inv [OF s] by auto
qed

lemma replay_ticks_inv:
  "replay_ticks env th fixture winner fs ts st = Return (Inr st') \<Longrightarrow> pairs_inv fixture winner fs st \<Longrightarrow>
     pairs_inv fixture winner fs st'"
proof (induction ts arbitrary: st)
  case (Cons t ts)
  then obtain st1 where st1: "replay_tick env th fixture winner fs t st = Return (Inr st1)"
    "replay_ticks env th fixture winner fs ts st1 = Return (Inr st')"
    by (cases "replay_tick env th fixture winner fs t st") (auto split: sum.splits)
  then show ?case using Cons.IH replay_tick_inv Cons.prems(2) by blast
qed simp

section \<open>Tallies\<close>

lemma agents_differ: "follow_agent \<noteq> fade_agent"
  by (simp add: follow_agent_def fade_agent_def)

lemma settled_follow:
  "list_all (mirrored fixture winner fs) ps \<Longrightarrow>
     filter (\<lambda>p. ap_agent_id p = follow_agent \<and> ap_outcome p \<noteq> None) (concat (map both ps)) = map fst ps"
  using agents_differ by (induction ps) (auto simp: mirrored_def both_def)

lemma settled_fade:
  "list_all (mirrored fixture winner fs) ps \<Longrightarrow>
     filter (\<lambda>p. ap_agent_id p = fade_agent \<and> ap_outcome p \<noteq> None) (concat (map both ps)) = map snd ps"
  using agents_differ by (induction ps) (auto simp: mirrored_def both_def)

lemma won_complement:
  "list_all (mirrored fixture winner fs) ps \<Longrightarrow>
     length (filter is_won (map fst ps)) + length (filter is_won (map snd ps)) = length ps"
  by (induction ps) (auto simp: mirrored_def)

lemma tallies:
  assumes "list_all (mirrored fixture winner fs) ps" and "positions = concat (map both ps)"
  shows "ta_taken (tally follow_agent FollowSharp positions) = of_nat (length ps)"
    and "ta_taken (tally fade_agent FadeSharp positions) = of_nat (length ps)"
    and "ta_won (tally follow_agent FollowSharp positions) + ta_won (tally fade_agent FadeSharp positions) = of_nat (length ps)"
  using settled_follow [OF assms(1)] settled_fade [OF assms(1)] won_complement [OF assms(1)]
  unfolding assms(2) by (simp_all add: tally_def from_positions_def Let_def flip: of_nat_add)

text \<open>
  C30: a backtest that answers has settled its positions in mirrored pairs, one pair per detected
  signal: the following and the fading agent take the same selection at the same price and time in
  opposite directions, exactly one of the two wins (the follower when its direction agrees with the
  final score), the winner earns the price less one and the loser loses one; both tallies count every
  signal and their wins add up to it. The narration changes none of it.
\<close>
theorem backtest_settles_in_pairs:
  assumes "replay_fixture env cfg fixture home away kickoff w = Return (Inr s, w')"
  shows "\<exists>ps h a. bs_positions s = concat (map both ps) \<and> length ps = bs_signals s
           \<and> list_all (mirrored fixture (winner_of h a) (bs_final_score s)) ps
           \<and> bs_final_score s = show_int h @ ''-'' @ show_int a
           \<and> ta_taken (bs_follow s) = of_nat (bs_signals s) \<and> ta_taken (bs_fade s) = of_nat (bs_signals s)
           \<and> ta_won (bs_follow s) + ta_won (bs_fade s) = of_nat (bs_signals s)"
proof -
  obtain ticks h a w1 where f: "fetch_ticks_and_final_score env cfg fixture kickoff w = (Inr (ticks, Some (h, a)), w1)"
    using assms by (auto simp: replay_fixture_def split: prod.splits sum.splits option.splits)
  let ?fs = "show_int h @ ''-'' @ show_int a"
  let ?st = "\<lparr>bk_last_seen = Map.empty, bk_positions = [], bk_signals = 0, bk_world = w1\<rparr>"
  obtain st where r: "replay_ticks env (odds_move_trigger_pct cfg) fixture (winner_of h a) ?fs ticks ?st = Return (Inr st)"
    using assms f
    by (cases "replay_ticks env (odds_move_trigger_pct cfg) fixture (winner_of h a) ?fs ticks ?st")
       (auto simp: replay_fixture_def Let_def split: sum.splits)
  have s: "bs_positions s = bk_positions st" "bs_signals s = bk_signals st" "bs_final_score s = ?fs"
    "bs_follow s = tally follow_agent FollowSharp (bk_positions st)" "bs_fade s = tally fade_agent FadeSharp (bk_positions st)"
    using assms f r by (auto simp: replay_fixture_def Let_def split: prod.splits)
  have "pairs_inv fixture (winner_of h a) ?fs ?st" by (simp add: pairs_inv_def)
  then obtain ps where ps: "bk_positions st = concat (map both ps)" "length ps = bk_signals st"
    "list_all (mirrored fixture (winner_of h a) ?fs) ps"
    using replay_ticks_inv [OF r] by (auto simp: pairs_inv_def)
  show ?thesis
    using tallies [OF ps(3,1)] ps s by (intro exI [of _ ps] exI [of _ h] exI [of _ a]) simp
qed

section \<open>The requests\<close>

fun double_slash :: "string \<Rightarrow> bool" where
  "double_slash [] = False"
| "double_slash (c # s) = ((c = CHR ''/'' \<and> s \<noteq> [] \<and> hd s = CHR ''/'') \<or> double_slash s)"

lemma double_slash_append:
  "double_slash (s @ t) = (double_slash s \<or> double_slash t \<or> (s \<noteq> [] \<and> t \<noteq> [] \<and> last s = CHR ''/'' \<and> hd t = CHR ''/''))"
  by (induction s) (auto simp: hd_append)

lemma double_slash_no: "CHR ''/'' \<notin> set s \<Longrightarrow> \<not> double_slash s"
  by (induction s) auto

lemma contains_sub_split: assumes "contains_sub s p" obtains a b where "s = a @ p @ b"
  using assms find_sub_Some [of p s] by (fastforce simp: contains_sub_def)

lemma contains_sub_subset: "contains_sub s p \<Longrightarrow> set p \<subseteq> set s"
  by (erule contains_sub_split) auto

lemma contains_double_slash: "contains_sub s ''//'' \<Longrightarrow> double_slash s"
  by (erule contains_sub_split) (auto simp: double_slash_append)

definition path_char :: "char \<Rightarrow> bool" where
  "path_char c \<longleftrightarrow> ascii_lower c \<or> ascii_digit c \<or> c = CHR ''/'' \<or> c = CHR ''-''"

lemma path_char_no: "path_char c \<Longrightarrow> c \<notin> {CHR '':'', CHR 0x5C, CHR ''.'', CHR ''#'', CHR ''?''}"
  by (auto simp: path_char_def ascii_lower_def ascii_digit_def)

lemma split_once_None: "c \<notin> set s \<Longrightarrow> split_once c s = None"
  by (induction s) auto

lemma path_not_disallowed:
  assumes "list_all path_char s" and "\<not> double_slash s"
  shows "\<not> disallowed_path s" and "split_once (CHR ''?'') s = None"
proof -
  have no: "c \<notin> set s" if "c \<in> {CHR '':'', CHR 0x5C, CHR ''.'', CHR ''#'', CHR ''?''}" for c
  proof
    assume "c \<in> set s"
    then have "path_char c" using assms(1) by (simp add: list_all_iff)
    then show False using path_char_no that by blast
  qed
  show "split_once (CHR ''?'') s = None" by (rule split_once_None) (rule no, simp)
  have "\<not> contains_sub s ''://''" "\<not> contains_sub s [CHR 0x5C]" "\<not> contains_sub s ''..''" "\<not> contains_sub s ''#''"
    using no [of "CHR '':''"] no [of "CHR 0x5C"] no [of "CHR ''.''"] no [of "CHR ''#''"]
    by (auto dest: contains_sub_subset)
  then show "\<not> disallowed_path s" using assms(2) contains_double_slash unfolding disallowed_path_def by blast
qed

lemma show_int_path: "list_all path_char (show_int n) \<and> show_int n \<noteq> [] \<and> CHR ''/'' \<notin> set (show_int n)"
proof -
  have d: "list_all ascii_digit (show_dec m)" if "0 \<le> m" for m using that by (rule show_dec_digits)
  have p: "ascii_digit c \<Longrightarrow> path_char c" for c by (simp add: path_char_def)
  have q: "\<not> ascii_digit (CHR ''/'')" by (simp add: ascii_digit_def)
  have "path_char (CHR ''-'')" by (simp add: path_char_def)
  then show ?thesis
    using d [of n] d [of "- n"] p q by (auto simp: show_int_def list_all_iff)
qed

lemma normalize_plain:
  assumes "trim s = s" and "\<not> disallowed_path s" and "split_once (CHR ''?'') s = None" and "trim_char (CHR ''/'') s = s"
    and "prefix_of ''api/'' s" and "is_allowed_data_path s"
  shows "normalize_data_path s = Inr s"
  using assms by (simp add: normalize_data_path_def Let_def)

text \<open>Every request of the engine is one the allow list lets through, as it is written.\<close>

lemma window_path_ok:
  assumes "kind \<in> {''odds'', ''scores''}"
  shows "normalize_data_path (window_path kind kickoff h) = Inr (window_path kind kickoff h)"
proof -
  let ?w = "wrap_i64 (kickoff + h * hour_ms)"
  let ?d = "show_int (?w div day_ms)" and ?h = "show_int (?w mod day_ms div hour_ms)"
  let ?p = "''api/'' @ kind @ ''/updates/'' @ ?d @ ''/'' @ ?h @ ''/1''"
  have p: "window_path kind kickoff h = ?p" by (simp add: window_path_def Let_def)
  note dd = show_int_path [of "?w div day_ms"] and hh = show_int_path [of "?w mod day_ms div hour_ms"]
  have pre: "list_all path_char (''api/'' @ kind @ ''/updates/'')" "\<not> double_slash (''api/'' @ kind @ ''/updates/'')"
    "last (''api/'' @ kind @ ''/updates/'') = CHR ''/''"
    using assms by (auto simp: path_char_def ascii_lower_def ascii_digit_def)
  have ends: "path_char (CHR ''/'')" "path_char (CHR ''1'')" by (auto simp: path_char_def ascii_digit_def)
  have ok: "list_all path_char ?p" using pre(1) dd hh ends by simp
  have nd: "\<not> double_slash ?d" "\<not> double_slash ?h" "hd ?d \<noteq> CHR ''/''" "last ?d \<noteq> CHR ''/''"
    "hd ?h \<noteq> CHR ''/''" "last ?h \<noteq> CHR ''/''"
    using dd hh double_slash_no hd_in_set last_in_set by metis+
  have "\<not> double_slash (?h @ ''/1'')" using nd hh by (simp add: double_slash_append)
  then have "\<not> double_slash (''/'' @ ?h @ ''/1'')" using nd hh by (simp add: hd_append)
  then have "\<not> double_slash (?d @ ''/'' @ ?h @ ''/1'')" using nd dd by (simp add: double_slash_append)
  then have "\<not> double_slash ((''api/'' @ kind @ ''/updates/'') @ ?d @ ''/'' @ ?h @ ''/1'')"
    using pre(2) nd dd by (simp only: double_slash_append [of "''api/'' @ kind @ ''/updates/''"]) (simp add: hd_append)
  then have ds: "\<not> double_slash ?p" by simp
  note nda = path_not_disallowed [OF ok ds]
  have w: "word_char (CHR ''a'')" "word_char (CHR ''1'')" by code_simp+
  have body: "?p = CHR ''a'' # (''pi/'' @ kind @ ''/updates/'' @ ?d @ ''/'' @ ?h @ ''/'') @ [CHR ''1'']" by simp
  have tr: "trim ?p = ?p" unfolding body by (rule trim_word_ends [OF w])
  have tc: "trim_char (CHR ''/'') ?p = ?p" by (simp add: trim_char_def)
  have al: "is_allowed_data_path ?p"
    using assms by (auto simp: is_allowed_data_path_def allowed_prefixes_def)
  have api: "prefix_of ''api/'' ?p" by simp
  show ?thesis unfolding p by (rule normalize_plain [OF tr nda tc api al])
qed

lemma fetch_rows_window:
  assumes "kind \<in> {''odds'', ''scores''}" and "txline_guest_jwt cfg = Some jwt" and "txline_api_token cfg = Some token"
    and "\<And>u v. be_get env u jwt token [] v = (Inr \<lparr>da_status = 200, da_json = Inr body\<rparr>, v)"
  shows "fetch_rows env cfg (window_path kind kickoff h) w = (Inr body, w)"
  using assms by (simp add: fetch_rows_def authenticated_get_def window_path_ok answer_json_def Let_def)


section \<open>Witness\<close>

definition price_row :: "int \<Rightarrow> rat \<Rightarrow> json" where
  "price_row ts price = JObj [(''FixtureId'', JInt 7), (''Ts'', JInt ts),
     (''PriceNames'', JArr [JStr ''home'', JStr ''draw'', JStr ''away'']),
     (''Prices'', JArr [JFloat (Fin price), JInt 1, JInt 1]),
     (''Score'', JObj [(''Participant1'', JObj [(''Total'', JObj [(''Goals'', JInt 2)])]),
                     (''Participant2'', JObj [(''Total'', JObj [(''Goals'', JInt 0)])])])]"

definition sample_feed :: json where
  "sample_feed = JArr [price_row 1 2, price_row 2 3]"

definition sample_replay_env :: "nat backtest_env" where
  "sample_replay_env = \<lparr>be_post = (\<lambda>u w. (Inl ''unused'', w)),
     be_get = (\<lambda>u j t q w. (Inr \<lparr>da_status = 200, da_json = Inr sample_feed\<rparr>, w)),
     be_io = \<lparr>io_http = (\<lambda>q w. (Inl ''offline'', w)), io_parse = (\<lambda>s. Inl ''offline''), io_show_status = show_nat,
       io_now = id, io_sleep = (+), io_uuid = (\<lambda>w. (show_nat w, Suc w)), io_now_iso = (\<lambda>w. (''now'', w))\<rparr>,
     be_time = (\<lambda>t. Some ''then''), be_print = (\<lambda>j. ''{}''), be_prose_model = ''m''\<rparr>"

definition sample_replay_config :: app_config where
  "sample_replay_config = sample_config\<lparr>txline_guest_jwt := Some ''j'', txline_api_token := Some ''t'',
     odds_move_trigger_pct := Fin 5, llm_provider := ''none''\<rparr>"

definition tick1 :: odds_tick where "tick1 = \<lparr>tk_ts = 1, tk_outcome = ''home'', tk_decimal = Fin 2\<rparr>"
definition tick2 :: odds_tick where "tick2 = \<lparr>tk_ts = 2, tk_outcome = ''home'', tk_decimal = Fin 3\<rparr>"

lemma sample_feed_parse:
  "parse_market_rows sample_feed 7 = [tick1, tick2]" "latest_score_in_window sample_feed 7 = Some (2, 0)"
  by code_simp+

lemma sample_fetch:
  "fetch_ticks_and_final_score sample_replay_env sample_replay_config 7 k w =
     (Inr (replicate 6 tick1 @ replicate 6 tick2, Some (2, 0)), w)"
proof -
  have f: "fetch_rows sample_replay_env sample_replay_config (window_path kind k h) v = (Inr sample_feed, v)"
    if "kind \<in> {''odds'', ''scores''}" for kind h v
    using that by (intro fetch_rows_window) (simp_all add: sample_replay_env_def sample_replay_config_def)
  have "[- 1 .. 4] = [- 1, 0, 1, 2, 3, 4 :: int]" by (simp add: upto_rec1)
  then show ?thesis
    by (simp add: fetch_ticks_and_final_score_def f sample_feed_parse tick1_def tick2_def numeral_eq_Suc)
qed

lemma sample_ticks:
  "(case replay_ticks sample_replay_env (Fin 5) 7 ''home'' ''2-0'' (replicate 6 tick1 @ replicate 6 tick2)
      \<lparr>bk_last_seen = Map.empty, bk_positions = [], bk_signals = 0, bk_world = 0\<rparr> of
      Return (Inr st) \<Rightarrow> bk_signals st = 1 | _ \<Rightarrow> False)"
  by code_simp


theorem backtest_settles_in_pairs_witness:
  "\<exists>s w'. replay_fixture sample_replay_env sample_replay_config 7 ''H'' ''A'' 0 0 = Return (Inr s, w')
     \<and> bs_signals s = 1
     \<and> (\<exists>ps h a. bs_positions s = concat (map both ps) \<and> length ps = 1
          \<and> list_all (mirrored 7 (winner_of h a) (bs_final_score s)) ps
          \<and> ta_won (bs_follow s) + ta_won (bs_fade s) = 1)"
proof -
  let ?st = "\<lparr>bk_last_seen = Map.empty, bk_positions = [], bk_signals = 0, bk_world = 0\<rparr>"
  let ?ticks = "replicate 6 tick1 @ replicate 6 tick2"
  obtain st where st: "replay_ticks sample_replay_env (Fin 5) 7 ''home'' ''2-0'' ?ticks ?st = Return (Inr st)" "bk_signals st = 1"
    using sample_ticks by (auto split: exec.splits sum.splits)
  have v: "winner_of 2 0 = ''home''" "show_int 2 @ ''-'' @ show_int 0 = ''2-0''" by code_simp+
  have o: "odds_move_trigger_pct sample_replay_config = Fin 5" by (simp add: sample_replay_config_def)
  have "\<exists>s w'. replay_fixture sample_replay_env sample_replay_config 7 ''H'' ''A'' 0 0 = Return (Inr s, w') \<and> bs_signals s = 1"
    using st by (simp add: replay_fixture_def sample_fetch v o Let_def del: append.append_Cons replicate.simps split: prod.split)
  then obtain s w' where r: "replay_fixture sample_replay_env sample_replay_config 7 ''H'' ''A'' 0 0 = Return (Inr s, w')"
    "bs_signals s = 1" by blast
  show ?thesis using backtest_settles_in_pairs [OF r(1)] r by auto
qed

end
