(* ===== verification/Payments.thy ===== *)
theory Payments
  imports Ledger_Facts
begin

text \<open>
  The payment commands of the desk (\<open>commands/payments.rs\<close>) and the thin chain commands
  (\<open>commands/chain.rs\<close>): an intent is created and stored, its reference is watched, and a
  later check asks the cluster for signatures that mention the reference. The desk's
  shared state is the record \<open>desk\<close>; the events it emits are listed in it. A ledger
  lock that was poisoned answers \<open>LockPoisoned\<close>. The property states what makes an
  intent confirmed, and that nothing else of it can change.
\<close>

datatype desk_event =
    PayIntentEvent pay_intent
  | PayStatusEvent pay_intent
  | ChainSlotEvent chain_health
  | SettleReceiptEvent chain_observation

record 'w desk =
  dk_cfg :: app_config
  dk_ledger :: ledger
  dk_poisoned :: bool
  dk_watched :: "string list option"
  dk_accounts :: "string list"
  dk_programs :: "string list"
  dk_events :: "desk_event list"
  dk_world :: 'w

text \<open>\<open>dk_watched\<close> is \<open>None\<close> when the Yellowstone observer does not run.\<close>

record 'w pay_env =
  pe_rpc :: "'w rpc_io"
  pe_codec :: ledger_codec
  pe_encode :: "string \<Rightarrow> string"
  pe_entropy :: "'w \<Rightarrow> (string + string) \<times> 'w"
  pe_base58 :: "string \<Rightarrow> string"
  pe_now :: "'w \<Rightarrow> string"
  pe_fault :: "'w \<Rightarrow> string option"

record intent_view =
  iv_intent :: pay_intent
  iv_url :: string

definition view_of :: "'w pay_env \<Rightarrow> pay_intent \<Rightarrow> intent_view" where
  "view_of env i = \<lparr>iv_intent = i, iv_url = payment_url (pe_encode env) i\<rparr>"

definition emit :: "desk_event \<Rightarrow> 'w desk \<Rightarrow> 'w desk" where
  "emit e st = st\<lparr>dk_events := dk_events st @ [e]\<rparr>"

definition watch_reference_of :: "string \<Rightarrow> 'w desk \<Rightarrow> 'w desk" where
  "watch_reference_of r st = st\<lparr>dk_watched := map_option (\<lambda>rs. rs @ [r]) (dk_watched st)\<rparr>"

definition store_intent :: "'w pay_env \<Rightarrow> pay_intent \<Rightarrow> 'w desk \<Rightarrow> (app_error + unit) \<times> 'w desk" where
  "store_intent env i st =
     (if dk_poisoned st then (Inl LockPoisoned, st)
      else case upsert_payment_intent (pe_codec env) (pe_fault env (dk_world st)) (pe_now env (dk_world st)) i (dk_ledger st) of
             (r, db) \<Rightarrow> (r, st\<lparr>dk_ledger := db\<rparr>))"

definition pending_intent ::
    "'w desk \<Rightarrow> string \<Rightarrow> string \<Rightarrow> string \<Rightarrow> string \<Rightarrow> f64 option \<Rightarrow> string option \<Rightarrow> string option \<Rightarrow> pay_intent" where
  "pending_intent st reference recipient now rid amount label memo =
     \<lparr>sp_reference = reference, sp_run_id = rid, sp_recipient = recipient,
      sp_amount_sol = unwrap_or (solana_pay_default_amount_sol (dk_cfg st)) amount,
      sp_spl_token = solana_pay_spl_token (dk_cfg st),
      sp_label = opt_or label (Some (''TxODDS Agent Desk '' @ ch_dash @ '' run '' @ rid)),
      sp_memo = opt_or memo (Some (''run:'' @ rid)),
      sp_status = PayPending, sp_created_at = now\<rparr>"

definition create_solana_pay_intent ::
    "'w pay_env \<Rightarrow> string \<Rightarrow> f64 option \<Rightarrow> string option \<Rightarrow> string option \<Rightarrow> 'w desk \<Rightarrow>
       (app_error + intent_view) \<times> 'w desk" where
  "create_solana_pay_intent env rid amount label memo st =
     (case solana_pay_recipient (dk_cfg st) of
        None \<Rightarrow> (Inl (ConfigError ''SOLANA_PAY_RECIPIENT is not configured''), st)
      | Some recipient \<Rightarrow>
     (case generate_reference (pe_entropy env) (pe_base58 env) (dk_world st) of
        (Inl e, w) \<Rightarrow> (Inl (TaskError (''failed to generate payment reference: '' @ e)), st\<lparr>dk_world := w\<rparr>)
      | (Inr reference, w) \<Rightarrow>
          let st1 = st\<lparr>dk_world := w\<rparr>;
              intent = pending_intent st1 reference recipient (pe_now env w) rid amount label memo
          in case store_intent env intent st1 of
               (Inl e, st2) \<Rightarrow> (Inl e, st2)
             | (Inr _, st2) \<Rightarrow>
                 (Inr (view_of env intent), emit (PayIntentEvent intent) (watch_reference_of reference st2))))"

definition is_confirmed :: "json \<Rightarrow> bool" where
  "is_confirmed signatures = (case as_array signatures of Some (x # xs) \<Rightarrow> True | _ \<Rightarrow> False)"

definition verify_solana_pay_intent ::
    "'w pay_env \<Rightarrow> string \<Rightarrow> 'w desk \<Rightarrow> (app_error + intent_view) \<times> 'w desk" where
  "verify_solana_pay_intent env reference st =
     (if dk_poisoned st then (Inl LockPoisoned, st)
      else case get_payment_intent_by_reference (pe_codec env) reference (dk_ledger st) of
        Inl e \<Rightarrow> (Inl e, st)
      | Inr intent \<Rightarrow>
          if sp_status intent \<noteq> PayPending then (Inr (view_of env intent), st)
          else case solana_rpc (pe_rpc env) (dk_cfg st) Devnet ''getSignaturesForAddress''
                      (JArr [JStr (sp_reference intent), JObj [(''limit'', JInt 1)]]) (dk_world st) of
            (Inl e, w) \<Rightarrow> (Inl e, st\<lparr>dk_world := w\<rparr>)
          | (Inr signatures, w) \<Rightarrow>
              let st1 = st\<lparr>dk_world := w\<rparr>
              in if is_confirmed signatures
                 then let intent1 = intent\<lparr>sp_status := PayConfirmed\<rparr>
                      in case store_intent env intent1 st1 of
                           (Inl e, st2) \<Rightarrow> (Inl e, st2)
                         | (Inr _, st2) \<Rightarrow> (Inr (view_of env intent1), emit (PayStatusEvent intent1) st2)
                 else (Inr (view_of env intent), st1))"

definition list_payment_views ::
    "sqlite \<Rightarrow> 'w pay_env \<Rightarrow> string option \<Rightarrow> 'w desk \<Rightarrow> app_error + intent_view list" where
  "list_payment_views q env rid st =
     (if dk_poisoned st then Inl LockPoisoned
      else map_sum id (map (view_of env)) (list_payment_intents q (pe_codec env) rid (dk_ledger st)))"

section \<open>commands/chain.rs\<close>

definition chain_rpc ::
    "'w pay_env \<Rightarrow> cluster \<Rightarrow> string \<Rightarrow> json option \<Rightarrow> 'w desk \<Rightarrow> (app_error + json) \<times> 'w desk" where
  "chain_rpc env k method params st =
     (case solana_rpc (pe_rpc env) (dk_cfg st) k method (unwrap_or (JArr []) params) (dk_world st) of
        (r, w) \<Rightarrow> (r, st\<lparr>dk_world := w\<rparr>))"

definition chain_status_command :: "'w pay_env \<Rightarrow> cluster \<Rightarrow> 'w desk \<Rightarrow> (app_error + chain_health) \<times> 'w desk" where
  "chain_status_command env k st =
     (case chain_status (pe_rpc env) (dk_cfg st) k (dk_world st) of
        (Inl e, w) \<Rightarrow> (Inl e, st\<lparr>dk_world := w\<rparr>)
      | (Inr s, w) \<Rightarrow> (Inr s, emit (ChainSlotEvent s) (st\<lparr>dk_world := w\<rparr>)))"

definition observe_settlement_command ::
    "'w pay_env \<Rightarrow> string \<Rightarrow> string option \<Rightarrow> 'w desk \<Rightarrow> (app_error + chain_observation) \<times> 'w desk" where
  "observe_settlement_command env reference escrow st =
     (let st1 = watch_reference_of reference st;
          st2 = (case (dk_watched st, escrow) of
                   (Some _, Some a) \<Rightarrow> st1\<lparr>dk_accounts := dk_accounts st1 @ [a]\<rparr> | _ \<Rightarrow> st1)
      in case observe_settlement (pe_rpc env) (dk_cfg st) reference escrow (dk_world st) of
           (Inl e, w) \<Rightarrow> (Inl e, st2\<lparr>dk_world := w\<rparr>)
         | (Inr ob, w) \<Rightarrow> (Inr ob, emit (SettleReceiptEvent ob) (st2\<lparr>dk_world := w\<rparr>)))"

definition no_yellowstone :: app_error where
  "no_yellowstone = ConfigError ''Yellowstone is not configured''"

definition watch_account :: "string \<Rightarrow> 'w desk \<Rightarrow> (app_error + unit) \<times> 'w desk" where
  "watch_account a st = (if dk_watched st = None then (Inl no_yellowstone, st)
     else (Inr (), st\<lparr>dk_accounts := dk_accounts st @ [a]\<rparr>))"

definition watch_program :: "string \<Rightarrow> 'w desk \<Rightarrow> (app_error + unit) \<times> 'w desk" where
  "watch_program p st = (if dk_watched st = None then (Inl no_yellowstone, st)
     else (Inr (), st\<lparr>dk_programs := dk_programs st @ [p]\<rparr>))"

definition watch_reference :: "string \<Rightarrow> 'w desk \<Rightarrow> (app_error + unit) \<times> 'w desk" where
  "watch_reference r st = (if dk_watched st = None then (Inl no_yellowstone, st)
     else (Inr (), watch_reference_of r st))"

definition yellowstone_status_command :: "'w desk \<Rightarrow> app_error + string" where
  "yellowstone_status_command st =
     (if dk_watched st \<noteq> None then Inr ''Yellowstone gRPC observer is running''
      else yellowstone_status (dk_cfg st))"

section \<open>What confirms a payment\<close>

definition signatures_of :: "'w pay_env \<Rightarrow> pay_intent \<Rightarrow> 'w desk \<Rightarrow> (app_error + json) \<times> 'w" where
  "signatures_of env i st =
     solana_rpc (pe_rpc env) (dk_cfg st) Devnet ''getSignaturesForAddress''
       (JArr [JStr (sp_reference i), JObj [(''limit'', JInt 1)]]) (dk_world st)"

lemma store_intent_ok:
  assumes "\<not> dk_poisoned st" and "pe_fault env (dk_world st) = None"
    and "cd_intent (pe_codec env) i = Inr j" and "cd_read_intent (pe_codec env) j = Inr i"
  obtains db where "store_intent env i st = (Inr (), st\<lparr>dk_ledger := db\<rparr>)"
    and "get_payment_intent_by_reference (pe_codec env) (sp_reference i) db = Inr i"
proof -
  let ?db = "snd (upsert_payment_intent (pe_codec env) (pe_fault env (dk_world st)) (pe_now env (dk_world st)) i (dk_ledger st))"
  have ok: "intent_stored (pe_codec env) (pe_fault env (dk_world st)) i" using assms(2,3) by (simp add: intent_stored_def)
  have "store_intent env i st = (Inr (), st\<lparr>dk_ledger := ?db\<rparr>)"
    using assms(1) upsert_intent_done(1) [OF ok] by (simp add: store_intent_def case_prod_unfold)
  moreover have "get_payment_intent_by_reference (pe_codec env) (sp_reference i) ?db = Inr i"
    using intents.lookup [of "pe_codec env" "(pe_fault env (dk_world st), pe_now env (dk_world st), i)" "sp_reference i" "dk_ledger st"]
      ok assms(3,4) by simp
  ultimately show thesis by (rule that)
qed

text \<open>
  C29: a stored intent leaves \<open>Pending\<close> on one condition only, that the cluster returns a non-empty
  list of signatures for its reference; the entries are not looked at, so a failed transaction, or one
  over another amount or to another recipient, confirms it as well. Whatever the check answers,
  nothing but the status changes; a settled intent is returned as it is, without a request, and
  without a signature or after an error, of the request or of the store, the ledger stays as it was.
\<close>
theorem payment_confirmed_by_any_signature:
  assumes "\<not> dk_poisoned st" and "get_payment_intent_by_reference (pe_codec env) ref (dk_ledger st) = Inr i"
    and "sp_reference i = ref"
    and "cd_intent (pe_codec env) (i\<lparr>sp_status := PayConfirmed\<rparr>) = Inr j"
    and "cd_read_intent (pe_codec env) j = Inr (i\<lparr>sp_status := PayConfirmed\<rparr>)"
  shows "case verify_solana_pay_intent env ref st of (r, st') \<Rightarrow>
           if sp_status i \<noteq> PayPending then r = Inr (view_of env i) \<and> st' = st
           else (case fst (signatures_of env i st) of
                   Inr (JArr (x # xs)) \<Rightarrow>
                     (case pe_fault env (snd (signatures_of env i st)) of
                        None \<Rightarrow>
                          r = Inr (view_of env (i\<lparr>sp_status := PayConfirmed\<rparr>))
                          \<and> get_payment_intent_by_reference (pe_codec env) ref (dk_ledger st') = Inr (i\<lparr>sp_status := PayConfirmed\<rparr>)
                          \<and> dk_events st' = dk_events st @ [PayStatusEvent (i\<lparr>sp_status := PayConfirmed\<rparr>)]
                      | Some e \<Rightarrow> r = Inl (SqlError e) \<and> dk_ledger st' = dk_ledger st \<and> dk_events st' = dk_events st)
                 | Inr _ \<Rightarrow> r = Inr (view_of env i) \<and> dk_ledger st' = dk_ledger st \<and> dk_events st' = dk_events st
                 | Inl e \<Rightarrow> r = Inl e \<and> dk_ledger st' = dk_ledger st \<and> dk_events st' = dk_events st)"
proof (cases "sp_status i = PayPending")
  case False
  then show ?thesis using assms(1,2) by (simp add: verify_solana_pay_intent_def)
next
  case True
  obtain a w where s: "signatures_of env i st = (a, w)" by (metis prod.exhaust)
  note rpc = s [unfolded signatures_of_def, simplified assms(3)]
  show ?thesis
  proof (cases "\<exists>x xs. a = Inr (JArr (x # xs))")
    case True
    let ?i = "i\<lparr>sp_status := PayConfirmed\<rparr>"
    show ?thesis
    proof (cases "pe_fault env w")
      case None
      obtain db where "store_intent env ?i (st\<lparr>dk_world := w\<rparr>) = (Inr (), st\<lparr>dk_world := w, dk_ledger := db\<rparr>)"
        "get_payment_intent_by_reference (pe_codec env) (sp_reference ?i) db = Inr ?i"
        using store_intent_ok [of "st\<lparr>dk_world := w\<rparr>" env ?i j] None assms(1,4,5) by auto
      then show ?thesis
        using True None \<open>sp_status i = PayPending\<close> assms(1-3) s rpc
        by (auto simp: verify_solana_pay_intent_def is_confirmed_def emit_def Let_def)
    next
      case (Some e)
      then have "store_intent env ?i (st\<lparr>dk_world := w\<rparr>) = (Inl (SqlError e), st\<lparr>dk_world := w\<rparr>)"
        using assms(1,4) by (simp add: store_intent_def upsert_payment_intent_def exec_stmt_def Let_def)
      then show ?thesis
        using True Some \<open>sp_status i = PayPending\<close> assms(1-3) s rpc
        by (auto simp: verify_solana_pay_intent_def is_confirmed_def Let_def)
    qed
  next
    case False
    have nc: "\<not> is_confirmed v" if "a = Inr v" for v
      using False that by (cases v) (auto simp: is_confirmed_def split: list.splits)
    show ?thesis
      using False nc \<open>sp_status i = PayPending\<close> assms(1-3) s rpc
      by (auto simp: verify_solana_pay_intent_def split: sum.splits json.splits list.splits)
  qed
qed

section \<open>Witness\<close>

text \<open>A cluster that answers one signature of a failed transaction, and a codec by status.\<close>

definition failed_signature :: json where
  "failed_signature = JObj [(''signature'', JStr ''sig''), (''err'', JStr ''InstructionError'')]"

definition sample_pay_env :: "unit pay_env" where
  "sample_pay_env =
     \<lparr>pe_rpc = \<lparr>rpc_post = (\<lambda>u t q w. (Inr \<lparr>da_status = 200, da_json = Inr (JObj [(''result'', JArr [failed_signature])])\<rparr>, w)),
                rpc_elapsed = (\<lambda>a b. 0), rpc_now_iso = (\<lambda>w. ''t'')\<rparr>,
      pe_codec = one_run_codec
        \<lparr>cd_intent := (\<lambda>p. if p = blank_intent then Inr ''pay'' else Inr ''paid''),
         cd_read_intent := (\<lambda>j. if j = ''pay'' then Inr blank_intent else Inr (blank_intent\<lparr>sp_status := PayConfirmed\<rparr>))\<rparr>,
      pe_encode = id, pe_entropy = (\<lambda>w. (Inr ''bytes'', w)), pe_base58 = id, pe_now = (\<lambda>w. ''t''),
      pe_fault = (\<lambda>w. None)\<rparr>"

definition sample_desk :: "unit desk" where
  "sample_desk =
     \<lparr>dk_cfg = sample_config\<lparr>rpc_devnet_endpoint := Some ''https://rpc'', rpc_devnet_token := Some ''x''\<rparr>,
      dk_ledger = empty_ledger\<lparr>db_payments := [\<lparr>py_reference = ''ref'', py_run_id = ''r1'', py_intent_json = ''pay'',
        py_status = ''pending'', py_created_at = ''t'', py_updated_at = ''t''\<rparr>]\<rparr>,
      dk_poisoned = False, dk_watched = None, dk_accounts = [], dk_programs = [], dk_events = [], dk_world = ()\<rparr>"

theorem payment_confirmed_by_any_signature_witness:
  "fst (verify_solana_pay_intent sample_pay_env ''ref'' sample_desk)
     = Inr (view_of sample_pay_env (blank_intent\<lparr>sp_status := PayConfirmed\<rparr>))
   \<and> jget failed_signature ''err'' \<noteq> None"
proof -
  have i: "sp_status blank_intent = PayPending" "sp_reference blank_intent = ''ref''" by (simp_all add: blank_intent_def)
  have ne: "blank_intent\<lparr>sp_status := PayConfirmed\<rparr> \<noteq> blank_intent" by (simp add: blank_intent_def)
  have hyps: "\<not> dk_poisoned sample_desk"
    "get_payment_intent_by_reference (pe_codec sample_pay_env) ''ref'' (dk_ledger sample_desk) = Inr blank_intent"
    "cd_intent (pe_codec sample_pay_env) (blank_intent\<lparr>sp_status := PayConfirmed\<rparr>) = Inr ''paid''"
    "cd_read_intent (pe_codec sample_pay_env) ''paid'' = Inr (blank_intent\<lparr>sp_status := PayConfirmed\<rparr>)"
    using ne by (simp_all add: sample_desk_def sample_pay_env_def get_payment_intent_by_reference_def empty_ledger_def)
  have "fst (signatures_of sample_pay_env blank_intent sample_desk) = Inr (JArr [failed_signature])"
    by (simp add: signatures_of_def solana_rpc_def validate_rpc_method_def allowed_rpc_methods_def sample_desk_def
        sample_pay_env_def rpc_endpoint_def rpc_token_def answer_json_def rpc_answer_def)
  moreover have "pe_fault sample_pay_env w = None" for w by (simp add: sample_pay_env_def)
  ultimately show ?thesis
    using payment_confirmed_by_any_signature [OF hyps(1,2) i(2) hyps(3,4)] i(1)
    by (simp add: failed_signature_def split: prod.splits)
qed

end
