(* ===== verification/Auth.thy ===== *)
theory Auth
  imports Ledger "HOL-Library.AList"
begin

text \<open>
  Wallet identities: the local profile store (\<open>services/user_store.rs\<close>) and the commands
  around it (\<open>commands/auth.rs\<close>). The pending challenges are an association list with
  distinct nonces, the embedded database a map from keys to stored texts. Arguments of the
  model are the clock and the identifiers (the world \<open>'w\<close>), the faults of the database
  (\<open>ae_fault\<close>: an operation that fails changes nothing), the JSON text codec, base58, the
  Ed25519 check, and which entry the iteration over the hash map meets first
  (\<open>ae_first\<close>). A poisoned lock answers \<open>LockPoisoned\<close>. Commands and their answers form the
  history of a step relation; its invariant ties every accepted login to an earlier
  challenge.
\<close>

section \<open>Data\<close>

record user_profile =
  up_public_key :: string
  up_username :: string
  up_cluster :: string
  up_created_at :: string

record auth_challenge =
  ac_nonce :: string
  ac_message :: string
  ac_ts :: string

datatype sled_op = OpGet string | OpInsert string string | OpRemove string | OpFlush

record 'w auth_env =
  ae_io :: "'w io"
  ae_fault :: "sled_op \<Rightarrow> 'w \<Rightarrow> string option \<times> 'w"
  ae_print :: "json \<Rightarrow> string"
  ae_parse :: "string \<Rightarrow> string + json"
  ae_first :: "string list \<Rightarrow> nat"
  ae_base58 :: "string \<Rightarrow> 8 word list option"
  ae_key_check :: "8 word list \<Rightarrow> string + unit"
  ae_verify :: "8 word list \<Rightarrow> string \<Rightarrow> 8 word list \<Rightarrow> bool"

record 'w auth_desk =
  au_pending :: "(string \<times> string \<times> string) list"
  au_pending_poisoned :: bool
  au_store_poisoned :: bool
  au_db :: "string \<rightharpoonup> string"
  au_world :: 'w

section \<open>Operations that may fail\<close>

type_synonym ('w, 'a) auth_op = "'w auth_desk \<Rightarrow> (app_error + 'a) \<times> 'w auth_desk"

definition outcome :: "app_error + 'a \<Rightarrow> ('w, 'a) auth_op" where
  "outcome r = (\<lambda>st. (r, st))"

definition attempt :: "('w, 'a) auth_op \<Rightarrow> ('a \<Rightarrow> ('w, 'b) auth_op) \<Rightarrow> ('w, 'b) auth_op" where
  \<comment> \<open>the operator \<open>?\<close>\<close>
  "attempt m f = (\<lambda>st. case m st of (Inl e, st1) \<Rightarrow> (Inl e, st1) | (Inr x, st1) \<Rightarrow> f x st1)"

definition clock :: "'w auth_env \<Rightarrow> ('w, string) auth_op" where
  "clock env = (\<lambda>st. case io_now_iso (ae_io env) (au_world st) of (t, w) \<Rightarrow> (Inr t, st\<lparr>au_world := w\<rparr>))"

definition sled :: "'w auth_env \<Rightarrow> sled_op \<Rightarrow> (('w auth_desk) \<Rightarrow> 'a \<times> 'w auth_desk) \<Rightarrow> ('w, 'a) auth_op" where
  "sled env oper act = (\<lambda>st. case ae_fault env oper (au_world st) of
     (Some e, w) \<Rightarrow> (Inl (TaskError e), st\<lparr>au_world := w\<rparr>)
   | (None, w) \<Rightarrow> (case act (st\<lparr>au_world := w\<rparr>) of (x, st1) \<Rightarrow> (Inr x, st1)))"

definition db_get :: "'w auth_env \<Rightarrow> string \<Rightarrow> ('w, string option) auth_op" where
  "db_get env k = sled env (OpGet k) (\<lambda>st. (au_db st k, st))"

definition db_insert :: "'w auth_env \<Rightarrow> string \<Rightarrow> string \<Rightarrow> ('w, unit) auth_op" where
  "db_insert env k v = sled env (OpInsert k v) (\<lambda>st. ((), st\<lparr>au_db := (au_db st)(k \<mapsto> v)\<rparr>))"

definition db_remove :: "'w auth_env \<Rightarrow> string \<Rightarrow> ('w, unit) auth_op" where
  "db_remove env k = sled env (OpRemove k) (\<lambda>st. ((), st\<lparr>au_db := (au_db st)(k := None)\<rparr>))"

definition db_flush :: "'w auth_env \<Rightarrow> ('w, unit) auth_op" where
  "db_flush env = sled env OpFlush (\<lambda>st. ((), st))"

section \<open>The stored texts\<close>

definition profile_json :: "user_profile \<Rightarrow> json" where
  "profile_json p = JObj [(''publicKey'', JStr (up_public_key p)), (''username'', JStr (up_username p)),
     (''cluster'', JStr (up_cluster p)), (''createdAt'', JStr (up_created_at p))]"

definition session_json :: "string \<Rightarrow> string \<Rightarrow> json" where
  "session_json k at_time = JObj [(''public_key'', JStr k), (''saved_at'', JStr at_time)]"

definition string_value :: "json \<Rightarrow> app_error + string" where
  "string_value j = (case as_str j of Some s \<Rightarrow> Inr s | None \<Rightarrow> Inl (JsonError ''invalid type, expected a string''))"

definition struct_strings :: "string list \<Rightarrow> json \<Rightarrow> app_error + string list" where
  \<comment> \<open>a struct of strings from an object, or from an array in the order of the fields\<close>
  "struct_strings names j =
     (case j of
        JObj _ \<Rightarrow> collect_rows (map (\<lambda>n. case jget j n of
            None \<Rightarrow> Inl (JsonError (''missing field `'' @ n @ ''`'')) | Some v \<Rightarrow> string_value v) names)
      | JArr vs \<Rightarrow> if length vs = length names then collect_rows (map string_value vs)
                    else Inl (JsonError ''invalid length'')
      | _ \<Rightarrow> Inl (JsonError ''invalid type, expected struct''))"

definition parse_json :: "'w auth_env \<Rightarrow> string \<Rightarrow> app_error + json" where
  "parse_json env s = (case ae_parse env s of Inl e \<Rightarrow> Inl (JsonError e) | Inr j \<Rightarrow> Inr j)"

fun profile_of :: "string list \<Rightarrow> user_profile" where
  "profile_of [k, n, c, t] = \<lparr>up_public_key = k, up_username = n, up_cluster = c, up_created_at = t\<rparr>"
| "profile_of _ = \<lparr>up_public_key = [], up_username = [], up_cluster = [], up_created_at = []\<rparr>"

definition read_profile :: "'w auth_env \<Rightarrow> string \<Rightarrow> app_error + user_profile" where
  "read_profile env s = res_then (parse_json env s) (\<lambda>j. map_sum id profile_of
     (struct_strings [''publicKey'', ''username'', ''cluster'', ''createdAt''] j))"

definition read_session :: "'w auth_env \<Rightarrow> string \<Rightarrow> app_error + string" where
  "read_session env s = res_then (parse_json env s) (\<lambda>j. map_sum id hd
     (struct_strings [''public_key'', ''saved_at''] j))"

section \<open>user_store.rs\<close>

definition session_key :: string where "session_key = ''__last_session__''"

definition store_get :: "'w auth_env \<Rightarrow> string \<Rightarrow> ('w, user_profile option) auth_op" where
  "store_get env k = attempt (db_get env k) (\<lambda>v. outcome
     (case v of None \<Rightarrow> Inr None | Some s \<Rightarrow> map_sum id Some (read_profile env s)))"

definition store_save :: "'w auth_env \<Rightarrow> string \<Rightarrow> string \<Rightarrow> string \<Rightarrow> ('w, user_profile) auth_op" where
  "store_save env k name cl =
     attempt (clock env) (\<lambda>t.
       let p = \<lparr>up_public_key = k, up_username = trim name, up_cluster = cl, up_created_at = t\<rparr>
       in attempt (db_insert env k (ae_print env (profile_json p))) (\<lambda>_.
          attempt (db_flush env) (\<lambda>_. outcome (Inr p))))"

definition store_get_session :: "'w auth_env \<Rightarrow> ('w, string option) auth_op" where
  "store_get_session env = attempt (db_get env session_key) (\<lambda>v. outcome
     (case v of None \<Rightarrow> Inr None | Some s \<Rightarrow> map_sum id Some (read_session env s)))"

definition store_delete :: "'w auth_env \<Rightarrow> string \<Rightarrow> ('w, unit) auth_op" where
  "store_delete env k =
     attempt (db_remove env k) (\<lambda>_.
     attempt (store_get_session env) (\<lambda>s.
     attempt (if s = Some k then db_remove env session_key else outcome (Inr ())) (\<lambda>_.
       db_flush env)))"

definition store_save_session :: "'w auth_env \<Rightarrow> string \<Rightarrow> ('w, unit) auth_op" where
  "store_save_session env k =
     attempt (clock env) (\<lambda>t.
     attempt (db_insert env session_key (ae_print env (session_json k t))) (\<lambda>_. db_flush env))"

definition store_clear_session :: "'w auth_env \<Rightarrow> ('w, unit) auth_op" where
  "store_clear_session env = attempt (db_remove env session_key) (\<lambda>_. db_flush env)"

section \<open>commands/auth.rs: challenges\<close>

definition max_pending :: nat where "max_pending = 64"

definition without :: "nat \<Rightarrow> 'v list \<Rightarrow> 'v list" where
  "without i xs = take i xs @ drop (Suc i) xs"

lemma length_without: "i < length xs \<Longrightarrow> length (without i xs) = length xs - 1"
  by (simp add: without_def)

lemma set_without: "set (without i xs) \<subseteq> set xs"
  by (auto simp: without_def dest: in_set_takeD in_set_dropD)

function evict :: "(string list \<Rightarrow> nat) \<Rightarrow> (string \<times> 'v) list \<Rightarrow> (string \<times> 'v) list" where
  "evict first ps =
     (if length ps < max_pending then ps
      else evict first (without (first (map fst ps) mod length ps) ps))"
  by pat_completeness auto
termination
proof (relation "measure (length \<circ> snd)", goal_cases)
  case (2 first ps)
  then have "0 < length ps" by (auto simp: max_pending_def)
  then show ?case using length_without [OF mod_less_divisor [of "length ps" "first (map fst ps)"]] by simp
qed simp

declare evict.simps [simp del]

definition challenge_message :: "string \<Rightarrow> string \<Rightarrow> string" where
  "challenge_message nonce ts = ''Sign to authenticate with TxOdds Agent Desk'' @ [CHR 0x0A]
     @ ''Nonce: '' @ nonce @ [CHR 0x0A] @ ''Issued: '' @ ts"

definition empty_key :: app_error where
  "empty_key = InvalidInput ''public_key must not be empty''"

definition issue_auth_challenge :: "'w auth_env \<Rightarrow> string \<Rightarrow> ('w, auth_challenge) auth_op" where
  "issue_auth_challenge env k st =
     (if trim k = [] then (Inl empty_key, st)
      else case io_uuid (ae_io env) (au_world st) of (nonce, w) \<Rightarrow>
           case io_now_iso (ae_io env) w of (ts, w1) \<Rightarrow>
           let st1 = st\<lparr>au_world := w1\<rparr>; message = challenge_message nonce ts
           in if au_pending_poisoned st1 then (Inl LockPoisoned, st1)
              else (Inr \<lparr>ac_nonce = nonce, ac_message = message, ac_ts = ts\<rparr>,
                    st1\<lparr>au_pending := AList.update nonce (k, message) (evict (ae_first env) (au_pending st1))\<rparr>))"

definition verify_signature :: "'w auth_env \<Rightarrow> string \<Rightarrow> string \<Rightarrow> 8 word list \<Rightarrow> app_error + unit" where
  "verify_signature env k message signature =
     (case ae_base58 env k of
        None \<Rightarrow> Inl (InvalidInput ''public_key is not valid base58.'')
      | Some bytes \<Rightarrow>
          if length bytes \<noteq> 32 then Inl (InvalidInput ''public_key must decode to exactly 32 bytes.'')
          else case ae_key_check env bytes of
            Inl e \<Rightarrow> Inl (InvalidInput (''Invalid Ed25519 public key: '' @ e))
          | Inr _ \<Rightarrow>
              if length signature \<noteq> 64 then Inl (InvalidInput ''signature must be exactly 64 bytes.'')
              else if ae_verify env bytes message signature then Inr ()
              else Inl (InvalidInput ''Ed25519 signature verification failed.''))"

definition known_cluster :: "string \<Rightarrow> bool" where
  "known_cluster cl \<longleftrightarrow> cl = ''devnet'' \<or> cl = ''mainnet-beta''"

definition unknown_cluster :: "string \<Rightarrow> app_error" where
  "unknown_cluster cl = InvalidInput (''unknown cluster '' @ [CHR 0x27] @ cl @ [CHR 0x27] @ ''; expected devnet or mainnet-beta'')"

definition login_profile ::
    "'w auth_env \<Rightarrow> string \<Rightarrow> string option \<Rightarrow> string option \<Rightarrow> ('w, user_profile) auth_op" where
  "login_profile env k username cl st =
     (if au_store_poisoned st then (Inl LockPoisoned, st)
      else case username of
        Some name \<Rightarrow>
          let c = unwrap_or ''devnet'' cl
          in if \<not> known_cluster c then (Inl (unknown_cluster c), st)
             else if trim name = [] then (Inl (InvalidInput ''username must not be empty''), st)
             else store_save env k (trim name) c st
      | None \<Rightarrow>
          attempt (store_get env k) (\<lambda>p. outcome (case p of
              None \<Rightarrow> Inl (InvalidInput ''No profile found for this key; provide a username to register.'')
            | Some x \<Rightarrow> Inr x)) st)"

definition request_auth ::
    "'w auth_env \<Rightarrow> string \<Rightarrow> 8 word list \<Rightarrow> string \<Rightarrow> string option \<Rightarrow> string option \<Rightarrow> ('w, user_profile) auth_op" where
  "request_auth env k signature nonce username cl st =
     (if au_pending_poisoned st then (Inl LockPoisoned, st)
      else case map_of (au_pending st) nonce of
        None \<Rightarrow> (Inl (InvalidInput ''Unknown or expired nonce; call issue_auth_challenge first.''), st)
      | Some (stored, message) \<Rightarrow>
          let st1 = st\<lparr>au_pending := AList.delete nonce (au_pending st)\<rparr>
          in if stored \<noteq> k
             then (Inl (InvalidInput ''public_key does not match the key that requested this challenge.''), st1)
             else case verify_signature env k message signature of
               Inl e \<Rightarrow> (Inl e, st1)
             | Inr _ \<Rightarrow> login_profile env k username cl st1)"

section \<open>commands/auth.rs: profiles and the remembered session\<close>

definition with_store :: "('w, 'a) auth_op \<Rightarrow> ('w, 'a) auth_op" where
  "with_store m = (\<lambda>st. if au_store_poisoned st then (Inl LockPoisoned, st) else m st)"

definition get_user_profile :: "'w auth_env \<Rightarrow> string \<Rightarrow> ('w, user_profile option) auth_op" where
  "get_user_profile env k = (if trim k = [] then outcome (Inl empty_key) else with_store (store_get env k))"

definition save_user_profile :: "'w auth_env \<Rightarrow> string \<Rightarrow> string \<Rightarrow> string \<Rightarrow> ('w, user_profile) auth_op" where
  "save_user_profile env k username cl =
     (if trim k = [] then outcome (Inl empty_key)
      else if trim username = [] then outcome (Inl (InvalidInput ''username must not be empty''))
      else if \<not> known_cluster cl then outcome (Inl (unknown_cluster cl))
      else with_store (store_save env k (trim username) cl))"

definition delete_user_profile :: "'w auth_env \<Rightarrow> string \<Rightarrow> ('w, unit) auth_op" where
  "delete_user_profile env k = (if trim k = [] then outcome (Inl empty_key) else with_store (store_delete env k))"

definition get_saved_session :: "'w auth_env \<Rightarrow> ('w, user_profile option) auth_op" where
  "get_saved_session env = with_store
     (attempt (store_get_session env) (\<lambda>s. case s of
        None \<Rightarrow> outcome (Inr None)
      | Some k \<Rightarrow> attempt (store_get env k) (\<lambda>p.
          attempt (if p = None then store_clear_session env else outcome (Inr ())) (\<lambda>_. outcome (Inr p)))))"

definition save_wallet_session :: "'w auth_env \<Rightarrow> string \<Rightarrow> ('w, unit) auth_op" where
  "save_wallet_session env k =
     (if trim k = [] then outcome (Inl empty_key)
      else with_store (attempt (store_get env k) (\<lambda>p.
        if p = None
        then outcome (Inl (InvalidInput ''No profile found for this key; register before saving a session.''))
        else store_save_session env k)))"

definition clear_wallet_session :: "'w auth_env \<Rightarrow> ('w, unit) auth_op" where
  "clear_wallet_session env = with_store (store_clear_session env)"

section \<open>Commands and histories\<close>

datatype auth_command =
    Issue string
  | Request string "8 word list" string "string option" "string option"
  | GetProfile string
  | SaveProfile string string string
  | DeleteProfile string
  | GetSaved
  | SaveSession string
  | ClearSession

datatype auth_answer = Challenge auth_challenge | Profile user_profile | Lookup "user_profile option" | Done

definition answer :: "('a \<Rightarrow> auth_answer) \<Rightarrow> ('w, 'a) auth_op \<Rightarrow> ('w, auth_answer) auth_op" where
  "answer f m = attempt m (\<lambda>x. outcome (Inr (f x)))"

fun run_command :: "'w auth_env \<Rightarrow> auth_command \<Rightarrow> ('w, auth_answer) auth_op" where
  "run_command env (Issue k) = answer Challenge (issue_auth_challenge env k)"
| "run_command env (Request k sg n u c) = answer Profile (request_auth env k sg n u c)"
| "run_command env (GetProfile k) = answer Lookup (get_user_profile env k)"
| "run_command env (SaveProfile k u c) = answer Profile (save_user_profile env k u c)"
| "run_command env (DeleteProfile k) = answer (\<lambda>_. Done) (delete_user_profile env k)"
| "run_command env GetSaved = answer Lookup (get_saved_session env)"
| "run_command env (SaveSession k) = answer (\<lambda>_. Done) (save_wallet_session env k)"
| "run_command env ClearSession = answer (\<lambda>_. Done) (clear_wallet_session env)"

type_synonym auth_history = "(auth_command \<times> (app_error + auth_answer)) list"

text \<open>
  One step of the desk: a command is answered and recorded, or the world moves on.
\<close>

inductive auth_step ::
    "'w auth_env \<Rightarrow> 'w auth_desk \<times> auth_history \<Rightarrow> 'w auth_desk \<times> auth_history \<Rightarrow> bool" for env where
  command: "run_command env c d = (r, d') \<Longrightarrow> auth_step env (d, h) (d', h @ [(c, r)])"
| elapse: "auth_step env (d, h) (d\<lparr>au_world := w\<rparr>, h)"

inductive auth_reachable :: "'w auth_env \<Rightarrow> 'w auth_desk \<times> auth_history \<Rightarrow> bool" for env where
  start: "au_pending d = [] \<Longrightarrow> auth_reachable env (d, [])"
| step: "auth_reachable env s \<Longrightarrow> auth_step env s s' \<Longrightarrow> auth_reachable env s'"

inductive_cases auth_stepE: "auth_step env (d, h) s'"

fun issued_for :: "string \<Rightarrow> string \<Rightarrow> string \<Rightarrow> auth_command \<times> (app_error + auth_answer) \<Rightarrow> bool" where
  "issued_for k n m (Issue k', Inr (Challenge c)) \<longleftrightarrow> k' = k \<and> ac_nonce c = n \<and> ac_message c = m"
| "issued_for k n m _ \<longleftrightarrow> False"

fun issues_nonce :: "string \<Rightarrow> auth_command \<times> (app_error + auth_answer) \<Rightarrow> bool" where
  "issues_nonce n (Issue k, Inr (Challenge c)) \<longleftrightarrow> ac_nonce c = n"
| "issues_nonce n _ \<longleftrightarrow> False"

fun accepts_nonce :: "string \<Rightarrow> auth_command \<times> (app_error + auth_answer) \<Rightarrow> bool" where
  "accepts_nonce n (Request k sg n' u c, Inr a) \<longleftrightarrow> n' = n"
| "accepts_nonce n _ \<longleftrightarrow> False"

definition issues :: "string \<Rightarrow> auth_history \<Rightarrow> nat" where
  "issues n h = length (filter (issues_nonce n) h)"

definition accepts :: "string \<Rightarrow> auth_history \<Rightarrow> nat" where
  "accepts n h = length (filter (accepts_nonce n) h)"

definition backed :: "'w auth_env \<Rightarrow> auth_history \<Rightarrow> auth_command \<Rightarrow> bool" where
  \<comment> \<open>the login answers a challenge of the history, with a signature over its message\<close>
  "backed env h c \<longleftrightarrow>
     (case c of
        Request k sg n u cl \<Rightarrow> \<exists>m. list_ex (issued_for k n m) h \<and> verify_signature env k m sg = Inr ()
      | _ \<Rightarrow> True)"

definition logins_backed :: "'w auth_env \<Rightarrow> auth_history \<Rightarrow> bool" where
  "logins_backed env h \<longleftrightarrow> (\<forall>pre c a post. h = pre @ (c, Inr a) # post \<longrightarrow> backed env pre c)"

section \<open>The invariant\<close>

lemma evict_length: "length (evict first ps) < max_pending"
proof (induction first ps rule: evict.induct)
  case (1 first ps)
  then show ?case by (simp add: evict.simps [of first ps])
qed

lemma evict_set: "set (evict first ps) \<subseteq> set ps"
proof (induction first ps rule: evict.induct)
  case (1 first ps)
  then show ?case by (auto simp: evict.simps [of first ps] dest: subsetD [OF set_without] subsetD)
qed

lemma distinct_without: "distinct (map f xs) \<Longrightarrow> distinct (map f (without i xs))"
  by (auto simp: without_def take_map [symmetric] drop_map [symmetric] distinct_take distinct_drop
      set_take_disj_set_drop_if_distinct simp del: set_map)

lemma evict_distinct: "distinct (map fst ps) \<Longrightarrow> distinct (map fst (evict first ps))"
proof (induction first ps rule: evict.induct)
  case (1 first ps)
  then show ?case by (simp add: evict.simps [of first ps] distinct_without)
qed

text \<open>The operations on the store leave the challenges alone.\<close>

definition keeps :: "('w, 'a) auth_op \<Rightarrow> bool" where
  "keeps m \<longleftrightarrow> (\<forall>st. au_pending (snd (m st)) = au_pending st)"

named_theorems keeping

lemma keeps_outcome [keeping]: "keeps (outcome r)"
  by (simp add: keeps_def outcome_def)

lemma keeps_attempt [keeping]:
  assumes "keeps m" and "\<And>x. keeps (f x)"
  shows "keeps (attempt m f)"
  unfolding keeps_def
proof
  fix st
  obtain r st1 where m: "m st = (r, st1)" by (metis prod.exhaust)
  then have "au_pending st1 = au_pending st" using assms(1) unfolding keeps_def by (metis snd_conv)
  then show "au_pending (snd (attempt m f st)) = au_pending st"
    using m assms(2) by (auto simp: attempt_def keeps_def split: sum.splits)
qed

lemma keeps_clock [keeping]: "keeps (clock env)"
  by (simp add: keeps_def clock_def split: prod.splits)

lemma keeps_sled [keeping]:
  assumes "\<And>st. au_pending (snd (act st)) = au_pending st"
  shows "keeps (sled env oper act)"
  unfolding keeps_def sled_def using assms
  by (auto split: prod.splits option.splits) (metis auth_desk.select_convs(1) auth_desk.surjective auth_desk.update_convs(5) snd_conv)

lemma keeps_with_store [keeping]: "keeps m \<Longrightarrow> keeps (with_store m)"
  by (simp add: keeps_def with_store_def)

lemma keeps_if [keeping]: "keeps m \<Longrightarrow> keeps m' \<Longrightarrow> keeps (if b then m else m')"
  by simp

lemma keeps_option [keeping]: "keeps m \<Longrightarrow> (\<And>x. keeps (f x)) \<Longrightarrow> keeps (case v of None \<Rightarrow> m | Some x \<Rightarrow> f x)"
  by (simp split: option.splits)

lemma keeps_let [keeping]: "keeps (f x) \<Longrightarrow> keeps (let y = x in f y)"
  by simp

lemma keeps_db [keeping]: "keeps (db_get env k)" "keeps (db_insert env k v)" "keeps (db_remove env k)" "keeps (db_flush env)"
  unfolding db_get_def db_insert_def db_remove_def db_flush_def by (auto intro!: keeping)

lemma keeps_store [keeping]:
  "keeps (store_get env k)" "keeps (store_save env k n c)" "keeps (store_get_session env)"
  "keeps (store_delete env k)" "keeps (store_save_session env k)" "keeps (store_clear_session env)"
  unfolding store_get_def store_save_def store_get_session_def store_delete_def store_save_session_def store_clear_session_def
  by (intro keeping)+

lemma keeps_login: "au_pending (snd (login_profile env k u c st)) = au_pending st"
proof -
  have "keeps (store_save env k (trim n) c)" for n c by (rule keeping)
  moreover have "keeps (attempt (store_get env k) (\<lambda>p. outcome (f p)))" for f :: "user_profile option \<Rightarrow> app_error + user_profile"
    by (intro keeping)
  ultimately show ?thesis by (auto simp: login_profile_def keeps_def Let_def split: option.splits)
qed

lemma keeps_commands:
  "keeps (get_user_profile env k)" "keeps (save_user_profile env k n c)" "keeps (delete_user_profile env k)"
  "keeps (get_saved_session env)" "keeps (save_wallet_session env k)" "keeps (clear_wallet_session env)"
  unfolding get_user_profile_def save_user_profile_def delete_user_profile_def get_saved_session_def
    save_wallet_session_def clear_wallet_session_def
  by (intro keeping)+

lemma run_command_keeps:
  assumes "run_command env c d = (r, d')" and "\<And>k. c \<noteq> Issue k" and "\<And>k sg n u cl. c \<noteq> Request k sg n u cl"
  shows "au_pending d' = au_pending d"
proof -
  have k: "keeps m \<Longrightarrow> keeps (answer f m)" for f and m :: "('a, 'b) auth_op"
    unfolding answer_def by (intro keeping)
  have "keeps (run_command env c)" using assms(2,3) by (cases c) (fastforce intro!: k keeps_commands)+
  then show ?thesis using assms(1) unfolding keeps_def by (metis snd_conv)
qed

lemma length_update_le: "length (AList.update k v al) \<le> Suc (length al)"
  by (induction al) auto

lemma issue_cases:
  assumes "issue_auth_challenge env k d = (r, d')"
  obtains (refused) e where "r = Inl e" and "au_pending d' = au_pending d"
  | (issued) n m t where "r = Inr \<lparr>ac_nonce = n, ac_message = m, ac_ts = t\<rparr>"
      and "au_pending d' = AList.update n (k, m) (evict (ae_first env) (au_pending d))"
  using assms by (auto simp: issue_auth_challenge_def Let_def split: if_splits prod.splits)

lemma request_cases:
  assumes "request_auth env k sg n u cl d = (r, d')"
  obtains (unknown) e where "r = Inl e" and "au_pending d' = au_pending d"
  | (failed) e where "r = Inl e" and "au_pending d' = AList.delete n (au_pending d)"
  | (accepted) p m where "r = Inr p" and "au_pending d' = AList.delete n (au_pending d)"
      and "map_of (au_pending d) n = Some (k, m)" and "verify_signature env k m sg = Inr ()"
proof -
  let ?d = "d\<lparr>au_pending := AList.delete n (au_pending d)\<rparr>"
  have "au_pending (snd (login_profile env k u cl ?d)) = AList.delete n (au_pending d)"
    by (simp add: keeps_login)
  then show thesis using assms that
    by (cases r) (auto simp: request_auth_def Let_def split: if_splits option.splits sum.splits)
qed

definition auth_inv :: "'w auth_env \<Rightarrow> 'w auth_desk \<times> auth_history \<Rightarrow> bool" where
  "auth_inv env = (\<lambda>(d, h).
     length (au_pending d) \<le> max_pending \<and> distinct (map fst (au_pending d))
     \<and> (\<forall>(n, k, m) \<in> set (au_pending d). list_ex (issued_for k n m) h)
     \<and> (\<forall>n. accepts n h + (if n \<in> fst ` set (au_pending d) then 1 else 0) \<le> issues n h)
     \<and> logins_backed env h)"

lemma logins_backed_snoc:
  "logins_backed env (h @ [(c, r)]) \<longleftrightarrow> logins_backed env h \<and> (\<forall>a. r = Inr a \<longrightarrow> backed env h c)"
  unfolding logins_backed_def
proof (safe, goal_cases)
  case (3 pre c' a post)
  then show ?case by (cases post rule: rev_cases) auto
qed fastforce+

lemma counts_snoc:
  "issues n (h @ [e]) = issues n h + (if issues_nonce n e then 1 else 0)"
  "accepts n (h @ [e]) = accepts n h + (if accepts_nonce n e then 1 else 0)"
  by (simp_all add: issues_def accepts_def)

lemma update_mem: "x \<in> set (AList.update k v al) \<Longrightarrow> x = (k, v) \<or> x \<in> set al"
  by (induction al) (auto split: if_splits)

lemma delete_mem: "x \<in> set (AList.delete k al) \<longleftrightarrow> x \<in> set al \<and> fst x \<noteq> k"
  by (auto simp: AList.delete_eq)

lemma spent_inv:
  assumes inv: "auth_inv env (d, h)" and sub: "set (au_pending d') \<subseteq> set (au_pending d)"
    and len: "length (au_pending d') \<le> length (au_pending d)" and dist: "distinct (map fst (au_pending d'))"
    and new: "\<And>n. \<not> issues_nonce n (c, r)"
    and spent: "\<And>n. accepts_nonce n (c, r) \<Longrightarrow> n \<in> fst ` set (au_pending d) \<and> n \<notin> fst ` set (au_pending d')"
    and ok: "\<And>a. r = Inr a \<Longrightarrow> backed env h c"
  shows "auth_inv env (d', h @ [(c, r)])"
proof -
  have "accepts n (h @ [(c, r)]) + (if n \<in> fst ` set (au_pending d') then 1 else 0) \<le> issues n (h @ [(c, r)])" for n
  proof -
    have "n \<in> fst ` set (au_pending d') \<Longrightarrow> n \<in> fst ` set (au_pending d)" using sub by auto
    moreover have "accepts n h + (if n \<in> fst ` set (au_pending d) then 1 else 0) \<le> issues n h"
      using inv by (simp add: auth_inv_def)
    ultimately show ?thesis using spent [of n] new [of n] by (auto simp: counts_snoc split: if_splits)
  qed
  then show ?thesis using inv sub len dist ok by (fastforce simp: auth_inv_def logins_backed_snoc)
qed

lemma issue_inv:
  assumes "auth_inv env (d, h)" and "issue_auth_challenge env k d = (r, d')"
  shows "auth_inv env (d', h @ [(Issue k, map_sum id Challenge r)])"
  using assms(2)
proof (cases rule: issue_cases)
  case (refused e)
  moreover have "distinct (map fst (au_pending d))" using assms(1) by (simp add: auth_inv_def)
  ultimately show ?thesis by (intro spent_inv [OF assms(1)]) auto
next
  case (issued n m t)
  let ?ps = "evict (ae_first env) (au_pending d)"
  have inv: "distinct (map fst ?ps)" "set ?ps \<subseteq> set (au_pending d)"
    using assms(1) evict_distinct [of "au_pending d"] evict_set [of "ae_first env" "au_pending d"]
    by (simp_all add: auth_inv_def)
  have mem: "x \<in> set (au_pending d') \<Longrightarrow> x = (n, k, m) \<or> x \<in> set (au_pending d)" for x
    using inv issued(2) update_mem by fastforce
  have "length (au_pending d') \<le> max_pending"
    using issued(2) length_update_le [of n "(k, m)" ?ps] evict_length [of "ae_first env" "au_pending d"] by simp
  moreover have "distinct (map fst (au_pending d'))" using inv issued(2) by (simp add: distinct_update)
  moreover have "list_ex (issued_for k' n' m') (h @ [(Issue k, Inr (Challenge \<lparr>ac_nonce = n, ac_message = m, ac_ts = t\<rparr>))])"
    if "(n', k', m') \<in> set (au_pending d')" for n' k' m'
    using mem [OF that] assms(1) by (auto simp: auth_inv_def)
  moreover have "accepts n' h + (if n' \<in> fst ` set (au_pending d') then 1 else 0) \<le> issues n' h + (if n = n' then 1 else 0)" for n'
  proof -
    have "n' \<in> fst ` set (au_pending d') \<Longrightarrow> n' = n \<or> n' \<in> fst ` set (au_pending d)" using mem by force
    moreover have "accepts n' h + (if n' \<in> fst ` set (au_pending d) then 1 else 0) \<le> issues n' h"
      using assms(1) by (simp add: auth_inv_def)
    ultimately show ?thesis by (auto split: if_splits)
  qed
  ultimately show ?thesis using assms(1) issued(1)
    by (auto simp: auth_inv_def logins_backed_snoc counts_snoc backed_def)
qed

lemma request_inv:
  assumes inv: "auth_inv env (d, h)" and "request_auth env k sg n u cl d = (r, d')"
  shows "auth_inv env (d', h @ [(Request k sg n u cl, map_sum id Profile r)])"
proof -
  have dist: "distinct (map fst (au_pending d))" using inv by (simp add: auth_inv_def)
  have del: "set (AList.delete n (au_pending d)) \<subseteq> set (au_pending d)"
    "length (AList.delete n (au_pending d)) \<le> length (au_pending d)"
    "distinct (map fst (AList.delete n (au_pending d)))" "n \<notin> fst ` set (AList.delete n (au_pending d))"
    using dist by (auto simp: delete_mem AList.length_delete_le AList.distinct_delete)
  show ?thesis using assms(2)
  proof (cases rule: request_cases)
    case (unknown e)
    then show ?thesis using dist by (intro spent_inv [OF inv]) auto
  next
    case (failed e)
    then show ?thesis using del by (intro spent_inv [OF inv]) auto
  next
    case (accepted p m)
    have "(n, k, m) \<in> set (au_pending d)" using accepted(3) by (rule map_of_SomeD)
    then have "n \<in> fst ` set (au_pending d)" "list_ex (issued_for k n m) h"
      using inv by (force, auto simp: auth_inv_def)
    then show ?thesis using accepted del by (intro spent_inv [OF inv]) (auto simp: backed_def)
  qed
qed

lemma auth_step_inv:
  assumes "auth_step env s s'" and "auth_inv env s"
  shows "auth_inv env s'"
  using assms
proof (cases rule: auth_step.cases)
  case (elapse d h w)
  then show ?thesis using assms(2) by (simp add: auth_inv_def)
next
  case (command c d r d' h)
  show ?thesis
  proof (cases "(\<exists>k. c = Issue k) \<or> (\<exists>k sg n u cl. c = Request k sg n u cl)")
    case True
    then show ?thesis
    proof (elim disjE exE)
      fix k assume c: "c = Issue k"
      obtain r0 d0 where i: "issue_auth_challenge env k d = (r0, d0)" by (metis prod.exhaust)
      then have "r = map_sum id Challenge r0 \<and> d' = d0"
        using command(3) c by (cases r0) (auto simp: answer_def attempt_def outcome_def)
      then show ?thesis using issue_inv [OF _ i] assms(2) command c by simp
    next
      fix k sg n u cl assume c: "c = Request k sg n u cl"
      obtain r0 d0 where i: "request_auth env k sg n u cl d = (r0, d0)" by (metis prod.exhaust)
      then have "r = map_sum id Profile r0 \<and> d' = d0"
        using command(3) c by (cases r0) (auto simp: answer_def attempt_def outcome_def)
      then show ?thesis using request_inv [OF _ i] assms(2) command c by simp
    qed
  next
    case False
    then have "au_pending d' = au_pending d" using run_command_keeps [OF command(3)] by blast
    moreover have "\<not> issues_nonce n (c, r)" "\<not> accepts_nonce n (c, r)" "backed env h c" for n
      using False by (cases c; auto simp: backed_def)+
    moreover have "distinct (map fst (au_pending d))" using assms(2) command by (simp add: auth_inv_def)
    ultimately show ?thesis using assms(2) command by (auto intro!: spent_inv [of env d h])
  qed
qed

lemma auth_reachable_inv: "auth_reachable env s \<Longrightarrow> auth_inv env s"
proof (induction rule: auth_reachable.induct)
  case (start d)
  then show ?case by (auto simp: auth_inv_def issues_def accepts_def logins_backed_def)
next
  case (step s s')
  then show ?case using auth_step_inv by blast
qed

text \<open>
  C31: whatever the order of commands, at most 64 challenges wait, and every login that succeeded
  answers a challenge issued before for the same key, with a signature over that challenge's
  message that verifies under it; no nonce admits more logins than it was issued times, so a
  nonce that is drawn once admits one login at most.
\<close>
theorem logins_need_fresh_challenge:
  assumes "auth_reachable env (d, h)"
  shows "length (au_pending d) \<le> 64 \<and> (\<forall>n. accepts n h \<le> issues n h)
    \<and> (\<forall>pre k sg n u cl a post. h = pre @ (Request k sg n u cl, Inr a) # post \<longrightarrow>
         (\<exists>m. list_ex (issued_for k n m) pre \<and> verify_signature env k m sg = Inr ()))"
proof -
  have inv: "auth_inv env (d, h)" using auth_reachable_inv [OF assms] .
  then have "accepts n h \<le> issues n h" for n by (auto simp: auth_inv_def dest: spec [of _ n] split: if_splits)
  moreover have "backed env pre c" if "h = pre @ (c, Inr a) # post" for pre c a post
    using inv that by (auto simp: auth_inv_def logins_backed_def)
  ultimately show ?thesis using inv by (fastforce simp: auth_inv_def max_pending_def backed_def)
qed

section \<open>The reserved key\<close>

definition fault_free :: "'w auth_env \<Rightarrow> bool" where
  "fault_free env \<longleftrightarrow> (\<forall>oper w. fst (ae_fault env oper w) = None)"

lemma sled_ok:
  assumes "fault_free env"
  obtains w where "sled env oper act st = (Inr (fst (act (st\<lparr>au_world := w\<rparr>))), snd (act (st\<lparr>au_world := w\<rparr>)))"
proof -
  obtain w where "ae_fault env oper (au_world st) = (None, w)"
    using assms unfolding fault_free_def by (metis prod.collapse)
  then show thesis using that [of w] by (simp add: sled_def split_beta)
qed

lemma db_get_ok:
  assumes "fault_free env" obtains w where "db_get env k st = (Inr (au_db st k), st\<lparr>au_world := w\<rparr>)"
  unfolding db_get_def by (rule sled_ok [OF assms, of "OpGet k" "\<lambda>st. (au_db st k, st)" st]) (simp add: that)

lemma db_remove_ok:
  assumes "fault_free env"
  obtains w where "db_remove env k st = (Inr (), st\<lparr>au_world := w, au_db := (au_db st)(k := None)\<rparr>)"
  unfolding db_remove_def
  by (rule sled_ok [OF assms, of "OpRemove k" "\<lambda>st. ((), st\<lparr>au_db := (au_db st)(k := None)\<rparr>)" st]) (simp add: that)

lemma db_flush_ok:
  assumes "fault_free env" obtains w where "db_flush env st = (Inr (), st\<lparr>au_world := w\<rparr>)"
  unfolding db_flush_def by (rule sled_ok [OF assms, of OpFlush "\<lambda>st. ((), st)" st]) (simp add: that)

lemma saved_profile:
  assumes "save_user_profile env k name cl st = (Inr p, st1)"
  shows "au_db st1 = (au_db st)(k \<mapsto> ae_print env (profile_json p)) \<and> \<not> au_store_poisoned st1"
  using assms
  by (auto simp: save_user_profile_def with_store_def store_save_def attempt_def outcome_def clock_def db_insert_def
      db_flush_def sled_def Let_def split: if_splits prod.splits sum.splits option.splits)

text \<open>A profile is no session: the names of the fields differ.\<close>

definition broken_session :: app_error where
  "broken_session = JsonError ''missing field `public_key`''"

lemma read_session_of_profile:
  assumes "ae_parse env s = Inr (profile_json p)"
  shows "read_session env s = Inl broken_session"
  using assms by (simp add: read_session_def parse_json_def struct_strings_def profile_json_def broken_session_def)

lemma broken_get_session:
  assumes "fault_free env" and "au_db st session_key = Some s" and "read_session env s = Inl e"
  obtains w where "store_get_session env st = (Inl e, st\<lparr>au_world := w\<rparr>)"
  using assms(2,3) that
  by (auto simp: store_get_session_def attempt_def outcome_def intro: db_get_ok [OF assms(1), of session_key st])

lemma clear_session_ok:
  assumes "fault_free env" and "\<not> au_store_poisoned st"
  obtains st1 where "clear_wallet_session env st = (Inr (), st1)" and "au_db st1 = (au_db st)(session_key := None)"
    and "\<not> au_store_poisoned st1"
proof -
  obtain w where r: "db_remove env session_key st = (Inr (), st\<lparr>au_world := w, au_db := (au_db st)(session_key := None)\<rparr>)"
    using db_remove_ok [OF assms(1)] .
  let ?st = "st\<lparr>au_world := w, au_db := (au_db st)(session_key := None)\<rparr>"
  obtain w1 where "db_flush env ?st = (Inr (), ?st\<lparr>au_world := w1\<rparr>)"
    using db_flush_ok [OF assms(1)] .
  then show thesis using r assms(2) that
    by (simp add: clear_wallet_session_def with_store_def store_clear_session_def attempt_def)
qed

lemma no_session:
  assumes "fault_free env" and "\<not> au_store_poisoned st" and "au_db st session_key = None"
  shows "fst (get_saved_session env st) = Inr None"
proof -
  obtain w where "db_get env session_key st = (Inr (au_db st session_key), st\<lparr>au_world := w\<rparr>)"
    using db_get_ok [OF assms(1)] .
  then show ?thesis using assms(2,3)
    by (simp add: get_saved_session_def with_store_def store_get_session_def attempt_def outcome_def)
qed

text \<open>
  C32: the key of the remembered session is not reserved: \<open>save_user_profile\<close> accepts it like any
  other key and writes a profile over the session. From then on \<open>get_saved_session\<close> answers a
  JSON error, and so does every deletion of another profile, after it has removed that profile
  and before it flushes; only signing out ends it.
\<close>
theorem reserved_key_breaks_session:
  assumes "save_user_profile env session_key name cl st = (Inr p, st1)"
    and "fault_free env" and "ae_parse env (ae_print env (profile_json p)) = Inr (profile_json p)"
    and "k \<noteq> session_key" and "trim k \<noteq> []"
  shows "fst (get_saved_session env st1) = Inl broken_session
    \<and> (\<exists>st2. delete_user_profile env k st1 = (Inl broken_session, st2)
          \<and> au_db st2 = (au_db st1)(k := None))
    \<and> (\<exists>st2. clear_wallet_session env st1 = (Inr (), st2) \<and> fst (get_saved_session env st2) = Inr None)"
proof (intro conjI)
  let ?s = "ae_print env (profile_json p)"
  have db: "au_db st1 session_key = Some ?s" "\<not> au_store_poisoned st1"
    using saved_profile [OF assms(1)] by simp_all
  have bad: "read_session env ?s = Inl broken_session" by (rule read_session_of_profile [OF assms(3)])
  show "fst (get_saved_session env st1) = Inl broken_session"
  proof -
    obtain w where "store_get_session env st1 = (Inl broken_session, st1\<lparr>au_world := w\<rparr>)"
      using broken_get_session [OF assms(2) db(1) bad] .
    then show ?thesis using db(2) by (simp add: get_saved_session_def with_store_def attempt_def)
  qed
  obtain w where r: "db_remove env k st1 = (Inr (), st1\<lparr>au_world := w, au_db := (au_db st1)(k := None)\<rparr>)"
    using db_remove_ok [OF assms(2)] .
  let ?st = "st1\<lparr>au_world := w, au_db := (au_db st1)(k := None)\<rparr>"
  have "au_db ?st session_key = Some ?s" using db(1) assms(4) by simp
  then obtain w1 where "store_get_session env ?st = (Inl broken_session, ?st\<lparr>au_world := w1\<rparr>)"
    by (rule broken_get_session [OF assms(2) _ bad])
  then show "\<exists>st2. delete_user_profile env k st1 = (Inl broken_session, st2) \<and> au_db st2 = (au_db st1)(k := None)"
    using r assms(5) db(2) by (simp add: delete_user_profile_def with_store_def store_delete_def attempt_def)
  show "\<exists>st2. clear_wallet_session env st1 = (Inr (), st2) \<and> fst (get_saved_session env st2) = Inr None"
    by (rule clear_session_ok [OF assms(2) db(2)]) (use no_session [OF assms(2)] in fastforce)
qed

section \<open>Witnesses\<close>

definition sample_profile :: user_profile where
  "sample_profile = \<lparr>up_public_key = session_key, up_username = ''Ann'', up_cluster = ''devnet'', up_created_at = ''t''\<rparr>"

text \<open>The world counts the identifiers; the codec knows one text; one signature verifies.\<close>

definition sample_auth_env :: "nat auth_env" where
  "sample_auth_env =
     \<lparr>ae_io = \<lparr>io_http = (\<lambda>q w. (Inl [], w)), io_parse = (\<lambda>s. Inl []), io_show_status = (\<lambda>n. []), io_now = (\<lambda>w. 0),
               io_sleep = (\<lambda>n w. w), io_uuid = (\<lambda>w. (show_nat w, Suc w)), io_now_iso = (\<lambda>w. (''t'', w))\<rparr>,
      ae_fault = (\<lambda>oper w. (None, w)), ae_print = (\<lambda>j. ''profile''), ae_parse = (\<lambda>s. Inr (profile_json sample_profile)),
      ae_first = (\<lambda>ks. 0), ae_base58 = (\<lambda>s. Some (replicate 32 0)), ae_key_check = (\<lambda>b. Inr ()),
      ae_verify = (\<lambda>b m sg. sg = replicate 64 1)\<rparr>"

definition sample_auth_desk :: "nat auth_desk" where
  "sample_auth_desk = \<lparr>au_pending = [], au_pending_poisoned = False, au_store_poisoned = False, au_db = Map.empty, au_world = 7\<rparr>"

lemma sample_trims: "trim session_key = session_key" "trim ''Ann'' = ''Ann''" "trim ''ww'' = ''ww''" "trim ''key'' = ''key''"
  "session_key \<noteq> []"
  using trim_word_ends [of "CHR ''_''" "CHR ''_''" "''_last_session_''"] trim_word_ends [of "CHR ''A''" "CHR ''n''" "''n''"]
    trim_word_ends [of "CHR ''w''" "CHR ''w''" "[]"] trim_word_ends [of "CHR ''k''" "CHR ''y''" "''e''"]
  by (simp_all add: session_key_def word_char_def is_ascii_def)

theorem reserved_key_breaks_session_witness:
  "\<exists>st1. save_user_profile sample_auth_env session_key ''Ann'' ''devnet'' sample_auth_desk = (Inr sample_profile, st1)
     \<and> fst (get_saved_session sample_auth_env st1) = Inl broken_session"
proof -
  note t = sample_trims
  obtain st1 where s: "save_user_profile sample_auth_env session_key ''Ann'' ''devnet'' sample_auth_desk = (Inr sample_profile, st1)"
    by (simp add: save_user_profile_def with_store_def store_save_def attempt_def outcome_def clock_def db_insert_def db_flush_def
        sled_def known_cluster_def sample_auth_env_def sample_auth_desk_def sample_profile_def t)

  moreover have "fault_free sample_auth_env" by (simp add: fault_free_def sample_auth_env_def)
  moreover have "ae_parse sample_auth_env (ae_print sample_auth_env (profile_json sample_profile)) = Inr (profile_json sample_profile)"
    by (simp add: sample_auth_env_def)
  ultimately have "fst (get_saved_session sample_auth_env st1) = Inl broken_session"
    using reserved_key_breaks_session [OF s, of "''ww''"] t(3) by (simp add: session_key_def)
  then show ?thesis using s by blast
qed

definition sample_login :: "auth_command list" where
  "sample_login = [Issue ''key'', Request ''key'' (replicate 64 1) ''7'' (Some ''Ann'') None,
     Request ''key'' (replicate 64 1) ''7'' (Some ''Ann'') None]"

fun run_commands :: "'w auth_env \<Rightarrow> auth_command list \<Rightarrow> 'w auth_desk \<times> auth_history \<Rightarrow> 'w auth_desk \<times> auth_history" where
  "run_commands env [] s = s"
| "run_commands env (c # cs) (d, h) = (case run_command env c d of (r, d') \<Rightarrow> run_commands env cs (d', h @ [(c, r)]))"

lemma run_commands_reachable: "auth_reachable env s \<Longrightarrow> auth_reachable env (run_commands env cs s)"
proof (induction env cs s rule: run_commands.induct)
  case (2 env c cs d h)
  obtain r d' where "run_command env c d = (r, d')" by (metis prod.exhaust)
  then show ?case using 2 auth_step.command auth_reachable.step by fastforce
qed simp

lemma sample_seven: "show_nat 7 = ''7''"
  by code_simp

lemma sample_history:
  obtains d where "run_commands sample_auth_env sample_login (sample_auth_desk, []) =
    (d, [(Issue ''key'', Inr (Challenge \<lparr>ac_nonce = ''7'', ac_message = challenge_message ''7'' ''t'', ac_ts = ''t''\<rparr>)),
         (Request ''key'' (replicate 64 1) ''7'' (Some ''Ann'') None, Inr (Profile (sample_profile\<lparr>up_public_key := ''key''\<rparr>))),
         (Request ''key'' (replicate 64 1) ''7'' (Some ''Ann'') None,
            Inl (InvalidInput ''Unknown or expired nonce; call issue_auth_challenge first.''))])"
proof -
  have e: "evict f [] = []" for f by (subst evict.simps) (simp add: max_pending_def)
  show thesis
    by (rule that)
      (simp add: sample_login_def issue_auth_challenge_def request_auth_def login_profile_def verify_signature_def store_save_def
        answer_def attempt_def outcome_def clock_def db_insert_def db_flush_def sled_def known_cluster_def sample_auth_env_def
        sample_auth_desk_def sample_profile_def sample_trims sample_seven e opt_simps Let_def)
qed

theorem logins_need_fresh_challenge_witness:
  "\<exists>d h. run_commands sample_auth_env sample_login (sample_auth_desk, []) = (d, h)
     \<and> accepts ''7'' h = 1 \<and> issues ''7'' h = 1 \<and> length (au_pending d) \<le> 64"
proof -
  obtain d where h: "run_commands sample_auth_env sample_login (sample_auth_desk, []) =
    (d, [(Issue ''key'', Inr (Challenge \<lparr>ac_nonce = ''7'', ac_message = challenge_message ''7'' ''t'', ac_ts = ''t''\<rparr>)),
         (Request ''key'' (replicate 64 1) ''7'' (Some ''Ann'') None, Inr (Profile (sample_profile\<lparr>up_public_key := ''key''\<rparr>))),
         (Request ''key'' (replicate 64 1) ''7'' (Some ''Ann'') None,
            Inl (InvalidInput ''Unknown or expired nonce; call issue_auth_challenge first.''))])"
    by (rule sample_history)
  have "auth_reachable sample_auth_env (sample_auth_desk, [])"
    by (rule auth_reachable.start) (simp add: sample_auth_desk_def)
  then have "auth_reachable sample_auth_env (run_commands sample_auth_env sample_login (sample_auth_desk, []))"
    by (rule run_commands_reachable)
  then have "length (au_pending d) \<le> 64"
    using logins_need_fresh_challenge unfolding h by blast
  then show ?thesis using h by (simp add: accepts_def issues_def)
qed

end
