(* ===== verification/Wallet_Popup.thy ===== *)
theory Wallet_Popup
  imports Txline
begin

text \<open>
  The wallet popup of \<open>commands/auth.rs\<close>: finding and launching a browser, and the HTTP server on
  a loopback port that waits for the public key. The server is a step relation: connections
  are accepted while it listens, requests in flight are answered in any order, and the
  graceful shutdown of the crate \<open>axum\<close> stops the listening, not the requests in flight. The
  embedded page and the script for Windows are texts of \<open>popup_env\<close>, beside the system calls.
\<close>

section \<open>The handlers\<close>

text \<open>
  \<open>pp_open\<close> holds while the sender that ends the popup's server is still there;
  \<open>pp_events\<close> lists the payloads of the event \<open>phantom_pubkey\<close>.
\<close>

record popup_state =
  pp_html :: string
  pp_open :: bool
  pp_events :: "string list"

definition popup_html_handler :: "popup_state \<Rightarrow> string" where
  "popup_html_handler s = pp_html s"

definition popup_pubkey_handler :: "string \<Rightarrow> popup_state \<Rightarrow> nat \<times> popup_state" where
  "popup_pubkey_handler pubkey s =
     (200, s\<lparr>pp_events := (if trim pubkey = [] then pp_events s else pp_events s @ [trim pubkey]), pp_open := False\<rparr>)"

section \<open>Finding a browser\<close>

definition chrome_candidates_windows :: "string list" where
  "chrome_candidates_windows =
     map (map (\<lambda>c. if c = CHR ''/'' then CHR 0x5C else c))
       [''C:/Program Files/Google/Chrome/Application/chrome.exe'',
        ''C:/Program Files (x86)/Google/Chrome/Application/chrome.exe'',
        ''C:/Program Files/BraveSoftware/Brave-Browser/Application/brave.exe'',
        ''C:/Program Files (x86)/BraveSoftware/Brave-Browser/Application/brave.exe'']"

definition chrome_candidates_macos :: "string list" where
  "chrome_candidates_macos =
     [''/Applications/Google Chrome.app/Contents/MacOS/Google Chrome'',
      ''/Applications/Brave Browser.app/Contents/MacOS/Brave Browser'',
      ''/Applications/Chromium.app/Contents/MacOS/Chromium'']"

definition chrome_names_linux :: "string list" where
  "chrome_names_linux = [''google-chrome'', ''google-chrome-stable'', ''chromium-browser'', ''chromium'', ''brave-browser'']"

definition path_join :: "string \<Rightarrow> string \<Rightarrow> string" where
  "path_join dir name = (if dir = [] \<or> last dir = CHR ''/'' then dir @ name else dir @ ''/'' @ name)"

datatype target_os = Windows | Macos | Linux | OtherOs

definition find_chrome :: "target_os \<Rightarrow> (string \<Rightarrow> bool) \<Rightarrow> string list option \<Rightarrow> string option" where
  \<comment> \<open>\<open>dirs\<close>: the directories of the variable \<open>PATH\<close>, when it is set\<close>
  "find_chrome os exists_path dirs =
     (case os of
        Windows \<Rightarrow> find exists_path chrome_candidates_windows
      | Macos \<Rightarrow> find exists_path chrome_candidates_macos
      | Linux \<Rightarrow> find exists_path (concat (map (\<lambda>name. map (\<lambda>dir. path_join dir name) (unwrap_or [] dirs)) chrome_names_linux))
      | OtherOs \<Rightarrow> None)"

section \<open>Launching it\<close>

record 'w popup_env =
  pv_bind :: "'w \<Rightarrow> (string + unit) \<times> 'w"
  pv_port :: "'w \<Rightarrow> (string + nat) \<times> 'w"
  pv_os :: target_os
  pv_exists :: "string \<Rightarrow> bool"
  pv_dirs :: "string list option"
  pv_spawn :: "string \<Rightarrow> string list \<Rightarrow> 'w \<Rightarrow> (string + unit) \<times> 'w"
  pv_write :: "string \<Rightarrow> string \<Rightarrow> 'w \<Rightarrow> (string + unit) \<times> 'w"
  pv_script_path :: string
  pv_script :: string
  pv_page :: string

definition and_do :: "('w \<Rightarrow> ('e + 'a) \<times> 'w) \<Rightarrow> ('a \<Rightarrow> 'w \<Rightarrow> ('e + 'b) \<times> 'w) \<Rightarrow> 'w \<Rightarrow> ('e + 'b) \<times> 'w" where
  "and_do m f w = (case m w of (Inl e, w1) \<Rightarrow> (Inl e, w1) | (Inr x, w1) \<Rightarrow> f x w1)"

definition failing :: "string \<Rightarrow> ('w \<Rightarrow> (string + 'a) \<times> 'w) \<Rightarrow> 'w \<Rightarrow> (app_error + 'a) \<times> 'w" where
  "failing what m w = (case m w of (r, w1) \<Rightarrow> (map_sum (\<lambda>e. TaskError (what @ '': '' @ e)) id r, w1))"

definition spawn_hidden_chrome :: "'w popup_env \<Rightarrow> string \<Rightarrow> string \<Rightarrow> 'w \<Rightarrow> (string + unit) \<times> 'w" where
  "spawn_hidden_chrome env chrome app_url =
     (if pv_os env = Windows
      then and_do (pv_spawn env chrome [app_url, ''--no-first-run'', ''--no-default-browser-check'']) (\<lambda>_.
           and_do (pv_write env (pv_script_path env) (pv_script env)) (\<lambda>_.
             pv_spawn env ''powershell'' [''-NoProfile'', ''-WindowStyle'', ''Hidden'', ''-ExecutionPolicy'', ''Bypass'',
               ''-File'', pv_script_path env]))
      else pv_spawn env chrome [app_url, ''--window-size=1,1'', ''--window-position=-32000,-32000'',
             ''--no-first-run'', ''--no-default-browser-check''])"

function replace_all :: "string \<Rightarrow> string \<Rightarrow> string \<Rightarrow> string" where
  \<comment> \<open>\<open>str::replace\<close> for a non-empty pattern\<close>
  "replace_all p r s =
     (if p = [] then s
      else case find_sub p s of None \<Rightarrow> s | Some i \<Rightarrow> take i s @ r @ replace_all p r (drop (i + length p) s))"
  by pat_completeness auto
termination
proof (relation "measure (\<lambda>(p, r, s). length s)", goal_cases)
  case (2 p r s i)
  then have "s \<noteq> []" by (cases s) auto
  then show ?case using 2(1) by simp
qed simp

declare replace_all.simps [simp del]

datatype popup_request = GetPage | PostPubkey string | PostRefused nat | OtherRoute

text \<open>\<open>PostRefused\<close>: a post whose body the JSON extractor answers with an error status.\<close>

record popup_server =
  ps_state :: popup_state
  ps_listening :: bool
  ps_inflight :: "popup_request list"
  ps_secs :: nat

definition serve_popup :: "string \<Rightarrow> nat \<Rightarrow> popup_server" where
  \<comment> \<open>the server as it starts\<close>
  "serve_popup page port = \<lparr>ps_state = \<lparr>pp_html = replace_all ''__PORT__'' (show_nat port) page, pp_open = True, pp_events = []\<rparr>,
     ps_listening = True, ps_inflight = [], ps_secs = 0\<rparr>"

definition no_chrome :: app_error where
  "no_chrome = TaskError (''Google Chrome (or Brave) was not found. Please install Chrome to use the Phantom popup, ''
     @ ''or paste your public key manually.'')"

definition open_phantom_popup :: "'w popup_env \<Rightarrow> 'w \<Rightarrow> (app_error + popup_server) \<times> 'w" where
  \<comment> \<open>the command answers at once; the server it leaves behind is the value\<close>
  "open_phantom_popup env =
     and_do (failing ''popup server bind failed'' (pv_bind env)) (\<lambda>_.
     and_do (failing ''popup server addr failed'' (pv_port env)) (\<lambda>port.
       case find_chrome (pv_os env) (pv_exists env) (pv_dirs env) of
         None \<Rightarrow> (\<lambda>w. (Inl no_chrome, w))
       | Some chrome \<Rightarrow>
           and_do (failing ''failed to launch Chrome''
                     (spawn_hidden_chrome env chrome (''--app=http://127.0.0.1:'' @ show_nat port @ ''/''))) (\<lambda>_ w.
             (Inr (serve_popup (pv_page env) port), w))))"

section \<open>The server\<close>

fun popup_route :: "popup_request \<Rightarrow> popup_state \<Rightarrow> nat \<times> popup_state" where
  "popup_route GetPage s = (200, s)"
| "popup_route (PostPubkey k) s = popup_pubkey_handler k s"
| "popup_route (PostRefused status) s = (status, s)"
| "popup_route OtherRoute s = (404, s)"

inductive popup_step :: "popup_server \<Rightarrow> popup_server \<Rightarrow> bool" where
  accept: "ps_listening s \<Longrightarrow> popup_step s (s\<lparr>ps_inflight := ps_inflight s @ [r]\<rparr>)"
| respond: "ps_inflight s = before @ r # after \<Longrightarrow>
     popup_step s (s\<lparr>ps_inflight := before @ after, ps_state := snd (popup_route r (ps_state s))\<rparr>)"
| stop: "ps_listening s \<Longrightarrow> \<not> pp_open (ps_state s) \<or> 120 \<le> ps_secs s \<Longrightarrow> popup_step s (s\<lparr>ps_listening := False\<rparr>)"
| second: "popup_step s (s\<lparr>ps_secs := Suc (ps_secs s)\<rparr>)"

inductive_cases popup_stepE: "popup_step s s'"

inductive popup_reachable :: "popup_server \<Rightarrow> popup_server \<Rightarrow> bool" for s0 where
  start: "popup_reachable s0 s0"
| step: "popup_reachable s0 s \<Longrightarrow> popup_step s s' \<Longrightarrow> popup_reachable s0 s'"

text \<open>
  No key is reported while the sender of the shutdown is there, every reported key is trimmed and
  not blank, and the page stays the one with the port filled in.
\<close>

definition popup_inv :: "popup_server \<Rightarrow> popup_server \<Rightarrow> bool" where
  "popup_inv s0 s \<longleftrightarrow> pp_html (ps_state s) = pp_html (ps_state s0)
     \<and> (pp_open (ps_state s) \<longrightarrow> pp_events (ps_state s) = [])
     \<and> (\<forall>k \<in> set (pp_events (ps_state s)). k \<noteq> [] \<and> (\<exists>sent. k = trim sent))"

lemma popup_route_events:
  "pp_html (snd (popup_route r s)) = pp_html s"
  "pp_open (snd (popup_route r s)) \<Longrightarrow> pp_open s \<and> pp_events (snd (popup_route r s)) = pp_events s"
  "set (pp_events (snd (popup_route r s))) \<subseteq> set (pp_events s) \<union> ({k. \<exists>sent. r = PostPubkey sent \<and> k = trim sent} - {[]})"
  by (cases r; simp add: popup_pubkey_handler_def)+

lemma popup_step_inv: "popup_step s s' \<Longrightarrow> popup_inv s0 s \<Longrightarrow> popup_inv s0 s'"
proof (elim popup_stepE)
  fix before r after
  assume inv: "popup_inv s0 s" and s': "s' = s\<lparr>ps_inflight := before @ after, ps_state := snd (popup_route r (ps_state s))\<rparr>"
  show "popup_inv s0 s'"
    using inv popup_route_events [of r "ps_state s"] unfolding popup_inv_def s' by auto
qed (auto simp: popup_inv_def)

lemma popup_reports_after_shutdown:
  assumes "popup_reachable (serve_popup page port) s"
  shows "popup_inv (serve_popup page port) s"
  using assms
proof induction
  case start
  then show ?case by (simp add: popup_inv_def serve_popup_def)
qed (rule popup_step_inv)

text \<open>A server that has stopped and has answered everything reports nothing any more.\<close>

lemma stopped_is_final:
  assumes "popup_step s s'" and "\<not> ps_listening s" and "ps_inflight s = []"
  shows "ps_state s' = ps_state s \<and> \<not> ps_listening s' \<and> ps_inflight s' = []"
  using assms by (auto elim!: popup_stepE)

text \<open>
  The server is not single-use: two requests that are in flight together both report their key, and a
  blank key ends it without a report.
\<close>

lemma two_keys_reported:
  assumes "trim a \<noteq> []" and "trim b \<noteq> []"
  shows "\<exists>s. popup_reachable (serve_popup page port) s \<and> \<not> ps_listening s \<and> pp_events (ps_state s) = [trim a, trim b]"
proof -
  let ?s0 = "serve_popup page port"
  let ?s2 = "?s0\<lparr>ps_inflight := [PostPubkey a, PostPubkey b]\<rparr>"
  let ?s3 = "?s2\<lparr>ps_inflight := [PostPubkey b], ps_state := snd (popup_route (PostPubkey a) (ps_state ?s2))\<rparr>"
  let ?s4 = "?s3\<lparr>ps_listening := False\<rparr>"
  let ?s5 = "?s4\<lparr>ps_inflight := [], ps_state := snd (popup_route (PostPubkey b) (ps_state ?s4))\<rparr>"
  have l: "ps_listening ?s0" "ps_inflight ?s0 = []" by (simp_all add: serve_popup_def)
  have "popup_reachable ?s0 (?s0\<lparr>ps_inflight := ps_inflight ?s0 @ [PostPubkey a]\<rparr>)"
    by (rule popup_reachable.step [OF popup_reachable.start accept]) (rule l)
  then have "popup_reachable ?s0 ((?s0\<lparr>ps_inflight := [PostPubkey a]\<rparr>)\<lparr>ps_inflight := [PostPubkey a] @ [PostPubkey b]\<rparr>)"
    using popup_reachable.step [OF _ accept [of "?s0\<lparr>ps_inflight := [PostPubkey a]\<rparr>" "PostPubkey b"]] l by simp
  then have "popup_reachable ?s0 ?s2" by simp
  then have "popup_reachable ?s0 ?s3"
    using popup_reachable.step [OF _ respond [of ?s2 "[]" "PostPubkey a" "[PostPubkey b]"]] by simp
  then have "popup_reachable ?s0 ?s4"
    using popup_reachable.step [OF _ stop [of ?s3]] l by (simp add: popup_pubkey_handler_def)
  then have "popup_reachable ?s0 ?s5"
    using popup_reachable.step [OF _ respond [of ?s4 "[]" "PostPubkey b" "[]"]] by simp
  then show ?thesis using assms by (intro exI [of _ ?s5]) (simp add: popup_pubkey_handler_def serve_popup_def)
qed

lemma blank_key_ends_server:
  "trim k = [] \<Longrightarrow> popup_route (PostPubkey k) s = (200, s\<lparr>pp_open := False\<rparr>)"
  by (simp add: popup_pubkey_handler_def)

end
