(* ===== verification/Autonomous.thy ===== *)
theory Autonomous
  imports Backtest "HOL-Library.AList" "HOL-Library.Multiset"
begin

text \<open>
  The autonomous loop (\<open>services/autonomous.rs\<close>) and its switch
  (\<open>commands/autonomous.rs\<close>): every cycle polls the fixtures around their kick-off, compares
  the prices with those of the last poll and starts a round for a sharp move, at most one
  an hour for a fixture. The round itself is an argument that moves the world. Two fields of the state
  are the history the property speaks of and are read by nothing: \<open>at_polls\<close> lists the snapshots that
  were compared, as the feed gave them, \<open>at_rounds\<close> the rounds that were started. The order in which
  the hash map of prices is walked is the argument \<open>av_order\<close>. Instants are in milliseconds, as in the
  waits of the bus. The property states when rounds start, over any sequence of cycles.
\<close>

section \<open>State\<close>

record live_fixture =
  lf_fixture_id :: u64
  lf_home :: string
  lf_away :: string

record price_move =
  mv_outcome :: string
  mv_previous :: f64
  mv_current :: f64
  mv_pct :: f64

record price_poll =
  pp_fixture :: u64
  pp_at :: nat
  pp_raw :: json

record round_start =
  rd_poll :: nat
  rd_fixture :: u64
  rd_at :: nat
  rd_move :: price_move
  rd_event :: txline_event

record 'w auto_state =
  at_enabled :: bool
  at_last_seen :: "u64 \<times> string \<rightharpoonup> f64"
  at_last_triggered :: "u64 \<rightharpoonup> nat"
  at_poisoned :: bool
  at_polls :: "price_poll list"
  at_rounds :: "round_start list"
  at_world :: 'w

record 'w auto_env =
  av_bt :: "'w backtest_env"
  av_wall_ms :: "'w \<Rightarrow> i64"
  av_order :: "(string \<times> i64 \<times> f64) list \<Rightarrow> (string \<times> i64 \<times> f64) list"
  av_round :: "txline_event \<Rightarrow> track_mode \<Rightarrow> 'w \<Rightarrow> (app_error + unit) \<times> 'w"

section \<open>Which fixtures\<close>

definition kickoff_window_before_ms :: int where "kickoff_window_before_ms = 15 * 60 * 1000"
definition kickoff_window_after_ms :: int where "kickoff_window_after_ms = 4 * 3600 * 1000"
definition min_retrigger_interval :: nat where "min_retrigger_interval = 3600 * 1000"

definition in_kickoff_window :: "i64 \<Rightarrow> i64 \<Rightarrow> bool" where
  "in_kickoff_window now start_time \<longleftrightarrow>
     (let delta = wrap_i64 (now - start_time)
      in \<not> (delta < - kickoff_window_before_ms \<or> kickoff_window_after_ms < delta))"

definition live_fixture_of :: "i64 \<Rightarrow> json \<Rightarrow> live_fixture option" where
  "live_fixture_of now row =
     Option.bind (Option.bind (jget row ''FixtureId'') as_u64) (\<lambda>fixture.
     Option.bind (Option.bind (jget row ''StartTime'') as_i64) (\<lambda>start_time.
       if in_kickoff_window now start_time
       then Some \<lparr>lf_fixture_id = fixture,
                  lf_home = unwrap_or ''Home'' (Option.bind (jget row ''Participant1'') as_str),
                  lf_away = unwrap_or ''Away'' (Option.bind (jget row ''Participant2'') as_str)\<rparr>
       else None))"

definition parse_live_fixtures :: "json \<Rightarrow> i64 \<Rightarrow> live_fixture list" where
  "parse_live_fixtures raw now =
     (case as_array raw of None \<Rightarrow> [] | Some rows \<Rightarrow> List.map_filter (live_fixture_of now) rows)"

definition div_trunc :: "int \<Rightarrow> int \<Rightarrow> int" where
  "div_trunc a b = (if 0 \<le> a then a div b else - ((- a) div b))"

definition fetch_live_window_fixtures ::
    "'w auto_env \<Rightarrow> app_config \<Rightarrow> 'w \<Rightarrow> (app_error + live_fixture list) \<times> 'w" where
  "fetch_live_window_fixtures env cfg w =
     (case authenticated_get (be_post (av_bt env)) (be_get (av_bt env)) cfg ''api/fixtures/snapshot''
             [(''startEpochDay'', show_int (div_trunc (av_wall_ms env w) 86400000))] w of
        (Inl e, w1) \<Rightarrow> (Inl e, w1)
      | (Inr raw, w1) \<Rightarrow> (Inr (parse_live_fixtures raw (av_wall_ms env w1)), w1))"

section \<open>One fixture\<close>

definition keep_latest :: "odds_tick \<Rightarrow> (string \<times> i64 \<times> f64) list \<Rightarrow> (string \<times> i64 \<times> f64) list" where
  "keep_latest tk latest =
     (case map_of latest (tk_outcome tk) of
        None \<Rightarrow> latest @ [(tk_outcome tk, tk_ts tk, tk_decimal tk)]
      | Some (ts, _) \<Rightarrow>
          if ts < tk_ts tk then AList.update (tk_outcome tk) (tk_ts tk, tk_decimal tk) latest else latest)"

definition latest_per_outcome :: "odds_tick list \<Rightarrow> (string \<times> i64 \<times> f64) list" where
  "latest_per_outcome ticks = fold keep_latest ticks []"

definition move_of :: "f64 \<Rightarrow> string \<Rightarrow> f64 \<Rightarrow> f64 \<Rightarrow> price_move option" where
  "move_of threshold outcome previous current =
     (if flt (lit 0) previous
      then let pct = fabs (fmul (fdiv (fsub current previous) previous) (lit 100))
           in if fle threshold pct
              then Some \<lparr>mv_outcome = outcome, mv_previous = previous, mv_current = current, mv_pct = pct\<rparr>
              else None
      else None)"

definition diff_price ::
    "f64 \<Rightarrow> u64 \<Rightarrow> string \<times> i64 \<times> f64 \<Rightarrow> (u64 \<times> string \<rightharpoonup> f64) \<times> price_move option \<Rightarrow>
       (u64 \<times> string \<rightharpoonup> f64) \<times> price_move option" where
  "diff_price threshold fixture = (\<lambda>(outcome, _, current) (seen, triggered).
     (seen((fixture, outcome) \<mapsto> current),
      opt_or triggered (Option.bind (seen (fixture, outcome)) (\<lambda>previous. move_of threshold outcome previous current))))"

fun quotes_of :: "'w backtest_env \<Rightarrow> u64 \<Rightarrow> (string \<times> i64 \<times> f64) list \<Rightarrow> 'w \<Rightarrow> odds_quote list \<times> 'w" where
  "quotes_of env fixture [] w = ([], w)"
| "quotes_of env fixture ((name, ts, decimal) # rest) w =
     (case ts_to_iso env ts w of (stamp, w1) \<Rightarrow>
      case quotes_of env fixture rest w1 of (qs, w2) \<Rightarrow>
        (\<lparr>oq_fixture_id = fixture, oq_outcome = name, oq_decimal = decimal,
          oq_implied_probability = (if flt (lit 0) decimal then fdiv (lit 1) decimal else lit 0),
          oq_source = Some ''autonomous-loop'', oq_ts = stamp\<rparr> # qs, w2))"

definition autonomous_event ::
    "live_fixture \<Rightarrow> price_move \<Rightarrow> odds_quote list \<Rightarrow> string \<Rightarrow> string \<Rightarrow> txline_event" where
  "autonomous_event fixture mv qts id_time now =
     \<lparr>ev_id = ''autonomous-'' @ show_u64 (lf_fixture_id fixture) @ ''-'' @ id_time, ev_kind = OddsMove,
      ev_fixture_id = lf_fixture_id fixture, ev_seq = None, ev_txline_ts = None, ev_action = None,
      ev_confirmed = None, ev_participant = None, ev_period = None, ev_stat_keys = [''odds.autonomous''],
      ev_schema_family = Some ''odds'', ev_title = lf_home fixture @ '' vs '' @ lf_away fixture,
      ev_body = ''Autonomous trigger: '' @ mv_outcome mv @ '' odds moved '' @ fmt_fixed 1 (mv_pct mv) @ ''% (''
        @ fmt_fixed 2 (mv_previous mv) @ '' '' @ ch_arrow @ '' '' @ fmt_fixed 2 (mv_current mv) @ '')'',
      ev_ts = now, ev_raw = None, ev_odds = Some qts, ev_score = None, ev_proof = None\<rparr>"

definition rate_limited :: "'w auto_env \<Rightarrow> u64 \<Rightarrow> 'w auto_state \<Rightarrow> bool" where
  "rate_limited env fixture st =
     (case at_last_triggered st fixture of
        None \<Rightarrow> False
      | Some t \<Rightarrow> io_now (be_io (av_bt env)) (at_world st) - t < min_retrigger_interval)"

definition auto_start_round ::
    "'w auto_env \<Rightarrow> live_fixture \<Rightarrow> price_move \<Rightarrow> (string \<times> i64 \<times> f64) list \<Rightarrow> 'w auto_state \<Rightarrow>
       (app_error + unit) \<times> 'w auto_state" where
  "auto_start_round env fixture mv latest st =
     (let now = io_now (be_io (av_bt env)) (at_world st)
      in case quotes_of (av_bt env) (lf_fixture_id fixture) latest (at_world st) of (qts, w1) \<Rightarrow>
         case io_now_iso (be_io (av_bt env)) w1 of (id_time, w2) \<Rightarrow>
         case io_now_iso (be_io (av_bt env)) w2 of (ts, w3) \<Rightarrow>
         let event = autonomous_event fixture mv qts id_time ts
         in case av_round env event Trading w3 of (r, w4) \<Rightarrow>
           (r, st\<lparr>at_last_triggered := (at_last_triggered st)(lf_fixture_id fixture \<mapsto> now),
                  at_rounds := at_rounds st @ [\<lparr>rd_poll = length (at_polls st) - 1, rd_fixture = lf_fixture_id fixture, rd_at = now, rd_move = mv, rd_event = event\<rparr>],
                  at_world := w4\<rparr>))"

definition poll_fixture ::
    "'w auto_env \<Rightarrow> app_config \<Rightarrow> live_fixture \<Rightarrow> 'w auto_state \<Rightarrow> (app_error + unit) \<times> 'w auto_state" where
  "poll_fixture env cfg fixture st =
     (case authenticated_get (be_post (av_bt env)) (be_get (av_bt env)) cfg
             (''api/odds/snapshot/'' @ show_u64 (lf_fixture_id fixture)) [] (at_world st) of
        (Inl e, w) \<Rightarrow> (Inl e, st\<lparr>at_world := w\<rparr>)
      | (Inr raw, w) \<Rightarrow>
          let st1 = st\<lparr>at_world := w\<rparr>; ticks = parse_market_rows raw (lf_fixture_id fixture)
          in if ticks = [] then (Inr (), st1)
             else if at_poisoned st1 then (Inl LockPoisoned, st1)
             else let latest = av_order env (latest_per_outcome ticks);
                      poll = \<lparr>pp_fixture = lf_fixture_id fixture, pp_at = io_now (be_io (av_bt env)) w, pp_raw = raw\<rparr>
             in case fold (diff_price (odds_move_trigger_pct cfg) (lf_fixture_id fixture)) latest (at_last_seen st1, None) of
                  (seen, None) \<Rightarrow> (Inr (), st1\<lparr>at_last_seen := seen, at_polls := at_polls st1 @ [poll]\<rparr>)
                | (seen, Some mv) \<Rightarrow>
                    let st2 = st1\<lparr>at_last_seen := seen, at_polls := at_polls st1 @ [poll]\<rparr>
                    in if rate_limited env (lf_fixture_id fixture) st2 then (Inr (), st2)
                       else auto_start_round env fixture mv latest st2)"

section \<open>The loop\<close>

fun poll_fixtures :: "'w auto_env \<Rightarrow> app_config \<Rightarrow> live_fixture list \<Rightarrow> 'w auto_state \<Rightarrow> 'w auto_state" where
  "poll_fixtures env cfg [] st = st"
| "poll_fixtures env cfg (f # fs) st = poll_fixtures env cfg fs (snd (poll_fixture env cfg f st))"

definition poll_cycle :: "'w auto_env \<Rightarrow> app_config \<Rightarrow> 'w auto_state \<Rightarrow> (app_error + unit) \<times> 'w auto_state" where
  "poll_cycle env cfg st =
     (case fetch_live_window_fixtures env cfg (at_world st) of
        (Inl e, w) \<Rightarrow> (Inl e, st\<lparr>at_world := w\<rparr>)
      | (Inr fixtures, w) \<Rightarrow> (Inr (), poll_fixtures env cfg fixtures (st\<lparr>at_world := w\<rparr>)))"

definition set_autonomous_loop_enabled :: "bool \<Rightarrow> 'w auto_state \<Rightarrow> 'w auto_state" where
  "set_autonomous_loop_enabled b st = st\<lparr>at_enabled := b\<rparr>"

definition get_autonomous_loop_enabled :: "'w auto_state \<Rightarrow> bool" where
  "get_autonomous_loop_enabled st = at_enabled st"

definition poll_secs :: "app_config \<Rightarrow> nat" where
  "poll_secs cfg = max (unat (autonomous_poll_secs cfg)) 5"

definition loop_cycle :: "'w auto_env \<Rightarrow> app_config \<Rightarrow> 'w auto_state \<Rightarrow> 'w auto_state" where
  \<comment> \<open>one turn of the loop; a failed poll waits for the next turn\<close>
  "loop_cycle env cfg st =
     (let st1 = st\<lparr>at_world := io_sleep (be_io (av_bt env)) (poll_secs cfg * 1000) (at_world st)\<rparr>
      in if at_enabled st1 then snd (poll_cycle env cfg st1) else st1)"

fun run_loop :: "'w auto_env \<Rightarrow> app_config \<Rightarrow> bool option list \<Rightarrow> 'w auto_state \<Rightarrow> 'w auto_state" where
  \<comment> \<open>one turn for each entry; \<open>Some b\<close>: the switch was set before it\<close>
  "run_loop env cfg [] st = st"
| "run_loop env cfg (switch # rest) st =
     run_loop env cfg rest (loop_cycle env cfg
       (case switch of None \<Rightarrow> st | Some b \<Rightarrow> set_autonomous_loop_enabled b st))"

definition auto_start :: "app_config \<Rightarrow> 'w \<Rightarrow> 'w auto_state" where
  "auto_start cfg w = \<lparr>at_enabled = autonomous_enabled cfg, at_last_seen = Map.empty, at_last_triggered = Map.empty,
     at_poisoned = False, at_polls = [], at_rounds = [], at_world = w\<rparr>"

section \<open>The feed and the rounds\<close>

text \<open>
  What the polls say, told from the snapshots alone: the price of an outcome in one of them, its
  last price in a sequence of them, and the sharp move a poll shows against the polls before it.
\<close>

definition quote_in :: "price_poll \<Rightarrow> u64 \<Rightarrow> string \<Rightarrow> f64 option" where
  "quote_in p fixture outcome =
     (if pp_fixture p = fixture
      then map_option snd (map_of (latest_per_outcome (parse_market_rows (pp_raw p) fixture)) outcome) else None)"

definition last_quote :: "price_poll list \<Rightarrow> u64 \<Rightarrow> string \<Rightarrow> f64 option" where
  "last_quote polls fixture outcome = find_map (\<lambda>p. quote_in p fixture outcome) (rev polls)"

definition sharp_move :: "f64 \<Rightarrow> price_poll list \<Rightarrow> nat \<Rightarrow> string \<Rightarrow> price_move option" where
  "sharp_move threshold polls k outcome =
     (let p = polls ! k in
      case (last_quote (take k polls) (pp_fixture p) outcome, quote_in p (pp_fixture p) outcome) of
        (Some previous, Some current) \<Rightarrow> move_of threshold outcome previous current
      | _ \<Rightarrow> None)"

definition hour_apart :: "round_start \<Rightarrow> round_start \<Rightarrow> bool" where
  "hour_apart a b \<longleftrightarrow> rd_fixture a \<noteq> rd_fixture b \<or> rd_at a + min_retrigger_interval \<le> rd_at b"

definition genuine_round :: "f64 \<Rightarrow> price_poll list \<Rightarrow> round_start \<Rightarrow> bool" where
  \<comment> \<open>started at one of the polls, of its fixture, for a sharp move this poll shows\<close>
  "genuine_round threshold polls r \<longleftrightarrow>
     rd_poll r < length polls \<and> pp_fixture (polls ! rd_poll r) = rd_fixture r \<and> pp_at (polls ! rd_poll r) = rd_at r
     \<and> sharp_move threshold polls (rd_poll r) (mv_outcome (rd_move r)) = Some (rd_move r)
     \<and> ev_fixture_id (rd_event r) = rd_fixture r \<and> ev_kind (rd_event r) = OddsMove"

definition move_answered :: "f64 \<Rightarrow> price_poll list \<Rightarrow> round_start list \<Rightarrow> nat \<Rightarrow> bool" where
  \<comment> \<open>a sharp move at poll \<open>k\<close> started a round, unless one was started for the fixture within the hour before\<close>
  "move_answered threshold polls rounds k \<longleftrightarrow>
     (\<forall>outcome. sharp_move threshold polls k outcome \<noteq> None \<longrightarrow>
        (\<exists>r \<in> set rounds. rd_fixture r = pp_fixture (polls ! k)
           \<and> (rd_poll r = k \<or> rd_poll r < k \<and> pp_at (polls ! k) < rd_at r + min_retrigger_interval)))"

definition order_ok :: "'w auto_env \<Rightarrow> bool" where
  \<comment> \<open>the walk over a hash map visits each entry once\<close>
  "order_ok env \<longleftrightarrow> (\<forall>l. mset (av_order env l) = mset l)"

definition auto_inv :: "app_config \<Rightarrow> nat \<Rightarrow> 'w auto_state \<Rightarrow> bool" where
  \<comment> \<open>the moves of the first \<open>n\<close> polls are answered\<close>
  "auto_inv cfg n st \<longleftrightarrow> sorted_wrt hour_apart (at_rounds st)
     \<and> list_all (genuine_round (odds_move_trigger_pct cfg) (at_polls st)) (at_rounds st)
     \<and> (\<forall>k < n. move_answered (odds_move_trigger_pct cfg) (at_polls st) (at_rounds st) k)
     \<and> (\<forall>fixture outcome. at_last_seen st (fixture, outcome) = last_quote (at_polls st) fixture outcome)
     \<and> (\<forall>r \<in> set (at_rounds st). \<exists>t. at_last_triggered st (rd_fixture r) = Some t \<and> rd_at r \<le> t)
     \<and> (\<forall>fixture t. at_last_triggered st fixture = Some t \<longrightarrow>
          (\<exists>r \<in> set (at_rounds st). rd_fixture r = fixture \<and> rd_at r = t))"

lemma auto_inv_frame:
  "auto_inv cfg n (st\<lparr>at_world := w\<rparr>) = auto_inv cfg n st" "auto_inv cfg n (st\<lparr>at_enabled := b\<rparr>) = auto_inv cfg n st"
  by (simp_all add: auto_inv_def)

lemma last_quote_snoc: "last_quote (polls @ [p]) f oc = opt_or (quote_in p f oc) (last_quote polls f oc)"
  by (simp add: last_quote_def opt_or_def split: option.split)

lemma sharp_move_append: "k < length polls \<Longrightarrow> sharp_move t (polls @ ps) k oc = sharp_move t polls k oc"
  by (simp add: sharp_move_def nth_append)

lemma sharp_move_last:
  "sharp_move t (polls @ [p]) (length polls) oc =
     Option.bind (last_quote polls (pp_fixture p) oc)
       (\<lambda>previous. Option.bind (quote_in p (pp_fixture p) oc) (move_of t oc previous))"
  by (auto simp: sharp_move_def Let_def split: option.split)

lemma genuine_round_append: "genuine_round t polls r \<Longrightarrow> genuine_round t (polls @ ps) r"
  by (auto simp: genuine_round_def sharp_move_append nth_append)

lemma move_answered_append:
  "k < length polls \<Longrightarrow> move_answered t polls rounds k \<Longrightarrow> set rounds \<subseteq> set rounds' \<Longrightarrow>
     move_answered t (polls @ ps) rounds' k"
  unfolding move_answered_def by (simp add: sharp_move_append nth_append) blast

section \<open>The comparison with the last prices\<close>

lemma move_of_outcome: "move_of t oc p c = Some mv \<Longrightarrow> mv_outcome mv = oc"
  by (auto simp: move_of_def Let_def split: if_splits)

lemma latest_distinct: "distinct (map fst (latest_per_outcome ticks))"
proof -
  have "distinct (map fst l) \<Longrightarrow> distinct (map fst (keep_latest tk l))" for tk l
    by (auto simp: keep_latest_def distinct_update map_of_eq_None_iff split: option.split)
  then have "distinct (map fst l) \<Longrightarrow> distinct (map fst (fold keep_latest ticks l))" for l
    by (induction ticks arbitrary: l) auto
  then show ?thesis by (simp add: latest_per_outcome_def)
qed

definition price_moves ::
    "f64 \<Rightarrow> u64 \<Rightarrow> (u64 \<times> string \<rightharpoonup> f64) \<Rightarrow> (string \<times> i64 \<times> f64) list \<Rightarrow> price_move option" where
  "price_moves t f seen latest =
     find_map (\<lambda>(oc, ts, c). Option.bind (seen (f, oc)) (\<lambda>p. move_of t oc p c)) latest"

lemma price_moves_update:
  "oc \<notin> fst ` set latest \<Longrightarrow> price_moves t f (seen((f, oc) \<mapsto> c)) latest = price_moves t f seen latest"
  unfolding price_moves_def by (rule find_map_cong) force

definition overlay :: "u64 \<Rightarrow> (string \<times> i64 \<times> f64) list \<Rightarrow> (u64 \<times> string \<rightharpoonup> f64) \<Rightarrow> (u64 \<times> string \<rightharpoonup> f64)" where
  \<comment> \<open>the prices seen, with those of one snapshot over them\<close>
  "overlay f latest seen k = (if fst k = f then opt_or (map_option snd (map_of latest (snd k))) (seen k) else seen k)"

lemma diff_prices:
  assumes "distinct (map fst latest)"
  shows "fold (diff_price t f) latest (seen, trig) = (overlay f latest seen, opt_or trig (price_moves t f seen latest))"
  using assms
proof (induction latest arbitrary: seen trig)
  case Nil
  then show ?case by (auto simp: opt_or_def price_moves_def overlay_def fun_eq_iff split: option.split)
next
  case (Cons e latest)
  obtain oc ts c where e: "e = (oc, ts, c)" by (metis prod.exhaust)
  have n: "oc \<notin> fst ` set latest" and dl: "distinct (map fst latest)" using Cons.prems e by simp_all
  then have m: "map_of latest oc = None" by (simp add: map_of_eq_None_iff)
  let ?mv = "Option.bind (seen (f, oc)) (\<lambda>p. move_of t oc p c)"
  have "fold (diff_price t f) (e # latest) (seen, trig) =
      fold (diff_price t f) latest (seen((f, oc) \<mapsto> c), opt_or trig ?mv)"
    by (simp add: e diff_price_def)
  also have "\<dots> = (overlay f latest (seen((f, oc) \<mapsto> c)), opt_or (opt_or trig ?mv) (price_moves t f seen latest))"
    by (simp only: Cons.IH [OF dl] price_moves_update [OF n])
  also have "opt_or (opt_or trig ?mv) (price_moves t f seen latest) = opt_or trig (price_moves t f seen (e # latest))"
    by (simp add: opt_or_def price_moves_def e split: option.split)
  also have "overlay f latest (seen((f, oc) \<mapsto> c)) = overlay f (e # latest) seen"
    using m by (auto simp: e overlay_def opt_or_def fun_eq_iff split: option.split)
  finally show ?case .
qed

text \<open>The walk in any order finds the prices of the snapshot, and a sharp move when there is one.\<close>

lemma walked_prices:
  assumes "order_ok env" and latest: "latest = av_order env (latest_per_outcome ticks)"
  shows "distinct (map fst latest)" and "map_of latest = map_of (latest_per_outcome ticks)"
proof -
  have m: "mset latest = mset (latest_per_outcome ticks)" using assms by (simp add: order_ok_def)
  then have mm: "mset (map fst latest) = mset (map fst (latest_per_outcome ticks))" by (simp only: mset_map)
  show d: "distinct (map fst latest)" using latest_distinct mset_eq_imp_distinct_iff [OF mm] by blast
  have "set latest = set (latest_per_outcome ticks)" using mset_eq_setD [OF m] .
  then show "map_of latest = map_of (latest_per_outcome ticks)"
    using d latest_distinct by (simp add: map_of_inject_set)
qed

lemma price_moves_Some:
  assumes "distinct (map fst latest)" and "price_moves t f seen latest = Some mv"
  obtains p c where "seen (f, mv_outcome mv) = Some p" and "map_option snd (map_of latest (mv_outcome mv)) = Some c"
    and "move_of t (mv_outcome mv) p c = Some mv"
proof -
  obtain oc ts c p where e: "(oc, ts, c) \<in> set latest" "seen (f, oc) = Some p" "move_of t oc p c = Some mv"
    using find_map_Some [OF assms(2) [unfolded price_moves_def]] by (auto split: bind_splits)
  have "map_of latest oc = Some (ts, c)" using assms(1) e(1) by simp
  then show thesis using that e move_of_outcome [OF e(3)] by simp
qed

lemma price_moves_None:
  assumes "price_moves t f seen latest = None" and "seen (f, oc) = Some p" and "map_of latest oc = Some (ts, c)"
  shows "move_of t oc p c = None"
proof -
  have "(oc, ts, c) \<in> set latest" using map_of_SomeD [OF assms(3)] .
  then show ?thesis using assms(1,2) unfolding price_moves_def by auto
qed

section \<open>One poll\<close>

text \<open>What a poll does to the state, in one of four ways.\<close>

definition compared :: "u64 \<Rightarrow> (string \<times> i64 \<times> f64) list \<Rightarrow> price_poll \<Rightarrow> 'w auto_state \<Rightarrow> 'w auto_state" where
  "compared f latest p st =
     st\<lparr>at_last_seen := overlay f latest (at_last_seen st), at_polls := at_polls st @ [p]\<rparr>"

lemma poll_fixture_cases:
  assumes "order_ok env" and "snd (poll_fixture env cfg fx st) = st'"
  obtains (Idle) w where "st' = st\<lparr>at_world := w\<rparr>"
  | (Compared) w raw latest st1 where
      "st1 = compared (lf_fixture_id fx) latest
         \<lparr>pp_fixture = lf_fixture_id fx, pp_at = io_now (be_io (av_bt env)) w, pp_raw = raw\<rparr> (st\<lparr>at_world := w\<rparr>)"
      and "distinct (map fst latest)"
      and "map_of latest = map_of (latest_per_outcome (parse_market_rows raw (lf_fixture_id fx)))"
      and "case price_moves (odds_move_trigger_pct cfg) (lf_fixture_id fx) (at_last_seen st) latest of
             None \<Rightarrow> st' = st1
           | Some mv \<Rightarrow> st' = (if rate_limited env (lf_fixture_id fx) st1 then st1
                              else snd (auto_start_round env fx mv latest st1))"
proof -
  obtain r w where g: "authenticated_get (be_post (av_bt env)) (be_get (av_bt env)) cfg
      (''api/odds/snapshot/'' @ show_u64 (lf_fixture_id fx)) [] (at_world st) = (r, w)" by (metis surj_pair)
  show thesis
  proof (cases "\<exists>raw. r = Inr raw \<and> parse_market_rows raw (lf_fixture_id fx) \<noteq> [] \<and> \<not> at_poisoned st")
    case False
    then show thesis using g assms(2) by (intro Idle [of w]) (auto simp: poll_fixture_def Let_def split: sum.splits if_splits)
  next
    case True
    then obtain raw where raw: "r = Inr raw" "parse_market_rows raw (lf_fixture_id fx) \<noteq> []" "\<not> at_poisoned st" by blast
    define latest where "latest = av_order env (latest_per_outcome (parse_market_rows raw (lf_fixture_id fx)))"
    note wk = walked_prices [OF assms(1) latest_def]
    let ?p = "\<lparr>pp_fixture = lf_fixture_id fx, pp_at = io_now (be_io (av_bt env)) w, pp_raw = raw\<rparr>"
    let ?st1 = "compared (lf_fixture_id fx) latest ?p (st\<lparr>at_world := w\<rparr>)"
    have "opt_or None x = x" for x :: "price_move option" by (simp add: opt_or_def)
    then have "snd (poll_fixture env cfg fx st) =
        (case price_moves (odds_move_trigger_pct cfg) (lf_fixture_id fx) (at_last_seen st) latest of
           None \<Rightarrow> ?st1
         | Some mv \<Rightarrow> if rate_limited env (lf_fixture_id fx) ?st1 then ?st1 else snd (auto_start_round env fx mv latest ?st1))"
      using g raw diff_prices [OF wk(1), of "odds_move_trigger_pct cfg" "lf_fixture_id fx" "at_last_seen st" None]
      by (simp add: poll_fixture_def Let_def compared_def latest_def [symmetric] split: option.split)
    then show thesis using assms(2) wk by (intro Compared [OF refl wk]) (auto split: option.splits)
  qed
qed

text \<open>Reading the invariant.\<close>

lemma auto_invD:
  assumes "auto_inv cfg n st"
  shows "sorted_wrt hour_apart (at_rounds st)"
    and "r \<in> set (at_rounds st) \<Longrightarrow> genuine_round (odds_move_trigger_pct cfg) (at_polls st) r"
    and "k < n \<Longrightarrow> move_answered (odds_move_trigger_pct cfg) (at_polls st) (at_rounds st) k"
    and "at_last_seen st (f, oc) = last_quote (at_polls st) f oc"
    and "r \<in> set (at_rounds st) \<Longrightarrow> \<exists>t. at_last_triggered st (rd_fixture r) = Some t \<and> rd_at r \<le> t"
    and "at_last_triggered st f = Some t \<Longrightarrow> \<exists>r \<in> set (at_rounds st). rd_fixture r = f \<and> rd_at r = t"
  using assms by (auto simp: auto_inv_def list_all_iff)

lemma compared_inv:
  assumes inv: "auto_inv cfg (length (at_polls st)) st"
    and p: "pp_fixture p = f" "map_of latest = map_of (latest_per_outcome (parse_market_rows (pp_raw p) f))"
  shows "auto_inv cfg (length (at_polls st)) (compared f latest p st)"
proof -
  have "overlay f latest (at_last_seen st) (g, oc) = last_quote (at_polls st @ [p]) g oc" for g oc
    using auto_invD(4) [OF inv, of g oc] p by (auto simp: overlay_def last_quote_snoc quote_in_def opt_or_def split: option.split)
  then show ?thesis
    using auto_invD [OF inv]
    by (auto simp: auto_inv_def compared_def list_all_iff intro: genuine_round_append move_answered_append [OF _ _ subset_refl])
qed

lemma compared_sharp_move:
  assumes inv: "auto_inv cfg (length (at_polls st)) st"
    and p: "pp_fixture p = f" "map_of latest = map_of (latest_per_outcome (parse_market_rows (pp_raw p) f))"
  shows "sharp_move t (at_polls st @ [p]) (length (at_polls st)) oc =
    Option.bind (at_last_seen st (f, oc)) (\<lambda>previous. Option.bind (map_option snd (map_of latest oc)) (move_of t oc previous))"
  using auto_invD(4) [OF inv, of f oc] p by (simp add: sharp_move_last quote_in_def)

lemma answered_poll:
  assumes "auto_inv cfg (length (at_polls st)) st" and "at_polls st' = at_polls st @ [p]"
    and "auto_inv cfg (length (at_polls st)) st'"
    and "move_answered (odds_move_trigger_pct cfg) (at_polls st') (at_rounds st') (length (at_polls st))"
  shows "auto_inv cfg (length (at_polls st')) st'"
  using assms by (auto simp: auto_inv_def less_Suc_eq)

text \<open>A poll that starts a round.\<close>

lemma auto_start_round_state:
  obtains ev w where "ev_fixture_id ev = lf_fixture_id fx" and "ev_kind ev = OddsMove"
    and "snd (auto_start_round env fx mv latest st) = st\<lparr>
       at_last_triggered := (at_last_triggered st)(lf_fixture_id fx \<mapsto> io_now (be_io (av_bt env)) (at_world st)),
       at_rounds := at_rounds st @ [\<lparr>rd_poll = length (at_polls st) - 1, rd_fixture = lf_fixture_id fx,
         rd_at = io_now (be_io (av_bt env)) (at_world st), rd_move = mv, rd_event = ev\<rparr>], at_world := w\<rparr>"
proof -
  obtain qs w1 where q: "quotes_of (av_bt env) (lf_fixture_id fx) latest (at_world st) = (qs, w1)" by (metis prod.exhaust)
  obtain i w2 where i: "io_now_iso (be_io (av_bt env)) w1 = (i, w2)" by (metis prod.exhaust)
  obtain n w3 where n: "io_now_iso (be_io (av_bt env)) w2 = (n, w3)" by (metis prod.exhaust)
  obtain r w where "av_round env (autonomous_event fx mv qs i n) Trading w3 = (r, w)" by (metis prod.exhaust)
  then show thesis using q i n
    by (intro that [of "autonomous_event fx mv qs i n" w]) (simp_all add: auto_start_round_def autonomous_event_def Let_def)
qed

lemma rate_limited_iff:
  "rate_limited env f st \<longleftrightarrow>
     (\<exists>t. at_last_triggered st f = Some t \<and> io_now (be_io (av_bt env)) (at_world st) < t + min_retrigger_interval)"
  by (auto simp: rate_limited_def min_retrigger_interval_def split: option.split)

lemma started_inv:
  assumes inv: "auto_inv cfg n st" and "\<not> rate_limited env (lf_fixture_id fx) st"
    and poll: "at_polls st \<noteq> []" "pp_fixture (last (at_polls st)) = lf_fixture_id fx"
      "pp_at (last (at_polls st)) = io_now (be_io (av_bt env)) (at_world st)"
    and mv: "sharp_move (odds_move_trigger_pct cfg) (at_polls st) (length (at_polls st) - 1) (mv_outcome mv) = Some mv"
  shows "auto_inv cfg n (snd (auto_start_round env fx mv latest st))"
    and "move_answered t (at_polls st) (at_rounds (snd (auto_start_round env fx mv latest st))) (length (at_polls st) - 1)"
    and "at_polls (snd (auto_start_round env fx mv latest st)) = at_polls st"
proof -
  let ?now = "io_now (be_io (av_bt env)) (at_world st)"
  obtain ev w where ev: "ev_fixture_id ev = lf_fixture_id fx" "ev_kind ev = OddsMove"
    and s: "snd (auto_start_round env fx mv latest st) = st\<lparr>
       at_last_triggered := (at_last_triggered st)(lf_fixture_id fx \<mapsto> ?now),
       at_rounds := at_rounds st @ [\<lparr>rd_poll = length (at_polls st) - 1, rd_fixture = lf_fixture_id fx,
         rd_at = ?now, rd_move = mv, rd_event = ev\<rparr>], at_world := w\<rparr>" (is "_ = st\<lparr>at_last_triggered := _, at_rounds := _ @ [?r], at_world := _\<rparr>")
    by (rule auto_start_round_state)
  have last: "at_polls st ! (length (at_polls st) - 1) = last (at_polls st)" using poll(1) by (simp add: last_conv_nth)
  have r: "genuine_round (odds_move_trigger_pct cfg) (at_polls st) ?r"
    using poll mv ev last by (simp add: genuine_round_def)
  have old: "t + min_retrigger_interval \<le> ?now" if "at_last_triggered st (lf_fixture_id fx) = Some t" for t
    using assms(2) that by (auto simp: rate_limited_iff)
  have apart: "hour_apart a ?r" if a: "a \<in> set (at_rounds st)" for a
    using auto_invD(5) [OF inv a] old by (fastforce simp: hour_apart_def)
  have before: "rd_at a \<le> ?now" if "a \<in> set (at_rounds st)" "rd_fixture a = lf_fixture_id fx" for a
    using auto_invD(5) [OF inv that(1)] old that(2) by fastforce
  have "move_answered (odds_move_trigger_pct cfg) (at_polls st) (at_rounds st @ [?r]) k" if "k < n" for k
    using auto_invD(3) [OF inv that] unfolding move_answered_def by auto
  then show "auto_inv cfg n (snd (auto_start_round env fx mv latest st))"
    using auto_invD [OF inv] r apart before unfolding s
    by (auto simp: auto_inv_def sorted_wrt_append list_all_iff)
  show "move_answered t (at_polls st) (at_rounds (snd (auto_start_round env fx mv latest st))) (length (at_polls st) - 1)"
    unfolding s move_answered_def using poll last by auto
  show "at_polls (snd (auto_start_round env fx mv latest st)) = at_polls st" by (simp add: s)
qed

lemma poll_fixture_inv:
  assumes ok: "order_ok env" and inv: "auto_inv cfg (length (at_polls st)) st"
  shows "auto_inv cfg (length (at_polls (snd (poll_fixture env cfg fx st)))) (snd (poll_fixture env cfg fx st))"
proof (cases rule: poll_fixture_cases [OF ok refl, of cfg fx st, case_names Idle Compared])
  case (Idle w)
  then show ?thesis using inv by (simp add: auto_inv_frame)
next
  case (Compared w raw latest st1)
  let ?t = "odds_move_trigger_pct cfg" and ?f = "lf_fixture_id fx"
  define p where "p = \<lparr>pp_fixture = ?f, pp_at = io_now (be_io (av_bt env)) w, pp_raw = raw\<rparr>"
  let ?st = "st\<lparr>at_world := w\<rparr>"
  have st1: "st1 = compared ?f latest p ?st" using Compared(1) by (simp add: p_def)
  have pf: "pp_fixture p = ?f" "map_of latest = map_of (latest_per_outcome (parse_market_rows (pp_raw p) ?f))"
    using Compared(3) by (simp_all add: p_def)
  have inv': "auto_inv cfg (length (at_polls ?st)) ?st" using inv by (simp add: auto_inv_frame)
  have inv1: "auto_inv cfg (length (at_polls st)) st1" using compared_inv [OF inv' pf] by (simp add: st1)
  have polls1: "at_polls st1 = at_polls st @ [p]" and rounds1: "at_rounds st1 = at_rounds st"
    by (simp_all add: st1 compared_def)
  have sharp: "sharp_move ?t (at_polls st1) (length (at_polls st)) oc =
      Option.bind (at_last_seen st (?f, oc)) (\<lambda>previous. Option.bind (map_option snd (map_of latest oc)) (move_of ?t oc previous))" for oc
    using compared_sharp_move [OF inv' pf] by (simp add: polls1)
  show ?thesis
  proof (cases "price_moves ?t ?f (at_last_seen st) latest")
    case None
    have "sharp_move ?t (at_polls st1) (length (at_polls st)) oc = None" for oc
      unfolding sharp using price_moves_None [OF None]
      by (cases "at_last_seen st (?f, oc)"; cases "map_of latest oc") auto
    then have "move_answered ?t (at_polls st1) (at_rounds st1) (length (at_polls st))" by (simp add: move_answered_def)
    then show ?thesis using answered_poll [OF inv polls1 inv1] Compared(4) None by simp
  next
    case (Some mv)
    show ?thesis
    proof (cases "rate_limited env ?f st1")
      case True
      then obtain t where t: "at_last_triggered st ?f = Some t" "pp_at p < t + min_retrigger_interval"
        by (auto simp: rate_limited_iff st1 compared_def p_def)
      then obtain r where r: "r \<in> set (at_rounds st)" "rd_fixture r = ?f" "rd_at r = t"
        using auto_invD(6) [OF inv] by blast
      then have "rd_poll r < length (at_polls st)" using auto_invD(2) [OF inv] by (auto simp: genuine_round_def)
      then have "move_answered ?t (at_polls st1) (at_rounds st1) (length (at_polls st))"
        using r t pf(1) by (auto simp: move_answered_def polls1 rounds1)
      then show ?thesis using answered_poll [OF inv polls1 inv1] Compared(4) Some True by simp
    next
      case False
      have last1: "at_polls st1 \<noteq> []" "pp_fixture (last (at_polls st1)) = ?f"
        "pp_at (last (at_polls st1)) = io_now (be_io (av_bt env)) (at_world st1)"
        "length (at_polls st1) - 1 = length (at_polls st)"
        by (simp_all add: st1 compared_def p_def)
      obtain prev cur where "at_last_seen st (?f, mv_outcome mv) = Some prev"
        "map_option snd (map_of latest (mv_outcome mv)) = Some cur" "move_of ?t (mv_outcome mv) prev cur = Some mv"
        by (rule price_moves_Some [OF Compared(2) Some])
      then have mv: "sharp_move ?t (at_polls st1) (length (at_polls st1) - 1) (mv_outcome mv) = Some mv"
        unfolding last1(4) sharp by auto
      note started = started_inv(1) [OF inv1 False last1(1-3) mv, where latest = latest]
        started_inv(2) [OF inv1 False last1(1-3) mv, where latest = latest and t = ?t]
        started_inv(3) [OF inv1 False last1(1-3) mv, where latest = latest]
      have s: "snd (poll_fixture env cfg fx st) = snd (auto_start_round env fx mv latest st1)"
        using Compared(4) Some False by simp
      show ?thesis unfolding s
        by (rule answered_poll [OF inv]) (use started polls1 last1(4) in simp_all)
    qed
  qed
qed

lemma loop_cycle_inv:
  assumes ok: "order_ok env" and "auto_inv cfg (length (at_polls st)) st"
  shows "auto_inv cfg (length (at_polls (loop_cycle env cfg st))) (loop_cycle env cfg st)"
proof -
  have "auto_inv cfg (length (at_polls (poll_fixtures env cfg fs st))) (poll_fixtures env cfg fs st)"
    if "auto_inv cfg (length (at_polls st)) st" for fs and st :: "'a auto_state"
    using that by (induction fs arbitrary: st) (auto intro: poll_fixture_inv [OF ok])
  then show ?thesis using assms(2)
    by (auto simp: loop_cycle_def poll_cycle_def Let_def auto_inv_frame split: prod.splits sum.splits)
qed

lemma run_loop_inv:
  assumes ok: "order_ok env"
  shows "auto_inv cfg (length (at_polls st)) st \<Longrightarrow>
    auto_inv cfg (length (at_polls (run_loop env cfg switches st))) (run_loop env cfg switches st)"
proof (induction switches arbitrary: st)
  case (Cons s switches)
  let ?st = "case s of None \<Rightarrow> st | Some b \<Rightarrow> set_autonomous_loop_enabled b st"
  have "auto_inv cfg (length (at_polls ?st)) ?st"
    using Cons.prems by (auto simp: set_autonomous_loop_enabled_def auto_inv_frame split: option.split)
  then show ?case using Cons.IH [OF loop_cycle_inv [OF ok]] by simp
qed simp

text \<open>
  C33: when the autonomous loop starts a round. Over any number of polls, with the switch set in any way
  between them, whatever the feed, the clock and the rounds do: two rounds for the same fixture lie at
  least an hour apart; each was started at a poll of its fixture whose snapshot shows an outcome with a
  price that differs by at least the configured percentage from the last price that an earlier
  snapshot of the feed had for it, if that was positive; and each poll that shows such a move started a
  round, unless one was started for the fixture within the hour before. (The walk over the hash
  map of prices visits each entry once, in any order.)
\<close>
theorem autonomous_rate_limited:
  assumes "order_ok env"
  shows "let final = run_loop env cfg switches (auto_start cfg w); threshold = odds_move_trigger_pct cfg
    in sorted_wrt hour_apart (at_rounds final)
     \<and> list_all (genuine_round threshold (at_polls final)) (at_rounds final)
     \<and> (\<forall>k < length (at_polls final). move_answered threshold (at_polls final) (at_rounds final) k)"
proof -
  have "auto_inv cfg (length (at_polls (auto_start cfg w))) (auto_start cfg w)"
    by (simp add: auto_inv_def auto_start_def last_quote_def)
  from run_loop_inv [OF assms this] show ?thesis unfolding auto_inv_def Let_def by blast
qed

text \<open>
  The baseline of a price is always that of the last poll, whether or not a round was started: a move
  that the limit suppresses is lost, and a slow drift never triggers.
\<close>

lemma baseline_is_last_quote:
  assumes "order_ok env"
  shows "at_last_seen (run_loop env cfg switches (auto_start cfg w)) (fixture, outcome)
    = last_quote (at_polls (run_loop env cfg switches (auto_start cfg w))) fixture outcome"
proof -
  have "auto_inv cfg (length (at_polls (auto_start cfg w))) (auto_start cfg w)"
    by (simp add: auto_inv_def auto_start_def last_quote_def)
  from auto_invD(4) [OF run_loop_inv [OF assms this]] show ?thesis .
qed

section \<open>Witness\<close>

text \<open>
  A feed with one fixture whose home price goes from 2 to 2.5 after half a minute, polled every twenty
  seconds: the second poll starts a round.
\<close>

definition market_row :: "int \<Rightarrow> json" where
  "market_row price = JObj [(''FixtureId'', JInt 7), (''Ts'', JInt 5), (''PriceNames'', JArr [JStr ''1'', JStr ''x'', JStr ''2'']),
     (''Prices'', JArr [JInt price, JInt 3000, JInt 4000])]"

definition drifting_env :: "nat auto_env" where
  "drifting_env = \<lparr>av_bt = \<lparr>be_post = (\<lambda>_ w. (Inl ''offline'', w)),
       be_get = (\<lambda>url _ _ _ w. (Inr \<lparr>da_status = 200, da_json = Inr (JArr
         [if last url = CHR ''7'' then market_row (if w < 30000 then 2000 else 2500)
          else JObj [(''FixtureId'', JInt 7), (''StartTime'', JInt 0)]])\<rparr>, w)),
       be_io = sample_io 0, be_time = (\<lambda>_. Some ''t''), be_print = (\<lambda>_. []), be_prose_model = []\<rparr>,
     av_wall_ms = (\<lambda>w. int w), av_order = id, av_round = (\<lambda>_ _ w. (Inr (), w))\<rparr>"

definition auto_config :: app_config where
  "auto_config = (load_config Map.empty Map.empty [])\<lparr>txline_guest_jwt := Some ''j'', txline_api_token := Some ''t'',
     autonomous_enabled := True, autonomous_poll_secs := 20, odds_move_trigger_pct := lit 5\<rparr>"

definition drifting_fixture :: live_fixture where
  "drifting_fixture = \<lparr>lf_fixture_id = 7, lf_home = ''Home'', lf_away = ''Away''\<rparr>"

lemma drifting_paths:
  "normalize_data_path ''api/fixtures/snapshot'' = Inr ''api/fixtures/snapshot''"
  "normalize_data_path ''api/odds/snapshot/7'' = Inr ''api/odds/snapshot/7''"
proof -
  have w: "word_char (CHR ''a'')" "word_char (CHR ''t'')" "word_char (CHR ''7'')" by code_simp+
  from trim_word_ends [OF w(1,2), of "''pi/fixtures/snapsho''"] trim_word_ends [OF w(1,3), of "''pi/odds/snapshot/''"]
  have "trim ''api/fixtures/snapshot'' = ''api/fixtures/snapshot''" "trim ''api/odds/snapshot/7'' = ''api/odds/snapshot/7''"
    by simp_all
  moreover have "\<not> disallowed_path ''api/fixtures/snapshot''"
    "trim_char (CHR ''/'') ''api/fixtures/snapshot'' = ''api/fixtures/snapshot''"
    "is_allowed_data_path ''api/fixtures/snapshot''" "prefix_of ''api/'' ''api/fixtures/snapshot''"
    "split_once (CHR ''?'') ''api/fixtures/snapshot'' = None" by code_simp+
  moreover have "\<not> disallowed_path ''api/odds/snapshot/7''"
    "trim_char (CHR ''/'') ''api/odds/snapshot/7'' = ''api/odds/snapshot/7''"
    "is_allowed_data_path ''api/odds/snapshot/7''" "prefix_of ''api/'' ''api/odds/snapshot/7''"
    "split_once (CHR ''?'') ''api/odds/snapshot/7'' = None" by code_simp+
  ultimately show "normalize_data_path ''api/fixtures/snapshot'' = Inr ''api/fixtures/snapshot''"
    "normalize_data_path ''api/odds/snapshot/7'' = Inr ''api/odds/snapshot/7''"
    by (simp_all only: normalize_data_path_def Let_def option.case prod.case if_False if_True not_True_eq_False not_False_eq_True simp_thms)
qed

lemma drifting_feed:
  "authenticated_get (be_post (av_bt drifting_env)) (be_get (av_bt drifting_env)) auto_config ''api/fixtures/snapshot'' q w
     = (Inr (JArr [JObj [(''FixtureId'', JInt 7), (''StartTime'', JInt 0)]]), w)"
  "authenticated_get (be_post (av_bt drifting_env)) (be_get (av_bt drifting_env)) auto_config
       (''api/odds/snapshot/'' @ show_u64 (lf_fixture_id drifting_fixture)) q w
     = (Inr (JArr [market_row (if w < 30000 then 2000 else 2500)]), w)"
proof -
  have "show_u64 7 = ''7''" by code_simp
  then show "authenticated_get (be_post (av_bt drifting_env)) (be_get (av_bt drifting_env)) auto_config
       (''api/odds/snapshot/'' @ show_u64 (lf_fixture_id drifting_fixture)) q w
     = (Inr (JArr [market_row (if w < 30000 then 2000 else 2500)]), w)"
    by (simp add: authenticated_get_def drifting_paths drifting_env_def drifting_fixture_def auto_config_def answer_json_def Let_def)
qed (simp add: authenticated_get_def drifting_paths drifting_env_def auto_config_def answer_json_def Let_def)

lemma drifting_prices:
  "latest_per_outcome (parse_market_rows (JArr [market_row 2000]) 7)
     = [(''home'', 5, lit 2), (''draw'', 5, lit 3), (''away'', 5, lit 4)]"
  "latest_per_outcome (parse_market_rows (JArr [market_row 2500]) 7)
     = [(''home'', 5, lit (5/2)), (''draw'', 5, lit 3), (''away'', 5, lit 4)]"
  "move_of (lit 5) ''home'' (lit 2) (lit (5/2)) \<noteq> None"
  by code_simp+

lemma quotes_of_world:
  assumes "\<And>ts w. ts_to_iso env ts w = (t, w)" shows "snd (quotes_of env f l w) = w"
proof (induction l arbitrary: w)
  case (Cons e l)
  obtain oc ts c where "e = (oc, ts, c)" by (metis prod.exhaust)
  then show ?case using Cons [of w] assms by (cases "quotes_of env f l w") simp
qed simp

lemma wrap_small: "0 \<le> n \<Longrightarrow> n < 2000000000 \<Longrightarrow> wrap_i64 n = n"
  by (simp add: wrap_i64_def signed_of_int signed_take_bit_int_eq_self)

definition drifting_poll :: "nat \<Rightarrow> price_poll" where
  "drifting_poll w = \<lparr>pp_fixture = 7, pp_at = w, pp_raw = JArr [market_row (if w < 30000 then 2000 else 2500)]\<rparr>"

lemma drifting_step:
  assumes "\<not> at_poisoned st"
  defines "st' \<equiv> snd (poll_fixture drifting_env auto_config drifting_fixture st)"
  shows "at_polls st' = at_polls st @ [drifting_poll (at_world st)]" and "at_world st' = at_world st"
    and "at_enabled st' = at_enabled st" and "at_poisoned st' = at_poisoned st"
proof -
  have stamp: "snd (quotes_of (av_bt drifting_env) f l w) = w" for f l w
    by (rule quotes_of_world [of _ "''t''"]) (simp add: ts_to_iso_def drifting_env_def)
  have iso: "io_now_iso (be_io (av_bt drifting_env)) w = (show_nat w, w)" "io_now (be_io (av_bt drifting_env)) w = w"
    "av_round drifting_env ev k w = (Inr (), w)" for ev k w by (simp_all add: drifting_env_def sample_io_def)
  have "parse_market_rows (JArr [market_row 2000]) 7 \<noteq> []" "parse_market_rows (JArr [market_row 2500]) 7 \<noteq> []"
    using drifting_prices by (auto simp: latest_per_outcome_def)
  then have rows: "parse_market_rows (JArr [market_row (if w < 30000 then 2000 else 2500)]) 7 \<noteq> []" for w :: nat by simp
  have started: "at_polls (snd (auto_start_round drifting_env fx mv l s)) = at_polls s
      \<and> at_world (snd (auto_start_round drifting_env fx mv l s)) = at_world s
      \<and> at_enabled (snd (auto_start_round drifting_env fx mv l s)) = at_enabled s
      \<and> at_poisoned (snd (auto_start_round drifting_env fx mv l s)) = at_poisoned s" for fx mv l s
    using stamp [of "lf_fixture_id fx" l "at_world s"]
    by (cases "quotes_of (av_bt drifting_env) (lf_fixture_id fx) l (at_world s)") (simp add: auto_start_round_def iso Let_def)
  have f: "lf_fixture_id drifting_fixture = 7" by (simp add: drifting_fixture_def)
  show "at_polls st' = at_polls st @ [drifting_poll (at_world st)]" "at_world st' = at_world st"
    "at_enabled st' = at_enabled st" "at_poisoned st' = at_poisoned st"
    using assms(1) rows [of "at_world st"] drifting_feed(2) [of "[]" "at_world st"] unfolding st'_def f
    by (auto simp: poll_fixture_def Let_def f started drifting_poll_def iso split: prod.split option.split)
qed

lemma drifting_cycle:
  assumes "at_enabled st" "\<not> at_poisoned st" "at_world st < 1000000"
  defines "st' \<equiv> loop_cycle drifting_env auto_config st"
  shows "at_polls st' = at_polls st @ [drifting_poll (at_world st + 20000)]" and "at_world st' = at_world st + 20000"
    and "at_enabled st'" and "\<not> at_poisoned st'"
proof -
  have secs: "poll_secs auto_config = 20" by (simp add: poll_secs_def auto_config_def)
  have sleep: "io_sleep (be_io (av_bt drifting_env)) n w = n + w" for n w by (simp add: drifting_env_def sample_io_def)
  have wall: "av_wall_ms drifting_env w = int w" for w by (simp add: drifting_env_def)
  have "in_kickoff_window (int w) 0" if "w < 2000000" for w
    using that wrap_small [of "int w"]
    by (simp add: in_kickoff_window_def kickoff_window_before_ms_def kickoff_window_after_ms_def Let_def)
  then have fixtures: "fetch_live_window_fixtures drifting_env auto_config w = (Inr [drifting_fixture], w)" if "w < 2000000" for w
    using that by (simp add: fetch_live_window_fixtures_def drifting_feed(1) parse_live_fixtures_def live_fixture_of_def
        List.map_filter_simps drifting_fixture_def wall in_u64_def in_i64_def unwrap_or_def)
  let ?s = "st\<lparr>at_world := 20000 + at_world st\<rparr>"
  have "st' = snd (poll_fixture drifting_env auto_config drifting_fixture ?s)"
    using assms(1,3) fixtures [of "20000 + at_world st"]
    by (simp add: st'_def loop_cycle_def poll_cycle_def secs sleep Let_def)
  then show "at_polls st' = at_polls st @ [drifting_poll (at_world st + 20000)]" "at_world st' = at_world st + 20000"
    "at_enabled st'" "\<not> at_poisoned st'"
    using drifting_step [of ?s] assms(1,2) by (simp_all add: add.commute)
qed

theorem autonomous_rate_limited_witness:
  "let final = run_loop drifting_env auto_config [None, None] (auto_start auto_config 0)
   in order_ok drifting_env \<and> at_polls final = [drifting_poll 20000, drifting_poll 40000]
    \<and> (\<exists>r \<in> set (at_rounds final). rd_fixture r = 7 \<and> genuine_round (lit 5) (at_polls final) r)"
proof -
  let ?st = "auto_start auto_config (0::nat)"
  let ?final = "run_loop drifting_env auto_config [None, None] ?st"
  have order: "order_ok drifting_env" by (simp add: order_ok_def drifting_env_def)
  have "at_enabled ?st" "\<not> at_poisoned ?st" "at_world ?st = 0" "at_polls ?st = []"
    by (simp_all add: auto_start_def auto_config_def)
  note one = drifting_cycle [OF this(1,2)] and start = this
  have polls: "at_polls ?final = [drifting_poll 20000, drifting_poll 40000]"
    using one start drifting_cycle [of "loop_cycle drifting_env auto_config ?st"] by simp
  have t: "odds_move_trigger_pct auto_config = lit 5" by (simp add: auto_config_def)
  note main = autonomous_rate_limited [OF order, of auto_config "[None, None]" "0", unfolded Let_def t polls]
  have "sharp_move (lit 5) [drifting_poll 20000, drifting_poll 40000] 1 ''home'' = move_of (lit 5) ''home'' (lit 2) (lit (5/2))"
    by (simp add: sharp_move_def last_quote_def quote_in_def drifting_poll_def drifting_prices)
  then have "sharp_move (lit 5) [drifting_poll 20000, drifting_poll 40000] 1 ''home'' \<noteq> None" using drifting_prices(3) by simp
  moreover have "move_answered (lit 5) [drifting_poll 20000, drifting_poll 40000] (at_rounds ?final) 1"
    using main by simp
  ultimately obtain r where "r \<in> set (at_rounds ?final)" "rd_fixture r = 7"
    unfolding move_answered_def by (auto simp: drifting_poll_def)
  then show ?thesis using order polls main by (auto simp: Let_def list_all_iff)
qed

end
