(* ===== verification/Yellowstone.thy ===== *)
theory Yellowstone
  imports Solana Sidecar_Process
begin

text \<open>
  The supervisor of the Yellowstone sidecar (\<open>services/chain/yellowstone.rs\<close>): watch commands are
  written to its standard input as lines of JSON, its output lines become events of the
  desk. The process is an argument: whether it starts and which lines it prints. The
  reader of the commands is the sidecar's own script
  (\<open>runtime/sidecars/yellowstone-bridge.mjs\<close>), whose handling of one line is modelled too, so
  that the property can say which watches arrive.
\<close>

section \<open>Commands\<close>

datatype yellowstone_command = WatchAccount string | WatchProgram string | WatchReference string

definition command_json :: "yellowstone_command \<Rightarrow> json" where
  \<comment> \<open>\<open>rename_all\<close> on the enum renames its variants, not the fields of a variant\<close>
  "command_json c = (case c of
     WatchAccount a \<Rightarrow> JObj [(''watchAccount'', JObj [(''account'', JStr a)])]
   | WatchProgram p \<Rightarrow> JObj [(''watchProgram'', JObj [(''program_id'', JStr p)])]
   | WatchReference r \<Rightarrow> JObj [(''watchReference'', JObj [(''reference'', JStr r)])])"

section \<open>The supervisor\<close>

datatype stream_event =
    IngestStatus string string
  | ChainSlot chain_health
  | ChainAccount json
  | ChainTx json

definition handle_sidecar_line :: "(string \<Rightarrow> json option) \<Rightarrow> string \<Rightarrow> string \<Rightarrow> stream_event list" where
  \<comment> \<open>\<open>now\<close> is the time at the line\<close>
  "handle_sidecar_line parse now line =
     (case parse line of
        None \<Rightarrow> [IngestStatus ''reconnecting'' line]
      | Some v \<Rightarrow>
          let event = Option.bind (jget v ''event'') as_str in
          if event = Some ''status'' then
            [IngestStatus (unwrap_or ''connected'' (Option.bind (jget v ''state'') as_str))
                          (unwrap_or ''Yellowstone update'' (Option.bind (jget v ''detail'') as_str))]
          else if event = Some ''slot'' then
            (case Option.bind (jget v ''slot'') as_u64 of
               None \<Rightarrow> []
             | Some slot \<Rightarrow> [ChainSlot \<lparr>ch_cluster = Devnet, ch_slot = slot, ch_solana_core = ''yellowstone'',
                                 ch_latency_ms = 0, ch_ts = now\<rparr>])
          else if event = Some ''account'' then [ChainAccount (unwrap_or v (jget v ''payload''))]
          else if event = Some ''tx'' then [ChainTx (unwrap_or v (jget v ''payload''))]
          else [])"

datatype output_end = EndOfOutput | ReadError string

text \<open>A run of the child process: each printed line with the time it is read.\<close>

record sidecar_run =
  sx_exists :: bool
  sx_path :: string
  sx_spawn :: "string + unit"
  sx_stdout :: bool
  sx_stdin :: bool
  sx_lines :: "(string \<times> string) list"
  sx_end :: output_end

definition child_environment :: "app_config \<Rightarrow> string \<Rightarrow> string \<Rightarrow> (string \<times> string) list" where
  "child_environment cfg endpoint token =
     [(''TRITON_GRPC_ENDPOINT'', endpoint), (''TRITON_X_TOKEN'', token),
      (''WATCH_ESCROW_PROGRAM_ID'', unwrap_or [] (watch_escrow_program_id cfg)),
      (''WATCH_MARKET_PROGRAM_ID'', unwrap_or [] (watch_market_program_id cfg)),
      (''WATCH_ESCROW_ACCOUNT'', unwrap_or [] (watch_escrow_account cfg))]"

definition run_sidecar :: "(string \<Rightarrow> json option) \<Rightarrow> app_config \<Rightarrow> sidecar_run \<Rightarrow> stream_event list" where
  "run_sidecar parse cfg x =
     (if \<not> sx_exists x then [IngestStatus ''stopped'' (''Yellowstone sidecar not found at '' @ sx_path x)]
      else case grpc_endpoint cfg of None \<Rightarrow> [IngestStatus ''stopped'' ''GRPC_ENDPOINT missing'']
      | Some endpoint \<Rightarrow>
     (case grpc_x_token cfg of None \<Rightarrow> [IngestStatus ''stopped'' ''GRPC_X_TOKEN missing'']
      | Some token \<Rightarrow>
     (case sx_spawn x of Inl e \<Rightarrow> [IngestStatus ''stopped'' (''failed to spawn sidecar: '' @ e)]
      | Inr _ \<Rightarrow>
        [IngestStatus ''connecting'' ''Yellowstone sidecar spawned'']
        @ (if \<not> sx_stdout x then [IngestStatus ''stopped'' ''failed to open Yellowstone stdout'']
           else if \<not> sx_stdin x then [IngestStatus ''stopped'' ''failed to open Yellowstone stdin'']
           else concat (map (\<lambda>(now, line). handle_sidecar_line parse now line) (sx_lines x))
             @ (case sx_end x of EndOfOutput \<Rightarrow> []
                | ReadError e \<Rightarrow> [IngestStatus ''reconnecting'' (''Yellowstone sidecar read failed: '' @ e)])
             @ [IngestStatus ''stopped'' ''Yellowstone sidecar exited'']))))"

section \<open>The sidecar's reader\<close>

record watch_filters =
  wf_accounts :: "string list"
  wf_tx_accounts :: "string list"

definition add_to :: "string option \<Rightarrow> string list \<Rightarrow> string list" where
  \<comment> \<open>a set in order of insertion; a missing or empty string is not added\<close>
  "add_to v xs = (case v of None \<Rightarrow> xs | Some s \<Rightarrow> if s = [] \<or> s \<in> set xs then xs else xs @ [s])"

definition inner :: "json \<Rightarrow> string \<Rightarrow> string \<Rightarrow> string option" where
  "inner v outer_key key = Option.bind (Option.bind (jget v outer_key) (\<lambda>o1. jget o1 key)) as_str"

definition sidecar_command :: "json \<Rightarrow> watch_filters \<Rightarrow> watch_filters" where
  "sidecar_command v f =
     f\<lparr>wf_accounts := add_to (Option.bind (jget v ''account'') as_str)
                       (add_to (inner v ''watchAccount'' ''account'') (wf_accounts f)),
       wf_tx_accounts := add_to (Option.bind (jget v ''reference'') as_str)
                       (add_to (Option.bind (jget v ''programId'') as_str)
                       (add_to (inner v ''watchReference'' ''reference'')
                       (add_to (inner v ''watchProgram'' ''programId'') (wf_tx_accounts f))))\<rparr>"

section \<open>Which watches arrive\<close>

lemma add_to_set: "set (add_to v xs) = set xs \<union> (case v of None \<Rightarrow> {} | Some s \<Rightarrow> {s} - {[]})"
  by (auto simp: add_to_def split: option.splits)

lemma sidecar_reads_command:
  "set (wf_accounts (sidecar_command (command_json c) f)) = set (wf_accounts f) \<union> ({a. c = WatchAccount a} - {[]})"
  "set (wf_tx_accounts (sidecar_command (command_json c) f)) = set (wf_tx_accounts f) \<union> ({r. c = WatchReference r} - {[]})"
  by (cases c; auto simp: sidecar_command_def command_json_def inner_def add_to_set)+

text \<open>
  What the sidecar watches after any commands of the desk: the accounts of the account
  commands and the references of the reference commands, and nothing else. The commands that
  watch a program change no filter, because their field is written \<open>program_id\<close> and read
  \<open>programId\<close>.
\<close>
theorem program_watches_are_lost:
  "set (wf_accounts (fold sidecar_command (map command_json cs) f)) = set (wf_accounts f) \<union> ({a. WatchAccount a \<in> set cs} - {[]})
   \<and> set (wf_tx_accounts (fold sidecar_command (map command_json cs) f))
       = set (wf_tx_accounts f) \<union> ({r. WatchReference r \<in> set cs} - {[]})"
  by (induction cs arbitrary: f) (auto simp: sidecar_reads_command)

text \<open>Every line yields at most one event, and the last event of a run says that it stopped.\<close>

lemma one_event_per_line: "length (handle_sidecar_line parse now line) \<le> 1"
  by (simp add: handle_sidecar_line_def Let_def split: option.split)

lemma run_ends_stopped: "\<exists>es d. run_sidecar parse cfg x = es @ [IngestStatus ''stopped'' d]"
  by (auto simp: run_sidecar_def split: option.splits sum.splits output_end.splits)

end
