(* ===== verification/Settlement_Bridge.thy ===== *)
theory Settlement_Bridge
  imports Yellowstone Validation Ledger_Facts
begin

text \<open>
  The settlement side of a run: the bridge to the CoralOS sidecar
  (\<open>services/coral/settlement.rs\<close>) and the helpers of \<open>commands/intelligence.rs\<close> that gate a
  settlement and merge its receipts. The child process (a \<open>child_env\<close>), the file system and the
  JSON codecs are the record \<open>bridge_env\<close>; a settlement is \<open>None\<close> when its sidecar hangs. The properties state what a merge keeps, and what the bridge
  sends whatever the verdict of the run.
\<close>

section \<open>commands/intelligence.rs\<close>

definition verifier_passed :: "agent_run \<Rightarrow> bool" where
  "verifier_passed run \<longleftrightarrow> run_track run = Settlement
     \<and> (case run_verdict run of None \<Rightarrow> False | Some v \<Rightarrow> vd_status v = VPass)"

definition keep_rail :: "settlement_receipt \<Rightarrow> settlement_receipt \<Rightarrow> string option" where
  "keep_rail existing incoming =
     (if (sr_payment_url existing \<noteq> None \<and> sr_payment_url incoming = None) \<or> sr_rail incoming = None
      then sr_rail existing else sr_rail incoming)"

definition merged :: "settlement_receipt \<Rightarrow> settlement_receipt \<Rightarrow> settlement_receipt" where
  "merged existing incoming =
     \<lparr>sr_rail = keep_rail existing incoming, sr_status = sr_status incoming,
      sr_reference = opt_or (sr_reference incoming) (sr_reference existing),
      sr_escrow_pda = opt_or (sr_escrow_pda incoming) (sr_escrow_pda existing),
      sr_deposit_tx = opt_or (sr_deposit_tx incoming) (sr_deposit_tx existing),
      sr_release_tx = opt_or (sr_release_tx incoming) (sr_release_tx existing),
      sr_explorer_url = opt_or (sr_explorer_url incoming) (sr_explorer_url existing),
      sr_chain_observed = opt_or (sr_chain_observed incoming) (sr_chain_observed existing),
      sr_chain_slot = opt_or (sr_chain_slot incoming) (sr_chain_slot existing),
      sr_payment_url = opt_or (sr_payment_url incoming) (sr_payment_url existing),
      sr_payment_reference = opt_or (sr_payment_reference incoming) (sr_payment_reference existing),
      sr_payment_memo = opt_or (sr_payment_memo incoming) (sr_payment_memo existing),
      sr_payment_signature = opt_or (sr_payment_signature incoming) (sr_payment_signature existing),
      sr_payment_status = opt_or (sr_payment_status incoming) (sr_payment_status existing),
      sr_payment_recipient = opt_or (sr_payment_recipient incoming) (sr_payment_recipient existing),
      sr_payment_amount_sol = opt_or (sr_payment_amount_sol incoming) (sr_payment_amount_sol existing)\<rparr>"

definition merge_receipt :: "agent_run \<Rightarrow> settlement_receipt \<Rightarrow> agent_run" where
  "merge_receipt run incoming =
     run\<lparr>run_settlement := Some (case run_settlement run of None \<Rightarrow> incoming | Some existing \<Rightarrow> merged existing incoming)\<rparr>"

definition timeline_append :: "string \<Rightarrow> string \<Rightarrow> string \<Rightarrow> agent_run \<Rightarrow> agent_run" where
  "timeline_append now label detail run =
     run\<lparr>run_timeline := run_timeline run @ [\<lparr>tl_at = now, tl_label = label, tl_detail = detail\<rparr>]\<rparr>"

section \<open>coral/settlement.rs\<close>

record bridge_response =
  br_ok :: bool
  br_error :: "string option"
  br_reference :: "string option"
  br_escrow_pda :: "string option"
  br_deposit_sig :: "string option"
  br_release_sig :: "string option"
  br_explorer_url :: "string option"

record 'w bridge_env =
  bg_sidecar_path :: string
  bg_node_bin :: "string option"
  bg_exists :: "string \<Rightarrow> 'w \<Rightarrow> bool"
  bg_child :: "'w child_env"
  bg_render :: "json \<Rightarrow> string"
  bg_parse :: "string \<Rightarrow> string + bridge_response"
  bg_event_json :: "txline_event \<Rightarrow> json"
  bg_delivery_json :: "agent_delivery \<Rightarrow> json"
  bg_verdict_json :: "verdict \<Rightarrow> json"

definition fallback_amount_sol :: "f64 \<Rightarrow> f64" where
  "fallback_amount_sol cap = (if is_finite cap \<and> flt (lit 0) cap then fmin cap (lit (1/1000)) else lit (1/1000))"

definition settlement_amount :: "app_config \<Rightarrow> agent_run \<Rightarrow> f64" where
  "settlement_amount cfg run =
     (case run_winner run of Some b \<Rightarrow> bid_price_sol b | None \<Rightarrow> fallback_amount_sol (max_devnet_spend_sol cfg))"

definition bridge_request :: "'w bridge_env \<Rightarrow> app_config \<Rightarrow> agent_run \<Rightarrow> json" where
  "bridge_request env cfg run =
     JObj [(''cmd'', JStr ''settleRun''), (''runId'', JStr (run_id run)),
       (''fixtureId'', JStr (show_u64 (ev_fixture_id (run_trigger run)))),
       (''amountSol'', jfloat (settlement_amount cfg run)),
       (''reference'', opt_json JStr (Option.bind (run_settlement run) sr_reference)),
       (''payload'', JObj
         [(''coralos'', JObj
            [(''bridgeUrl'', opt_json JStr (coralos_bridge_url cfg)), (''proxyUrl'', JStr (coralos_proxy_url cfg)),
             (''root'', opt_json JStr (coralos_root cfg)), (''serverUrl'', JStr (coralos_server_url cfg)),
             (''token'', JStr (coralos_token cfg))]),
          (''delivery'', opt_json (bg_delivery_json env) (run_delivery run)),
          (''track'', JStr (show_track (run_track run))),
          (''trigger'', bg_event_json env (run_trigger run)),
          (''verdict'', opt_json (bg_verdict_json env) (run_verdict run))])]"

definition into_receipt :: "bridge_response \<Rightarrow> settlement_receipt" where
  "into_receipt r =
     \<lparr>sr_rail = Some ''coralos'',
      sr_status = (if br_release_sig r \<noteq> None then StReleased else if br_deposit_sig r \<noteq> None then StDeposited
                   else if br_escrow_pda r \<noteq> None then StEscrowCreated else StNotStarted),
      sr_reference = br_reference r, sr_escrow_pda = br_escrow_pda r, sr_deposit_tx = br_deposit_sig r,
      sr_release_tx = br_release_sig r, sr_explorer_url = br_explorer_url r, sr_chain_observed = Some False,
      sr_chain_slot = None, sr_payment_url = None, sr_payment_reference = None, sr_payment_memo = None,
      sr_payment_signature = None, sr_payment_status = None, sr_payment_recipient = None, sr_payment_amount_sol = None\<rparr>"

definition bridge_limit :: nat where "bridge_limit = 90000"

definition invoke_bridge :: "'w bridge_env \<Rightarrow> json \<Rightarrow> 'w \<Rightarrow> ((app_error + bridge_response) \<times> 'w) option" where
  "invoke_bridge env request w =
     (let node = resolve_node_bin (bg_node_bin env) (\<lambda>p. bg_exists env p w) (bg_sidecar_path env)
      in map_option (apfst (\<lambda>out.
           case out of
             SpawnFailed e \<Rightarrow> Inl (IoError e)
           | NoStdin \<Rightarrow> Inl (TaskError ''failed to open sidecar stdin'')
           | NoStdout \<Rightarrow> Inl (TaskError ''failed to open sidecar stdout'')
           | WriteFailed e \<Rightarrow> Inl (IoError e)
           | TimedOut \<Rightarrow> Inl (TaskError ''CoralOS sidecar timed out'')
           | ReadFailed e \<Rightarrow> Inl (IoError e)
           | NoLine \<Rightarrow> Inl (TaskError ''CoralOS sidecar exited without a response'')
           | Line l \<Rightarrow> (case bg_parse env l of Inl e \<Rightarrow> Inl (JsonError e) | Inr r \<Rightarrow> Inr r)))
         (child_exchange (bg_child env) bridge_limit node (bg_sidecar_path env) (bg_render env request) w))"

definition settle_run ::
    "'w bridge_env \<Rightarrow> app_config \<Rightarrow> agent_run \<Rightarrow> 'w \<Rightarrow> ((app_error + settlement_receipt) \<times> 'w) option" where
  "settle_run env cfg run w =
     (if \<not> coralos_settlement_enabled cfg then Some (Inl (ConfigError ''CORALOS_SETTLEMENT_ENABLED=0''), w)
      else if \<not> bg_exists env (bg_sidecar_path env) w
      then Some (Inl (ConfigError (''CoralOS sidecar not found at '' @ bg_sidecar_path env)), w)
      else map_option (apfst (\<lambda>answer.
          case answer of
            Inl e \<Rightarrow> Inl e
          | Inr r \<Rightarrow>
              if \<not> br_ok r then Inl (TaskError (unwrap_or ''CoralOS sidecar returned ok=false'' (br_error r)))
              else Inr (into_receipt r)))
        (invoke_bridge env (bridge_request env cfg run) w))"

section \<open>Merging receipts\<close>

text \<open>The text fields a merge carries over.\<close>

definition carried :: "(settlement_receipt \<Rightarrow> string option) list" where
  "carried = [sr_reference, sr_escrow_pda, sr_deposit_tx, sr_release_tx, sr_explorer_url, sr_payment_url,
     sr_payment_reference, sr_payment_memo, sr_payment_signature, sr_payment_status, sr_payment_recipient]"

definition merged_all :: "agent_run \<Rightarrow> settlement_receipt list \<Rightarrow> agent_run" where
  "merged_all run rs = foldl merge_receipt run rs"

definition receipts_of :: "agent_run \<Rightarrow> settlement_receipt list \<Rightarrow> settlement_receipt list" where
  \<comment> \<open>the settlement the run starts with, if any, is the first receipt\<close>
  "receipts_of run rs = (case run_settlement run of None \<Rightarrow> rs | Some r \<Rightarrow> r # rs)"

definition latest_of :: "(settlement_receipt \<Rightarrow> 'a option) \<Rightarrow> settlement_receipt list \<Rightarrow> 'a option" where
  "latest_of f rs = find_map f (rev rs)"

definition rail_counts :: "settlement_receipt list \<Rightarrow> nat \<Rightarrow> bool" where
  \<comment> \<open>once a receipt had a payment link, only a receipt with a link of its own changes the rail\<close>
  "rail_counts rs i \<longleftrightarrow> sr_payment_url (rs ! i) \<noteq> None \<or> list_all (\<lambda>r. sr_payment_url r = None) (take i rs)"

definition latest_rail :: "settlement_receipt list \<Rightarrow> string option" where
  "latest_rail rs = find_map (\<lambda>i. if rail_counts rs i then sr_rail (rs ! i) else None) (rev [0..<length rs])"

lemma latest_of_snoc: "latest_of f (rs @ [r]) = opt_or (f r) (latest_of f rs)"
  by (simp add: latest_of_def opt_or_def split: option.split)

lemma latest_of_None: "latest_of f rs = None \<longleftrightarrow> list_all (\<lambda>r. f r = None) rs"
  by (simp add: latest_of_def list_all_iff)

lemma latest_rail_snoc:
  "latest_rail (rs @ [r]) =
     (if sr_payment_url r \<noteq> None \<or> latest_of sr_payment_url rs = None then opt_or (sr_rail r) (latest_rail rs)
      else latest_rail rs)"
proof -
  have "find_map (\<lambda>i. if rail_counts (rs @ [r]) i then sr_rail ((rs @ [r]) ! i) else None) (rev [0..<length rs])
      = latest_rail rs"
    unfolding latest_rail_def by (rule find_map_cong) (simp add: rail_counts_def nth_append)
  moreover have "rail_counts (rs @ [r]) (length rs) \<longleftrightarrow> sr_payment_url r \<noteq> None \<or> latest_of sr_payment_url rs = None"
    by (simp add: rail_counts_def latest_of_None)
  ultimately show ?thesis
    by (simp add: latest_rail_def [of "rs @ [r]"] opt_or_def split: option.split)
qed

lemma merged_all_snoc: "merged_all run (rs @ [r]) = merge_receipt (merged_all run rs) r"
  by (simp add: merged_all_def)

lemma merged_carries: "f \<in> set carried \<Longrightarrow> f (merged a b) = opt_or (f b) (f a)"
  by (auto simp: carried_def merged_def)

text \<open>What the settlement of a run is after all of its receipts.\<close>

definition accumulated :: "settlement_receipt list \<Rightarrow> settlement_receipt \<Rightarrow> bool" where
  "accumulated rs r \<longleftrightarrow> sr_status r = sr_status (last rs) \<and> sr_rail r = latest_rail rs
     \<and> list_all (\<lambda>f. f r = latest_of f rs) carried
     \<and> sr_chain_observed r = latest_of sr_chain_observed rs
     \<and> sr_chain_slot r = latest_of sr_chain_slot rs
     \<and> sr_payment_amount_sol r = latest_of sr_payment_amount_sol rs"

lemma accumulated_first: "accumulated [r] r"
  by (auto simp: accumulated_def list_all_iff latest_of_def latest_rail_def rail_counts_def split: option.split)

lemma accumulated_merged:
  assumes "accumulated rs a" shows "accumulated (rs @ [r]) (merged a r)"
proof -
  have f: "f (merged a r) = latest_of f (rs @ [r])" if "f \<in> set carried" for f
    using assms that merged_carries [OF that, of a r] by (auto simp: accumulated_def latest_of_snoc list_all_iff)
  have "sr_payment_url \<in> set carried" by (simp add: carried_def)
  then have "sr_payment_url a = latest_of sr_payment_url rs" using assms by (auto simp: accumulated_def list_all_iff)
  then have "sr_rail (merged a r) = latest_rail (rs @ [r])"
    using assms by (auto simp: merged_def keep_rail_def latest_rail_snoc accumulated_def opt_or_def split: option.split)
  then show ?thesis
    using assms f by (simp add: accumulated_def latest_of_snoc list_all_iff) (simp add: merged_def)
qed

lemma merged_all_accumulated:
  "receipts_of run rs \<noteq> [] \<Longrightarrow>
     \<exists>r. merged_all run rs = run\<lparr>run_settlement := Some r\<rparr> \<and> accumulated (receipts_of run rs) r"
proof (induction rs rule: rev_induct)
  case Nil
  then show ?case
    by (cases run; cases "run_settlement run") (auto simp: receipts_of_def merged_all_def accumulated_first)
next
  case (snoc r rs)
  show ?case
  proof (cases "receipts_of run rs = []")
    case True
    then have "rs = []" "run_settlement run = None" by (auto simp: receipts_of_def split: option.splits)
    then show ?thesis using accumulated_first [of r]
      by (intro exI [of _ r]) (simp add: receipts_of_def merged_all_def merge_receipt_def)
  next
    case False
    then obtain a where a: "merged_all run rs = run\<lparr>run_settlement := Some a\<rparr>" "accumulated (receipts_of run rs) a"
      using snoc.IH by blast
    have "receipts_of run (rs @ [r]) = receipts_of run rs @ [r]" by (simp add: receipts_of_def split: option.split)
    then show ?thesis using a accumulated_merged [OF a(2), of r]
      by (intro exI [of _ "merged a r"]) (simp add: merged_all_snoc merge_receipt_def)
  qed
qed

text \<open>
  C34: a run that takes in receipts, on top of the settlement it starts with, changes in nothing but
  its settlement, and this keeps in every field but two the newest value any of the receipts had: no
  later receipt erases a reference, a signature, the payment link, the amount or what the chain
  showed. The rail is the newest among the receipts that count for it: those with a payment link,
  and those before which there was none. The status is that of the last receipt alone, so that a late
  \<open>NotStarted\<close> hides a release whose signature the run still carries.
\<close>
theorem receipts_accumulate:
  assumes "receipts_of run rs \<noteq> []"
  shows "\<exists>r. merged_all run rs = run\<lparr>run_settlement := Some r\<rparr>
     \<and> sr_status r = sr_status (last (receipts_of run rs)) \<and> sr_rail r = latest_rail (receipts_of run rs)
     \<and> list_all (\<lambda>f. f r = latest_of f (receipts_of run rs)) carried
     \<and> sr_chain_observed r = latest_of sr_chain_observed (receipts_of run rs)
     \<and> sr_chain_slot r = latest_of sr_chain_slot (receipts_of run rs)
     \<and> sr_payment_amount_sol r = latest_of sr_payment_amount_sol (receipts_of run rs)"
  using merged_all_accumulated [OF assms] unfolding accumulated_def .

section \<open>What the bridge sends\<close>

text \<open>Without a winner the amount is positive, at most a thousandth of a SOL, and within a positive cap.\<close>

lemma fallback_bounded:
  "fle (fallback_amount_sol cap) (lit (1/1000)) \<and> flt (lit 0) (fallback_amount_sol cap)
   \<and> (is_finite cap \<and> flt (lit 0) cap \<longrightarrow> fle (fallback_amount_sol cap) cap)"
proof -
  have l: "flt (lit 0) (lit (1/1000))" "fle (lit (1/1000)) (lit (1/1000))" "\<not> is_nan (lit (1/1000))" by code_simp+
  have "fle cap (lit (1/1000)) \<or> fle (lit (1/1000)) cap" "fle cap cap" if "is_finite cap"
    using that l(3) fle_total [of cap "lit (1/1000)"] by (cases cap; auto simp: fle_def)+
  then show ?thesis using l by (auto simp: fallback_amount_sol_def fmin_def flt_def)
qed

text \<open>
  The bridge looks at the feature switch and the sidecar only: with any verdict, also a failed one,
  it asks for a settlement, over the price of the winning bid as it stands.
\<close>

lemma settlement_needs_no_verdict:
  assumes "coralos_settlement_enabled cfg" and "bg_exists env (bg_sidecar_path env) w"
    and "child_exchange (bg_child env) bridge_limit (resolve_node_bin (bg_node_bin env) (\<lambda>p. bg_exists env p w) (bg_sidecar_path env))
          (bg_sidecar_path env) (bg_render env (bridge_request env cfg run)) w = Some (Line l, w1)"
    and "bg_parse env l = Inr r" and "br_ok r"
  shows "settle_run env cfg run w = Some (Inr (into_receipt r), w1)
     \<and> (\<forall>b. run_winner run = Some b \<longrightarrow> jget (bridge_request env cfg run) ''amountSol'' = Some (jfloat (bid_price_sol b)))"
  using assms by (simp add: settle_run_def invoke_bridge_def bridge_request_def settlement_amount_def)

section \<open>Witness\<close>

definition sample_response :: bridge_response where
  "sample_response = \<lparr>br_ok = True, br_error = None, br_reference = Some ''ref'', br_escrow_pda = Some ''pda'',
     br_deposit_sig = Some ''dep'', br_release_sig = Some ''rel'', br_explorer_url = None\<rparr>"

definition empty_response :: bridge_response where
  "empty_response = \<lparr>br_ok = True, br_error = None, br_reference = None, br_escrow_pda = None,
     br_deposit_sig = None, br_release_sig = None, br_explorer_url = None\<rparr>"

text \<open>
  A run as a round leaves it: a payment link comes in, then a release over another rail, then an
  answer that knows nothing. The rail stays that of the link, the release is kept, the status falls back.
\<close>

definition linked_receipt :: settlement_receipt where
  "linked_receipt = empty_settlement\<lparr>sr_rail := Some ''solanaPay'', sr_payment_url := Some ''solana:x''\<rparr>"

theorem receipts_accumulate_witness:
  "\<exists>r. run_settlement (merged_all (blank_run\<lparr>run_settlement := Some empty_settlement\<rparr>)
        [linked_receipt, into_receipt sample_response, into_receipt empty_response]) = Some r
     \<and> sr_release_tx r = Some ''rel'' \<and> sr_payment_url r = Some ''solana:x'' \<and> sr_status r = StNotStarted
     \<and> sr_rail r = Some ''solanaPay''"
proof -
  let ?run = "blank_run\<lparr>run_settlement := Some empty_settlement\<rparr>"
  let ?rs = "[linked_receipt, into_receipt sample_response, into_receipt empty_response]"
  have all: "receipts_of ?run ?rs = empty_settlement # ?rs" by (simp add: receipts_of_def)
  then have "receipts_of ?run ?rs \<noteq> []" by simp
  from receipts_accumulate [OF this] obtain r where
      r: "merged_all ?run ?rs = ?run\<lparr>run_settlement := Some r\<rparr>" "sr_status r = sr_status (last (empty_settlement # ?rs))"
      "sr_rail r = latest_rail (empty_settlement # ?rs)"
      "list_all (\<lambda>f. f r = latest_of f (empty_settlement # ?rs)) carried" unfolding all by blast
  have "sr_release_tx r = latest_of sr_release_tx (empty_settlement # ?rs)"
    "sr_payment_url r = latest_of sr_payment_url (empty_settlement # ?rs)"
    using r(4) by (simp_all add: carried_def)
  moreover have "latest_of sr_release_tx (empty_settlement # ?rs) = Some ''rel''"
    "latest_of sr_payment_url (empty_settlement # ?rs) = Some ''solana:x''"
    "latest_rail (empty_settlement # ?rs) = Some ''solanaPay''"
    "sr_status (into_receipt empty_response) = StNotStarted" by code_simp+
  ultimately show ?thesis using r by simp
qed

end
