(* ===== verification/Desk_Api.thy ===== *)
theory Desk_Api
  imports Ledger_Facts Payments
begin

text \<open>
  The reading surface of the desk: the arena queries (\<open>commands/arena.rs\<close>), the TxLINE queries
  and the ingest switch (\<open>commands/txline.rs\<close>), and the loopback diagnostics service
  (\<open>web.rs\<close>). The router and the extractors of the HTTP library are arguments: a route comes
  with its extracted parameters or with the status of the rejection. Two results: the
  diagnostics service shows nothing of the ledger without its token, and the ingest switch
  keeps one task alive only as long as its calls do not overlap.
\<close>

section \<open>commands/arena.rs\<close>

definition with_ledger :: "bool \<Rightarrow> (app_error + 'a) \<Rightarrow> app_error + 'a" where
  "with_ledger poisoned r = (if poisoned then Inl LockPoisoned else r)"

definition arena_positions_command :: "sqlite \<Rightarrow> bool \<Rightarrow> string option \<Rightarrow> int option \<Rightarrow> ledger \<Rightarrow> app_error + position_row list" where
  "arena_positions_command q poisoned agent limit db =
     with_ledger poisoned (Inr (list_arena_positions q agent (unwrap_or 100 limit) db))"

definition settlement_records_command ::
    "sqlite \<Rightarrow> bool \<Rightarrow> string option \<Rightarrow> i64 option \<Rightarrow> int option \<Rightarrow> ledger \<Rightarrow> app_error + settlement_row list" where
  "settlement_records_command q poisoned agent fixture limit db =
     with_ledger poisoned (Inr (list_settlement_records q agent fixture (unwrap_or 200 limit) db))"

definition signal_records_command ::
    "sqlite \<Rightarrow> bool \<Rightarrow> i64 option \<Rightarrow> int option \<Rightarrow> ledger \<Rightarrow> app_error + signal_row list" where
  "signal_records_command q poisoned fixture limit db =
     with_ledger poisoned (Inr (list_signal_records q fixture (unwrap_or 200 limit) db))"

definition arena_score_command :: "sqlite \<Rightarrow> bool \<Rightarrow> ledger \<Rightarrow> app_error + arena_score_row" where
  "arena_score_command q poisoned db = with_ledger poisoned (Inr (get_arena_score q db))"

definition leaderboard_command :: "sqlite \<Rightarrow> bool \<Rightarrow> ledger \<Rightarrow> app_error + leaderboard_row list" where
  "leaderboard_command q poisoned db = with_ledger poisoned (list_agent_leaderboard q db)"

definition arena_sessions_command :: "sqlite \<Rightarrow> bool \<Rightarrow> int option \<Rightarrow> ledger \<Rightarrow> app_error + session_row list" where
  "arena_sessions_command q poisoned limit db =
     with_ledger poisoned (Inr (list_arena_sessions q (unwrap_or 50 limit) db))"

definition tool_calls_command ::
    "sqlite \<Rightarrow> bool \<Rightarrow> string option \<Rightarrow> int option \<Rightarrow> ledger \<Rightarrow> app_error + tool_call_row list" where
  "tool_calls_command q poisoned rid limit db =
     with_ledger poisoned (Inr (list_tool_call_records q rid (unwrap_or 500 limit) db))"

record safety_status_row =
  sy_agent_id :: string
  sy_tool_calls_used :: nat
  sy_tool_calls_limit :: int
  sy_spend_lamports :: int
  sy_spend_limit_lamports :: int
  sy_duration_used :: int
  sy_duration_limit :: int
  sy_steps_used :: nat
  sy_steps_max :: int
  sy_last_checked_at :: string

definition agent_safety_command :: "sqlite \<Rightarrow> bool \<Rightarrow> string \<Rightarrow> string \<Rightarrow> ledger \<Rightarrow> app_error + safety_status_row" where
  \<comment> \<open>the agent's name is used as the run of the tool calls\<close>
  "agent_safety_command q poisoned now agent db =
     with_ledger poisoned
       (let used = length (list_tool_call_records q (Some agent) 10000 db)
        in Inr \<lparr>sy_agent_id = agent, sy_tool_calls_used = used, sy_tool_calls_limit = 500, sy_spend_lamports = 0,
                sy_spend_limit_lamports = 1000000, sy_duration_used = 0, sy_duration_limit = 3600,
                sy_steps_used = used, sy_steps_max = 500, sy_last_checked_at = now\<rparr>)"

section \<open>commands/txline.rs: queries\<close>

definition push_query :: "string \<Rightarrow> u64 option \<Rightarrow> (string \<times> string) list \<Rightarrow> (string \<times> string) list" where
  "push_query name v query = (case v of None \<Rightarrow> query | Some n \<Rightarrow> query @ [(name, show_u64 n)])"

text \<open>The data commands, each with the path and the query of its request.\<close>

datatype txline_query =
    FixturesSnapshot "u64 option" "u64 option"
  | OddsSnapshot u64 "u64 option"
  | OddsUpdates u64
  | OddsInterval u64 u64 u64
  | ScoresSnapshot u64 "u64 option"
  | ScoresUpdates u64
  | ScoresHistorical u64
  | ScoresInterval u64 u64 u64
  | StatValidation u64 u64 "u64 option" "u64 option" "string option"
  | FetchPath string

fun query_path :: "txline_query \<Rightarrow> string" where
  "query_path (FixturesSnapshot d c) = ''api/fixtures/snapshot''"
| "query_path (OddsSnapshot f a) = ''api/odds/snapshot/'' @ show_u64 f"
| "query_path (OddsUpdates f) = ''api/odds/updates/'' @ show_u64 f"
| "query_path (OddsInterval d h i) = ''api/odds/updates/'' @ show_u64 d @ ''/'' @ show_u64 h @ ''/'' @ show_u64 i"
| "query_path (ScoresSnapshot f a) = ''api/scores/snapshot/'' @ show_u64 f"
| "query_path (ScoresUpdates f) = ''api/scores/updates/'' @ show_u64 f"
| "query_path (ScoresHistorical f) = ''api/scores/historical/'' @ show_u64 f"
| "query_path (ScoresInterval d h i) = ''api/scores/updates/'' @ show_u64 d @ ''/'' @ show_u64 h @ ''/'' @ show_u64 i"
| "query_path (StatValidation f s k1 k2 ks) = ''api/scores/stat-validation''"
| "query_path (FetchPath p) = p"

fun query_params :: "txline_query \<Rightarrow> (string \<times> string) list" where
  "query_params (FixturesSnapshot d c) = push_query ''competitionId'' c (push_query ''startEpochDay'' d [])"
| "query_params (OddsSnapshot f a) = push_query ''asOf'' a []"
| "query_params (ScoresSnapshot f a) = push_query ''asOf'' a []"
| "query_params (StatValidation f s k1 k2 ks) =
     push_query ''statKey2'' k2 (push_query ''statKey'' k1 [(''fixtureId'', show_u64 f), (''seq'', show_u64 s)])
     @ (case opt_filter (\<lambda>v. trim v \<noteq> []) ks of None \<Rightarrow> [] | Some v \<Rightarrow> [(''statKeys'', v)])"
| "query_params _ = []"

definition txline_data ::
    "(string \<Rightarrow> 'w \<Rightarrow> (string + data_answer) \<times> 'w)
     \<Rightarrow> (string \<Rightarrow> string \<Rightarrow> string \<Rightarrow> (string \<times> string) list \<Rightarrow> 'w \<Rightarrow> (string + data_answer) \<times> 'w)
     \<Rightarrow> app_config \<Rightarrow> txline_query \<Rightarrow> 'w \<Rightarrow> (app_error + json) \<times> 'w" where
  "txline_data post get cfg q w = authenticated_get post get cfg (query_path q) (query_params q) w"

section \<open>commands/txline.rs: the ingest task\<close>

text \<open>
  \<open>ig_live\<close> lists the tasks that run, \<open>ig_slot\<close> holds the handle the desk keeps. A call of
  \<open>start_txline\<close> takes two locked sections; in between, other calls may run. A handle that is
  overwritten is dropped, which detaches its task.
\<close>

record ingest_state =
  ig_slot :: "nat option"
  ig_live :: "nat list"
  ig_next :: nat

definition take_and_abort :: "ingest_state \<Rightarrow> ingest_state" where
  "take_and_abort s = (case ig_slot s of None \<Rightarrow> s
     | Some t \<Rightarrow> s\<lparr>ig_slot := None, ig_live := filter (\<lambda>x. x \<noteq> t) (ig_live s)\<rparr>)"

definition spawn_and_store :: "ingest_state \<Rightarrow> ingest_state" where
  "spawn_and_store s = s\<lparr>ig_slot := Some (ig_next s), ig_live := ig_live s @ [ig_next s], ig_next := Suc (ig_next s)\<rparr>"

definition start_txline :: "string \<Rightarrow> ingest_state \<Rightarrow> (app_error + unit) \<times> ingest_state" where
  "start_txline mode s =
     (if mode \<noteq> ''live'' then (Inl (InvalidInput ''TxLINE ingest is live-only in the desktop app''), s)
      else (Inr (), spawn_and_store (take_and_abort s)))"

definition stop_txline :: "ingest_state \<Rightarrow> (app_error + unit) \<times> ingest_state" where
  "stop_txline s = (Inr (), take_and_abort s)"

datatype ingest_section = TakeAbort | SpawnStore

definition run_section :: "ingest_section \<Rightarrow> ingest_state \<Rightarrow> ingest_state" where
  "run_section c s = (case c of TakeAbort \<Rightarrow> take_and_abort s | SpawnStore \<Rightarrow> spawn_and_store s)"

definition ingest_idle :: ingest_state where
  "ingest_idle = \<lparr>ig_slot = None, ig_live = [], ig_next = 0\<rparr>"

section \<open>web.rs\<close>

datatype web_route =
    Healthz
  | WebRuns
  | WebRun string
  | WebLeaderboard
  | WebSignals "(nat \<times> string) + i64 option \<times> i64 option"
  | WebSettlements "(nat \<times> string) + string option \<times> i64 option \<times> i64 option"
  | WebToolCalls "(nat \<times> string) + string option \<times> i64 option"
  | WebEvents
  | WebRpc

datatype web_body =
    EmptyBody
  | TextBody string
  | HealthBody public_config
  | RunsBody "agent_run list"
  | RunBody agent_run
  | LeaderboardBody "leaderboard_row list"
  | SignalsBody "signal_row list"
  | SettlementsBody "settlement_row list"
  | ToolCallsBody "tool_call_row list"
  | EventStream

record web_response =
  wr_status :: nat
  wr_body :: web_body

definition visible_ascii :: "string \<Rightarrow> bool" where
  \<comment> \<open>what \<open>HeaderValue::to_str\<close> accepts\<close>
  "visible_ascii s \<longleftrightarrow> list_all (\<lambda>c. (32 \<le> (of_char c :: nat) \<and> (of_char c :: nat) < 127) \<or> c = CHR 0x09) s"

definition authorized :: "(string \<times> string) list \<Rightarrow> string \<Rightarrow> bool" where
  \<comment> \<open>header names in lower case; \<open>get\<close> returns the first value\<close>
  "authorized headers token \<longleftrightarrow>
     (case map_of headers ''authorization'' of None \<Rightarrow> False | Some v \<Rightarrow> visible_ascii v \<and> v = ''Bearer '' @ token)"

record web_state =
  ws_public :: public_config
  ws_token :: string
  ws_poisoned :: bool

definition unauthorized :: web_response where
  "unauthorized = \<lparr>wr_status = 401, wr_body = EmptyBody\<rparr>"

definition from_ledger :: "web_state \<Rightarrow> nat \<Rightarrow> ('a \<Rightarrow> web_body) \<Rightarrow> app_error + 'a \<Rightarrow> web_response" where
  "from_ledger st failure body r =
     (if ws_poisoned st then \<lparr>wr_status = 500, wr_body = TextBody ''ledger lock poisoned''\<rparr>
      else case r of Inl e \<Rightarrow> \<lparr>wr_status = failure, wr_body = TextBody (show_app_error e)\<rparr>
                   | Inr x \<Rightarrow> \<lparr>wr_status = 200, wr_body = body x\<rparr>)"

definition guarded :: "web_state \<Rightarrow> (string \<times> string) list \<Rightarrow> web_response \<Rightarrow> web_response" where
  "guarded st headers r = (if authorized headers (ws_token st) then r else unauthorized)"

definition extracted :: "(nat \<times> string) + 'q \<Rightarrow> ('q \<Rightarrow> web_response) \<Rightarrow> web_response" where
  \<comment> \<open>an extractor that fails answers before the handler runs\<close>
  "extracted q f = (case q of Inl (status, e) \<Rightarrow> \<lparr>wr_status = status, wr_body = TextBody e\<rparr> | Inr x \<Rightarrow> f x)"

definition web_limit :: "i64 option \<Rightarrow> int" where
  "web_limit l = min (max (unwrap_or 20 l) 1) 200"

definition web_handle ::
    "sqlite \<Rightarrow> ledger_codec \<Rightarrow> web_state \<Rightarrow> ledger \<Rightarrow> (string \<times> string) list \<Rightarrow> web_route \<Rightarrow> web_response" where
  "web_handle q cd st db headers r =
     (case r of
        Healthz \<Rightarrow> \<lparr>wr_status = 200, wr_body = HealthBody (ws_public st)\<rparr>
      | WebRuns \<Rightarrow> guarded st headers (from_ledger st 500 RunsBody (list_runs q cd db))
      | WebRun rid \<Rightarrow> guarded st headers (from_ledger st 404 RunBody (get_run cd rid db))
      | WebLeaderboard \<Rightarrow> guarded st headers (from_ledger st 500 LeaderboardBody (list_agent_leaderboard q db))
      | WebSignals p \<Rightarrow> extracted p (\<lambda>(fixture, limit). guarded st headers
          (from_ledger st 500 SignalsBody (Inr (list_signal_records q fixture (web_limit limit) db))))
      | WebSettlements p \<Rightarrow> extracted p (\<lambda>(agent, fixture, limit). guarded st headers
          (from_ledger st 500 SettlementsBody (Inr (list_settlement_records q agent fixture (web_limit limit) db))))
      | WebToolCalls p \<Rightarrow> extracted p (\<lambda>(rid, limit). guarded st headers
          (from_ledger st 500 ToolCallsBody (Inr (list_tool_call_records q rid (web_limit limit) db))))
      | WebEvents \<Rightarrow> guarded st headers \<lparr>wr_status = 200, wr_body = EventStream\<rparr>
      | WebRpc \<Rightarrow> guarded st headers \<lparr>wr_status = 501, wr_body = TextBody
          ''Use Tauri IPC for primary commands; loopback RPC is intentionally disabled in this build.''\<rparr>)"

section \<open>Nothing without the token\<close>

definition bounded_body :: "web_body \<Rightarrow> bool" where
  "bounded_body b \<longleftrightarrow>
     (case b of RunsBody rs \<Rightarrow> length rs \<le> 100 | SignalsBody rs \<Rightarrow> length rs \<le> 200
      | SettlementsBody rs \<Rightarrow> length rs \<le> 200 | ToolCallsBody rs \<Rightarrow> length rs \<le> 200 | _ \<Rightarrow> True)"

lemma limit_rows_length: "0 \<le> n \<Longrightarrow> length (limit_rows n rows) \<le> nat n"
  by (simp add: limit_rows_def)

lemma web_limit_range: "1 \<le> web_limit l \<and> web_limit l \<le> 200"
  by (simp add: web_limit_def)

lemma web_limit_rows: "length (limit_rows (web_limit l) rows) \<le> 200"
  using limit_rows_length [of "web_limit l" rows] web_limit_range [of l] nat_le_eq_zle [of "web_limit l" 200] by linarith

lemma web_rows_bounded:
  "length (list_signal_records q f (web_limit l) db) \<le> 200"
  "length (list_settlement_records q a f (web_limit l) db) \<le> 200"
  "length (list_tool_call_records q rid (web_limit l) db) \<le> 200"
  by (simp_all add: web_limit_rows list_signal_records_def list_settlement_records_def list_tool_call_records_def split: option.split)

lemma list_runs_length: "list_runs q cd db = Inr rs \<Longrightarrow> length rs \<le> 100"
proof -
  assume "list_runs q cd db = Inr rs"
  then have "length rs = length (limit_rows 100 (order_by q True rr_created_at (db_runs db)))"
    by (auto simp: list_runs_def collect_rows_Inr dest: arg_cong [of _ _ length])
  then show "length rs \<le> 100" using limit_rows_length [of 100 "order_by q True rr_created_at (db_runs db)"] by simp
qed

text \<open>
  C35: without the token the answer of the diagnostics service does not depend on the ledger at all,
  whatever the route, its parameters and the state of the lock: two ledgers give the same answer.
  With it, the run list shows at most 100 rows and the signals, settlements and tool calls
  at most 200, whatever limit is asked for.
\<close>
theorem diagnostics_need_token:
  "(authorized headers (ws_token st) \<or> web_handle q cd st db headers r = web_handle q' cd' st db' headers r)
   \<and> bounded_body (wr_body (web_handle q cd st db headers r))"
proof
  show "authorized headers (ws_token st) \<or> web_handle q cd st db headers r = web_handle q' cd' st db' headers r"
    by (cases r) (auto simp: web_handle_def guarded_def extracted_def split: sum.split)
  show "bounded_body (wr_body (web_handle q cd st db headers r))"
    using web_rows_bounded list_runs_length
    by (cases r) (auto simp: web_handle_def guarded_def extracted_def from_ledger_def unauthorized_def bounded_body_def split: sum.splits)
qed

section \<open>One ingest task\<close>

datatype ingest_command = StartCmd string | StopCmd

definition run_ingest :: "ingest_command list \<Rightarrow> ingest_state \<Rightarrow> ingest_state" where
  "run_ingest cs s = fold (\<lambda>c s. case c of StartCmd m \<Rightarrow> snd (start_txline m s) | StopCmd \<Rightarrow> snd (stop_txline s)) cs s"

definition slot_tasks :: "ingest_state \<Rightarrow> nat list" where
  "slot_tasks s = (case ig_slot s of None \<Rightarrow> [] | Some t \<Rightarrow> [t])"

definition single_task :: "ingest_state \<Rightarrow> bool" where
  "single_task s \<longleftrightarrow> ig_live s = slot_tasks s \<and> list_all (\<lambda>t. t < ig_next s) (ig_live s)"

lemma run_ingest_induct:
  assumes "P s" and "\<And>m s. P s \<Longrightarrow> P (spawn_and_store (take_and_abort s))" and "\<And>s. P s \<Longrightarrow> P (take_and_abort s)"
  shows "P (run_ingest cs s)"
  using assms(1)
proof (induction cs arbitrary: s)
  case (Cons c cs)
  then show ?case using assms(2,3) by (cases c) (auto simp: run_ingest_def start_txline_def stop_txline_def)
qed (simp add: run_ingest_def)

lemma single_task_run: "single_task (run_ingest cs ingest_idle)"
  by (rule run_ingest_induct)
     (auto simp: single_task_def slot_tasks_def take_and_abort_def spawn_and_store_def ingest_idle_def split: option.splits)

definition leaked :: "nat \<Rightarrow> ingest_state \<Rightarrow> bool" where
  "leaked t s \<longleftrightarrow> t \<in> set (ig_live s) \<and> ig_slot s \<noteq> Some t \<and> t < ig_next s"

lemma leaked_run: "leaked t s \<Longrightarrow> leaked t (run_ingest cs s)"
  by (rule run_ingest_induct)
     (auto simp: leaked_def take_and_abort_def spawn_and_store_def split: option.splits)

text \<open>
  C36: as long as the calls come one after another, the task whose handle is kept is the only one
  that runs. Two calls of \<open>start_txline\<close> that overlap, each past its first locked section when
  the other begins, leave a second task running, and no sequence of starts and stops ever ends it.
\<close>
theorem overlapping_starts_leak_a_task:
  "ig_live (run_ingest cs ingest_idle) = slot_tasks (run_ingest cs ingest_idle)
   \<and> (let s = run_ingest cs ingest_idle; s' = fold run_section [TakeAbort, TakeAbort, SpawnStore, SpawnStore] s
      in ig_next s \<in> set (ig_live (run_ingest later s')) \<and> ig_slot (run_ingest later s') \<noteq> Some (ig_next s))"
proof -
  let ?s = "run_ingest cs ingest_idle"
  have "leaked (ig_next ?s) (fold run_section [TakeAbort, TakeAbort, SpawnStore, SpawnStore] ?s)"
    by (simp add: leaked_def run_section_def spawn_and_store_def take_and_abort_def split: option.split)
  then have "leaked (ig_next ?s) (run_ingest later (fold run_section [TakeAbort, TakeAbort, SpawnStore, SpawnStore] ?s))"
    by (rule leaked_run)
  then show ?thesis using single_task_run [of cs] by (simp add: single_task_def leaked_def Let_def)
qed

end
