(* ===== verification/Desk_Setup.thy ===== *)
theory Desk_Setup
  imports Yellowstone Coral_Bus
begin

text \<open>
  The set-up of the application (\<open>native/src/lib.rs\<close>, \<open>state.rs\<close>): where the sidecars and resources
  are looked for, and the steps of the set-up as a list of actions in the order of the code,
  run until the first one that fails. File system and process are arguments. The property follows the
  one watch that the set-up queues through the supervisor's JSON to the filters of the sidecar
  (\<open>Yellowstone\<close>).
\<close>

section \<open>Paths\<close>

record path_env =
  pa_cwd :: "string option"
  pa_app_data :: "string option"
  pa_resources :: "string option"
  pa_exists :: "string \<Rightarrow> bool"

definition join_all :: "string \<Rightarrow> string list \<Rightarrow> string" where
  "join_all dir names = foldl join_path dir names"

definition resolve_named_sidecar_path :: "path_env \<Rightarrow> string \<Rightarrow> string" where
  "resolve_named_sidecar_path pe name =
     (let cwd = unwrap_or ''.'' (pa_cwd pe);
          dev_path = join_all cwd [''runtime'', ''sidecars'', name];
          legacy_dev_path = join_all cwd [''sidecars'', name];
          resource_dir = unwrap_or ''.'' (pa_resources pe);
          packaged_sidecar = join_all resource_dir [''runtime'', ''sidecars'', name];
          legacy_packaged_sidecar = join_all resource_dir [''sidecars'', name]
      in if pa_exists pe dev_path then dev_path
         else if pa_exists pe legacy_dev_path then legacy_dev_path
         else if pa_exists pe packaged_sidecar then packaged_sidecar
         else if pa_exists pe legacy_packaged_sidecar then legacy_packaged_sidecar
         else join_path resource_dir name)"

definition resolve_resource_dir :: "path_env \<Rightarrow> string list \<Rightarrow> string" where
  "resolve_resource_dir pe relative =
     (let dev_path = join_all (unwrap_or ''.'' (pa_cwd pe)) relative
      in if pa_exists pe dev_path then dev_path else join_all (unwrap_or ''.'' (pa_resources pe)) relative)"

section \<open>The managed state\<close>

text \<open>
  \<open>DesktopState\<close> as the set-up builds it. The ledger and the user store are given by their files, the
  supervisor by the sidecar it runs; the HTTP client has no state of its own.
\<close>

record desktop_state =
  ms_config :: app_config
  ms_ledger :: string
  ms_txline_task :: "nat option"
  ms_yellowstone :: "string option"
  ms_validation :: "string \<times> string"
  ms_replay_dir :: string
  ms_export_dir :: string
  ms_user_store :: string
  ms_pending :: "(string \<times> string \<times> string) list"
  ms_session_id :: "string option"
  ms_autonomous :: bool
  ms_last_seen :: "u64 \<times> string \<rightharpoonup> f64"
  ms_last_triggered :: "u64 \<rightharpoonup> nat"

section \<open>The steps\<close>

datatype setup_action =
    MakeDir string
  | OpenLedger string
  | OpenUserStore string
  | StartYellowstone string
  | QueueWatch yellowstone_command
  | StartWeb string "16 word"
  | BuildClient
  | Manage desktop_state
  | StartAutonomous

fun fallible :: "setup_action \<Rightarrow> bool" where
  "fallible (MakeDir d) = True"
| "fallible (OpenLedger f) = True"
| "fallible (OpenUserStore d) = True"
| "fallible BuildClient = True"
| "fallible _ = False"

definition setup_actions :: "path_env \<Rightarrow> app_config \<Rightarrow> setup_action list" where
  "setup_actions pe cfg =
     (let app_data_dir = unwrap_or (join_path (unwrap_or ''.'' (pa_cwd pe)) ''.agent-desk'') (pa_app_data pe);
          replay_dir = join_path app_data_dir ''replays'';
          export_dir = join_path app_data_dir ''exports'';
          ledger_file = join_path app_data_dir ''ledger.sqlite3'';
          user_store_path = join_path app_data_dir ''user_store'';
          yellowstone_path = resolve_named_sidecar_path pe ''yellowstone-bridge.mjs'';
          validation_path = resolve_named_sidecar_path pe ''txoracle-validation-bridge.mjs'';
          idl_dir = resolve_resource_dir pe [''vendor'', ''tx-on-chain'', ''idl''];
          streaming = (grpc_endpoint cfg \<noteq> None \<and> grpc_x_token cfg \<noteq> None)
      in [MakeDir app_data_dir, MakeDir replay_dir, MakeDir export_dir, OpenLedger ledger_file,
          MakeDir user_store_path, OpenUserStore user_store_path]
         @ (if streaming then [StartYellowstone yellowstone_path, QueueWatch (WatchProgram (txline_program_id cfg))] else [])
         @ (if axum_enabled cfg then [StartWeb (axum_bind cfg) (axum_port cfg)] else [])
         @ [BuildClient,
            Manage \<lparr>ms_config = cfg, ms_ledger = ledger_file, ms_txline_task = None,
              ms_yellowstone = (if streaming then Some yellowstone_path else None),
              ms_validation = (validation_path, idl_dir), ms_replay_dir = replay_dir, ms_export_dir = export_dir,
              ms_user_store = user_store_path, ms_pending = [], ms_session_id = None,
              ms_autonomous = autonomous_enabled cfg, ms_last_seen = Map.empty, ms_last_triggered = Map.empty\<rparr>,
            StartAutonomous])"

text \<open>
  The actions are performed in order; the error of a fallible one ends the set-up. The value is
  the outcome with the actions that were completed.
\<close>

fun run_setup ::
    "(setup_action \<Rightarrow> 'w \<Rightarrow> string option \<times> 'w) \<Rightarrow> setup_action list \<Rightarrow> 'w \<Rightarrow> (string + unit) \<times> setup_action list \<times> 'w" where
  "run_setup act [] w = (Inr (), [], w)"
| "run_setup act (a # todo) w =
     (case act a w of (failure, w1) \<Rightarrow>
        if fallible a \<and> failure \<noteq> None then (Inl (unwrap_or [] failure), [], w1)
        else (case run_setup act todo w1 of (r, performed, w2) \<Rightarrow> (r, a # performed, w2)))"

definition set_up ::
    "(setup_action \<Rightarrow> 'w \<Rightarrow> string option \<times> 'w) \<Rightarrow> path_env \<Rightarrow> app_config \<Rightarrow> 'w \<Rightarrow> (string + unit) \<times> setup_action list \<times> 'w" where
  "set_up act pe cfg = run_setup act (setup_actions pe cfg)"

section \<open>What a failed set-up leaves behind\<close>

lemma run_setup_performed:
  "run_setup act plan w = (r, performed, w') \<Longrightarrow>
     (r = Inr () \<and> performed = plan) \<or>
     (\<exists>e a after. r = Inl e \<and> plan = performed @ a # after \<and> fallible a)"
proof (induction plan arbitrary: w r performed w')
  case (Cons b plan)
  obtain f w1 where b: "act b w = (f, w1)" by (metis prod.exhaust)
  obtain q ps w2 where q: "run_setup act plan w1 = (q, ps, w2)" by (metis prod.exhaust)
  show ?case
  proof (cases "fallible b \<and> f \<noteq> None")
    case True
    then show ?thesis using Cons.prems b by auto
  next
    case False
    then have "r = q" "performed = b # ps" using Cons.prems b q by auto
    then show ?thesis using Cons.IH [OF q] by auto
  qed
qed simp

text \<open>
  The state is managed and the autonomous loop started together, after every step that can fail. The
  services come before the last of those: when the client cannot be built, the set-up fails with the
  supervisor and the diagnostics service running.
\<close>

lemma setup_manages_last:
  assumes "set_up act pe cfg w = (r, performed, w')"
  shows "r = Inr () \<and> (\<exists>ms. Manage ms \<in> set performed \<and> ms_pending ms = [] \<and> ms_autonomous ms = autonomous_enabled cfg)
           \<and> StartAutonomous \<in> set performed
       \<or> isl r \<and> (\<forall>ms. Manage ms \<notin> set performed) \<and> StartAutonomous \<notin> set performed"
proof -
  have split: "\<not> fallible a \<Longrightarrow> fallible b \<Longrightarrow> setup_actions pe cfg = performed @ b # after \<Longrightarrow> a \<in> set performed \<Longrightarrow>
      (\<forall>ms. a \<noteq> Manage ms) \<and> a \<noteq> StartAutonomous" for a b after
    by (auto simp: setup_actions_def Let_def Cons_eq_append_conv append_eq_Cons_conv split: if_splits)
  show ?thesis
    using run_setup_performed [OF assms [unfolded set_up_def]]
  proof (elim disjE exE conjE)
    assume "r = Inr ()" "performed = setup_actions pe cfg"
    then show ?thesis by (auto simp: setup_actions_def Let_def)
  next
    fix e a after
    assume "r = Inl e" "setup_actions pe cfg = performed @ a # after" "fallible a"
    then show ?thesis using split [of _ a after] by (metis fallible.simps(8,9) isl_def)
  qed
qed

lemma failed_client_leaves_services:
  assumes "axum_enabled cfg" and "grpc_endpoint cfg \<noteq> None" and "grpc_x_token cfg \<noteq> None"
    and "\<And>a w. a \<noteq> BuildClient \<Longrightarrow> act a w = (None, w)" and "\<And>w. act BuildClient w = (Some e, w)"
  shows "\<exists>performed. set_up act pe cfg w = (Inl e, performed, w)
    \<and> StartWeb (axum_bind cfg) (axum_port cfg) \<in> set performed
    \<and> StartYellowstone (resolve_named_sidecar_path pe ''yellowstone-bridge.mjs'') \<in> set performed"
  using assms by (simp add: set_up_def setup_actions_def Let_def)

section \<open>The watch of the set-up\<close>

definition queued :: "setup_action list \<Rightarrow> yellowstone_command list" where
  "queued performed = List.map_filter (\<lambda>a. case a of QueueWatch c \<Rightarrow> Some c | _ \<Rightarrow> None) performed"

definition split_env :: "(string \<times> string) list \<Rightarrow> string \<Rightarrow> string list" where
  "split_env env name = filter (\<lambda>v. v \<noteq> []) (map trim (split_on (CHR '','') (unwrap_or [] (map_of env name))))"

definition initial_filters :: "(string \<times> string) list \<Rightarrow> watch_filters" where
  \<comment> \<open>the sets that the sidecar starts with\<close>
  "initial_filters env =
     \<lparr>wf_accounts = fold (\<lambda>v. add_to (Some v)) (split_env env ''WATCH_ESCROW_ACCOUNT'') [],
      wf_tx_accounts = fold (\<lambda>v. add_to (Some v))
        (split_env env ''WATCH_ESCROW_PROGRAM_ID'' @ split_env env ''WATCH_MARKET_PROGRAM_ID'') []\<rparr>"

lemma fold_add_to: "set (fold (\<lambda>v. add_to (Some v)) vs xs) = set xs \<union> (set vs - {[]})"
  by (induction vs arbitrary: xs) (auto simp: add_to_set)

text \<open>
  C40: the program that the set-up asks the sidecar to watch is not watched. A successful set-up
  with a stream configured queues one watch, of the TxLINE program; whatever the desk sends
  afterwards, that program is in the sidecar's transaction filter only if the operator listed it in one of the
  two environment variables or a later command names it as a payment reference. More generally a command that
  watches a program changes no filter, because its field is written \<open>program_id\<close> and read
  \<open>programId\<close>.
\<close>
theorem startup_program_watch_lost:
  assumes "set_up act pe cfg w = (Inr (), performed, w')"
    and "grpc_endpoint cfg = Some endpoint" and "grpc_x_token cfg = Some token"
  shows "queued performed = [WatchProgram (txline_program_id cfg)]
    \<and> (let env = child_environment cfg endpoint token;
           filters = fold sidecar_command (map command_json (queued performed @ cs)) (initial_filters env)
       in (txline_program_id cfg \<in> set (wf_tx_accounts filters) \<longleftrightarrow>
             txline_program_id cfg \<in> set (split_env env ''WATCH_ESCROW_PROGRAM_ID'') \<union> set (split_env env ''WATCH_MARKET_PROGRAM_ID'')
             \<or> (WatchReference (txline_program_id cfg) \<in> set cs \<and> txline_program_id cfg \<noteq> []))
          \<and> set (wf_accounts filters) = set (wf_accounts (initial_filters env)) \<union> ({a. WatchAccount a \<in> set cs} - {[]})
          \<and> set (wf_tx_accounts filters) = set (wf_tx_accounts (initial_filters env)) \<union> ({r. WatchReference r \<in> set cs} - {[]}))"
proof -
  have "performed = setup_actions pe cfg"
    using run_setup_performed [OF assms(1) [unfolded set_up_def]] by auto
  then have q: "queued performed = [WatchProgram (txline_program_id cfg)]"
    using assms(2,3) by (simp add: queued_def setup_actions_def Let_def List.map_filter_simps)
  have ne: "[] \<notin> set (split_env env n)" for env n by (simp add: split_env_def)
  show ?thesis
    unfolding q using program_watches_are_lost [of "[WatchProgram (txline_program_id cfg)] @ cs"] ne
    by (auto simp: Let_def initial_filters_def fold_add_to)
qed

section \<open>Witness\<close>

definition sample_paths :: path_env where
  "sample_paths = \<lparr>pa_cwd = Some ''/desk'', pa_app_data = Some ''/data'', pa_resources = None, pa_exists = (\<lambda>_. True)\<rparr>"

definition streaming_config :: app_config where
  "streaming_config = sample_config\<lparr>grpc_endpoint := Some ''https://grpc'', grpc_x_token := Some ''x'',
     txline_program_id_override := Some ''prog'', watch_escrow_program_id := None, watch_market_program_id := None\<rparr>"

lemma setup_runs: "(\<And>a w. act a w = (None, w)) \<Longrightarrow> run_setup act plan w = (Inr (), plan, w)"
  by (induction plan) simp_all

theorem startup_program_watch_lost_witness:
  "''prog'' \<notin> set (wf_tx_accounts (fold sidecar_command (map command_json [WatchProgram ''prog'', WatchProgram ''prog''])
      (initial_filters (child_environment streaming_config ''https://grpc'' ''x''))))"
proof -
  have s: "set_up (\<lambda>_ w. (None, w)) sample_paths streaming_config () = (Inr (), setup_actions sample_paths streaming_config, ())"
    unfolding set_up_def by (rule setup_runs) simp
  have c: "grpc_endpoint streaming_config = Some ''https://grpc''" "grpc_x_token streaming_config = Some ''x''"
    "txline_program_id streaming_config = ''prog''"
    by (simp_all add: streaming_config_def txline_program_id_def)
  have trim_nil: "trim [] = []" by code_simp
  have e: "split_env (child_environment streaming_config ''https://grpc'' ''x'') n = []"
    if "n = ''WATCH_ESCROW_PROGRAM_ID'' \<or> n = ''WATCH_MARKET_PROGRAM_ID''" for n
    using that trim_nil by (auto simp: split_env_def child_environment_def streaming_config_def)
  note watch = startup_program_watch_lost [OF s c(1,2), of "[WatchProgram ''prog'']", unfolded c(3) Let_def]
  show ?thesis using conjunct1 [OF conjunct2 [OF watch]] unfolding conjunct1 [OF watch] append_Cons append_Nil by (simp add: e)
qed

end
