(* ===== verification/Sharp_Detector.thy ===== *)
theory Sharp_Detector
  imports Arena Rig_Tools "HOL-Library.AList"
begin

text \<open>
  The agent \<open>sharp-movement-detector\<close>: its configuration, the poll step (\<open>detector.rs\<close>), the
  reasoning pass around the tool loop (\<open>venice.rs\<close>), the signal records with their log and the
  tracking of predictions (\<open>signal.rs\<close>), and the loop of \<open>main.rs\<close>. Feed, clock and files are the
  world of the arena agents; the model, the tools and the order in which a hash map is walked
  are arguments. Open signals are an association list by identifier. \<open>ds_logged\<close> records the keys
  of the signals in the order they are logged.
\<close>

section \<open>Data\<close>

datatype odds_direction = Shortened | Lengthened

definition direction_from_tool :: "string \<Rightarrow> odds_direction option" where
  "direction_from_tool s = (if s = ''shortening'' then Some Shortened else if s = ''drifting'' then Some Lengthened else None)"

record signal_record =
  sd_key :: string
  sd_id :: string
  sd_fixture_id :: u64
  sd_fixture_name :: string
  sd_market :: string
  sd_selection :: string
  sd_odds_now :: f64
  sd_odds_prev :: f64
  sd_move_pct :: f64
  sd_direction :: odds_direction
  sd_confidence :: f64
  sd_detected_at :: string
  sd_narrative :: "string option"
  sd_correct :: bool
  sd_outcome :: "string option"

record det_fixture =
  df_id :: u64
  df_name :: string
  df_status :: string

record det_config =
  dg_api_base :: string
  dg_api_key :: string
  dg_poll_secs :: u64
  dg_threshold :: f64
  dg_confidence_gate :: f64
  dg_max_steps :: u64
  dg_max_rounds :: u32
  dg_log_path :: string
  dg_desk_base :: string
  dg_desk_token :: string

definition parse_u32 :: "string \<Rightarrow> u32 option" where
  "parse_u32 s = (case parse_u64 s of None \<Rightarrow> None | Some n \<Rightarrow> if uint n < 2 ^ 32 then Some (ucast n) else None)"

definition require_env :: "env \<Rightarrow> string \<Rightarrow> string + string" where
  "require_env env k = (case env k of None \<Rightarrow> Inl (''required env var '' @ k @ '' is not set'') | Some v \<Rightarrow> Inr v)"

definition det_config_from_env :: "env \<Rightarrow> string + det_config" where
  "det_config_from_env env =
     (case require_env env ''VENICE_API_KEY'' of Inl e \<Rightarrow> Inl e | Inr _ \<Rightarrow>
     (case require_env env ''TXLINE_API_KEY'' of Inl e \<Rightarrow> Inl e | Inr key \<Rightarrow> Inr
        \<lparr>dg_api_base = env_or env ''TXLINE_API_BASE'' ''https://txline.txodds.com/api/v1'', dg_api_key = key,
         dg_poll_secs = env_parse env parse_u64 ''POLL_INTERVAL_SECS'' 60,
         dg_threshold = env_parse env parse_f64 ''ODDS_MOVE_THRESHOLD_PCT'' (lit 4),
         dg_confidence_gate = env_parse env parse_f64 ''CONFIDENCE_GATE'' (lit (55/100)),
         dg_max_steps = env_parse env parse_u64 ''MAX_STEPS'' 500,
         dg_max_rounds = env_parse env parse_u32 ''MAX_TOOL_ROUNDS'' 6,
         dg_log_path = env_or env ''SIGNAL_LOG_PATH'' ''sharp-signals.jsonl'',
         dg_desk_base = env_or env ''DESK_API_BASE'' [], dg_desk_token = env_or env ''DESK_API_TOKEN'' []\<rparr>))"

record 'w det_io =
  dt_agent :: "'w agent_io"
  dt_parse_fixtures :: "string \<Rightarrow> string + det_fixture list"
  dt_append :: "string \<Rightarrow> signal_record \<Rightarrow> 'w \<Rightarrow> (agent_error + unit) \<times> 'w"
  dt_parse_key :: "string \<Rightarrow> string option"
  dt_order :: "string list \<Rightarrow> string list"
  dt_llm :: "'w \<Rightarrow> message \<Rightarrow> message list \<Rightarrow> completion"
  dt_tools :: "'w \<Rightarrow> string \<Rightarrow> string \<Rightarrow> string + string"
  dt_to_string :: "json \<Rightarrow> string"
  dt_from_str :: "string \<Rightarrow> json option"
  dt_after :: "'w \<Rightarrow> 'w"

text \<open>\<open>dt_after\<close> is the world after a reasoning pass.\<close>

type_synonym price_key = "u64 \<times> string \<times> string"

record 'w det_state =
  ds_prev :: "price_key \<rightharpoonup> f64"
  ds_guard :: budget_guard
  ds_open :: "(string \<times> signal_record) list"
  ds_seen :: "string set"
  ds_new :: nat
  ds_logged :: "string list"
  ds_world :: 'w

section \<open>venice.rs\<close>

definition final_tool :: string where "final_tool = ''submit_signal_decision''"

definition det_prompt :: "string \<Rightarrow> string \<Rightarrow> string \<Rightarrow> f64 \<Rightarrow> f64 \<Rightarrow> string" where
  "det_prompt fixture market sel current previous =
     ''Fixture: '' @ fixture @ [CHR 0x0A] @ ''Market: '' @ market @ [CHR 0x0A] @ ''Selection: '' @ sel @ [CHR 0x0A]
     @ ''Current odds: '' @ fmt_fixed 3 current @ [CHR 0x0A] @ ''Previous odds: '' @ fmt_fixed 3 previous"

definition movement_of_json :: "json \<Rightarrow> movement_result option" where
  "movement_of_json j =
     Option.bind (Option.bind (jget j ''pct_change'') as_f64) (\<lambda>p.
     Option.bind (Option.bind (jget j ''is_sharp_move'') as_bool) (\<lambda>b.
     Option.bind (Option.bind (jget j ''direction'') as_str) (\<lambda>d.
     Option.bind (Option.bind (jget j ''confidence'') as_f64) (\<lambda>c.
       Some \<lparr>mr_pct_change = p, mr_is_sharp_move = b, mr_direction = d, mr_confidence = c\<rparr>))))"

definition read_outcome :: "string + tool_loop_outcome \<Rightarrow> (movement_result \<times> string option) option" where
  "read_outcome r =
     (case r of Inl e \<Rightarrow> None
      | Inr out \<Rightarrow>
          Option.bind (Option.bind (tool_result out ''compute_sharp_movement'') movement_of_json) (\<lambda>mv.
            Some (mv, Option.bind (tlo_final_args out) (\<lambda>a. Option.bind (jget a ''rationale'') as_str))))"

definition reason_about ::
    "'w det_io \<Rightarrow> u32 \<Rightarrow> string \<Rightarrow> 'w det_state \<Rightarrow> (movement_result \<times> string option) option \<times> 'w det_state" where
  "reason_about io rounds prompt st =
     (case run_tool_loop (dt_llm io (ds_world st)) (dt_tools io (ds_world st)) (dt_to_string io) (dt_from_str io)
             record_tool_call final_tool rounds prompt (ds_guard st) of
        (r, guard) \<Rightarrow> (read_outcome r, st\<lparr>ds_guard := guard, ds_world := dt_after io (ds_world st)\<rparr>))"

definition assess_movement ::
    "'w det_io \<Rightarrow> u32 \<Rightarrow> det_fixture \<Rightarrow> string \<Rightarrow> string \<Rightarrow> f64 \<Rightarrow> f64 \<Rightarrow> 'w det_state
       \<Rightarrow> ((movement_result \<times> string option) option \<times> 'w det_state) exec" where
  "assess_movement io rounds fx market sel current previous st =
     exec_bind (wrap_untrusted ''fixture_name'' (df_name fx)) (\<lambda>safe_fixture.
     exec_bind (wrap_untrusted ''selection_name'' sel) (\<lambda>safe_sel.
     exec_bind (wrap_untrusted ''market_key'' market) (\<lambda>safe_market.
       Return (reason_about io rounds (det_prompt safe_fixture safe_market safe_sel current previous) st))))"

section \<open>signal.rs\<close>

definition still_moving :: "odds_direction \<Rightarrow> f64 \<Rightarrow> f64 \<Rightarrow> bool" where
  "still_moving d current at_detection =
     (case d of Shortened \<Rightarrow> fle current at_detection | Lengthened \<Rightarrow> fle at_detection current)"

definition price_key_of :: "signal_record \<Rightarrow> price_key" where
  "price_key_of s = (sd_fixture_id s, sd_market s, sd_selection s)"

definition update_signal ::
    "'w det_io \<Rightarrow> string \<Rightarrow> (price_key \<rightharpoonup> f64) \<Rightarrow> string \<Rightarrow> (string \<times> signal_record) list \<times> 'w
       \<Rightarrow> (string \<times> signal_record) list \<times> 'w" where
  \<comment> \<open>a failed append is only reported\<close>
  "update_signal io path prices sid = (\<lambda>(signals, w).
     case map_of signals sid of None \<Rightarrow> (signals, w)
     | Some s \<Rightarrow>
     (case prices (price_key_of s) of None \<Rightarrow> (signals, w)
      | Some current \<Rightarrow>
          let still = still_moving (sd_direction s) current (sd_odds_now s)
          in if still \<noteq> sd_correct s
             then let s1 = s\<lparr>sd_correct := still\<rparr>
                  in (AList.update sid s1 signals, snd (dt_append io path s1 w))
             else (signals, w)))"

definition update_open_signals ::
    "'w det_io \<Rightarrow> string \<Rightarrow> (price_key \<rightharpoonup> f64) \<Rightarrow> (string \<times> signal_record) list \<Rightarrow> 'w
       \<Rightarrow> (string \<times> signal_record) list \<times> 'w" where
  "update_open_signals io path prices signals w =
     fold (update_signal io path prices) (dt_order io (map fst signals)) (signals, w)"

definition load_seen_idempotency :: "'w det_io \<Rightarrow> string \<Rightarrow> 'w \<Rightarrow> string set \<times> 'w" where
  "load_seen_idempotency io path w =
     (case ag_read (dt_agent io) path w of
        (None, w1) \<Rightarrow> ({}, w1)
      | (Some text, w1) \<Rightarrow> (set (List.map_filter (dt_parse_key io) (str_lines text)), w1))"

section \<open>detector.rs\<close>

definition det_fetch_fixtures :: "'w det_io \<Rightarrow> string \<Rightarrow> 'w \<Rightarrow> (agent_error + det_fixture list) \<times> 'w" where
  "det_fetch_fixtures io base w =
     (case fetch_json (dt_agent io) ''fetch_live_fixtures'' (base @ ''/worldcup/fixtures?status=live'') (dt_parse_fixtures io) w of
        (Inl e, w1) \<Rightarrow> (Inl e, w1)
      | (Inr fs, w1) \<Rightarrow> (Inr (filter (\<lambda>f. df_status f = ''live'') fs), w1))"

definition bucket_key :: "u64 \<Rightarrow> string \<Rightarrow> string \<Rightarrow> u64 \<Rightarrow> string" where
  "bucket_key fid market sel now = idempotency_key_for
     (''smd:'' @ show_u64 fid @ '':'' @ market @ '':'' @ sel @ '':'' @ show_u64 (now div 300))"

definition record_signal ::
    "'w det_io \<Rightarrow> det_config \<Rightarrow> signal_record \<Rightarrow> 'w det_state \<Rightarrow> (agent_error + unit) \<times> 'w det_state" where
  "record_signal io cfg s st =
     (case dt_append io (dg_log_path cfg) s (ds_world st) of
        (Inl e, w) \<Rightarrow> (Inl e, st\<lparr>ds_world := w\<rparr>)
      | (Inr _, w) \<Rightarrow>
          (Inr (), st\<lparr>ds_world := w, ds_seen := insert (sd_key s) (ds_seen st),
                     ds_open := AList.update (sd_id s) s (ds_open st), ds_logged := ds_logged st @ [sd_key s],
                     ds_new := ds_new st + 1\<rparr>))"

definition new_signal ::
    "'w det_io \<Rightarrow> string \<Rightarrow> det_fixture \<Rightarrow> string \<Rightarrow> feed_selection \<Rightarrow> f64 \<Rightarrow> movement_result \<Rightarrow> odds_direction
       \<Rightarrow> string option \<Rightarrow> 'w \<Rightarrow> signal_record \<times> 'w" where
  "new_signal io key fx market s prev mv d narrative w =
     (case ag_uuid (dt_agent io) w of (uuid, w1) \<Rightarrow>
      case utc_now (dt_agent io) w1 of (now, w2) \<Rightarrow>
        (\<lparr>sd_key = key, sd_id = uuid, sd_fixture_id = df_id fx, sd_fixture_name = df_name fx, sd_market = market,
          sd_selection = fs_name s, sd_odds_now = fs_odds s, sd_odds_prev = prev, sd_move_pct = mr_pct_change mv,
          sd_direction = d, sd_confidence = mr_confidence mv, sd_detected_at = now, sd_narrative = narrative,
          sd_correct = False, sd_outcome = None\<rparr>, w2))"

definition remember_price :: "price_key \<Rightarrow> f64 \<Rightarrow> 'w det_state \<Rightarrow> 'w det_state" where
  "remember_price k x st = st\<lparr>ds_prev := (ds_prev st)(k \<mapsto> x)\<rparr>"

definition judge_movement ::
    "'w det_io \<Rightarrow> det_config \<Rightarrow> det_fixture \<Rightarrow> string \<Rightarrow> feed_selection \<Rightarrow> f64 \<Rightarrow> string
       \<Rightarrow> (movement_result \<times> string option) option \<Rightarrow> 'w det_state \<Rightarrow> ((agent_error + unit) \<times> 'w det_state) exec" where
  "judge_movement io cfg fx market s prev key assessment st =
     (let remember = remember_price (df_id fx, market, fs_name s) (fs_odds s) in
      case assessment of None \<Rightarrow> Return (Inr (), remember st)
      | Some (mv, narrative) \<Rightarrow>
          if \<not> mr_is_sharp_move mv \<or> flt (mr_confidence mv) (dg_confidence_gate cfg) then Return (Inr (), remember st)
          else case direction_from_tool (mr_direction mv) of None \<Rightarrow> Return (Inr (), remember st)
          | Some d \<Rightarrow>
              (case new_signal io key fx market s prev mv d narrative (ds_world st) of (sig, w) \<Rightarrow>
               case record_signal io cfg sig (st\<lparr>ds_world := w\<rparr>) of
                 (Inl e, st1) \<Rightarrow> Return (Inl e, st1)
               | (Inr _, st1) \<Rightarrow> exec_map (\<lambda>_. (Inr (), remember st1)) (wrap_untrusted ''selection'' (fs_name s))))"

definition det_selection ::
    "'w det_io \<Rightarrow> det_config \<Rightarrow> det_fixture \<Rightarrow> string \<Rightarrow> feed_selection \<Rightarrow> 'w det_state
       \<Rightarrow> ((agent_error + unit) \<times> 'w det_state) exec" where
  "det_selection io cfg fx market s st =
     (case ds_prev st (df_id fx, market, fs_name s) of
        None \<Rightarrow> Return (Inr (), remember_price (df_id fx, market, fs_name s) (fs_odds s) st)
      | Some prev \<Rightarrow>
          if fle (fabs (fsub (fs_odds s) prev)) f_epsilon then Return (Inr (), st)
          else case ag_secs (dt_agent io) (ds_world st) of (now, w) \<Rightarrow>
            let st1 = st\<lparr>ds_world := w\<rparr>; key = bucket_key (df_id fx) market (fs_name s) now
            in if key \<in> ds_seen st1
               then Return (Inr (), remember_price (df_id fx, market, fs_name s) (fs_odds s) st1)
               else exec_bind (assess_movement io (dg_max_rounds cfg) fx market (fs_name s) (fs_odds s) prev st1)
                 (\<lambda>(assessment, st2). judge_movement io cfg fx market s prev key assessment st2))"

definition det_fixture_step ::
    "'w det_io \<Rightarrow> det_config \<Rightarrow> det_fixture \<Rightarrow> 'w det_state \<Rightarrow> ((agent_error + unit) \<times> 'w det_state) exec" where
  "det_fixture_step io cfg fx st =
     (let st1 = st\<lparr>ds_guard := record_tool_call (ds_guard st)\<rparr> in
      case fetch_odds (dt_agent io) (dg_api_base cfg) (df_id fx) (ds_world st1) of
        (Inl e, w) \<Rightarrow> Return (Inl e, st1\<lparr>ds_world := w\<rparr>)
      | (Inr markets, w) \<Rightarrow>
          each (\<lambda>m. each (det_selection io cfg fx (fm_key m)) (fm_selections m)) markets (st1\<lparr>ds_world := w\<rparr>))"

definition detector_step ::
    "'w det_io \<Rightarrow> det_config \<Rightarrow> 'w det_state \<Rightarrow> ((agent_error + unit) \<times> 'w det_state) exec" where
  \<comment> \<open>the number of new signals is \<open>ds_new\<close>, zero at the start of the step\<close>
  "detector_step io cfg st =
     (let st1 = st\<lparr>ds_guard := record_tool_call (ds_guard st), ds_new := 0\<rparr> in
      case det_fetch_fixtures io (dg_api_base cfg) (ds_world st1) of
        (Inl e, w) \<Rightarrow> Return (Inl e, st1\<lparr>ds_world := w\<rparr>)
      | (Inr [], w) \<Rightarrow> Return (Inr (), st1\<lparr>ds_world := w\<rparr>)
      | (Inr fs, w) \<Rightarrow>
          exec_map (\<lambda>(r, st2). case r of Inl e \<Rightarrow> (Inl e, st2)
              | Inr _ \<Rightarrow> (case update_open_signals io (dg_log_path cfg) (ds_prev st2) (ds_open st2) (ds_world st2) of
                  (signals, w1) \<Rightarrow> (Inr (), st2\<lparr>ds_open := signals, ds_world := w1\<rparr>)))
            (each (det_fixture_step io cfg) fs (st1\<lparr>ds_world := w\<rparr>)))"

section \<open>main.rs\<close>

definition det_start :: "'w det_io \<Rightarrow> det_config \<Rightarrow> budget_guard \<Rightarrow> 'w \<Rightarrow> 'w det_state" where
  "det_start io cfg guard w =
     (case load_seen_idempotency io (dg_log_path cfg) w of (seen, w1) \<Rightarrow>
        \<lparr>ds_prev = Map.empty, ds_guard = guard, ds_open = [], ds_seen = seen, ds_new = 0, ds_logged = [], ds_world = w1\<rparr>)"

definition det_secs :: "'w det_io \<Rightarrow> 'w det_state \<Rightarrow> u64 \<times> 'w det_state" where
  "det_secs io st = (case ag_secs (dt_agent io) (ds_world st) of (t, w) \<Rightarrow> (t, st\<lparr>ds_world := w\<rparr>))"

definition det_pause :: "'w det_io \<Rightarrow> det_config \<Rightarrow> 'w det_state \<Rightarrow> 'w det_state" where
  "det_pause io cfg st = st\<lparr>ds_world := ag_sleep (dt_agent io) (dg_poll_secs cfg) (ds_world st)\<rparr>"

definition detector_main ::
    "'w det_io \<Rightarrow> det_config \<Rightarrow> nat \<Rightarrow> 'w \<Rightarrow> (bool \<times> step_counter \<times> 'w det_state) exec" where
  \<comment> \<open>\<open>n\<close> rounds of the loop\<close>
  "detector_main io cfg n w =
     (case ag_secs (dt_agent io) w of (now, w1) \<Rightarrow>
        poll_loop (det_secs io) ds_guard (detector_step io cfg) id (det_pause io cfg) n (stc_new (dg_max_steps cfg))
          (det_start io cfg (default_devnet now) w1))"

section \<open>Where signals come from\<close>

definition tool_backed :: "'w det_io \<Rightarrow> det_config \<Rightarrow> signal_record \<Rightarrow> bool" where
  \<comment> \<open>direction, move and confidence are those of an answer of the tool, sharp and past the gate\<close>
  "tool_backed io cfg s \<longleftrightarrow>
     (\<exists>w args text j mv. dt_tools io w ''compute_sharp_movement'' args = Inr text \<and> dt_from_str io text = Some j
        \<and> movement_of_json j = Some mv \<and> mr_is_sharp_move mv \<and> \<not> flt (mr_confidence mv) (dg_confidence_gate cfg)
        \<and> direction_from_tool (mr_direction mv) = Some (sd_direction s)
        \<and> sd_move_pct s = mr_pct_change mv \<and> sd_confidence s = mr_confidence mv)"

definition from_tool :: "'w det_io \<Rightarrow> movement_result \<Rightarrow> bool" where
  "from_tool io mv \<longleftrightarrow> (\<exists>w args text j. dt_tools io w ''compute_sharp_movement'' args = Inr text
     \<and> dt_from_str io text = Some j \<and> movement_of_json j = Some mv)"

definition movement_tool_runs :: "'w det_io \<Rightarrow> det_config \<Rightarrow> bool" where
  \<comment> \<open>the tool server runs the tool with the threshold it was built with and writes its answer as JSON;
      reading that text back gives the same flag and direction (nothing is said of the doubles)\<close>
  "movement_tool_runs io cfg \<longleftrightarrow>
     (\<forall>w args text. dt_tools io w ''compute_sharp_movement'' args = Inr text \<longrightarrow>
        (\<exists>c p j. compute_sharp_movement (dg_threshold cfg) c p = Return (Inr j) \<and> text = dt_to_string io j))
     \<and> (\<forall>r j mv. dt_from_str io (dt_to_string io (movement_json r)) = Some j \<longrightarrow> movement_of_json j = Some mv \<longrightarrow>
        mr_is_sharp_move mv = mr_is_sharp_move r \<and> mr_direction mv = mr_direction r)"

definition priced :: "det_config \<Rightarrow> signal_record \<Rightarrow> bool" where
  \<comment> \<open>two prices above zero, a threshold apart, that moved in the direction of the signal\<close>
  "priced cfg s \<longleftrightarrow>
     (\<exists>c p. \<not> fle c (lit 0) \<and> \<not> fle p (lit 0)
        \<and> fle (dg_threshold cfg) (fabs (fmul (fdiv (fsub c p) p) (lit 100)))
        \<and> sd_direction s = (if flt c p then Shortened else Lengthened))"

lemma compute_sharp_movement_Return:
  assumes "compute_sharp_movement t c p = Return (Inr j)"
  shows "\<exists>r. j = movement_json r \<and> \<not> fle c (lit 0) \<and> \<not> fle p (lit 0)
    \<and> mr_is_sharp_move r = fle t (fabs (fmul (fdiv (fsub c p) p) (lit 100)))
    \<and> mr_direction r = (if flt c p then ''shortening'' else ''drifting'')"
  using assms by (auto simp: compute_sharp_movement_def sharp_movement_def Let_def exec_map_Return_iff split: if_splits)

lemma tool_backed_priced:
  assumes "tool_backed io cfg s" and runs: "movement_tool_runs io cfg"
  shows "priced cfg s"
proof -
  obtain w args tx j mv where
    t: "dt_tools io w ''compute_sharp_movement'' args = Inr tx" "dt_from_str io tx = Some j" "movement_of_json j = Some mv"
    and mv: "mr_is_sharp_move mv" "direction_from_tool (mr_direction mv) = Some (sd_direction s)"
    using assms(1) unfolding tool_backed_def by blast
  obtain c p j' where c: "compute_sharp_movement (dg_threshold cfg) c p = Return (Inr j')" "tx = dt_to_string io j'"
    using runs t(1) unfolding movement_tool_runs_def by blast
  obtain r where r: "j' = movement_json r" "\<not> fle c (lit 0)" "\<not> fle p (lit 0)"
    "mr_is_sharp_move r = fle (dg_threshold cfg) (fabs (fmul (fdiv (fsub c p) p) (lit 100)))"
    "mr_direction r = (if flt c p then ''shortening'' else ''drifting'')"
    using compute_sharp_movement_Return [OF c(1)] by blast
  have "mr_is_sharp_move mv = mr_is_sharp_move r" "mr_direction mv = mr_direction r"
    using runs t(2,3) c(2) r(1) unfolding movement_tool_runs_def by blast+
  then have "sd_direction s = (if flt c p then Shortened else Lengthened)"
    using mv(2) r(5) by (auto simp: direction_from_tool_def split: if_splits)
  then show ?thesis using mv(1) r \<open>mr_is_sharp_move mv = _\<close> unfolding priced_def by blast
qed

definition det_inv :: "'w det_io \<Rightarrow> det_config \<Rightarrow> string set \<Rightarrow> 'w det_state \<Rightarrow> bool" where
  "det_inv io cfg before st \<longleftrightarrow>
     distinct (ds_logged st) \<and> set (ds_logged st) \<inter> before = {} \<and> ds_seen st = before \<union> set (ds_logged st)
     \<and> list_all (tool_backed io cfg \<circ> snd) (ds_open st)"

lemma det_inv_frame [simp]:
  "det_inv io cfg b (st\<lparr>ds_world := w\<rparr>) = det_inv io cfg b st" "det_inv io cfg b (st\<lparr>ds_guard := g\<rparr>) = det_inv io cfg b st"
  "det_inv io cfg b (st\<lparr>ds_new := n\<rparr>) = det_inv io cfg b st" "det_inv io cfg b (remember_price k x st) = det_inv io cfg b st"
  by (simp_all add: det_inv_def remember_price_def)

lemma list_all_update: "list_all P al \<Longrightarrow> P (k, v) \<Longrightarrow> list_all P (AList.update k v al)"
  by (induction al) auto

lemma reason_about_spec:
  assumes "reason_about io rounds prompt st = (r, st')"
  shows "(\<exists>g w. st' = st\<lparr>ds_guard := g, ds_world := w\<rparr>) \<and> (\<forall>mv n. r = Some (mv, n) \<longrightarrow> from_tool io mv)"
proof -
  obtain q g where q: "run_tool_loop (dt_llm io (ds_world st)) (dt_tools io (ds_world st)) (dt_to_string io) (dt_from_str io)
      record_tool_call final_tool rounds prompt (ds_guard st) = (q, g)" by (metis prod.exhaust)
  have "from_tool io mv" if "read_outcome q = Some (mv, n)" for mv n
  proof -
    obtain out j where out: "q = Inr out" "tool_result out ''compute_sharp_movement'' = Some j" "movement_of_json j = Some mv"
      using \<open>read_outcome q = _\<close> by (auto simp: read_outcome_def split: sum.splits elim!: bind_eq_Some_conv [THEN iffD1, elim_format])
    have "honest_trace (dt_tools io (ds_world st)) (dt_from_str io) (tlo_tool_calls out)"
      using q out(1) unfolding run_tool_loop_def by (auto intro: tool_rounds_honest)
    from tool_result_honest [OF this out(2)] show ?thesis using out(3) by (auto simp: from_tool_def)
  qed
  then show ?thesis using assms q by (auto simp: reason_about_def)
qed

lemma assess_movement_spec:
  assumes "assess_movement io rounds fx market sel c p st = Return (r, st')"
  shows "(\<exists>g w. st' = st\<lparr>ds_guard := g, ds_world := w\<rparr>) \<and> (\<forall>mv n. r = Some (mv, n) \<longrightarrow> from_tool io mv)"
  using assms reason_about_spec by (fastforce simp: assess_movement_def exec_bind_Return_iff)

lemma new_signal_fields:
  assumes "new_signal io key fx market s prev mv d n w = (sig, w')"
  shows "sd_key sig = key \<and> sd_move_pct sig = mr_pct_change mv \<and> sd_direction sig = d \<and> sd_confidence sig = mr_confidence mv
     \<and> sd_fixture_id sig = df_id fx \<and> sd_market sig = market \<and> sd_selection sig = fs_name s \<and> sd_odds_now sig = fs_odds s"
  using assms by (auto simp: new_signal_def split: prod.splits)

lemma judge_movement_inv:
  assumes inv: "det_inv io cfg b st" and "key \<notin> ds_seen st" and "\<And>mv n. assessment = Some (mv, n) \<Longrightarrow> from_tool io mv"
    and "judge_movement io cfg fx market s prev key assessment st = Return (r, st')"
  shows "det_inv io cfg b st'"
proof (cases assessment)
  case None
  then show ?thesis using assms(4) inv by (auto simp: judge_movement_def)
next
  case (Some a)
  obtain mv n where a: "assessment = Some (mv, n)" using Some by (cases a) simp
  show ?thesis
  proof (cases "\<not> mr_is_sharp_move mv \<or> flt (mr_confidence mv) (dg_confidence_gate cfg) \<or> direction_from_tool (mr_direction mv) = None")
    case True
    then show ?thesis using assms(4) inv a by (auto simp: judge_movement_def Let_def split: if_splits option.splits)
  next
    case False
    then obtain d where d: "direction_from_tool (mr_direction mv) = Some d" by auto
    obtain sgn w where ns: "new_signal io key fx market s prev mv d n (ds_world st) = (sgn, w)" by (metis prod.exhaust)
    have bk: "tool_backed io cfg sgn"
    proof -
      have "mr_is_sharp_move mv \<and> \<not> flt (mr_confidence mv) (dg_confidence_gate cfg)
          \<and> direction_from_tool (mr_direction mv) = Some (sd_direction sgn)
          \<and> sd_move_pct sgn = mr_pct_change mv \<and> sd_confidence sgn = mr_confidence mv"
        using False d new_signal_fields [OF ns] by simp
      then show ?thesis using assms(3) [OF a] unfolding tool_backed_def from_tool_def by blast
    qed
    obtain q w2 where ap: "dt_append io (dg_log_path cfg) sgn w = (q, w2)" by (metis prod.exhaust)
    have fresh: "sd_key sgn \<notin> b \<union> set (ds_logged st)" using assms(2) inv new_signal_fields [OF ns] by (simp add: det_inv_def)
    have "det_inv io cfg b (snd (record_signal io cfg sgn (st\<lparr>ds_world := w\<rparr>)))"
      using inv bk fresh ap
      by (cases q) (auto simp: record_signal_def det_inv_def intro!: list_all_update)
    then show ?thesis using assms(4) a False d ns
      by (auto simp: judge_movement_def exec_map_Return_iff split: prod.splits sum.splits)
  qed
qed

lemma det_selection_inv:
  assumes inv: "det_inv io cfg b st" and "det_selection io cfg fx market s st = Return (r, st')"
  shows "det_inv io cfg b st'"
proof (cases "ds_prev st (df_id fx, market, fs_name s)")
  case None
  then show ?thesis using assms by (auto simp: det_selection_def)
next
  case (Some prev)
  obtain now w where n: "ag_secs (dt_agent io) (ds_world st) = (now, w)" by (metis prod.exhaust)
  let ?key = "bucket_key (df_id fx) market (fs_name s) now"
  show ?thesis
  proof (cases "fle (fabs (fsub (fs_odds s) prev)) f_epsilon \<or> ?key \<in> ds_seen st")
    case True
    then show ?thesis using assms Some n by (auto simp: det_selection_def Let_def split: if_splits)
  next
    case False
    then obtain a st2 where a: "assess_movement io (dg_max_rounds cfg) fx market (fs_name s) (fs_odds s) prev (st\<lparr>ds_world := w\<rparr>) = Return (a, st2)"
      "judge_movement io cfg fx market s prev ?key a st2 = Return (r, st')"
      using assms(2) Some n by (auto simp: det_selection_def Let_def exec_bind_Return_iff)
    obtain g w2 where st2: "st2 = st\<lparr>ds_world := w, ds_guard := g, ds_world := w2\<rparr>"
      using assess_movement_spec [OF a(1)] by blast
    have "det_inv io cfg b st2" "?key \<notin> ds_seen st2" using inv False by (simp_all add: st2)
    then show ?thesis using assess_movement_spec [OF a(1)] judge_movement_inv [OF _ _ _ a(2)] by blast
  qed
qed

lemma det_fixture_step_inv:
  assumes "det_inv io cfg b st" and "det_fixture_step io cfg fx st = Return (r, st')"
  shows "det_inv io cfg b st'"
proof -
  have inner: "det_inv io cfg b s2" if "det_inv io cfg b s1"
    "each (det_selection io cfg fx (fm_key m)) (fm_selections m) s1 = Return (q, s2)" for m s1 q s2
    using each_inv [where P = "det_inv io cfg b", OF _ that] det_selection_inv by blast
  have "det_inv io cfg b s2" if "det_inv io cfg b s1"
    "each (\<lambda>m. each (det_selection io cfg fx (fm_key m)) (fm_selections m)) ms s1 = Return (q, s2)" for ms s1 q s2
    using each_inv [where P = "det_inv io cfg b", OF _ that] inner by blast
  moreover obtain q w where q: "fetch_odds (dt_agent io) (dg_api_base cfg) (df_id fx) (ds_world st) = (q, w)"
    by (metis prod.exhaust)
  ultimately have outer: "det_inv io cfg b s2" if "det_inv io cfg b s1"
    "each (\<lambda>m. each (det_selection io cfg fx (fm_key m)) (fm_selections m)) ms s1 = Return (q, s2)" for ms s1 q s2
    using that by blast
  show ?thesis
  proof (cases q)
    case (Inl e)
    then show ?thesis using assms q by (auto simp: det_fixture_step_def Let_def)
  next
    case (Inr ms)
    then show ?thesis using assms q by (auto simp: det_fixture_step_def Let_def intro: outer [rotated])
  qed
qed

lemma update_signal_backed:
  assumes "list_all (tool_backed io cfg \<circ> snd) (fst x)"
  shows "list_all (tool_backed io cfg \<circ> snd) (fst (update_signal io path prices sid x))"
proof -
  have "tool_backed io cfg (s\<lparr>sd_correct := c\<rparr>)" if "map_of (fst x) sid = Some s" for s c
    using assms that by (force simp: list_all_iff tool_backed_def dest: map_of_SomeD)
  then show ?thesis using assms
    by (auto simp: update_signal_def Let_def split: prod.splits option.splits intro: list_all_update)
qed

lemma update_open_signals_backed:
  assumes "list_all (tool_backed io cfg \<circ> snd) signals"
  shows "list_all (tool_backed io cfg \<circ> snd) (fst (update_open_signals io path prices signals w))"
proof -
  have "list_all (tool_backed io cfg \<circ> snd) (fst (fold (update_signal io path prices) sids x))"
    if "list_all (tool_backed io cfg \<circ> snd) (fst x)" for sids x
    using that by (induction sids arbitrary: x) (simp_all add: update_signal_backed)
  then show ?thesis using assms by (simp add: update_open_signals_def)
qed

lemma detector_step_cases:
  assumes "detector_step io cfg st = Return (r, st')"
  obtains (early) g w where "st' = st\<lparr>ds_guard := g, ds_new := 0, ds_world := w\<rparr>"
  | (failed) g w fs e where "each (det_fixture_step io cfg) fs (st\<lparr>ds_guard := g, ds_new := 0, ds_world := w\<rparr>) = Return (Inl e, st')"
      and "r = Inl e"
  | (completed) g w fs st2 signals w1 where
      "each (det_fixture_step io cfg) fs (st\<lparr>ds_guard := g, ds_new := 0, ds_world := w\<rparr>) = Return (Inr (), st2)"
      and "update_open_signals io (dg_log_path cfg) (ds_prev st2) (ds_open st2) (ds_world st2) = (signals, w1)"
      and "st' = st2\<lparr>ds_open := signals, ds_world := w1\<rparr>" and "r = Inr ()"
proof -
  obtain q w where q: "det_fetch_fixtures io (dg_api_base cfg) (ds_world st) = (q, w)" by (metis prod.exhaust)
  show thesis
  proof (cases "q = Inr [] \<or> isl q")
    case True
    then show thesis using assms q early [where g = "record_tool_call (ds_guard st)" and w = w]
      by (cases q) (auto simp: detector_step_def Let_def)
  next
    case False
    then obtain fs where fs: "q = Inr fs" "fs \<noteq> []" by (cases q) auto
    let ?s = "st\<lparr>ds_guard := record_tool_call (ds_guard st), ds_new := 0, ds_world := w\<rparr>"
    obtain r2 st2 where e: "each (det_fixture_step io cfg) fs ?s = Return (r2, st2)"
      using assms q fs by (cases fs) (auto simp: detector_step_def Let_def exec_map_Return_iff)
    show thesis
    proof (cases r2)
      case (Inl x)
      then have "r = Inl x" "st2 = st'" using assms q fs e by (cases fs; simp add: detector_step_def Let_def)+
      then show thesis using failed e Inl by blast
    next
      case (Inr u)
      obtain signals w1 where up: "update_open_signals io (dg_log_path cfg) (ds_prev st2) (ds_open st2) (ds_world st2) = (signals, w1)"
        by (metis prod.exhaust)
      have "r = Inr ()" "st' = st2\<lparr>ds_open := signals, ds_world := w1\<rparr>"
        using assms q fs e Inr up by (cases fs; simp add: detector_step_def Let_def)+
      then show thesis using completed [OF _ up] e Inr by simp
    qed
  qed
qed

lemma detector_step_inv:
  assumes "det_inv io cfg b st" and "detector_step io cfg st = Return (r, st')"
  shows "det_inv io cfg b st'"
proof -
  have e: "det_inv io cfg b s2" if "each (det_fixture_step io cfg) fs (st\<lparr>ds_guard := g, ds_new := 0, ds_world := w\<rparr>) = Return (q, s2)"
    for fs g w q s2
  proof -
    have "det_inv io cfg b (st\<lparr>ds_guard := g, ds_new := 0, ds_world := w\<rparr>)" using assms(1) by simp
    then show ?thesis using each_inv [where P = "det_inv io cfg b", OF _ _ that] det_fixture_step_inv by blast
  qed
  show ?thesis using assms(2)
  proof (cases rule: detector_step_cases)
    case (early g w)
    then show ?thesis using assms(1) by simp
  next
    case (failed g w fs x)
    then show ?thesis using e by blast
  next
    case (completed g w fs st2 signals w1)
    then show ?thesis using e [OF completed(1)] update_open_signals_backed [of io cfg "ds_open st2"]
      by (auto simp: det_inv_def) (metis fst_conv)
  qed
qed

interpretation detector_loop: polled "det_secs io" ds_guard "detector_step io cfg" id "det_pause io cfg" "det_inv io cfg before"
  for io :: "'w det_io" and cfg before
  by unfold_locales (auto simp: det_secs_def det_pause_def split: prod.splits intro: detector_step_inv)

text \<open>
  C37: whatever the model answers and the feed shows, and over any number of polls: no idempotency
  key is logged as a new signal twice, nor one that the log held at the start; and every
  open signal carries the direction, the move and the confidence of an actual answer of the tool
  \<open>compute_sharp_movement\<close> that called the move sharp and passed the gate. Where the tool server
  runs that tool of \<open>rig-venice\<close>, every open signal is thereby backed by two positive prices at
  least the configured threshold apart that moved in its direction. (The arguments of the
  call are the model's own: the prices need not be those of the feed.)
\<close>
theorem detector_signals_backed:
  assumes "detector_main io cfg n w = Return (left, steps, st)"
  shows "distinct (ds_logged st)
    \<and> set (ds_logged st) \<inter> fst (load_seen_idempotency io (dg_log_path cfg) (snd (ag_secs (dt_agent io) w))) = {}
    \<and> list_all (tool_backed io cfg \<circ> snd) (ds_open st)
    \<and> (movement_tool_runs io cfg \<longrightarrow> list_all (priced cfg \<circ> snd) (ds_open st))"
proof -
  obtain now w1 where n: "ag_secs (dt_agent io) w = (now, w1)" by (metis prod.exhaust)
  let ?seen = "fst (load_seen_idempotency io (dg_log_path cfg) w1)"
  have start: "det_inv io cfg ?seen (det_start io cfg (default_devnet now) w1)"
    by (simp add: det_inv_def det_start_def split: prod.split)
  have loop: "poll_loop (det_secs io) ds_guard (detector_step io cfg) id (det_pause io cfg) n (stc_new (dg_max_steps cfg))
      (det_start io cfg (default_devnet now) w1) = Return (left, steps, st)"
    using assms n by (simp add: detector_main_def)
  have "det_inv io cfg ?seen st" by (rule detector_loop.poll_loop_inv [OF start loop])
  then show ?thesis using n tool_backed_priced [of io cfg] by (auto simp: det_inv_def list_all_iff)
qed

section \<open>The tracking of predictions\<close>

definition marked :: "(price_key \<rightharpoonup> f64) \<Rightarrow> signal_record \<Rightarrow> bool" where
  "marked prices s \<longleftrightarrow> (\<forall>c. prices (price_key_of s) = Some c \<longrightarrow> sd_correct s = still_moving (sd_direction s) c (sd_odds_now s))"

lemma update_signal_marks:
  assumes "map_of (fst (update_signal io path prices sid x)) sid' = Some s"
    and "sid' \<noteq> sid \<Longrightarrow> \<forall>s. map_of (fst x) sid' = Some s \<longrightarrow> marked prices s"
  shows "marked prices s"
proof (cases "sid' = sid")
  case True
  then show ?thesis using assms(1) by (cases x)
    (auto simp: update_signal_def Let_def update_conv marked_def price_key_of_def split: option.splits if_splits)
next
  case False
  then have "map_of (fst (update_signal io path prices sid x)) sid' = map_of (fst x) sid'"
    by (cases x) (simp add: update_signal_def Let_def update_conv split: option.splits)
  then show ?thesis using assms False by simp
qed

lemma update_signal_dom: "dom (map_of (fst (update_signal io path prices sid x))) = dom (map_of (fst x))"
  by (cases x) (auto simp: update_signal_def Let_def update_conv dom_def split: option.splits if_splits)

lemma fold_update_dom: "dom (map_of (fst (fold (update_signal io path prices) sids x))) = dom (map_of (fst x))"
  by (induction sids arbitrary: x) (simp_all add: update_signal_dom)

lemma fold_update_marks:
  assumes "map_of (fst (fold (update_signal io path prices) sids x)) sid = Some s"
    and "sid \<in> set sids \<or> (\<forall>s. map_of (fst x) sid = Some s \<longrightarrow> marked prices s)"
  shows "marked prices s"
  using assms
proof (induction sids arbitrary: x)
  case (Cons a sids)
  have "sid \<in> set sids \<or> (\<forall>s. map_of (fst (update_signal io path prices a x)) sid = Some s \<longrightarrow> marked prices s)"
    using Cons.prems(2) update_signal_marks [of io path prices a x sid] by auto
  then show ?case using Cons.IH [of "update_signal io path prices a x"] Cons.prems(1) by simp
qed simp

lemma update_open_signals_marks:
  assumes "\<And>ks. set (dt_order io ks) = set ks" and "map_of (fst (update_open_signals io path prices signals w)) sid = Some s"
  shows "marked prices s"
proof -
  have "sid \<in> dom (map_of signals)" using assms(2)
      fold_update_dom [of io path prices "dt_order io (map fst signals)" "(signals, w)"]
    unfolding update_open_signals_def by auto
  then have "sid \<in> set (dt_order io (map fst signals))" using assms(1) by (simp add: dom_map_of_conv_image_fst)
  then show ?thesis using fold_update_marks assms(2) unfolding update_open_signals_def by blast
qed

text \<open>
  A prediction is confirmed by the price it was made at. In every poll that logs a new signal
  the tracking runs over all open signals with the prices of that same poll, the signals just
  recorded included; whatever their direction, those whose recorded price is the price
  remembered for their key (and is a number) leave the poll with \<open>correct_so_far\<close> set, although
  it is documented to hold when the odds moved on \<open>on the next poll\<close>.
\<close>
theorem new_signals_correct_at_once:
  assumes "detector_step io cfg st = Return (Inr (), st')" and "ds_new st' \<noteq> 0"
    and order: "\<And>ks. set (dt_order io ks) = set ks"
    and "map_of (ds_open st') sid = Some s" and "ds_prev st' (price_key_of s) = Some (sd_odds_now s)"
    and "fle (sd_odds_now s) (sd_odds_now s)"
  shows "sd_correct s"
  using assms(1)
proof (cases rule: detector_step_cases)
  case (completed g w fs st2 signals w1)
  then have "marked (ds_prev st') s"
    using update_open_signals_marks [OF order, of "dg_log_path cfg" "ds_prev st2" "ds_open st2" "ds_world st2"] assms(4) by simp
  then show ?thesis using assms(5,6) by (simp add: marked_def still_moving_def split: odds_direction.splits)
qed (use assms in simp_all)

section \<open>A small world\<close>

definition sample_movement :: "string \<Rightarrow> json" where
  \<comment> \<open>the texts of the sample codec: a mark for a sharp move, then the direction\<close>
  "sample_movement s = JObj [(''pct_change'', JFloat (Fin 8)), (''is_sharp_move'', JBool (take 1 s = ''T'')),
     (''direction'', JStr (drop 1 s)), (''confidence'', JFloat (Fin (3/5)))]"

definition sample_text :: "json \<Rightarrow> string" where
  "sample_text j = (if jget j ''is_sharp_move'' = Some (JBool True) then ''T'' else ''F'')
     @ (case jget j ''direction'' of Some (JStr d) \<Rightarrow> d | _ \<Rightarrow> [])"

definition sample_det_io :: "nat det_io" where
  \<comment> \<open>the model asks for the movement, then submits\<close>
  "sample_det_io = \<lparr>dt_agent = sample_agent_io,
     dt_parse_fixtures = (\<lambda>_. Inr [\<lparr>df_id = 7, df_name = ''A v B'', df_status = ''live''\<rparr>]),
     dt_append = (\<lambda>_ _ n. (Inr (), n)), dt_parse_key = (\<lambda>_. None), dt_order = id,
     dt_llm = (\<lambda>_ _ h. Choice [ToolCallContent ''1'' (if h = [] then ''compute_sharp_movement'' else final_tool) JNull]),
     dt_tools = (\<lambda>_ _ _. Inr ''Tshortening''), dt_to_string = sample_text,
     dt_from_str = (\<lambda>s. Some (sample_movement s)), dt_after = id\<rparr>"

definition sample_det_config :: det_config where
  "sample_det_config = \<lparr>dg_api_base = [], dg_api_key = [], dg_poll_secs = 60, dg_threshold = Fin 4, dg_confidence_gate = Fin (1/2),
     dg_max_steps = 5, dg_max_rounds = 3, dg_log_path = ''log'', dg_desk_base = [], dg_desk_token = []\<rparr>"

definition sample_state :: "budget_guard \<Rightarrow> nat det_state" where
  \<comment> \<open>the second poll: the price 3 is remembered and the feed offers 2\<close>
  "sample_state g = \<lparr>ds_prev = [(7, ''1x2'', ''home'') \<mapsto> Fin 3], ds_guard = g, ds_open = [], ds_seen = {}, ds_new = 0,
     ds_logged = [], ds_world = 1\<rparr>"

definition sample_signal :: signal_record where
  "sample_signal = \<lparr>sd_key = bucket_key 7 ''1x2'' ''home'' 0, sd_id = ''p1'', sd_fixture_id = 7, sd_fixture_name = ''A v B'',
     sd_market = ''1x2'', sd_selection = ''home'', sd_odds_now = Fin 2, sd_odds_prev = Fin 3, sd_move_pct = Fin 8,
     sd_direction = Shortened, sd_confidence = Fin (3/5), sd_detected_at = ''0Z'', sd_narrative = None,
     sd_correct = True, sd_outcome = None\<rparr>"

definition sample_after :: "budget_guard \<Rightarrow> nat det_state" where
  "sample_after g = \<lparr>ds_prev = [(7, ''1x2'', ''home'') \<mapsto> Fin 2], ds_guard = (record_tool_call ^^ 6) g,
     ds_open = [(''p1'', sample_signal)], ds_seen = {sd_key sample_signal}, ds_new = 1,
     ds_logged = [sd_key sample_signal], ds_world = 1\<rparr>"

lemma wrap_short: "length c \<le> max_content_bytes \<Longrightarrow> wrap_untrusted l c = Return (open_delim l @ c @ close_delim)"
  by (simp add: wrap_untrusted_def)

lemma sample_reason:
  "reason_about sample_det_io 3 p st =
     (Some (\<lparr>mr_pct_change = Fin 8, mr_is_sharp_move = True, mr_direction = ''shortening'', mr_confidence = Fin (3/5)\<rparr>, None), st\<lparr>ds_guard := (record_tool_call ^^ 4) (ds_guard st)\<rparr>)"
proof -
  have 3: "unat (3 :: u32) = Suc (Suc (Suc 0))" by simp
  show ?thesis unfolding reason_about_def run_tool_loop_def 3
    by (simp add: sample_det_io_def is_tool_call_def final_tool_def read_outcome_def tool_result_def numeral_eq_Suc
        movement_of_json_def sample_movement_def jget.simps)
qed

lemma sample_assess:
  "assess_movement sample_det_io 3 \<lparr>df_id = 7, df_name = ''A v B'', df_status = ''live''\<rparr> ''1x2'' ''home'' a b st =
     Return (Some (\<lparr>mr_pct_change = Fin 8, mr_is_sharp_move = True, mr_direction = ''shortening'', mr_confidence = Fin (3/5)\<rparr>, None), st\<lparr>ds_guard := (record_tool_call ^^ 4) (ds_guard st)\<rparr>)"
  by (simp add: assess_movement_def wrap_short max_content_bytes_def sample_reason)

lemma sample_numbers: "\<not> fle (fabs (fsub (Fin 2) (Fin 3))) f_epsilon" "\<not> flt (Fin (3/5)) (Fin (1/2))" "fle (Fin 2) (Fin 2)"
  "show_u64 0 = ''0''"
  by code_simp+

lemma sample_io:
  "det_fetch_fixtures sample_det_io b n = (Inr [\<lparr>df_id = 7, df_name = ''A v B'', df_status = ''live''\<rparr>], n)"
  "fetch_odds (dt_agent sample_det_io) b i n = (Inr [\<lparr>fm_key = ''1x2'', fm_selections =
     [\<lparr>fs_name = ''home'', fs_odds = if n = 0 then Fin 3 else Fin 2\<rparr>]\<rparr>], n)"
  "dt_order sample_det_io = id" "ag_secs (dt_agent sample_det_io) n = (0, n)" "ag_uuid (dt_agent sample_det_io) n = (''p1'', n)"
  "dt_append sample_det_io l x n = (Inr (), n)" "utc_now (dt_agent sample_det_io) n = (''0Z'', n)"
  by (simp_all add: det_fetch_fixtures_def fetch_odds_def fetch_json_def sample_det_io_def sample_agent_io_def is_success_def
      utc_now_def sample_numbers)

lemma sample_step: "detector_step sample_det_io sample_det_config (sample_state g) = Return (Inr (), sample_after g)"
proof -
  have w: "ds_world (sample_state g) = 1" by (simp add: sample_state_def)
  show ?thesis
    by (simp add: detector_step_def det_fixture_step_def det_selection_def sample_io w)
      (simp add: sample_state_def sample_numbers sample_io sample_det_config_def sample_assess judge_movement_def
        direction_from_tool_def new_signal_def wrap_short max_content_bytes_def record_signal_def remember_price_def
        update_open_signals_def update_signal_def price_key_of_def still_moving_def sample_after_def sample_signal_def
        numeral_eq_Suc Let_def)
qed

lemma sample_first_step:
  "detector_step sample_det_io sample_det_config
     \<lparr>ds_prev = Map.empty, ds_guard = g, ds_open = [], ds_seen = {}, ds_new = 0, ds_logged = [], ds_world = 0\<rparr> =
   Return (Inr (), sample_state ((record_tool_call ^^ 2) g)\<lparr>ds_world := 0\<rparr>)"
  by (simp add: detector_step_def det_fixture_step_def det_selection_def sample_io remember_price_def
      update_open_signals_def sample_state_def numeral_eq_Suc)

lemma sample_main:
  "detector_main sample_det_io sample_det_config 2 0 =
     Return (False, \<lparr>stc_max = 5, stc_steps = 2\<rparr>, (sample_after ((record_tool_call ^^ 2) (default_devnet 0)))\<lparr>ds_world := 2\<rparr>)"
proof -
  have start: "det_start sample_det_io sample_det_config g 0 =
      \<lparr>ds_prev = Map.empty, ds_guard = g, ds_open = [], ds_seen = {}, ds_new = 0, ds_logged = [], ds_world = 0\<rparr>" for g
    by (simp add: det_start_def load_seen_idempotency_def sample_det_io_def sample_agent_io_def map_filter_def)
  have g: "safety_check 0 (default_devnet 0) = Inr ()" "safety_check 0 ((record_tool_call ^^ 2) (default_devnet 0)) = Inr ()"
    by code_simp+
  have secs: "det_secs sample_det_io st = (0, st)" and pause: "det_pause sample_det_io sample_det_config st = st\<lparr>ds_world := Suc (ds_world st)\<rparr>"
    for st by (simp_all add: det_secs_def sample_io, simp add: det_pause_def sample_det_io_def sample_agent_io_def)
  have next_world: "(sample_state h)\<lparr>ds_world := Suc 0\<rparr> = sample_state h" for h by (simp add: sample_state_def)
  have fields: "ds_guard (sample_state h) = h" "ds_world (sample_after h) = 1" for h by (simp_all add: sample_state_def sample_after_def)
  have two: "(2 :: nat) = Suc (Suc 0)" by simp
  show ?thesis
    by (simp add: detector_main_def sample_io start) (simp only: two poll_loop.simps, simp add: secs g start sample_first_step pause next_world fields sample_step
        stc_new_def tick_def sample_det_config_def [THEN arg_cong [where f = dg_max_steps]], simp add: numeral_2_eq_2)
qed

lemma sample_tool: "movement_tool_runs sample_det_io sample_det_config"
proof -
  have "compute_sharp_movement (Fin 4) (Fin 3) (Fin 4) = Return (Inr (movement_json
      \<lparr>mr_pct_change = Fin 25, mr_is_sharp_move = True, mr_direction = ''shortening'', mr_confidence = Fin 1\<rparr>))"
    by code_simp
  then show ?thesis
    unfolding movement_tool_runs_def
    by (force simp: sample_det_io_def sample_det_config_def sample_text_def sample_movement_def movement_json_def
        movement_of_json_def jget.simps)
qed

theorem detector_signals_backed_witness:
  "tool_backed sample_det_io sample_det_config sample_signal \<and> priced sample_det_config sample_signal"
proof -
  have "list_all (tool_backed sample_det_io sample_det_config \<circ> snd) (ds_open (sample_after ((record_tool_call ^^ 2) (default_devnet 0))))
      \<and> list_all (priced sample_det_config \<circ> snd) (ds_open (sample_after ((record_tool_call ^^ 2) (default_devnet 0))))"
    using detector_signals_backed [OF sample_main] sample_tool by simp
  then show ?thesis by (simp add: sample_after_def)
qed

theorem new_signals_correct_at_once_witness: "sd_correct sample_signal"
  by (rule new_signals_correct_at_once [OF sample_step [of "default_devnet 0"], where sid = "''p1''"])
    (simp_all add: sample_after_def sample_io price_key_of_def sample_numbers, simp_all add: sample_signal_def sample_numbers)

end
