(* ===== verification/Tool_Server.thy ===== *)
theory Tool_Server
  imports Authority Sharp_Detector
begin

text \<open>
  The tools as an agent's model reaches them: the argument types of \<open>rig-venice/src/tools.rs\<close>
  with \<open>serde\<close>'s derived deserializers, the tool sets that the three reasoning passes build
  (\<open>wager_agent.rs\<close>, the detector's \<open>venice.rs\<close>, \<open>fan-pundit-agent\<close>), and a call by name as the
  tool server of the crate \<open>rig\<close> documents it. Its error texts, the JSON codec and the transport
  are arguments. The properties compose the reasoning loop, the tool set and the model of a match.
\<close>

section \<open>Arguments\<close>

text \<open>
  A field of a struct in JSON: absent from an object, past the end of an array, or present. Unknown
  fields of an object are ignored, a longer array is refused.
\<close>

datatype slot = Absent | PastEnd | Present json

definition slots :: "string list \<Rightarrow> json \<Rightarrow> slot list option" where
  "slots names j =
     (case j of
        JObj _ \<Rightarrow> Some (map (\<lambda>n. case jget j n of None \<Rightarrow> Absent | Some v \<Rightarrow> Present v) names)
      | JArr vs \<Rightarrow> if length vs \<le> length names
                    then Some (map Present vs @ replicate (length names - length vs) PastEnd) else None
      | _ \<Rightarrow> None)"

fun required :: "(json \<Rightarrow> 'a option) \<Rightarrow> slot \<Rightarrow> 'a option" where
  "required f (Present v) = f v"
| "required f _ = None"

fun optional :: "(json \<Rightarrow> 'a option) \<Rightarrow> slot \<Rightarrow> 'a option option" where
  "optional f Absent = Some None"
| "optional f PastEnd = None"
| "optional f (Present v) = (if v = JNull then Some None else map_option Some (f v))"

fun defaulted :: "'a \<Rightarrow> (json \<Rightarrow> 'a option) \<Rightarrow> slot \<Rightarrow> 'a option" where
  "defaulted d f (Present v) = f v"
| "defaulted d f _ = Some d"

definition as_u32 :: "json \<Rightarrow> u32 option" where
  "as_u32 j = Option.bind (as_u64 j) (\<lambda>n. if uint n < 2 ^ 32 then Some (ucast n) else None)"

record fetch_odds_input =
  qi_fixture_id :: u64
  qi_market_key :: "string option"

definition fetch_odds_args :: "json \<Rightarrow> fetch_odds_input option" where
  "fetch_odds_args j = (case slots [''fixture_id'', ''market_key''] j of
     Some [f, k] \<Rightarrow> Option.bind (required as_u64 f) (\<lambda>fixture. Option.bind (optional as_str k) (\<lambda>market.
       Some \<lparr>qi_fixture_id = fixture, qi_market_key = market\<rparr>))
   | _ \<Rightarrow> None)"

record movement_input =
  mi_selection :: string
  mi_current_odds :: f64
  mi_previous_odds :: f64
  mi_market_key :: string

definition movement_args :: "json \<Rightarrow> movement_input option" where
  "movement_args j = (case slots [''selection'', ''current_odds'', ''previous_odds'', ''market_key''] j of
     Some [s, c, p, k] \<Rightarrow>
       Option.bind (required as_str s) (\<lambda>sel. Option.bind (required as_f64 c) (\<lambda>current.
       Option.bind (required as_f64 p) (\<lambda>previous. Option.bind (required as_str k) (\<lambda>market.
         Some \<lparr>mi_selection = sel, mi_current_odds = current, mi_previous_odds = previous, mi_market_key = market\<rparr>))))
   | _ \<Rightarrow> None)"

definition live_only_args :: "json \<Rightarrow> bool option" where
  "live_only_args j = (case slots [''live_only''] j of Some [l] \<Rightarrow> required as_bool l | _ \<Rightarrow> None)"

definition side_args :: "json \<Rightarrow> side_stats option" where
  "side_args j = (case slots [''form'', ''xg'', ''rank'', ''injuries''] j of
     Some [f, x, r, i] \<Rightarrow>
       Option.bind (defaulted (lit 0) as_f64 f) (\<lambda>form. Option.bind (defaulted (lit 0) as_f64 x) (\<lambda>xg.
       Option.bind (optional as_f64 r) (\<lambda>rank. Option.bind (defaulted (lit 0) as_f64 i) (\<lambda>injuries.
         Some \<lparr>sd_form = form, sd_xg = xg, sd_rank = rank, sd_injuries = injuries\<rparr>))))
   | _ \<Rightarrow> None)"

definition model_args :: "json \<Rightarrow> match_stats option" where
  "model_args j = (case slots [''home'', ''away'', ''h2h''] j of
     Some [h, a, r] \<Rightarrow>
       Option.bind (required side_args h) (\<lambda>home. Option.bind (required side_args a) (\<lambda>away.
       Option.bind (defaulted (lit 0) as_f64 r) (\<lambda>h2h.
         Some \<lparr>mt_home = home, mt_away = away, mt_h2h = h2h\<rparr>)))
   | _ \<Rightarrow> None)"

definition fair_args :: "json \<Rightarrow> fair_input option" where
  "fair_args j = (case slots [''home_odds'', ''draw_odds'', ''away_odds''] j of
     Some [h, d, a] \<Rightarrow>
       Option.bind (optional as_f64 h) (\<lambda>home. Option.bind (optional as_f64 d) (\<lambda>draw.
       Option.bind (optional as_f64 a) (\<lambda>away. Some \<lparr>fi_home = home, fi_draw = draw, fi_away = away\<rparr>)))
   | _ \<Rightarrow> None)"

definition leaderboard_args :: "json \<Rightarrow> unit option" where
  "leaderboard_args j = map_option (\<lambda>_. ()) (slots [] j)"

record signals_input =
  gi_fixture_id :: "u64 option"
  gi_limit :: "u32 option"

definition signals_args :: "json \<Rightarrow> signals_input option" where
  "signals_args j = (case slots [''fixture_id'', ''limit''] j of
     Some [f, l] \<Rightarrow> Option.bind (optional as_u64 f) (\<lambda>fixture. Option.bind (optional as_u32 l) (\<lambda>limit.
       Some \<lparr>gi_fixture_id = fixture, gi_limit = limit\<rparr>))
   | _ \<Rightarrow> None)"

record settlements_input =
  li_agent_id :: "string option"
  li_fixture_id :: "u64 option"
  li_limit :: "u32 option"

definition settlements_args :: "json \<Rightarrow> settlements_input option" where
  "settlements_args j = (case slots [''agent_id'', ''fixture_id'', ''limit''] j of
     Some [a, f, l] \<Rightarrow>
       Option.bind (optional as_str a) (\<lambda>agent. Option.bind (optional as_u64 f) (\<lambda>fixture.
       Option.bind (optional as_u32 l) (\<lambda>limit. Some \<lparr>li_agent_id = agent, li_fixture_id = fixture, li_limit = limit\<rparr>)))
   | _ \<Rightarrow> None)"

record history_input =
  hi_run_id :: "string option"
  hi_limit :: "u32 option"

definition history_args :: "json \<Rightarrow> history_input option" where
  "history_args j = (case slots [''run_id'', ''limit''] j of
     Some [r, l] \<Rightarrow> Option.bind (optional as_str r) (\<lambda>run. Option.bind (optional as_u32 l) (\<lambda>limit.
       Some \<lparr>hi_run_id = run, hi_limit = limit\<rparr>))
   | _ \<Rightarrow> None)"

definition signal_decision_args :: "json \<Rightarrow> string option" where
  \<comment> \<open>\<open>SignalDecision\<close> has the one field\<close>
  "signal_decision_args j = (case slots [''rationale''] j of Some [r] \<Rightarrow> required as_str r | _ \<Rightarrow> None)"

section \<open>Tools and tool sets\<close>

text \<open>A tool of a set: its arguments, if they can be read, make a call.\<close>

type_synonym 'w rig_tool = "json \<Rightarrow> ('w \<Rightarrow> (string + json) exec \<times> 'w) option"

definition pure_tool :: "(json \<Rightarrow> 'a option) \<Rightarrow> ('a \<Rightarrow> (tool_call_error + json) exec) \<Rightarrow> 'w rig_tool" where
  "pure_tool args call = (\<lambda>j. map_option (\<lambda>a w. (exec_map (map_sum show_tool_call_error id) (call a), w)) (args j))"

definition net_tool :: "(json \<Rightarrow> 'a option) \<Rightarrow> ('a \<Rightarrow> 'w \<Rightarrow> (tool_call_error + json) \<times> 'w) \<Rightarrow> 'w rig_tool" where
  "net_tool args call = (\<lambda>j. map_option (\<lambda>a w. case call a w of (r, w1) \<Rightarrow>
     (Return (map_sum show_tool_call_error id r), w1)) (args j))"

definition fetch_odds_tool :: "'w tool_io \<Rightarrow> string \<Rightarrow> string \<Rightarrow> 'w rig_tool" where
  \<comment> \<open>the market key is read and not used\<close>
  "fetch_odds_tool io base key = net_tool fetch_odds_args (\<lambda>a. fetch_odds_snapshot io base key (qi_fixture_id a))"

definition fixtures_tool :: "'w tool_io \<Rightarrow> string \<Rightarrow> string \<Rightarrow> 'w rig_tool" where
  "fixtures_tool io base key = net_tool live_only_args (fetch_active_fixtures io base key)"

definition movement_tool :: "f64 \<Rightarrow> 'w rig_tool" where
  "movement_tool threshold =
     pure_tool movement_args (\<lambda>a. compute_sharp_movement threshold (mi_current_odds a) (mi_previous_odds a))"

definition model_tool_call :: "libm \<Rightarrow> 'w rig_tool" where
  "model_tool_call m = pure_tool model_args (compute_model_probability m model_tool_default)"

definition fair_tool :: "'w rig_tool" where
  "fair_tool = pure_tool fair_args (Return \<circ> compute_fair_probability)"

definition leaderboard_tool :: "'w tool_io \<Rightarrow> string \<Rightarrow> string \<Rightarrow> 'w rig_tool" where
  "leaderboard_tool io base token = net_tool leaderboard_args (\<lambda>_. get_agent_leaderboard io base token)"

definition signals_tool :: "'w tool_io \<Rightarrow> string \<Rightarrow> string \<Rightarrow> 'w rig_tool" where
  "signals_tool io base token =
     net_tool signals_args (\<lambda>a. get_recent_signals io base token (gi_fixture_id a) (gi_limit a))"

definition settlements_tool :: "'w tool_io \<Rightarrow> string \<Rightarrow> string \<Rightarrow> 'w rig_tool" where
  "settlements_tool io base token =
     net_tool settlements_args (\<lambda>a. get_recent_settlements io base token (li_agent_id a) (li_fixture_id a) (li_limit a))"

definition history_tool :: "'w tool_io \<Rightarrow> string \<Rightarrow> string \<Rightarrow> 'w rig_tool" where
  "history_tool io base token =
     net_tool history_args (\<lambda>a. get_tool_call_history io base token (hi_run_id a) (hi_limit a))"

text \<open>The submitting tools answer their own arguments.\<close>

definition signal_decision_tool :: "'w rig_tool" where
  "signal_decision_tool = pure_tool signal_decision_args (\<lambda>r. Return (Inr (JObj [(''rationale'', JStr r)])))"

definition assessment_tool :: "'w rig_tool" where
  "assessment_tool = pure_tool wager_assessment_of_json (\<lambda>a. Return (Inr (JObj [(''has_value'', JBool (wa_has_value a)),
     (''selection'', case wa_selection a of None \<Rightarrow> JNull | Some s \<Rightarrow> JStr s), (''thesis'', JStr (wa_thesis a))])))"

definition verdict_tool :: "'w rig_tool" where
  "verdict_tool = pure_tool pundit_verdict_of_json
     (\<lambda>v. Return (Inr (JObj [(''reason'', JStr (pv_reason v)), (''stance'', JStr (pv_stance v))])))"

type_synonym 'w tool_set = "(string \<times> 'w rig_tool) list"

definition wager_tools :: "libm \<Rightarrow> 'w tool_set" where
  "wager_tools m = [(''compute_model_probability'', model_tool_call m), (''compute_fair_probability'', fair_tool),
     (submit_wager_assessment, assessment_tool)]"

definition detector_tools :: "'w tool_io \<Rightarrow> det_config \<Rightarrow> 'w tool_set" where
  "detector_tools io cfg =
     (let base = dg_api_base cfg @ ''/worldcup''; key = dg_api_key cfg; desk = dg_desk_base cfg; token = dg_desk_token cfg
      in [(''fetch_odds_snapshot'', fetch_odds_tool io base key), (''fetch_active_fixtures'', fixtures_tool io base key),
          (''compute_sharp_movement'', movement_tool (dg_threshold cfg)),
          (''get_agent_leaderboard'', leaderboard_tool io desk token), (''get_recent_signals'', signals_tool io desk token),
          (''get_recent_settlements'', settlements_tool io desk token), (final_tool, signal_decision_tool)])"

definition fan_pundit_tools :: "'w tool_io \<Rightarrow> string \<Rightarrow> string \<Rightarrow> 'w tool_set" where
  "fan_pundit_tools io base token =
     [(submit_pundit_verdict, verdict_tool), (''get_agent_leaderboard'', leaderboard_tool io base token),
      (''get_recent_signals'', signals_tool io base token), (''get_recent_settlements'', settlements_tool io base token),
      (''get_tool_call_history'', history_tool io base token)]"

section \<open>A call by name\<close>

record rig_texts =
  rt_unknown :: "string \<Rightarrow> string"
  rt_bad_args :: "string \<Rightarrow> string"
  rt_failed :: "string \<Rightarrow> string"

definition tool_call ::
    "rig_texts \<Rightarrow> (string \<Rightarrow> json option) \<Rightarrow> (json \<Rightarrow> string) \<Rightarrow> 'w tool_set \<Rightarrow> string \<Rightarrow> string \<Rightarrow> 'w
       \<Rightarrow> (string + string) exec \<times> 'w" where
  "tool_call rt from_str to_string tools name args w =
     (case map_of tools name of
        None \<Rightarrow> (Return (Inl (rt_unknown rt name)), w)
      | Some t \<Rightarrow>
          (case Option.bind (from_str args) t of
             None \<Rightarrow> (Return (Inl (rt_bad_args rt args)), w)
           | Some call \<Rightarrow> (case call w of (r, w1) \<Rightarrow> (exec_map (map_sum (rt_failed rt) to_string) r, w1))))"

definition served ::
    "rig_texts \<Rightarrow> (string \<Rightarrow> json option) \<Rightarrow> (json \<Rightarrow> string) \<Rightarrow> 'w tool_set
       \<Rightarrow> ('w \<Rightarrow> string \<Rightarrow> string \<Rightarrow> string + string) \<Rightarrow> bool" where
  \<comment> \<open>what the reasoning loop sees of the tools is what the tool set answers\<close>
  "served rt from_str to_string tools answers \<longleftrightarrow>
     (\<forall>w name args. fst (tool_call rt from_str to_string tools name args w) = Return (answers w name args))"

lemma served_pure:
  assumes "served rt from_str to_string tools answers" and "map_of tools name = Some (pure_tool rd call)"
    and "answers w name args = Inr out"
  shows "\<exists>a j. call a = Return (Inr j) \<and> out = to_string j"
proof -
  have "fst (tool_call rt from_str to_string tools name args w) = Return (Inr out)"
    using assms(1,3) by (simp add: served_def)
  then obtain a r where "call a = Return r" "map_sum (rt_failed rt) to_string (map_sum show_tool_call_error id r) = Inr out"
    using assms(2) by (auto simp: tool_call_def pure_tool_def exec_map_Return_iff bind_eq_Some_conv split: option.splits prod.splits)
  then show ?thesis by (cases r) auto
qed

section \<open>The detector's tools\<close>

lemma detector_tools_movement:
  "map_of (detector_tools io cfg) ''compute_sharp_movement'' = Some (movement_tool (dg_threshold cfg))"
  by (simp add: detector_tools_def Let_def)

lemma detector_server_moves:
  assumes "served rt (dt_from_str io) (dt_to_string io) (detector_tools tio cfg) (dt_tools io)"
    and "\<And>r j mv. dt_from_str io (dt_to_string io (movement_json r)) = Some j \<Longrightarrow> movement_of_json j = Some mv \<Longrightarrow>
      mr_is_sharp_move mv = mr_is_sharp_move r \<and> mr_direction mv = mr_direction r"
  shows "movement_tool_runs io cfg"
  unfolding movement_tool_runs_def
proof (intro conjI allI impI)
  fix w args out
  assume "dt_tools io w ''compute_sharp_movement'' args = Inr out"
  then have "\<exists>(a :: movement_input) j. compute_sharp_movement (dg_threshold cfg) (mi_current_odds a) (mi_previous_odds a) = Return (Inr j)
      \<and> out = dt_to_string io j"
    by (rule served_pure [OF assms(1) detector_tools_movement [unfolded movement_tool_def]])
  then show "\<exists>c p j. compute_sharp_movement (dg_threshold cfg) c p = Return (Inr j) \<and> out = dt_to_string io j" by blast
qed (use assms(2) in blast)+

text \<open>The market filter that the schema of the tool documents has no effect.\<close>

lemma market_filter_ignored:
  "fetch_odds_tool io base key (JObj [(''fixture_id'', JInt n), (''market_key'', JStr k)])
     = fetch_odds_tool io base key (JObj [(''fixture_id'', JInt n)])"
  by (cases "as_u64 (JInt n)") (simp_all add: fetch_odds_tool_def net_tool_def fetch_odds_args_def slots_def)

section \<open>The price of a proposal\<close>

definition library_probability :: "libm \<Rightarrow> match_stats \<Rightarrow> selection \<Rightarrow> f64" where
  \<comment> \<open>the library's probability of an outcome, or a third where the library's result is not a number\<close>
  "library_probability m st s =
     (let d = model_distribution m st fundamentals_default in dist_prob (if is_nan (ds_home d) then thirds else d) s)"

definition reads_probabilities :: "(string \<Rightarrow> json option) \<Rightarrow> (json \<Rightarrow> string) \<Rightarrow> (f64 \<Rightarrow> f64) \<Rightarrow> bool" where
  \<comment> \<open>a written number is read back as \<open>rb\<close> of it; a text of probabilities yields nothing else\<close>
  "reads_probabilities from_str to_string rb \<longleftrightarrow>
     (\<forall>d v s p. from_str (to_string (probabilities_json d)) = Some v \<longrightarrow>
        Option.bind (jget v (selection_field s)) as_f64 = Some p \<longrightarrow> p = rb (dist_prob d s))"

lemma wager_tools_model:
  "map_of (wager_tools m) ''compute_model_probability'' = Some (model_tool_call m)"
  by (simp add: wager_tools_def)

text \<open>
  C5: a proposed wager is priced by the library. Where the reasoning loop runs with the tool set of
  \<open>wager_agent.rs\<close>, the model probability of the adjudicated wager is, up to how the crate reads a
  double back, the library's own probability of the chosen outcome for some statistics of the
  match, and the price the Authority uses is the event's own quote for that outcome. (The statistics
  are arguments that the model chose: nothing holds it to the neutral ones the prompt asks for.)
\<close>
theorem proposal_priced_by_library:
  assumes "exp_ok (lm_exp m)" and "lm_exp m NaN = NaN"
    and tools: "served rt from_str to_string (wager_tools m :: 'w tool_set) (\<lambda>_. tools)"
    and codec: "reads_probabilities from_str to_string rb"
    and proposal: "propose_wager (Some (\<lambda>prompt final n.
             fst (run_tool_loop llm tools to_string from_str on_step final n prompt s)))
           uuid now ev proof_ref pol = Return wp" "wp_ruling wp = Some r"
  shows "(\<exists>st. w_model_prob (ru_wager r) = rb (library_probability m st (w_selection (ru_wager r)))) \<and>
         (\<exists>odds w. (w_selection (ru_wager r), Some odds) \<in>
              {(Home, os_home (extract_odds ev)), (Draw, os_draw (extract_odds ev)),
               (Away, os_away (extract_odds ev))} \<and> adjudicate w odds pol = Return r)"
proof -
  from proposal_uses_tool_probability [OF proposal]
  obtain args tx v where t: "tools ''compute_model_probability'' args = Inr tx" "from_str tx = Some v"
    and p: "Option.bind (jget v (selection_field (w_selection (ru_wager r)))) as_f64 = Some (w_model_prob (ru_wager r))"
    and rest: "\<exists>odds w. (w_selection (ru_wager r), Some odds) \<in>
              {(Home, os_home (extract_odds ev)), (Draw, os_draw (extract_odds ev)),
               (Away, os_away (extract_odds ev))} \<and> adjudicate w odds pol = Return r" by blast
  have "\<exists>st j. compute_model_probability m model_tool_default st = Return (Inr j) \<and> tx = to_string j"
    by (rule served_pure [OF tools wager_tools_model [unfolded model_tool_call_def]]) (rule t(1))
  then obtain st j where "compute_model_probability m model_tool_default st = Return (Inr j)" "tx = to_string j" by blast
  then have "tx = to_string (probabilities_json (or_thirds (model_distribution m st fundamentals_default)))"
    using compute_model_agrees [OF assms(1,2), of st] by simp
  then have "w_model_prob (ru_wager r) = rb (library_probability m st (w_selection (ru_wager r)))"
    using codec t(2) p unfolding reads_probabilities_def library_probability_def or_thirds_def Let_def by blast
  then show ?thesis using rest by blast
qed

section \<open>Witness\<close>

text \<open>
  The neutral match: the model calls the tool without statistics, then submits. The codec knows the text
  of the one answer and that of the one argument.
\<close>

definition neutral_args :: json where
  "neutral_args = JObj [(''home'', JObj []), (''away'', JObj [])]"

definition neutral_answer :: json where
  "neutral_answer = probabilities_json (or_thirds (model_distribution approx_libm neutral_match fundamentals_default))"

definition neutral_print :: "json \<Rightarrow> string" where
  "neutral_print j = (if j = neutral_args then ''a'' else if j = neutral_answer then ''p'' else ''x'')"

definition neutral_parse :: "string \<Rightarrow> json option" where
  "neutral_parse t = (if t = ''a'' then Some neutral_args else if t = ''p'' then Some neutral_answer else None)"

definition plain_texts :: rig_texts where
  "plain_texts = \<lparr>rt_unknown = id, rt_bad_args = id, rt_failed = id\<rparr>"

definition neutral_tools :: "string \<Rightarrow> string \<Rightarrow> string + string" where
  "neutral_tools name args = (case fst (tool_call plain_texts neutral_parse neutral_print (wager_tools approx_libm) name args ()) of
     Return x \<Rightarrow> x | Panic \<Rightarrow> Inl [])"

definition neutral_llm :: "message \<Rightarrow> message list \<Rightarrow> completion" where
  "neutral_llm p h =
     (if h = [] then Choice [ToolCallContent ''1'' ''compute_model_probability'' neutral_args]
      else Choice [ToolCallContent ''2'' submit_wager_assessment (JArr [JBool True, JStr ''home'', JStr ''value''])])"

lemma approx_nan: "lm_exp approx_libm NaN = NaN"
  by (simp add: approx_libm_def approx_exp_def)

lemma approx_exp: "exp_ok (lm_exp approx_libm)"
  using approx_exp_ok by (simp add: approx_libm_def)

lemma wager_tools_total: "\<exists>x. fst (tool_call rt from_str to_string (wager_tools approx_libm :: 'a tool_set) name args w) = Return x"
proof (cases "map_of (wager_tools approx_libm :: 'a tool_set) name")
  case None
  then show ?thesis by (simp add: tool_call_def)
next
  case (Some t)
  have "\<exists>x. r = Return x" if "t j = Some call" "call w = (r, w')" for j call r w'
  proof -
    have "t = model_tool_call approx_libm \<or> t = fair_tool \<or> t = assessment_tool"
      using Some by (auto simp: wager_tools_def split: if_splits)
    then show ?thesis using that compute_model_agrees [OF approx_exp approx_nan]
      by (auto simp: model_tool_call_def fair_tool_def assessment_tool_def pure_tool_def)
  qed
  then show ?thesis using Some by (auto simp: tool_call_def bind_eq_Some_conv exec_map_Return_iff split: option.split prod.split)
qed

lemma neutral_served: "served plain_texts neutral_parse neutral_print (wager_tools approx_libm :: unit tool_set) (\<lambda>_. neutral_tools)"
  unfolding served_def neutral_tools_def
proof (intro allI)
  fix w :: unit and name args
  obtain x where "fst (tool_call plain_texts neutral_parse neutral_print (wager_tools approx_libm) name args w) = Return x"
    by (rule exE [OF wager_tools_total])
  then show "fst (tool_call plain_texts neutral_parse neutral_print (wager_tools approx_libm) name args w) =
      Return (case fst (tool_call plain_texts neutral_parse neutral_print (wager_tools approx_libm) name args ()) of
        Return x \<Rightarrow> x | Panic \<Rightarrow> Inl [])"
    by simp
qed

lemma neutral_finite: "is_finite (dist_prob (or_thirds (model_distribution approx_libm neutral_match fundamentals_default)) s)"
proof -
  have "match_within (2 ^ 40) neutral_match"
    by (simp add: match_within_def side_within_def neutral_match_def neutral_side_def small_def)
  then have "is_distribution (model_distribution approx_libm neutral_match fundamentals_default)"
    using model_distribution_bounded [OF approx_libm_ok fundamentals_default_tuned] by simp
  then have f: "is_finite (ds_home (model_distribution approx_libm neutral_match fundamentals_default))"
    "is_finite (ds_draw (model_distribution approx_libm neutral_match fundamentals_default))"
    "is_finite (ds_away (model_distribution approx_libm neutral_match fundamentals_default))"
    by (auto simp: is_distribution_def unit_interval_def)
  then have "\<not> is_nan (ds_home (model_distribution approx_libm neutral_match fundamentals_default))"
    by (cases "ds_home (model_distribution approx_libm neutral_match fundamentals_default)") auto
  then show ?thesis using f by (cases s) (simp_all add: or_thirds_def)
qed

lemma probabilities_field: "jget (probabilities_json d) (selection_field s) = Some (jfloat (dist_prob d s))"
  by (cases s) (simp_all add: probabilities_json_def selection_field_def)

lemma neutral_codec: "reads_probabilities neutral_parse neutral_print id"
  unfolding reads_probabilities_def
proof (intro allI impI)
  fix d v s p
  assume v: "neutral_parse (neutral_print (probabilities_json d)) = Some v" "Option.bind (jget v (selection_field s)) as_f64 = Some p"
  have "probabilities_json d \<noteq> neutral_args" by (simp add: probabilities_json_def neutral_args_def)
  then have "probabilities_json d = v" using v(1)
    by (simp add: neutral_parse_def neutral_print_def split: if_splits)
  then have "as_f64 (jfloat (dist_prob d s)) = Some p" using v(2) probabilities_field [of d s] by simp
  then show "p = id (dist_prob d s)" by (simp add: jfloat_def split: if_splits)
qed

lemma neutral_call: "neutral_tools ''compute_model_probability'' ''a'' = Inr ''p''"
proof -
  have "model_args neutral_args = Some neutral_match"
    by (simp add: model_args_def side_args_def slots_def neutral_args_def neutral_match_def neutral_side_def jget.simps)
  moreover have "neutral_answer \<noteq> neutral_args" by (simp add: neutral_answer_def probabilities_json_def neutral_args_def)
  ultimately show ?thesis
    using compute_model_agrees [OF approx_exp approx_nan, of neutral_match]
    by (simp add: neutral_tools_def tool_call_def wager_tools_model model_tool_call_def pure_tool_def neutral_parse_def
        neutral_print_def neutral_answer_def [symmetric])
qed

lemma neutral_run:
  "\<exists>s'. run_tool_loop neutral_llm neutral_tools neutral_print neutral_parse id submit_wager_assessment 6 prompt s
   = (Inr \<lparr>tlo_tool_calls = [(''compute_model_probability'', neutral_answer)],
          tlo_final_args = Some (JArr [JBool True, JStr ''home'', JStr ''value''])\<rparr>, s')"
proof -
  have six: "unat (6 :: u32) = Suc (Suc (Suc (Suc (Suc (Suc 0)))))" by simp
  have a: "neutral_print neutral_args = ''a''" "neutral_parse ''p'' = Some neutral_answer"
    by (simp_all add: neutral_print_def neutral_parse_def)
  have "neutral_print (JArr [JBool True, JStr ''home'', JStr ''value'']) = ''x''"
    by (simp add: neutral_print_def neutral_args_def neutral_answer_def probabilities_json_def)
  moreover have "neutral_tools submit_wager_assessment ''x'' = Inl ''x''"
    by (simp add: neutral_tools_def tool_call_def wager_tools_def neutral_parse_def plain_texts_def submit_wager_assessment_def)
  ultimately show ?thesis unfolding run_tool_loop_def six
    by (simp add: neutral_llm_def a neutral_call is_tool_call_def)
      (simp add: submit_wager_assessment_def)
qed

theorem proposal_priced_by_library_witness:
  "\<exists>r st. adjudicate (new_wager ''1'' ''now'' 1 Home (library_probability approx_libm neutral_match Home) ''value'' None)
        (lit 2) (from_max_spend (lit (5/100))) = Return r
     \<and> w_model_prob (ru_wager r) = library_probability approx_libm st (w_selection (ru_wager r))"
proof -
  let ?ev = "sample_event (Some [sample_quote ''home'' (lit 2), sample_quote ''X'' (lit 3), sample_quote ''2'' (lit 4)])"
  let ?pol = "from_max_spend (lit (5/100))"
  let ?run = "\<lambda>prompt final n. fst (run_tool_loop neutral_llm neutral_tools neutral_print neutral_parse id final n prompt ())"
  let ?p = "library_probability approx_libm neutral_match Home"
  have names: "outcome_alias ''home'' = Some Home" "outcome_alias ''X'' = Some Draw" "outcome_alias ''2'' = Some Away"
    by code_simp+
  have odds: "extract_odds ?ev = \<lparr>os_home = Some (lit 2), os_draw = Some (lit 3), os_away = Some (lit 4)\<rparr>"
    by (simp add: extract_odds_def sample_event_def sample_quote_def names get_or_insert_def del: lit_01)
  have cap: "fle (lit 0) (ap_cap ?pol)" by code_simp
  obtain r where r: "adjudicate (new_wager ''1'' ''now'' 1 Home ?p ''value'' None) (lit 2) ?pol = Return r"
    using adjudicate_total [OF cap] by blast
  have fx: "ev_fixture_id ?ev = 1" by (simp add: sample_event_def)
  have ch: "chosen_selection ''home'' (lit 2) (lit 3) (lit 4) = Some (Home, lit 2)" by code_simp
  have "dist_prob (or_thirds (model_distribution approx_libm neutral_match fundamentals_default)) Home = ?p"
    by (simp add: library_probability_def or_thirds_def Let_def)
  then have p: "Option.bind (jget neutral_answer ''home'') as_f64 = Some ?p"
    using probabilities_field [of "or_thirds (model_distribution approx_libm neutral_match fundamentals_default)" Home] neutral_finite [of Home]
    by (simp add: neutral_answer_def selection_field_def jfloat_def)
  have loop: "?run prompt submit_wager_assessment 6 = Inr \<lparr>tlo_tool_calls = [(''compute_model_probability'', neutral_answer)],
          tlo_final_args = Some (JArr [JBool True, JStr ''home'', JStr ''value''])\<rparr>" for prompt
    using neutral_run [of prompt "()"] by auto
  have "\<exists>wp. propose_wager (Some ?run) ''1'' ''now'' ?ev None ?pol = Return wp \<and> wp_ruling wp = Some r"
    unfolding propose_wager_def odds
    using ch r p
    by (simp add: fx Let_def loop propose_from_outcome_def wager_assessment_of_json_def opt_string_def
        tool_result_def selection_field_def del: lit_01)
  then obtain wp where wp: "propose_wager (Some ?run) ''1'' ''now'' ?ev None ?pol = Return wp" "wp_ruling wp = Some r" by blast
  from proposal_priced_by_library [OF approx_exp approx_nan neutral_served neutral_codec wp] show ?thesis using r by auto
qed

end
