(* ===== verification/Bus_Agents.thy ===== *)
theory Bus_Agents
  imports Coral_Mcp Tool_Server
begin

text \<open>
  The four specialists of the bus as processes: the \<open>main\<close> of \<open>settlement-agent\<close>,
  \<open>trading-specialist\<close>, \<open>fan-pundit-agent\<close> and \<open>proof-guard-agent\<close>, from the variables they read
  to the code they exit with, around the handlers and the serving loop of \<open>Coral_Agents\<close>. The
  record \<open>bus_io\<close> holds what a process meets: its environment, the connection, what the waiting
  tool answers for a time limit, the codecs, and, by the number of the replies already given, the
  identifiers it draws and the model it asks. The property says what such a process can ever say
  on the bus. Logging is left out.
\<close>

section \<open>Processes\<close>

record bus_io =
  bi_env :: env
  bi_connect :: "string \<Rightarrow> string \<Rightarrow> string option"
  bi_parse :: "string \<Rightarrow> string + json"
  bi_waits :: "u64 \<Rightarrow> mcp_result list"
  bi_wager :: "string \<Rightarrow> wager option"
  bi_wager_json :: "wager \<Rightarrow> string"
  bi_signal :: "string \<Rightarrow> agent_signal option"
  bi_lower :: "string \<Rightarrow> string"
  bi_uuid :: "nat \<Rightarrow> string"
  bi_llm :: "nat \<Rightarrow> message \<Rightarrow> message list \<Rightarrow> completion"
  bi_tools :: "nat \<Rightarrow> string \<Rightarrow> string \<Rightarrow> string + string"
  bi_to_string :: "json \<Rightarrow> string"
  bi_from_str :: "string \<Rightarrow> json option"

text \<open>
  \<open>bi_connect\<close> takes the name of the agent and the URL and gives the error of a failed connection.
  A process ends with code 1 when the client fails, with code 0 when the loop returns, and with a
  panic when a handler panics; otherwise it is still serving.
\<close>

datatype bus_end = ExitOne | ExitZero "reply_sent list" | Serving "reply_sent list" | Aborted

definition bus_exit :: "coral_client_error + (reply_sent list \<times> step_counter \<times> bool) exec \<Rightarrow> bus_end" where
  "bus_exit r = (case r of
     Inl _ \<Rightarrow> ExitOne
   | Inr Panic \<Rightarrow> Aborted
   | Inr (Return (sent, _, over)) \<Rightarrow> if over then ExitZero sent else Serving sent)"

definition bus_main :: "bus_io \<Rightarrow> string \<Rightarrow> (nat \<Rightarrow> coral_mention \<Rightarrow> string exec) \<Rightarrow> u64 \<Rightarrow> u64 \<Rightarrow> bus_end" where
  "bus_main io name handle max_wait_ms max_steps =
     bus_exit (coral_run (bi_env io ''CORAL_CONNECTION_URL'') (bi_connect io name) (bi_parse io) handle max_steps
       (bi_waits io max_wait_ms))"

lemma bus_main_ran:
  assumes "bus_main io name handle wait steps = ExitZero sent \<or> bus_main io name handle wait steps = Serving sent"
  shows "\<exists>u st over. coral_run (Some u) (bi_connect io name) (bi_parse io) handle steps (bi_waits io wait)
      = Inr (Return (sent, st, over)) \<and> (bus_main io name handle wait steps = ExitZero sent \<longleftrightarrow> over)"
proof -
  obtain u where u: "bi_env io ''CORAL_CONNECTION_URL'' = Some u"
    using assms by (cases "bi_env io ''CORAL_CONNECTION_URL''") (auto simp: bus_main_def bus_exit_def coral_run_def)
  let ?run = "coral_run (Some u) (bi_connect io name) (bi_parse io) handle steps (bi_waits io wait)"
  have "bus_main io name handle wait steps = bus_exit ?run" by (simp add: bus_main_def u)
  then have "\<exists>st over. ?run = Inr (Return (sent, st, over)) \<and> (bus_exit ?run = ExitZero sent \<longleftrightarrow> over)"
    using assms by (auto simp: bus_exit_def split: sum.splits exec.splits prod.splits if_splits)
  then show ?thesis using \<open>bus_main io name handle wait steps = bus_exit ?run\<close> by auto
qed

section \<open>settlement-agent\<close>

definition sa_max_wait_ms :: "env \<Rightarrow> u64" where
  "sa_max_wait_ms env = env_parse env parse_u64 ''SA_MAX_WAIT_MS'' 30000"

definition agent_max_steps :: "env \<Rightarrow> u64" where
  \<comment> \<open>the same line in the settlement, trading and pundit processes\<close>
  "agent_max_steps env = env_parse env parse_u64 ''MAX_STEPS'' 100000"

definition settlement_main :: "bus_io \<Rightarrow> bus_end" where
  "settlement_main io =
     bus_main io ''settlement-agent'' (\<lambda>_. settlement_handle (bi_wager io))
       (sa_max_wait_ms (bi_env io)) (agent_max_steps (bi_env io))"

section \<open>trading-specialist\<close>

definition ts_max_wait_ms :: "env \<Rightarrow> u64" where
  "ts_max_wait_ms env = env_parse env parse_u64 ''TS_MAX_WAIT_MS'' 30000"

definition ts_max_position :: "env \<Rightarrow> f64" where
  "ts_max_position env = env_parse env parse_f64 ''TS_MAX_POSITION_SOL'' (lit (5/100))"

definition trading_main :: "bus_io \<Rightarrow> bus_end" where
  \<comment> \<open>the name on the bus is the one of the protocol, not the one of the crate\<close>
  "trading_main io =
     bus_main io ''sharp-movement-detector''
       (\<lambda>i m. Return (trading_handle (bi_signal io) (bi_uuid io i) (ts_max_position (bi_env io)) m))
       (ts_max_wait_ms (bi_env io)) (agent_max_steps (bi_env io))"

section \<open>fan-pundit-agent\<close>

definition fp_max_wait_ms :: "env \<Rightarrow> u64" where
  "fp_max_wait_ms env = env_parse env parse_u64 ''FP_MAX_WAIT_MS'' 30000"

definition fan_max_rounds :: "env \<Rightarrow> u32" where
  "fan_max_rounds env = env_parse env parse_u32 ''MAX_TOOL_ROUNDS'' 3"

definition fan_reasoning :: "bus_io \<Rightarrow> nat \<Rightarrow> (string \<Rightarrow> string \<Rightarrow> string + tool_loop_outcome) option" where
  \<comment> \<open>the reasoning pass of the process for its \<open>i\<close>-th reply, \<open>None\<close> without a configured provider\<close>
  "fan_reasoning io i = (case llm_client (bi_env io) of
     Inl _ \<Rightarrow> None
   | Inr _ \<Rightarrow> Some (\<lambda>prompt final. fst (run_tool_loop (bi_llm io i) (bi_tools io i) (bi_to_string io) (bi_from_str io)
       (\<lambda>_. ()) final (fan_max_rounds (bi_env io)) prompt ())))"

definition fan_pundit_main :: "bus_io \<Rightarrow> bus_end" where
  "fan_pundit_main io =
     bus_main io ''fan-pundit-agent'' (\<lambda>i. fan_pundit_handle (fan_reasoning io i) (bi_wager io) (bi_wager_json io))
       (fp_max_wait_ms (bi_env io)) (agent_max_steps (bi_env io))"

section \<open>proof-guard-agent\<close>

text \<open>The guard reads its limits as doubles and casts them: the cast saturates, and NaN is 0.\<close>

record guard_process =
  gp_consistency_tol :: f64
  gp_max_devnet_spend_sol :: f64
  gp_max_wait_ms :: u64
  gp_max_steps :: u64

definition guard_process_from_env :: "env \<Rightarrow> guard_process" where
  "guard_process_from_env env =
     \<lparr>gp_consistency_tol = env_parse env parse_f64 ''PG_CONSISTENCY_TOL'' (gc_consistency_tol default_config),
      gp_max_devnet_spend_sol = env_parse env parse_f64 ''PG_MAX_DEVNET_SPEND_SOL'' (gc_max_devnet_spend default_config),
      gp_max_wait_ms = f64_as_u64 (env_parse env parse_f64 ''PG_MAX_WAIT_MS'' (lit 30000)),
      gp_max_steps = f64_as_u64 (env_parse env parse_f64 ''MAX_STEPS'' (lit 100000))\<rparr>"

definition proof_guard_main :: "bus_io \<Rightarrow> bus_end" where
  "proof_guard_main io =
     (let cfg = guard_process_from_env (bi_env io) in
      bus_main io ''proof-guard-agent''
        (\<lambda>_. proof_guard_handle (bi_lower io) (bi_wager io) (bi_wager_json io)
           \<lparr>gc_consistency_tol = gp_consistency_tol cfg, gc_max_devnet_spend = gp_max_devnet_spend_sol cfg\<rparr>)
        (gp_max_wait_ms cfg) (gp_max_steps cfg))"

section \<open>What a handler says\<close>

text \<open>A reply is the verdict of its protocol, or nothing when the mention is no request of it.\<close>

definition speaks :: "string \<Rightarrow> string \<Rightarrow> string \<Rightarrow> string \<Rightarrow> bool" where
  "speaks request verdict received reply \<longleftrightarrow>
     (if wire_verb received = request then \<exists>rest. reply = verdict @ CHR '' '' # rest else reply = [])"

lemma settlement_speaks:
  "settlement_handle parse m = Return t \<Longrightarrow> speaks ''SETTLE_REQUESTED'' ''SETTLE_VERDICT'' (cm_text m) t"
  by (auto simp: settlement_handle_def settle_verdict_def speaks_def Let_def exec_map_Return_iff
    split: option.splits if_splits)

lemma trading_speaks: "speaks ''TRADE_REQUESTED'' ''TRADE_VERDICT'' (cm_text m) (trading_handle parse uuid mx m)"
  by (auto simp: trading_handle_def speaks_def split: option.splits if_splits)

lemma trading_speaks':
  "Return (trading_handle parse uuid mx m) = Return t \<Longrightarrow> speaks ''TRADE_REQUESTED'' ''TRADE_VERDICT'' (cm_text m) t"
  using trading_speaks by (simp only: exec.inject) blast

lemma pundit_speaks:
  "fan_pundit_handle run parse ser m = Return t \<Longrightarrow>
     speaks ''PUNDIT_REACT_REQUESTED'' ''PUNDIT_REACT_VERDICT'' (cm_text m) t"
  by (auto simp: fan_pundit_handle_def speaks_def Let_def exec_map_Return_iff split: option.splits if_splits)

lemma guard_speaks:
  "proof_guard_handle uni parse ser cfg m = Return t \<Longrightarrow>
     speaks ''WAGER_PROOF_REQUESTED'' ''WAGER_PROOF_VERDICT'' (cm_text m) t"
  by (auto simp: proof_guard_handle_def speaks_def Let_def exec_map_Return_iff split: option.splits if_splits)

text \<open>An empty text is never a mention, so an agent that is ignored by another does not hear of it.\<close>

lemma mention_has_text: "parse_mention parse raw = Some m \<Longrightarrow> cm_text m \<noteq> []"
  by (auto simp: parse_mention_def split: if_splits sum.splits prod.splits)

section \<open>The four processes\<close>

text \<open>Each process with its time limit, its cap, the request it answers and its verdict.\<close>

definition bus_agents :: "bus_io \<Rightarrow> (bus_end \<times> u64 \<times> u64 \<times> string \<times> string) list" where
  "bus_agents io =
     (let env = bi_env io in
      [(settlement_main io, sa_max_wait_ms env, agent_max_steps env, ''SETTLE_REQUESTED'', ''SETTLE_VERDICT''),
       (trading_main io, ts_max_wait_ms env, agent_max_steps env, ''TRADE_REQUESTED'', ''TRADE_VERDICT''),
       (fan_pundit_main io, fp_max_wait_ms env, agent_max_steps env, ''PUNDIT_REACT_REQUESTED'', ''PUNDIT_REACT_VERDICT''),
       (proof_guard_main io, gp_max_wait_ms (guard_process_from_env env), gp_max_steps (guard_process_from_env env),
        ''WAGER_PROOF_REQUESTED'', ''WAGER_PROOF_VERDICT'')])"

definition heard :: "bus_io \<Rightarrow> u64 \<Rightarrow> coral_mention list" where
  \<comment> \<open>the mentions with a thread that the waiting tool yields at the time limit\<close>
  "heard io max_wait_ms = threaded (map (wait_for_mention (bi_parse io)) (bi_waits io max_wait_ms))"

definition is_verb :: "string \<Rightarrow> bool" where
  "is_verb v \<longleftrightarrow> list_all word_char v \<and> v \<noteq> [] \<and> to_ascii_uppercase v = v"

lemma bus_agents_all:
  "list_all (\<lambda>(p, wait, steps, request, verdict).
     (\<exists>name handle. p = bus_main io name handle wait steps \<and>
        (\<forall>i m t. handle i m = Return t \<longrightarrow> speaks request verdict (cm_text m) t)) \<and>
     is_verb verdict) (bus_agents io)"
proof -
  have verbs: "is_verb v"
    if "v = ''SETTLE_VERDICT'' \<or> v = ''TRADE_VERDICT'' \<or> v = ''PUNDIT_REACT_VERDICT'' \<or> v = ''WAGER_PROOF_VERDICT''" for v
    using that by (elim disjE; simp only:; code_simp)
  have ex: "\<exists>name handle. bus_main io n h wait steps = bus_main io name handle wait steps \<and>
        (\<forall>i m t. handle i m = Return t \<longrightarrow> speaks request verdict (cm_text m) t)"
    if "\<And>i m t. h i m = Return t \<Longrightarrow> speaks request verdict (cm_text m) t" for n h wait steps request verdict
    using that by blast
  show ?thesis
    unfolding bus_agents_def Let_def settlement_main_def trading_main_def fan_pundit_main_def proof_guard_main_def
      list.pred_inject prod.case
    by (intro verbs ex conjI list.pred_inject(1); (erule settlement_speaks pundit_speaks guard_speaks trading_speaks' | simp only: refl simp_thms))
qed

lemma bus_agents_handlers:
  assumes "(p, wait, steps, request, verdict) \<in> set (bus_agents io)"
  shows "\<exists>name handle. p = bus_main io name handle wait steps \<and>
    (\<forall>i m t. handle i m = Return t \<longrightarrow> speaks request verdict (cm_text m) t)"
  using bus_agents_all [of io] assms unfolding list_all_iff by fast

lemma verdict_verbs:
  assumes "(p, wait, steps, request, verdict) \<in> set (bus_agents io)"
  shows "wire_verb (verdict @ CHR '' '' # rest) = verdict"
proof -
  have "is_verb verdict" using bus_agents_all [of io] assms unfolding list_all_iff by fast
  then show ?thesis using wire_verb_word [of verdict rest] by (simp add: is_verb_def)
qed

section \<open>Limits and panics\<close>

text \<open>
  The manifests declare the cap as a double. Given with a fraction it is read by the guard only:
  the other processes parse an integer, fail, and run with their default of 100000.
\<close>

lemma fractional_cap_ignored:
  assumes "env ''MAX_STEPS'' = Some ''50.0''"
  shows "agent_max_steps env = 100000" and "gp_max_steps (guard_process_from_env env) = 50"
proof -
  have "parse_u64 ''50.0'' = None" by code_simp
  then show "agent_max_steps env = 100000" using assms by (simp add: agent_max_steps_def env_parse_def)
  have "parse_f64 ''50.0'' = Some (lit 50)" by code_simp
  moreover have "f64_as_u64 (lit 50) = 50" by code_simp
  ultimately show "gp_max_steps (guard_process_from_env env) = 50"
    using assms by (simp add: guard_process_from_env_def env_parse_def)
qed

lemma bus_main_not_aborted:
  assumes "\<And>i m. handle i m \<noteq> Panic"
  shows "bus_main io name handle wait steps \<noteq> Aborted"
  using serve_total [OF assms]
  by (auto simp: bus_main_def bus_exit_def coral_run_def split: option.splits sum.splits exec.splits prod.splits)

lemma fan_pundit_not_panic: "fan_pundit_handle run parse ser m \<noteq> Panic"
proof -
  have "fclamp x (lit (1/100)) (lit (99/100)) \<noteq> Panic" for x
    by (simp add: fclamp_Panic_iff) code_simp
  then have "fan_nudge w v \<noteq> Panic" for w v
    by (simp add: fan_nudge_def exec_map_Panic_iff)
  then show ?thesis by (simp add: fan_pundit_handle_def Let_def exec_map_Panic_iff split: option.splits)
qed

text \<open>The trading and the pundit process cannot panic on any input; the other two can (see \<open>Proof_Guard\<close>).\<close>

lemma trading_and_pundit_never_abort: "trading_main io \<noteq> Aborted" "fan_pundit_main io \<noteq> Aborted"
  unfolding trading_main_def fan_pundit_main_def
  by (rule bus_main_not_aborted, simp add: fan_pundit_not_panic)+

section \<open>Properties\<close>

text \<open>
  C10: a specialist process only ever speaks its own protocol. Whatever its environment, the network
  and the model do, a process that has not failed has answered exactly the first mentions it heard,
  in order and at most as many as its step cap: each in the thread of the mention with the sender
  mentioned, a request of its protocol with its own verdict, and any other text with nothing. It has
  returned exactly when it heard more mentions than the cap.
\<close>
theorem bus_agents_speak_protocol:
  assumes "(p, wait, steps, request, verdict) \<in> set (bus_agents io)"
    and "p = ExitZero sent \<or> p = Serving sent" and "steps \<noteq> - 1"
  shows "length sent = min (unat steps) (length (heard io wait)) \<and>
    (p = ExitZero sent \<longleftrightarrow> unat steps < length (heard io wait)) \<and>
    (\<forall>i < length sent. cm_thread_id (heard io wait ! i) = Some (rp_thread (sent ! i)) \<and>
       rp_mentions (sent ! i) = (case cm_sender (heard io wait ! i) of None \<Rightarrow> [] | Some s \<Rightarrow> [s]) \<and>
       (if wire_verb (cm_text (heard io wait ! i)) = request
        then wire_verb (rp_text (sent ! i)) = verdict else rp_text (sent ! i) = []))"
proof -
  obtain name handle where p: "p = bus_main io name handle wait steps"
    and sp: "\<And>i m t. handle i m = Return t \<Longrightarrow> speaks request verdict (cm_text m) t"
    using bus_agents_handlers [OF assms(1)] by blast
  obtain u st over where run: "coral_run (Some u) (bi_connect io name) (bi_parse io) handle steps (bi_waits io wait)
      = Inr (Return (sent, st, over))" and over: "p = ExitZero sent \<longleftrightarrow> over"
    using bus_main_ran [of io name handle wait steps sent] assms(2) p by auto
  note facts = agent_replies_in_order [OF run assms(3), folded heard_def]
  have "if wire_verb (cm_text (heard io wait ! i)) = request
      then wire_verb (rp_text (sent ! i)) = verdict else rp_text (sent ! i) = []" if "i < length sent" for i
    using facts(3) [OF that] sp verdict_verbs [OF assms(1)] by (fastforce simp: replies_to_def speaks_def)
  then show ?thesis using facts over by (simp add: replies_to_def)
qed

text \<open>A trading process with a cap of one that hears a malformed request and then a greeting.\<close>

definition sample_bus :: bus_io where
  "sample_bus =
     \<lparr>bi_env = (\<lambda>k. if k = ''CORAL_CONNECTION_URL'' then Some ''url'' else if k = ''MAX_STEPS'' then Some ''1'' else None),
      bi_connect = (\<lambda>_ _. None), bi_parse = Coral_Agents.sample_parse,
      bi_waits = (\<lambda>_. [McpContent [Some ''TRADE_REQUESTED signal={}''], McpContent [Some ''hello'']]),
      bi_wager = (\<lambda>_. None), bi_wager_json = (\<lambda>_. ''{}''), bi_signal = (\<lambda>_. None), bi_lower = (\<lambda>s. s),
      bi_uuid = (\<lambda>_. ''id''), bi_llm = (\<lambda>_ _ _. RequestFailed ''down''), bi_tools = (\<lambda>_ _ _. Inl ''none''),
      bi_to_string = (\<lambda>_. ''{}''), bi_from_str = (\<lambda>_. None)\<rparr>"

definition sample_reply :: reply_sent where
  "sample_reply = \<lparr>rp_text = ''TRADE_VERDICT status=declined reason='' @ dquote @
     ''malformed delegation: no signal payload'' @ dquote @ '' positionId=none sizeSol=0.0'',
     rp_thread = ''th'', rp_mentions = [''desk'']\<rparr>"

lemma sample_bus_hears:
  "wait_for_mention Coral_Agents.sample_parse (McpContent [Some ''TRADE_REQUESTED signal={}'']) =
     Mention \<lparr>cm_thread_id = Some ''th'', cm_sender = Some ''desk'', cm_text = ''TRADE_REQUESTED signal={}''\<rparr>"
  "wait_for_mention Coral_Agents.sample_parse (McpContent [Some ''hello'']) =
     Mention \<lparr>cm_thread_id = Some ''th'', cm_sender = Some ''desk'', cm_text = ''hello''\<rparr>"
  subgoal by code_simp
  subgoal by code_simp
  done

lemma sample_bus_says:
  "trading_handle (\<lambda>_. None) ''id'' mx \<lparr>cm_thread_id = Some ''th'', cm_sender = Some ''desk'',
     cm_text = ''TRADE_REQUESTED signal={}''\<rparr> = rp_text sample_reply"
proof -
  have "list_all word_char ''TRADE_REQUESTED''" "to_ascii_uppercase ''TRADE_REQUESTED'' = ''TRADE_REQUESTED''"
    by code_simp+
  then have "wire_verb ''TRADE_REQUESTED signal={}'' = ''TRADE_REQUESTED''"
    using wire_verb_word [of "''TRADE_REQUESTED''" "''signal={}''"] by simp
  then show ?thesis by (simp add: trading_handle_def sample_reply_def split: option.splits)
qed

lemma sample_bus_limits: "ts_max_wait_ms (bi_env sample_bus) = 30000" "agent_max_steps (bi_env sample_bus) = 1"
proof -
  have "parse_u64 ''1'' = Some 1" by code_simp
  then show "ts_max_wait_ms (bi_env sample_bus) = 30000" "agent_max_steps (bi_env sample_bus) = 1"
    by (simp_all add: ts_max_wait_ms_def agent_max_steps_def env_parse_def sample_bus_def)
qed

lemma sample_bus_heard: "length (heard sample_bus w) = 2"
  by (simp add: heard_def sample_bus_def sample_bus_hears threaded_def List.map_filter_simps)

lemma sample_bus_replies: "trading_main sample_bus = ExitZero [sample_reply]"
proof -
  let ?steps = "\<lparr>stc_max = 1, stc_steps = 0\<rparr>"
  have "tick ?steps = (Inr (), \<lparr>stc_max = 1, stc_steps = 1\<rparr>)"
    and "\<exists>e st. tick \<lparr>stc_max = 1, stc_steps = 1\<rparr> = (Inl e, st)"
    by (simp_all add: tick_def)
  moreover have "\<lparr>rp_text = rp_text sample_reply, rp_thread = ''th'', rp_mentions = [''desk'']\<rparr> = sample_reply"
    by (simp add: sample_reply_def)
  ultimately show ?thesis
    unfolding trading_main_def bus_main_def sample_bus_limits coral_run_def stc_new_def bus_exit_def
    by (auto simp: sample_bus_def sample_bus_hears sample_bus_says)
qed

lemma sample_bus_agent:
  "(trading_main sample_bus, 30000, 1, ''TRADE_REQUESTED'', ''TRADE_VERDICT'') \<in> set (bus_agents sample_bus)"
  by (simp add: bus_agents_def Let_def sample_bus_limits)

theorem bus_agents_speak_protocol_witness:
  "trading_main sample_bus = ExitZero [sample_reply] \<and> unat (1 :: u64) < length (heard sample_bus 30000) \<and>
   length [sample_reply] = min (unat (1 :: u64)) (length (heard sample_bus 30000))"
  using bus_agents_speak_protocol [OF sample_bus_agent, of "[sample_reply]"]
    sample_bus_replies sample_bus_heard by simp

end
